(* ===== verification/Prelude.thy ===== *)
theory Prelude
  imports Main "HOL-Library.Word" "HOL-Library.AList" "HOL-Library.Char_ord"
    "HOL-Library.List_Lexorder" "HOL-Library.Sublist" "HOL-Library.Monad_Syntax"
begin

text \<open>
  Shared vocabulary of the development: Go strings as byte lists with the functions of the
  packages \<open>strings\<close> and \<open>strconv\<close> the program calls, Go maps as association lists with
  distinct keys (the list order stands for one iteration order of \<open>range\<close>), instants of
  \<open>time.Time\<close>, and the lemma collections that the component theories extend.
\<close>

named_theorems registry_simps \<open>reading a map after one of its operations\<close>
named_theorems pm_simps \<open>projections of the daemon state after one operation\<close>
named_theorems inv_intros \<open>preservation of an invariant by one operation\<close>

section \<open>Instants\<close>

text \<open>
  A \<open>time.Time\<close> is a number of nanoseconds since Go's zero time, so \<open>IsZero\<close> is the
  comparison with 0. A \<open>time.Duration\<close> is an \<open>int\<close> of nanoseconds.
\<close>

datatype gotime = GoTime (nanos: int)

type_synonym duration = int

instantiation gotime :: linorder
begin

definition less_eq_gotime :: "gotime \<Rightarrow> gotime \<Rightarrow> bool" where
  "less_eq_gotime a b \<longleftrightarrow> nanos a \<le> nanos b"

definition less_gotime :: "gotime \<Rightarrow> gotime \<Rightarrow> bool" where
  "less_gotime a b \<longleftrightarrow> nanos a < nanos b"

instance
proof
  fix x y z :: gotime
  show "(x < y) = (x \<le> y \<and> \<not> y \<le> x)" by (auto simp: less_eq_gotime_def less_gotime_def)
  show "x \<le> x" by (simp add: less_eq_gotime_def)
  show "x \<le> y \<Longrightarrow> y \<le> z \<Longrightarrow> x \<le> z" by (simp add: less_eq_gotime_def)
  show "x \<le> y \<Longrightarrow> y \<le> x \<Longrightarrow> x = y" by (cases x; cases y) (simp add: less_eq_gotime_def)
  show "x \<le> y \<or> y \<le> x" by (auto simp: less_eq_gotime_def)
qed

end

definition zero_time :: gotime where
  "zero_time = GoTime 0"

definition is_zero_time :: "gotime \<Rightarrow> bool" where
  "is_zero_time t \<longleftrightarrow> t = zero_time"

text \<open>\<open>end.Sub(start).Milliseconds()\<close>; it is only called with \<open>start\<close> not after \<open>end\<close>.\<close>

definition sub_ms :: "gotime \<Rightarrow> gotime \<Rightarrow> int" where
  "sub_ms e s = (nanos e - nanos s) div 1000000"

section \<open>Go strings\<close>

definition str_join :: "string \<Rightarrow> string list \<Rightarrow> string" where
  "str_join sep xs = (case xs of [] \<Rightarrow> [] | y # ys \<Rightarrow> y @ concat (map (\<lambda>s. sep @ s) ys))"

fun str_split :: "char \<Rightarrow> string \<Rightarrow> string list" where
  "str_split c [] = [[]]"
| "str_split c (x # xs) =
     (if x = c then [] # str_split c xs
      else (case str_split c xs of [] \<Rightarrow> [[x]] | p # ps \<Rightarrow> (x # p) # ps))"

fun str_index :: "char \<Rightarrow> string \<Rightarrow> nat option" where
  "str_index c [] = None"
| "str_index c (x # xs) = (if x = c then Some 0 else map_option Suc (str_index c xs))"

fun str_last_index :: "char \<Rightarrow> string \<Rightarrow> nat option" where
  "str_last_index c [] = None"
| "str_last_index c (x # xs) =
     (case str_last_index c xs of
        Some i \<Rightarrow> Some (Suc i)
      | None \<Rightarrow> if x = c then Some 0 else None)"

definition trim_suffix :: "string \<Rightarrow> string \<Rightarrow> string" where
  "trim_suffix s suf = (if suffix suf s then take (length s - length suf) s else s)"

text \<open>
  \<open>strings.ToLower\<close> on the ASCII letters; every other byte is left alone, so for a name
  with non-ASCII letters the model is exact only up to Unicode case folding.
\<close>

definition lower_char :: "char \<Rightarrow> char" where
  "lower_char c =
     (let n = of_char c :: nat in if 65 \<le> n \<and> n \<le> 90 then char_of (n + 32) else c)"

definition to_lower :: "string \<Rightarrow> string" where
  "to_lower s = map lower_char s"

text \<open>The ASCII characters \<open>unicode.IsSpace\<close> accepts.\<close>

definition is_space :: "char \<Rightarrow> bool" where
  "is_space c \<longleftrightarrow> (let n = of_char c :: nat in 9 \<le> n \<and> n \<le> 13 \<or> n = 32)"

definition is_digit :: "char \<Rightarrow> bool" where
  "is_digit c \<longleftrightarrow> (let n = of_char c :: nat in 48 \<le> n \<and> n \<le> 57)"

definition digit_val :: "char \<Rightarrow> nat" where
  "digit_val c = of_char c - 48"

fun nat_digits :: "nat \<Rightarrow> string" where
  "nat_digits n =
     (if n < 10 then [char_of (48 + n)] else nat_digits (n div 10) @ [char_of (48 + n mod 10)])"

declare nat_digits.simps [simp del]

definition itoa :: "int \<Rightarrow> string" where
  "itoa i = (if i < 0 then CHR ''-'' # nat_digits (nat (- i)) else nat_digits (nat i))"

definition digits_val :: "string \<Rightarrow> nat" where
  "digits_val s = foldl (\<lambda>acc c. 10 * acc + digit_val c) 0 s"

text \<open>\<open>strconv.Atoi\<close> on a 64-bit platform: an optional sign, digits, in range.\<close>

definition int64_ok :: "int \<Rightarrow> bool" where
  "int64_ok i \<longleftrightarrow> - (2 ^ 63) \<le> i \<and> i < 2 ^ 63"

definition atoi :: "string \<Rightarrow> int option" where
  "atoi s =
     (let (neg, body) =
        (case s of [] \<Rightarrow> (False, [])
         | c # cs \<Rightarrow> if c = CHR ''-'' then (True, cs)
                     else if c = CHR ''+'' then (False, cs) else (False, s));
        v = int (digits_val body); i = (if neg then - v else v)
      in if body \<noteq> [] \<and> list_all is_digit body \<and> int64_ok i then Some i else None)"

subsection \<open>Laws of the string functions\<close>

lemma find_SomeD: "find P xs = Some x \<Longrightarrow> x \<in> set xs \<and> P x"
  by (induction xs) (auto split: if_splits)

lemma str_split_not_Nil [simp]: "str_split c s \<noteq> []"
  by (induction s) (auto split: list.splits)

lemma str_join_Cons:
  "xs \<noteq> [] \<Longrightarrow> str_join sep (x # xs) = x @ sep @ str_join sep xs"
  by (cases xs) (auto simp: str_join_def)

lemma str_join_single [simp]: "str_join sep [x] = x"
  by (simp add: str_join_def)

lemma str_join_split: "str_join [c] (str_split c s) = s"
proof (induction s)
  case Nil
  then show ?case by simp
next
  case (Cons x xs)
  show ?case
  proof (cases "str_split c xs")
    case Nil
    then show ?thesis by simp
  next
    case (Cons p ps)
    then have "str_join [c] (p # ps) = xs" using Cons.IH by simp
    with Cons show ?thesis
      by (cases ps) (auto simp: str_join_def)
  qed
qed

lemma str_split_no_sep: "c \<notin> set s \<Longrightarrow> str_split c s = [s]"
  by (induction s) auto

lemma str_split_append_sep:
  "c \<notin> set s \<Longrightarrow> str_split c (s @ c # t) = s # str_split c t"
  by (induction s) auto

lemma str_split_append: "str_split c (s @ c # t) = str_split c s @ str_split c t"
proof (induction s)
  case (Cons x xs)
  then show ?case by (cases "str_split c xs") auto
qed simp

lemma str_split_members: "p \<in> set (str_split c s) \<Longrightarrow> c \<notin> set p"
proof (induction s arbitrary: p)
  case Nil
  then show ?case by simp
next
  case (Cons x xs)
  then show ?case by (cases "str_split c xs") (auto split: if_splits)
qed

lemma str_index_None [simp]: "str_index c s = None \<longleftrightarrow> c \<notin> set s"
  by (induction s) auto

lemma str_index_append: "c \<notin> set s \<Longrightarrow> str_index c (s @ c # t) = Some (length s)"
  by (induction s) auto

lemma str_index_SomeD:
  "str_index c s = Some i \<Longrightarrow> i < length s \<and> s ! i = c \<and> c \<notin> set (take i s)"
  by (induction s arbitrary: i) (auto split: if_splits)

lemma str_last_index_None [simp]: "str_last_index c s = None \<longleftrightarrow> c \<notin> set s"
  by (induction s) (auto split: option.splits)

lemma str_last_index_append:
  "c \<notin> set t \<Longrightarrow> str_last_index c (s @ c # t) = Some (length s)"
proof (induction s)
  case Nil
  then have "str_last_index c t = None" by simp
  then show ?case by (simp del: str_last_index_None)
next
  case (Cons x xs)
  then show ?case by simp
qed

lemma trim_suffix_append [simp]: "trim_suffix (s @ t) t = s"
  by (simp add: trim_suffix_def suffix_def)

lemma nat_digits_not_Nil [simp]: "nat_digits n \<noteq> []"
  by (subst nat_digits.simps) simp

lemma of_char_add_digit [simp]:
  "d < 10 \<Longrightarrow> of_char (char_of (48 + d) :: char) = (48 + d :: nat)"
  by (simp add: of_char_of)

lemma is_digit_char_of [simp]: "d < 10 \<Longrightarrow> is_digit (char_of (48 + d :: nat))"
  by (simp add: is_digit_def Let_def of_char_of)

lemma nat_digits_are_digits: "list_all is_digit (nat_digits n)"
proof (induction n rule: nat_digits.induct)
  case (1 n)
  then show ?case
    by (subst nat_digits.simps) auto
qed

lemma digits_val_snoc [simp]: "digits_val (s @ [c]) = 10 * digits_val s + digit_val c"
  by (simp add: digits_val_def)

lemma digits_val_nat_digits [simp]: "digits_val (nat_digits n) = n"
proof (induction n rule: nat_digits.induct)
  case (1 n)
  show ?case
  proof (cases "n < 10")
    case True
    then show ?thesis
      by (subst nat_digits.simps) (simp add: digits_val_def digit_val_def of_char_of)
  next
    case False
    have "digits_val (nat_digits n) =
        10 * digits_val (nat_digits (n div 10)) + digit_val (char_of (48 + n mod 10))"
      using False by (subst nat_digits.simps) simp
    also have "\<dots> = 10 * (n div 10) + n mod 10"
      using False "1.IH" by (simp add: digit_val_def of_char_of)
    finally show ?thesis by simp
  qed
qed

lemma nat_digits_inject [simp]: "nat_digits m = nat_digits n \<longleftrightarrow> m = n"
  by (metis digits_val_nat_digits)

lemma not_digit_notin_nat_digits: "\<not> is_digit c \<Longrightarrow> c \<notin> set (nat_digits n)"
  using nat_digits_are_digits [of n] by (auto simp: list_all_iff)

lemma itoa_inject [simp]: "itoa i = itoa j \<longleftrightarrow> i = j"
proof -
  have minus: "CHR ''-'' \<notin> set (nat_digits n)" for n
    by (rule not_digit_notin_nat_digits) (simp add: is_digit_def)
  have "CHR ''-'' # u \<noteq> nat_digits n" for u n
    using minus [of n] by (metis list.set_intros(1))
  then show ?thesis
    unfolding itoa_def by (auto dest: sym)
qed

lemma atoi_itoa: "int64_ok i \<Longrightarrow> atoi (itoa i) = Some i"
proof -
  assume ok: "int64_ok i"
  have d: "list_all is_digit (nat_digits n)" for n by (rule nat_digits_are_digits)
  show ?thesis
  proof (cases "i < 0")
    case True
    with ok d show ?thesis by (simp add: atoi_def itoa_def)
  next
    case False
    obtain c cs where cs: "nat_digits (nat i) = c # cs"
      by (cases "nat_digits (nat i)") auto
    have "c \<noteq> CHR ''-''" "c \<noteq> CHR ''+''"
      using d [of "nat i"] by (auto simp: cs is_digit_def)
    moreover have "digits_val (c # cs) = nat i"
      using digits_val_nat_digits [of "nat i"] by (simp only: cs)
    ultimately show ?thesis
      using False ok d [of "nat i"] by (simp add: atoi_def itoa_def cs)
  qed
qed

section \<open>Go maps\<close>

text \<open>
  A Go \<open>map[string]V\<close> is an association list with distinct keys. A write keeps the
  position of an existing key and appends a new one; a \<open>range\<close> visits the entries in list
  order. Go leaves that order open, so a statement for every list with the same
  \<open>map_of\<close> is a statement for every iteration order.
\<close>

type_synonym 'v gomap = "(string \<times> 'v) list"

definition gm_ok :: "'v gomap \<Rightarrow> bool" where
  "gm_ok m \<longleftrightarrow> distinct (map fst m)"

definition gm_get :: "'v gomap \<Rightarrow> string \<Rightarrow> 'v option" where
  "gm_get m k = map_of m k"

definition gm_set :: "string \<Rightarrow> 'v \<Rightarrow> 'v gomap \<Rightarrow> 'v gomap" where
  "gm_set k v m = AList.update k v m"

definition gm_del :: "string \<Rightarrow> 'v gomap \<Rightarrow> 'v gomap" where
  "gm_del k m = AList.delete k m"

definition gm_keys :: "'v gomap \<Rightarrow> string list" where
  "gm_keys m = map fst m"

definition gm_vals :: "'v gomap \<Rightarrow> 'v list" where
  "gm_vals m = map snd m"

lemma gm_ok_Nil [simp]: "gm_ok []"
  by (simp add: gm_ok_def)

lemma gm_ok_set [simp]: "gm_ok m \<Longrightarrow> gm_ok (gm_set k v m)"
  by (simp add: gm_ok_def gm_set_def distinct_update)

lemma gm_ok_del [simp]: "gm_ok m \<Longrightarrow> gm_ok (gm_del k m)"
  by (simp add: gm_ok_def gm_del_def distinct_delete)

lemma gm_get_Nil [registry_simps, simp]: "gm_get [] k = None"
  by (simp add: gm_get_def)

lemma gm_get_set [registry_simps]:
  "gm_get (gm_set k v m) k' = (if k' = k then Some v else gm_get m k')"
  by (simp add: gm_get_def gm_set_def update_conv')

lemma gm_get_del [registry_simps]:
  "gm_get (gm_del k m) k' = (if k' = k then None else gm_get m k')"
  by (simp add: gm_get_def gm_del_def delete_conv')

lemma gm_get_in_set: "gm_ok m \<Longrightarrow> gm_get m k = Some v \<longleftrightarrow> (k, v) \<in> set m"
  by (simp add: gm_get_def gm_ok_def map_of_eq_Some_iff)

lemma gm_get_SomeD: "gm_get m k = Some v \<Longrightarrow> (k, v) \<in> set m"
  by (simp add: gm_get_def map_of_SomeD)

lemma gm_keys_get: "k \<in> set (gm_keys m) \<longleftrightarrow> gm_get m k \<noteq> None"
  by (auto simp: gm_keys_def gm_get_def map_of_eq_None_iff)

lemma gm_vals_get: "gm_ok m \<Longrightarrow> v \<in> set (gm_vals m) \<longleftrightarrow> (\<exists>k. gm_get m k = Some v)"
  by (force simp: gm_vals_def gm_get_in_set)

lemma gm_keys_set: "set (gm_keys (gm_set k v m)) = insert k (set (gm_keys m))"
  by (auto simp: gm_keys_get registry_simps split: if_splits)

lemma gm_keys_del: "set (gm_keys (gm_del k m)) = set (gm_keys m) - {k}"
  by (auto simp: gm_keys_get registry_simps split: if_splits)

lemma distinct_gm_keys: "gm_ok m \<Longrightarrow> distinct (gm_keys m)"
  by (simp add: gm_ok_def gm_keys_def)

lemma length_gm_del:
  "gm_ok m \<Longrightarrow> gm_get m k \<noteq> None \<Longrightarrow> length (gm_del k m) = length m - 1"
proof -
  assume ok: "gm_ok m" and some: "gm_get m k \<noteq> None"
  have "length (gm_del k m) = card (set (gm_keys (gm_del k m)))"
    using distinct_card [OF distinct_gm_keys [OF gm_ok_del [OF ok, of k]]]
    by (simp add: gm_keys_def)
  also have "\<dots> = card (set (gm_keys m)) - 1"
    using some by (simp add: gm_keys_del gm_keys_get)
  also have "card (set (gm_keys m)) = length m"
    using distinct_card [OF distinct_gm_keys [OF ok]] by (simp add: gm_keys_def)
  finally show ?thesis .
qed

lemma length_gm_set_new:
  "gm_get m k = None \<Longrightarrow> length (gm_set k v m) = Suc (length m)"
  by (induction m) (auto simp: gm_get_def gm_set_def split: if_splits)

section \<open>Sorted keys\<close>

text \<open>\<open>sort.Strings\<close> is bytewise lexicographic, the order of \<open>HOL-Library.List_Lexorder\<close>.\<close>

definition sorted_keys :: "'v gomap \<Rightarrow> string list" where
  "sorted_keys m = sort (gm_keys m)"

lemma set_sorted_keys [simp]: "set (sorted_keys m) = set (gm_keys m)"
  by (simp add: sorted_keys_def)

lemma distinct_sorted_keys [simp]: "gm_ok m \<Longrightarrow> distinct (sorted_keys m)"
  by (simp add: sorted_keys_def distinct_gm_keys)

lemma sorted_keys_cong:
  assumes "gm_ok m" "gm_ok m'" "\<And>k. gm_get m k = gm_get m' k"
  shows "sorted_keys m = sorted_keys m'"
proof -
  have "set (gm_keys m) = set (gm_keys m')"
    using assms(3) by (auto simp: gm_keys_get)
  then have "sorted_keys m = sorted_list_of_set (set (gm_keys m'))"
    "sorted_keys m' = sorted_list_of_set (set (gm_keys m'))"
    using assms(1,2) distinct_gm_keys sorted_list_of_set_sort_remdups
    by (metis sorted_keys_def distinct_remdups_id)+
  then show ?thesis by simp
qed

end
