(* ===== verification/Process_Types.thy ===== *)
theory Process_Types
  imports Prelude Complex_Main
begin

text \<open>
  The package \<open>process\<close>: the static configuration \<open>AppConfig\<close> with its defaults, the
  runtime view \<open>ProcessInfo\<close>, the log paths derived from a task name, the resolution of
  script paths, and the cell formatters. The functions of \<open>path/filepath\<close> it calls are
  defined for Unix paths. \<open>float64\<close> values are exact rationals.
\<close>

section \<open>Unix paths (path/filepath)\<close>

definition is_abs :: "string \<Rightarrow> bool" where
  "is_abs p \<longleftrightarrow> prefix ''/'' p"

fun clean_comps :: "bool \<Rightarrow> string list \<Rightarrow> string list \<Rightarrow> string list" where
  "clean_comps rooted out [] = rev out"
| "clean_comps rooted out (c # cs) =
     (if c = '''' \<or> c = ''.'' then clean_comps rooted out cs
      else if c = ''..'' then
        (case out of
           [] \<Rightarrow> if rooted then clean_comps rooted [] cs else clean_comps rooted [''..''] cs
         | t # ts \<Rightarrow> if t = ''..'' then clean_comps rooted (''..'' # out) cs
                     else clean_comps rooted ts cs)
      else clean_comps rooted (c # out) cs)"

definition path_clean :: "string \<Rightarrow> string" where
  "path_clean p =
     (let body = str_join ''/'' (clean_comps (is_abs p) [] (str_split CHR ''/'' p))
      in if is_abs p then ''/'' @ body else if body = '''' then ''.'' else body)"

definition path_join :: "string list \<Rightarrow> string" where
  "path_join es =
     (case dropWhile (\<lambda>e. e = '''') es of [] \<Rightarrow> '''' | xs \<Rightarrow> path_clean (str_join ''/'' xs))"

definition path_base :: "string \<Rightarrow> string" where
  "path_base p =
     (if p = '''' then ''.''
      else let q = rev (dropWhile (\<lambda>c. c = CHR ''/'') (rev p))
           in if q = '''' then ''/''
              else (case str_last_index CHR ''/'' q of None \<Rightarrow> q | Some i \<Rightarrow> drop (Suc i) q))"

definition path_ext :: "string \<Rightarrow> string" where
  "path_ext p =
     (let tl = rev (takeWhile (\<lambda>c. c \<noteq> CHR ''/'') (rev p))
      in case str_last_index CHR ''.'' tl of None \<Rightarrow> '''' | Some i \<Rightarrow> drop i tl)"

definition path_dir :: "string \<Rightarrow> string" where
  "path_dir p =
     path_clean (case str_last_index CHR ''/'' p of None \<Rightarrow> '''' | Some i \<Rightarrow> take (Suc i) p)"

text \<open>What the operating system answers, a parameter of every function that asks it.\<close>

record os_env =
  os_exists :: "string \<Rightarrow> bool"
  os_lookpath :: "string \<Rightarrow> string option"
  os_getwd :: "string option"

definition path_abs :: "os_env \<Rightarrow> string \<Rightarrow> string option" where
  "path_abs env p =
     (if is_abs p then Some (path_clean p)
      else map_option (\<lambda>wd. path_join [wd, p]) (os_getwd env))"

section \<open>Defaults and log paths (process/defaults.go, process/path.go)\<close>

definition DefaultNamespace :: string where
  "DefaultNamespace = ''default''"

definition DefaultInstances :: int where
  "DefaultInstances = 1"

definition DefaultMaxRestarts :: int where
  "DefaultMaxRestarts = 15"

definition NormalizeName :: "string \<Rightarrow> string" where
  "NormalizeName name = to_lower (map (\<lambda>c. if c = CHR '' '' then CHR ''-'' else c) name)"

definition TaskLogsDir :: "string \<Rightarrow> string" where
  "TaskLogsDir home = path_join [home, ''tasks'', ''logs'']"

definition TaskLogPath :: "string \<Rightarrow> string \<Rightarrow> string" where
  "TaskLogPath home name = path_join [TaskLogsDir home, NormalizeName name @ ''.log'']"

definition TaskErrPath :: "string \<Rightarrow> string \<Rightarrow> string" where
  "TaskErrPath home name = path_join [TaskLogsDir home, NormalizeName name @ ''.err'']"

definition ResolveScriptPath :: "os_env \<Rightarrow> string \<Rightarrow> string \<Rightarrow> string" where
  "ResolveScriptPath env baseDir script =
     (if script = '''' \<or> is_abs script then script
      else if path_base script \<noteq> script \<or> CHR ''/'' \<in> set script then path_join [baseDir, script]
      else if os_exists env (path_join [baseDir, script]) then path_join [baseDir, script]
      else (case os_lookpath env script of
              Some lookPath \<Rightarrow>
                (case path_abs env lookPath of Some absPath \<Rightarrow> absPath | None \<Rightarrow> lookPath)
            | None \<Rightarrow> script))"

section \<open>AppConfig (process/app\_config.go)\<close>

record app_config =
  ac_Namespace :: string
  ac_Name :: string
  ac_Script :: string
  ac_Args :: "string list"
  ac_Instances :: int
  ac_Env :: "string gomap"
  ac_CronRestart :: string
  ac_Cron :: string
  ac_Watch :: bool
  ac_MaxRestarts :: int
  ac_Version :: string
  ac_ConfigFile :: string
  ac_CWD :: string
  ac_BaseEnv :: "string list"
  ac_Paused :: bool
  ac_Optional :: bool

definition empty_app_config :: app_config where
  "empty_app_config =
     \<lparr>ac_Namespace = '''', ac_Name = '''', ac_Script = '''', ac_Args = [], ac_Instances = 0,
      ac_Env = [], ac_CronRestart = '''', ac_Cron = '''', ac_Watch = False, ac_MaxRestarts = 0,
      ac_Version = '''', ac_ConfigFile = '''', ac_CWD = '''', ac_BaseEnv = [],
      ac_Paused = False, ac_Optional = False\<rparr>"

definition script_stem :: "string \<Rightarrow> string" where
  "script_stem script = trim_suffix (path_base script) (path_ext (path_base script))"

text \<open>Every assignment of \<open>Normalize\<close> writes its own field; \<open>Name\<close> reads the script as declared.\<close>

definition AppConfig_Normalize :: "os_env \<Rightarrow> string \<Rightarrow> app_config \<Rightarrow> app_config" where
  "AppConfig_Normalize env baseDir a =
     a\<lparr>ac_Instances := (if ac_Instances a \<le> 0 then DefaultInstances else ac_Instances a),
       ac_MaxRestarts := (if ac_MaxRestarts a \<le> 0 then DefaultMaxRestarts else ac_MaxRestarts a),
       ac_Namespace := (if ac_Namespace a = '''' then DefaultNamespace else ac_Namespace a),
       ac_Name := (if ac_Name a = '''' \<and> ac_Script a \<noteq> ''''
                   then script_stem (ac_Script a) else ac_Name a),
       ac_ConfigFile :=
         (if ac_ConfigFile a = ''''
          then (case os_getwd env of
                  Some cwd \<Rightarrow> path_join [cwd, ''ecosystem.config.js'']
                | None \<Rightarrow> ''ecosystem.config.js'')
          else ac_ConfigFile a),
       ac_CWD := (if ac_CWD a = '''' \<and> baseDir \<noteq> '''' then baseDir else ac_CWD a),
       ac_Script := (if baseDir \<noteq> '''' then ResolveScriptPath env baseDir (ac_Script a)
                     else ac_Script a)\<rparr>"

section \<open>Status, ProcessInfo, DaemonInfo (process/status.go, process\_info.go, daemon\_info.go)\<close>

text \<open>\<open>StatusUnset\<close> is the zero value of the string type, the empty string.\<close>

datatype status =
    StatusUnset | StatusOnline | StatusStopped | StatusStopping | StatusErrored | StatusLaunching | StatusPaused

record process_info =
  pi_App :: app_config
  pi_ID :: int
  pi_LogFile :: string
  pi_ErrorFile :: string
  pi_PID :: int
  pi_Status :: status
  pi_Restarts :: int
  pi_StartedAt :: gotime
  pi_CPU :: rat
  pi_Memory :: "64 word"
  pi_User :: string
  pi_LastCronAt :: gotime
  pi_LastCronStatus :: string

record daemon_info =
  di_PID :: int
  di_StartedAt :: gotime
  di_Version :: string
  di_HomeDir :: string
  di_ProcessCount :: int
  di_WebAddr :: string
  di_WebError :: string

section \<open>Cell formatters (process/format.go)\<close>

text \<open>The placeholder is the three UTF-8 bytes of an em dash.\<close>

definition Dash :: string where
  "Dash = map char_of [226 :: nat, 128, 148]"

definition second :: duration where
  "second = 1000000000"

definition shortDuration :: "duration \<Rightarrow> string" where
  "shortDuration d0 =
     (let d = (if d0 < 0 then 0 else d0);
          days = d div (24 * 3600 * second);
          d = d - days * (24 * 3600 * second);
          hours = d div (3600 * second);
          d = d - hours * (3600 * second);
          minutes = d div (60 * second);
          d = d - minutes * (60 * second);
          seconds = d div second
      in if days > 0 then itoa days @ ''d'' @ itoa hours @ ''h''
         else if hours > 0 then itoa hours @ ''h'' @ itoa minutes @ ''m''
         else if minutes > 0 then itoa minutes @ ''m'' @ itoa seconds @ ''s''
         else itoa seconds @ ''s'')"

definition ShortUptime :: "gotime \<Rightarrow> process_info \<Rightarrow> string" where
  "ShortUptime now p =
     (if pi_Status p \<noteq> StatusOnline \<or> is_zero_time (pi_StartedAt p) then Dash
      else shortDuration ((nanos now - nanos (pi_StartedAt p)) div second * second))"

text \<open>
  \<open>%.1f\<close> renders the decimal nearest to the value, ties to even. \<open>float64\<close> of a 64-bit
  integer keeps 53 significant bits, ties to even; dividing by a power of two is exact.
\<close>

definition round_half_even :: "int \<Rightarrow> int \<Rightarrow> int" where
  "round_half_even a b =
     (let q = a div b; r = a mod b
      in if 2 * r < b then q else if 2 * r > b then q + 1 else if even q then q else q + 1)"

fun f64_of_int :: "nat \<Rightarrow> int \<Rightarrow> int" where
  "f64_of_int 0 n = n"
| "f64_of_int (Suc extra) n =
     (if n < 2 ^ (53 + extra) then f64_of_int extra n
      else round_half_even n (2 ^ Suc extra) * 2 ^ Suc extra)"

definition fmt_tenths :: "int \<Rightarrow> string" where
  "fmt_tenths t = itoa (t div 10) @ ''.'' @ itoa (t mod 10)"

function bytes_unit :: "int \<Rightarrow> int \<Rightarrow> nat \<Rightarrow> int \<times> nat" where
  "bytes_unit n dv ex =
     (if n \<ge> 1024 then bytes_unit (n div 1024) (dv * 1024) (Suc ex) else (dv, ex))"
  by pat_completeness auto
termination by (relation "measure (\<lambda>(n, _, _). nat n)") auto

declare bytes_unit.simps [simp del]

text \<open>\<open>None\<close> is the index-out-of-range panic of \<open>units[exp]\<close>.\<close>

definition byte_units :: "string list" where
  "byte_units = [''kb'', ''mb'', ''gb'', ''tb'']"

definition FormatBytes :: "64 word \<Rightarrow> string option" where
  "FormatBytes w =
     (let b = uint w in
      if b = 0 then Some ''0b''
      else if b < 1024 then Some (itoa b @ ''b'')
      else (let (dv, ex) = bytes_unit (b div 1024) 1024 0
            in if ex < length byte_units
               then Some (fmt_tenths (round_half_even (10 * f64_of_int 11 b) dv) @ byte_units ! ex)
               else None))"

definition CPUPercent :: "process_info \<Rightarrow> string" where
  "CPUPercent p =
     (if pi_Status p \<noteq> StatusOnline then ''0.0%''
      else (let (a, b) = quotient_of (pi_CPU p)
            in (if a < 0 then ''-'' else '''') @
               fmt_tenths (round_half_even (10 * \<bar>a\<bar>) b) @ ''%''))"

definition MemCell :: "process_info \<Rightarrow> string option" where
  "MemCell p = (if pi_Status p \<noteq> StatusOnline then Some ''0b'' else FormatBytes (pi_Memory p))"

definition NamespaceOrDefault :: "string \<Rightarrow> string" where
  "NamespaceOrDefault ns = (if ns = '''' then DefaultNamespace else ns)"

definition PIDOrDash :: "int \<Rightarrow> string" where
  "PIDOrDash pid = (if pid \<le> 0 then Dash else itoa pid)"

definition VersionOrDash :: "string \<Rightarrow> string" where
  "VersionOrDash v = (if v = '''' then Dash else v)"

definition UserOrDash :: "string \<Rightarrow> string" where
  "UserOrDash u = (if u = '''' then Dash else u)"

definition CronOrDash :: "string \<Rightarrow> string" where
  "CronOrDash expr = (if expr = '''' then Dash else expr)"

section \<open>Laws of path cleaning\<close>

definition proper_comp :: "string \<Rightarrow> bool" where
  "proper_comp c \<longleftrightarrow> c \<noteq> '''' \<and> c \<noteq> ''.'' \<and> c \<noteq> ''..'' \<and> CHR ''/'' \<notin> set c"

lemma clean_comps_rooted_proper:
  "list_all proper_comp out \<Longrightarrow> list_all (\<lambda>c. CHR ''/'' \<notin> set c) cs \<Longrightarrow>
   list_all proper_comp (clean_comps True out cs)"
proof (induction "True" out cs rule: clean_comps.induct)
  case (1 out)
  then show ?case by (simp add: list_all_iff)
next
  case (2 out c cs)
  then show ?case by (auto simp: proper_comp_def split: list.splits)
qed

lemma clean_comps_proper:
  "list_all proper_comp cs \<Longrightarrow> clean_comps rooted out cs = rev out @ cs"
proof (induction cs arbitrary: out)
  case Nil
  then show ?case by simp
next
  case (Cons c cs)
  then show ?case by (simp add: proper_comp_def)
qed

lemma clean_comps_append:
  "clean_comps rooted out (xs @ ys) =
   clean_comps rooted (rev (clean_comps rooted out xs)) ys"
  by (induction rooted out xs rule: clean_comps.induct) (auto split: list.splits)

lemma clean_comps_Nil_head [simp]: "clean_comps rooted out ('''' # cs) = clean_comps rooted out cs"
  by simp

lemma str_split_slash_members: "list_all (\<lambda>c. CHR ''/'' \<notin> set c) (str_split CHR ''/'' p)"
  by (auto simp: list_all_iff dest: str_split_members)

lemma str_split_join:
  "list_all (\<lambda>c. CHR ''/'' \<notin> set c) cs \<Longrightarrow> cs \<noteq> [] \<Longrightarrow>
   str_split CHR ''/'' (str_join ''/'' cs) = cs"
proof (induction cs)
  case Nil
  then show ?case by simp
next
  case (Cons c cs)
  show ?case
  proof (cases "cs = []")
    case True
    with Cons.prems show ?thesis by (simp add: str_split_no_sep)
  next
    case False
    then have "str_join ''/'' (c # cs) = c @ CHR ''/'' # str_join ''/'' cs"
      by (simp add: str_join_Cons)
    with Cons False show ?thesis by (simp add: str_split_append_sep)
  qed
qed

lemma is_abs_path_clean [simp]: "is_abs (path_clean p) \<longleftrightarrow> is_abs p"
proof (cases "is_abs p")
  case True
  then show ?thesis by (simp add: path_clean_def is_abs_def Let_def)
next
  case False
  let ?cs = "clean_comps False [] (str_split CHR ''/'' p)"
  have head: "c # cs = clean_comps False out xs \<Longrightarrow>
      list_all (\<lambda>c. c \<noteq> '''' \<and> CHR ''/'' \<notin> set c) out \<Longrightarrow>
      list_all (\<lambda>c. CHR ''/'' \<notin> set c) xs \<Longrightarrow>
      c \<noteq> '''' \<and> CHR ''/'' \<notin> set c" for c cs out xs
  proof (induction "False" out xs rule: clean_comps.induct)
    case (1 out)
    then have "c \<in> set out" by (metis clean_comps.simps(1) list.set_intros(1) set_rev)
    with 1 show ?case by (simp add: list_all_iff)
  next
    case (2 out x xs)
    then show ?case by (auto split: if_splits list.splits)
  qed
  have "\<not> prefix ''/'' (str_join ''/'' ?cs)"
  proof (cases ?cs)
    case Nil
    then show ?thesis by (simp add: str_join_def)
  next
    case (Cons c cs)
    then have "c \<noteq> '''' \<and> CHR ''/'' \<notin> set c"
      using head [OF Cons [symmetric]] str_split_slash_members by simp
    then show ?thesis using Cons by (cases c) (auto simp: str_join_def)
  qed
  with False show ?thesis by (auto simp: path_clean_def is_abs_def Let_def)
qed

lemma is_abs_path_join: "is_abs d \<Longrightarrow> is_abs (path_join (d # es))"
proof -
  assume d: "is_abs d"
  then have "d \<noteq> ''''" by (auto simp: is_abs_def)
  moreover have "is_abs (str_join ''/'' (d # es))"
    using d by (auto simp: is_abs_def str_join_def prefix_def)
  ultimately show ?thesis by (simp add: path_join_def)
qed

text \<open>A directory in canonical form: absolute, cleaned, not the root.\<close>

definition canonical_dir :: "string \<Rightarrow> bool" where
  "canonical_dir d \<longleftrightarrow> is_abs d \<and> path_clean d = d \<and> d \<noteq> ''/''"

lemma canonical_dirE:
  assumes "canonical_dir d"
  obtains cs where "d = ''/'' @ str_join ''/'' cs" "list_all proper_comp cs" "cs \<noteq> []"
proof -
  let ?cs = "clean_comps True [] (str_split CHR ''/'' d)"
  have "path_clean d = ''/'' @ str_join ''/'' ?cs"
    using assms by (simp add: canonical_dir_def path_clean_def Let_def)
  moreover have "path_clean d = d" using assms by (simp add: canonical_dir_def)
  ultimately have d: "d = ''/'' @ str_join ''/'' ?cs" by (rule trans [OF sym, rotated])
  moreover have "list_all proper_comp ?cs"
    by (rule clean_comps_rooted_proper) (simp_all add: str_split_slash_members)
  moreover have "?cs \<noteq> []"
  proof
    assume "?cs = []"
    with d have "d = ''/'' @ str_join ''/'' []" by (simp only:)
    with assms show False by (simp add: canonical_dir_def str_join_def)
  qed
  ultimately show ?thesis by (rule that)
qed

lemma path_clean_rooted:
  assumes "list_all proper_comp cs" "cs \<noteq> []"
  shows "path_clean (''/'' @ str_join ''/'' cs) = ''/'' @ str_join ''/'' cs"
proof -
  have "list_all (\<lambda>c. CHR ''/'' \<notin> set c) cs"
    using assms(1) by (auto simp: list_all_iff proper_comp_def)
  then have "str_split CHR ''/'' (''/'' @ str_join ''/'' cs) = '''' # cs"
    using assms(2) by (simp add: str_split_join)
  then show ?thesis
    using assms by (simp add: path_clean_def is_abs_def clean_comps_proper)
qed

lemma str_join_append:
  "xs \<noteq> [] \<Longrightarrow> ys \<noteq> [] \<Longrightarrow> str_join sep (xs @ ys) = str_join sep xs @ sep @ str_join sep ys"
  by (induction xs) (auto simp: str_join_def split: list.splits)

lemma path_join_canonical:
  assumes "canonical_dir d" "list_all proper_comp es" "es \<noteq> []"
  shows "path_join (d # es) = d @ ''/'' @ str_join ''/'' es"
proof -
  from assms(1) obtain cs where
    d: "d = ''/'' @ str_join ''/'' cs" and cs: "list_all proper_comp cs" "cs \<noteq> []"
    by (rule canonical_dirE)
  have "path_join (d # es) = path_clean (d @ ''/'' @ str_join ''/'' es)"
    using assms(3) by (simp add: path_join_def d str_join_Cons)
  also have "d @ ''/'' @ str_join ''/'' es = ''/'' @ str_join ''/'' (cs @ es)"
    using cs(2) assms(3) by (simp add: d str_join_append)
  also have "path_clean \<dots> = \<dots>"
    using cs assms by (intro path_clean_rooted) auto
  finally show ?thesis using cs(2) assms(3) by (simp add: d str_join_append)
qed

lemma canonical_path_join:
  assumes "canonical_dir d" "list_all proper_comp es" "es \<noteq> []"
  shows "canonical_dir (path_join (d # es))"
proof -
  from assms(1) obtain cs where
    d: "d = ''/'' @ str_join ''/'' cs" and cs: "list_all proper_comp cs" "cs \<noteq> []"
    by (rule canonical_dirE)
  have eq: "path_join (d # es) = ''/'' @ str_join ''/'' (cs @ es)"
    using assms cs(2) by (simp add: path_join_canonical d str_join_append)
  have "path_clean (path_join (d # es)) = path_join (d # es)"
    unfolding eq using cs assms by (intro path_clean_rooted) auto
  moreover have "str_join ''/'' (cs @ es) \<noteq> ''''"
    using cs by (cases cs) (auto simp: str_join_def proper_comp_def)
  ultimately show ?thesis
    unfolding canonical_dir_def by (simp add: eq is_abs_def)
qed

section \<open>Log paths stay in the log directory\<close>

lemma lower_char_slash [simp]: "lower_char c = CHR ''/'' \<longleftrightarrow> c = CHR ''/''"
proof
  assume l: "lower_char c = CHR ''/''"
  show "c = CHR ''/''"
  proof (cases "65 \<le> (of_char c :: nat) \<and> (of_char c :: nat) \<le> 90")
    case True
    with l have "of_char (char_of (of_char c + 32 :: nat) :: char) = (47 :: nat)"
      by (simp add: lower_char_def Let_def)
    with True show ?thesis by (simp add: of_char_of)
  next
    case False
    with l show ?thesis by (auto simp: lower_char_def Let_def)
  qed
qed (simp add: lower_char_def)

lemma NormalizeName_no_slash: "CHR ''/'' \<notin> set name \<Longrightarrow> CHR ''/'' \<notin> set (NormalizeName name)"
  by (auto simp: NormalizeName_def to_lower_def split: if_splits dest: sym)

lemma log_name_proper:
  assumes "CHR ''/'' \<notin> set name" "ext \<in> {''.log'', ''.err''}"
  shows "proper_comp (NormalizeName name @ ext)"
proof -
  have "length (NormalizeName name @ ext) \<ge> 4" using assms(2) by auto
  then have "NormalizeName name @ ext \<noteq> s" if "length s < 4" for s
    using that by (metis not_le)
  from this [of "''.''"] this [of "''..''"]
  have "NormalizeName name @ ext \<noteq> ''.''" "NormalizeName name @ ext \<noteq> ''..''" by simp_all
  with assms show ?thesis
    by (auto simp: proper_comp_def dest: NormalizeName_no_slash)
qed

lemma TaskLogsDir_canonical:
  assumes "canonical_dir home"
  shows "canonical_dir (TaskLogsDir home)" "TaskLogsDir home = home @ ''/tasks/logs''"
proof -
  have p: "list_all proper_comp [''tasks'', ''logs'']" by (simp add: proper_comp_def)
  show "canonical_dir (TaskLogsDir home)"
    unfolding TaskLogsDir_def using assms p by (rule canonical_path_join) simp
  show "TaskLogsDir home = home @ ''/tasks/logs''"
    unfolding TaskLogsDir_def using path_join_canonical [OF assms p] by (simp add: str_join_def)
qed

lemma TaskLogPath_eq:
  assumes "canonical_dir home" "CHR ''/'' \<notin> set name"
  shows "TaskLogPath home name = TaskLogsDir home @ ''/'' @ NormalizeName name @ ''.log''"
    and "TaskErrPath home name = TaskLogsDir home @ ''/'' @ NormalizeName name @ ''.err''"
  using path_join_canonical [OF TaskLogsDir_canonical(1) [OF assms(1)], of "[NormalizeName name @ ''.log'']"]
    path_join_canonical [OF TaskLogsDir_canonical(1) [OF assms(1)], of "[NormalizeName name @ ''.err'']"]
    log_name_proper [OF assms(2)]
  by (simp_all add: TaskLogPath_def TaskErrPath_def)

section \<open>Normalisation\<close>

lemma ResolveScriptPath_cases:
  assumes "is_abs baseDir" "os_getwd env = Some wd" "is_abs wd"
  shows "is_abs (ResolveScriptPath env baseDir s) \<or>
         ResolveScriptPath env baseDir s = s \<and>
         (s = '''' \<or> path_base s = s \<and> CHR ''/'' \<notin> set s \<and>
           \<not> os_exists env (path_join [baseDir, s]) \<and> os_lookpath env s = None)"
  using assms by (auto simp: ResolveScriptPath_def path_abs_def is_abs_path_join split: option.splits)

lemma ResolveScriptPath_idem:
  assumes "is_abs baseDir" "os_getwd env = Some wd" "is_abs wd"
  shows "ResolveScriptPath env baseDir (ResolveScriptPath env baseDir s) =
         ResolveScriptPath env baseDir s"
  using ResolveScriptPath_cases [OF assms, of s]
proof
  assume "is_abs (ResolveScriptPath env baseDir s)"
  then show ?thesis by (subst ResolveScriptPath_def) simp
qed auto

section \<open>The unit of a byte count\<close>

lemma div_1024_less: "n div 1024 < x \<longleftrightarrow> n < x * 1024" for n x :: int
  by linarith

lemma bytes_unit_index:
  "0 \<le> n \<Longrightarrow> snd (bytes_unit n dv ex) < ex + Suc k \<longleftrightarrow> n < 1024 ^ Suc k"
proof (induction n dv ex arbitrary: k rule: bytes_unit.induct)
  case (1 n dv ex)
  show ?case
  proof (cases "n \<ge> 1024")
    case True
    have unfold: "bytes_unit n dv ex = bytes_unit (n div 1024) (dv * 1024) (Suc ex)"
      using True by (simp add: bytes_unit.simps [of n dv ex])
    show ?thesis
    proof (cases k)
      case 0
      have mono: "e \<le> snd (bytes_unit m d e)" for m d e
      proof (induction m d e rule: bytes_unit.induct)
        case (1 m d e)
        then show ?case by (subst bytes_unit.simps) force
      qed
      from mono [of "Suc ex" "n div 1024" "dv * 1024"] show ?thesis
        using True 0 by (simp add: unfold)
    next
      case (Suc j)
      have "snd (bytes_unit (n div 1024) (dv * 1024) (Suc ex)) < Suc ex + Suc j \<longleftrightarrow>
            n div 1024 < 1024 ^ Suc j"
        using "1.IH" [OF True] True by simp
      also have "n div 1024 < 1024 ^ Suc j \<longleftrightarrow> n < 1024 ^ Suc j * 1024"
        by (rule div_1024_less)
      also have "\<dots> \<longleftrightarrow> n < 1024 ^ Suc k"
        using Suc by (simp add: mult.commute)
      finally show ?thesis by (simp add: unfold Suc)
    qed
  next
    case False
    then have "n < 1024 * 1024 ^ k" by (smt (verit) one_le_power mult_le_cancel_left1)
    with False show ?thesis by (simp add: bytes_unit.simps [of n dv ex])
  qed
qed

lemma FormatBytes_None: "FormatBytes w = None \<longleftrightarrow> 2 ^ 50 \<le> uint w"
proof (cases "uint w < 1024")
  case True
  then show ?thesis by (simp add: FormatBytes_def Let_def)
next
  case False
  have "snd (bytes_unit (uint w div 1024) 1024 0) < 0 + Suc 3 \<longleftrightarrow> uint w div 1024 < 1024 ^ Suc 3"
    using False by (intro bytes_unit_index) linarith
  then have "snd (bytes_unit (uint w div 1024) 1024 0) < 4 \<longleftrightarrow> uint w < 2 ^ 50"
    by (simp add: div_1024_less)
  with False show ?thesis
    by (auto simp: FormatBytes_def Let_def byte_units_def split: prod.splits)
qed

end
