(* ===== verification/Go_Time.thy ===== *)
theory Go_Time
  imports Prelude
begin

text \<open>
  What the program uses of the package \<open>time\<close>: calendar dates in the layouts
  \<open>2006-01-02\<close> and \<open>2006-01-02 15:04:05\<close>, and \<open>ParseDuration\<close>. The local calendar
  reading of an instant depends on the time zone of the machine, so functions that format an
  instant take it as an argument of type \<open>civil\<close>.
\<close>

section \<open>Calendar dates\<close>

record civil =
  cv_year :: nat
  cv_month :: nat
  cv_day :: nat
  cv_hour :: nat
  cv_min :: nat
  cv_sec :: nat

definition leap_year :: "nat \<Rightarrow> bool" where
  "leap_year y \<longleftrightarrow> y mod 4 = 0 \<and> (y mod 100 \<noteq> 0 \<or> y mod 400 = 0)"

definition days_in :: "nat \<Rightarrow> nat \<Rightarrow> nat" where
  "days_in y m =
     (if m = 2 then (if leap_year y then 29 else 28)
      else if m = 4 \<or> m = 6 \<or> m = 9 \<or> m = 11 then 30 else 31)"

definition valid_date :: "nat \<Rightarrow> nat \<Rightarrow> nat \<Rightarrow> bool" where
  "valid_date y m d \<longleftrightarrow> y < 10000 \<and> 1 \<le> m \<and> m \<le> 12 \<and> 1 \<le> d \<and> d \<le> days_in y m"

definition valid_civil :: "civil \<Rightarrow> bool" where
  "valid_civil c \<longleftrightarrow>
     valid_date (cv_year c) (cv_month c) (cv_day c) \<and>
     cv_hour c < 24 \<and> cv_min c < 60 \<and> cv_sec c < 60"

definition digit_char :: "nat \<Rightarrow> char" where
  "digit_char d = char_of (48 + d)"

definition pad2 :: "nat \<Rightarrow> string" where
  "pad2 n = [digit_char (n div 10 mod 10), digit_char (n mod 10)]"

definition pad4 :: "nat \<Rightarrow> string" where
  "pad4 n = pad2 (n div 100) @ pad2 (n mod 100)"

text \<open>\<open>t.Format(layout)\<close> for years of four digits.\<close>

definition fmt_date :: "civil \<Rightarrow> string" where
  "fmt_date c = pad4 (cv_year c) @ ''-'' @ pad2 (cv_month c) @ ''-'' @ pad2 (cv_day c)"

definition fmt_clock :: "civil \<Rightarrow> string" where
  "fmt_clock c = pad2 (cv_hour c) @ '':'' @ pad2 (cv_min c) @ '':'' @ pad2 (cv_sec c)"

definition fmt_timestamp :: "civil \<Rightarrow> string" where
  "fmt_timestamp c = fmt_date c @ '' '' @ fmt_clock c"

text \<open>
  \<open>time.Parse("2006-01-02", s)\<close>: four digits, two, two, separated by hyphens, nothing
  after them, month and day in range for the year.
\<close>

fun parse_date :: "string \<Rightarrow> (nat \<times> nat \<times> nat) option" where
  "parse_date [y1, y2, y3, y4, h1, m1, m2, h2, d1, d2] =
     (if list_all is_digit [y1, y2, y3, y4, m1, m2, d1, d2] \<and> h1 = CHR ''-'' \<and> h2 = CHR ''-'' \<and>
         valid_date (digits_val [y1, y2, y3, y4]) (digits_val [m1, m2]) (digits_val [d1, d2])
      then Some (digits_val [y1, y2, y3, y4], digits_val [m1, m2], digits_val [d1, d2])
      else None)"
| "parse_date _ = None"

definition date_ok :: "string \<Rightarrow> bool" where
  "date_ok s \<longleftrightarrow> parse_date s \<noteq> None"

text \<open>
  \<open>time.ParseInLocation("2006-01-02 15:04:05", s)\<close> on the 19 bytes the program passes: a
  one-digit hour would leave a byte over, so all fields have two digits.
\<close>

fun parse_clock :: "string \<Rightarrow> (nat \<times> nat \<times> nat) option" where
  "parse_clock [h1, h2, c1, m1, m2, c2, s1, s2] =
     (if list_all is_digit [h1, h2, m1, m2, s1, s2] \<and> c1 = CHR '':'' \<and> c2 = CHR '':'' \<and>
         digits_val [h1, h2] < 24 \<and> digits_val [m1, m2] < 60 \<and> digits_val [s1, s2] < 60
      then Some (digits_val [h1, h2], digits_val [m1, m2], digits_val [s1, s2])
      else None)"
| "parse_clock _ = None"

definition parse_timestamp :: "string \<Rightarrow> civil option" where
  "parse_timestamp s =
     (if length s = 19 \<and> s ! 10 = CHR '' '' then
        (case (parse_date (take 10 s), parse_clock (drop 11 s)) of
           (Some (y, m, d), Some (hh, mm, ss)) \<Rightarrow>
             Some \<lparr>cv_year = y, cv_month = m, cv_day = d, cv_hour = hh, cv_min = mm, cv_sec = ss\<rparr>
         | _ \<Rightarrow> None)
      else None)"

lemma is_digit_digit_char [simp]: "d < 10 \<Longrightarrow> is_digit (digit_char d)"
  by (simp add: digit_char_def)

lemma digit_val_digit_char [simp]: "d < 10 \<Longrightarrow> digit_val (digit_char d) = d"
  by (simp add: digit_char_def digit_val_def)

lemma digits_val_Cons2: "digits_val [a, b] = 10 * digit_val a + digit_val b"
  by (simp add: digits_val_def)

lemma digits_val_Cons4:
  "digits_val [a, b, c, d] = 1000 * digit_val a + 100 * digit_val b + 10 * digit_val c + digit_val d"
  by (simp add: digits_val_def)

lemma digits_val_pad2: "n < 100 \<Longrightarrow> digits_val (pad2 n) = n"
  by (simp add: pad2_def digits_val_Cons2)

lemma digits_val_pad4: "n < 10000 \<Longrightarrow> digits_val (pad4 n) = n"
proof -
  assume "n < 10000"
  moreover have "n mod 100 + (1000 * (n div 100 div 10) + 100 * (n div 100 mod 10)) = n"
    using div_mult_mod_eq [of n 100] div_mult_mod_eq [of "n div 100" 10] by linarith
  ultimately show ?thesis by (simp add: pad4_def pad2_def digits_val_Cons4)
qed

lemma pad2_digits: "\<exists>a b. pad2 n = [a, b] \<and> is_digit a \<and> is_digit b"
  by (simp add: pad2_def)

lemma pad4_digits:
  "\<exists>a b c d. pad4 n = [a, b, c, d] \<and> is_digit a \<and> is_digit b \<and> is_digit c \<and> is_digit d"
  using pad2_digits [of "n div 100"] pad2_digits [of "n mod 100"] by (auto simp: pad4_def)

lemma length_pad2 [simp]: "length (pad2 n) = 2"
  by (simp add: pad2_def)

lemma length_fmt_date [simp]: "length (fmt_date c) = 10"
  by (simp add: fmt_date_def pad4_def)

lemma length_fmt_clock [simp]: "length (fmt_clock c) = 8"
  by (simp add: fmt_clock_def)

lemma length_fmt_timestamp [simp]: "length (fmt_timestamp c) = 19"
  by (simp add: fmt_timestamp_def)

lemma valid_date_bounds: "valid_date y m d \<Longrightarrow> y < 10000 \<and> m < 100 \<and> d < 100"
  by (auto simp: valid_date_def days_in_def split: if_splits)

lemma parse_date_fmt_date:
  assumes "valid_date (cv_year c) (cv_month c) (cv_day c)"
  shows "parse_date (fmt_date c) = Some (cv_year c, cv_month c, cv_day c)"
proof -
  note bs = valid_date_bounds [OF assms]
  have y: "digits_val (pad4 (cv_year c)) = cv_year c"
    using bs by (simp add: digits_val_pad4)
  have m: "digits_val (pad2 (cv_month c)) = cv_month c" "digits_val (pad2 (cv_day c)) = cv_day c"
    using bs by (simp_all add: digits_val_pad2)
  show ?thesis
    using assms y m pad4_digits [of "cv_year c"] pad2_digits [of "cv_month c"]
      pad2_digits [of "cv_day c"]
    by (auto simp: fmt_date_def)
qed

lemma parse_clock_fmt_clock:
  assumes "cv_hour c < 24" "cv_min c < 60" "cv_sec c < 60"
  shows "parse_clock (fmt_clock c) = Some (cv_hour c, cv_min c, cv_sec c)"
  using assms digits_val_pad2 [of "cv_hour c"] digits_val_pad2 [of "cv_min c"]
    digits_val_pad2 [of "cv_sec c"]
    pad2_digits [of "cv_hour c"] pad2_digits [of "cv_min c"] pad2_digits [of "cv_sec c"]
  by (auto simp: fmt_clock_def)

lemma parse_timestamp_fmt:
  assumes "valid_civil c"
  shows "parse_timestamp (fmt_timestamp c) = Some c"
proof -
  have "fmt_timestamp c ! 10 = CHR '' ''" "take 10 (fmt_timestamp c) = fmt_date c"
    "drop 11 (fmt_timestamp c) = fmt_clock c"
    by (simp_all add: fmt_timestamp_def nth_append)
  then show ?thesis
    using assms
    by (simp add: parse_timestamp_def parse_date_fmt_date parse_clock_fmt_clock valid_civil_def)
qed

text \<open>Formatted dates sort as the dates do, which day files and archives rely on.\<close>

definition date_key :: "civil \<Rightarrow> nat" where
  "date_key c = (cv_year c * 100 + cv_month c) * 100 + cv_day c"

lemma digit_char_less [simp]: "a < 10 \<Longrightarrow> b < 10 \<Longrightarrow> digit_char a < digit_char b \<longleftrightarrow> a < b"
  by (simp add: digit_char_def less_char_def)

lemma digit_char_eq [simp]: "a < 10 \<Longrightarrow> b < 10 \<Longrightarrow> digit_char a = digit_char b \<longleftrightarrow> a = b"
  by (metis digit_val_digit_char)

lemma mult_add_less:
  fixes r s k p q :: nat
  assumes "r < k" "s < k"
  shows "k * q + r < k * p + s \<longleftrightarrow> q < p \<or> q = p \<and> r < s"
proof -
  have "k * q + r < k * p + s" if "q < p" "r < k" for q p r s
  proof -
    have "k * q + k \<le> k * p" using that(1) by (metis Suc_leI mult_Suc_right add.commute mult_le_mono2)
    with that(2) show ?thesis by linarith
  qed
  from this [of q p r s] this [of p q s r] assms show ?thesis
    by (cases q p rule: linorder_cases) auto
qed

lemma pad2_less_append:
  assumes "a < 100" "b < 100"
  shows "pad2 a @ s < pad2 b @ t \<longleftrightarrow> a < b \<or> a = b \<and> s < (t :: string)"
proof -
  have "a < b \<longleftrightarrow> a div 10 < b div 10 \<or> a div 10 = b div 10 \<and> a mod 10 < b mod 10"
    using mult_add_less [of "a mod 10" 10 "b mod 10" "a div 10" "b div 10"] by simp
  moreover have "a = b \<longleftrightarrow> a div 10 = b div 10 \<and> a mod 10 = b mod 10"
    by (metis div_mult_mod_eq)
  moreover have "a div 10 < 10" "b div 10 < 10" using assms by simp_all
  ultimately show ?thesis by (auto simp: pad2_def)
qed

lemma fmt_date_less:
  assumes "valid_date (cv_year a) (cv_month a) (cv_day a)"
    and "valid_date (cv_year b) (cv_month b) (cv_day b)"
  shows "fmt_date a < fmt_date b \<longleftrightarrow> date_key a < date_key b"
proof -
  note bs = valid_date_bounds [OF assms(1)] valid_date_bounds [OF assms(2)]
  have y: "cv_year a div 100 < 100" "cv_year b div 100 < 100" using bs by auto
  have d: "pad2 (cv_day a) < pad2 (cv_day b) \<longleftrightarrow> cv_day a < cv_day b"
    using bs pad2_less_append [of "cv_day a" "cv_day b" "[]" "[]"] by simp
  have "fmt_date a < fmt_date b \<longleftrightarrow>
      cv_year a div 100 < cv_year b div 100 \<or>
      cv_year a div 100 = cv_year b div 100 \<and>
       (cv_year a mod 100 < cv_year b mod 100 \<or>
        cv_year a mod 100 = cv_year b mod 100 \<and>
         (cv_month a < cv_month b \<or> cv_month a = cv_month b \<and> cv_day a < cv_day b))"
    using bs y by (simp add: fmt_date_def pad4_def pad2_less_append d)
  also have "\<dots> \<longleftrightarrow> cv_year a < cv_year b \<or> cv_year a = cv_year b \<and>
        (cv_month a < cv_month b \<or> cv_month a = cv_month b \<and> cv_day a < cv_day b)"
    using mult_add_less [of "cv_year a mod 100" 100 "cv_year b mod 100" "cv_year a div 100"
        "cv_year b div 100"] div_mult_mod_eq [of "cv_year a" 100] div_mult_mod_eq [of "cv_year b" 100]
    by (metis mod_less_divisor mult.commute mult_div_mod_eq zero_less_numeral)
  also have "\<dots> \<longleftrightarrow> date_key a < date_key b"
    using bs mult_add_less [of "cv_day a" 100 "cv_day b" "100 * cv_year a + cv_month a"
        "100 * cv_year b + cv_month b"]
      mult_add_less [of "cv_month a" 100 "cv_month b" "cv_year a" "cv_year b"]
    by (auto simp: date_key_def mult.commute)
  finally show ?thesis .
qed

section \<open>ParseDuration\<close>

datatype duration_error = InvalidDuration | MissingUnit | UnknownUnit

definition two63 :: int where
  "two63 = 9223372036854775808"

fun leading_int :: "int \<Rightarrow> string \<Rightarrow> (int \<times> string) option" where
  "leading_int x [] = Some (x, [])"
| "leading_int x (c # cs) =
     (if \<not> is_digit c then Some (x, c # cs)
      else if x > two63 div 10 then None
      else (let x' = x * 10 + int (digit_val c)
            in if x' > two63 then None else leading_int x' cs))"

fun leading_fraction :: "int \<Rightarrow> int \<Rightarrow> bool \<Rightarrow> string \<Rightarrow> int \<times> int \<times> string" where
  "leading_fraction x sc ovf [] = (x, sc, [])"
| "leading_fraction x sc ovf (c # cs) =
     (if \<not> is_digit c then (x, sc, c # cs)
      else if ovf \<or> x > (two63 - 1) div 10 then leading_fraction x sc True cs
      else (let y = x * 10 + int (digit_val c)
            in if y > two63 then leading_fraction x sc True cs
               else leading_fraction y (sc * 10) False cs))"

definition unit_value :: "string \<Rightarrow> int option" where
  "unit_value u =
     (if u = ''ns'' then Some 1
      else if u = ''us'' \<or> u = map char_of [194 :: nat, 181, 115] \<or>
              u = map char_of [206 :: nat, 188, 115] then Some 1000
      else if u = ''ms'' then Some 1000000
      else if u = ''s'' then Some 1000000000
      else if u = ''m'' then Some 60000000000
      else if u = ''h'' then Some 3600000000000
      else None)"

definition not_unit_char :: "char \<Rightarrow> bool" where
  "not_unit_char c \<longleftrightarrow> c = CHR ''.'' \<or> is_digit c"

text \<open>
  One number with its unit. The fractional part is multiplied exactly; Go multiplies
  \<open>float64\<close> values and truncates, which can differ in the last nanosecond.
\<close>

definition duration_term :: "string \<Rightarrow> duration_error + (int \<times> string)" where
  "duration_term s =
     (case s of [] \<Rightarrow> Inl InvalidDuration
      | c # _ \<Rightarrow>
        if \<not> not_unit_char c then Inl InvalidDuration
        else (case leading_int 0 s of None \<Rightarrow> Inl InvalidDuration
          | Some (v, s1) \<Rightarrow>
             (let pre = (length s1 \<noteq> length s);
                  (f, sc, s2, post) =
                    (case s1 of [] \<Rightarrow> (0, 1, s1, False)
                     | d # s1' \<Rightarrow>
                        if d = CHR ''.'' then
                          (let (f, sc, s2) = leading_fraction 0 1 False s1'
                           in (f, sc, s2, length s2 \<noteq> length s1'))
                        else (0, 1, s1, False));
                  u = takeWhile (\<lambda>c. \<not> not_unit_char c) s2;
                  rest = dropWhile (\<lambda>c. \<not> not_unit_char c) s2
              in if \<not> pre \<and> \<not> post then Inl InvalidDuration
                 else if u = [] then Inl MissingUnit
                 else (case unit_value u of None \<Rightarrow> Inl UnknownUnit
                   | Some unit \<Rightarrow>
                      if v > two63 div unit then Inl InvalidDuration
                      else (let w = v * unit + f * unit div sc
                            in if f > 0 \<and> w > two63 then Inl InvalidDuration
                               else Inr (w, rest))))))"

text \<open>Each term consumes at least one byte, so \<open>length s\<close> rounds are enough.\<close>

fun duration_terms :: "nat \<Rightarrow> int \<Rightarrow> string \<Rightarrow> duration_error + int" where
  "duration_terms n d [] = Inr d"
| "duration_terms 0 d s = Inl InvalidDuration"
| "duration_terms (Suc n) d s =
     (case duration_term s of
        Inl e \<Rightarrow> Inl e
      | Inr (v, rest) \<Rightarrow>
          if d + v > two63 then Inl InvalidDuration else duration_terms n (d + v) rest)"

definition ParseDuration :: "string \<Rightarrow> duration_error + duration" where
  "ParseDuration s0 =
     (let (neg, s) =
        (case s0 of [] \<Rightarrow> (False, s0)
         | c # cs \<Rightarrow> if c = CHR ''-'' \<or> c = CHR ''+'' then (c = CHR ''-'', cs) else (False, s0))
      in if s = ''0'' then Inr 0
         else if s = [] then Inl InvalidDuration
         else (case duration_terms (length s) 0 s of
                 Inl e \<Rightarrow> Inl e
               | Inr d \<Rightarrow> if neg then Inr (- d)
                         else if d > two63 - 1 then Inl InvalidDuration else Inr d))"

lemma leading_int_rest: "leading_int x s = Some (v, r) \<Longrightarrow> length r \<le> length s"
  by (induction x s rule: leading_int.induct) (fastforce simp: Let_def split: if_splits)+

lemma leading_fraction_rest: "leading_fraction x sc ov s = (f, sc', r) \<Longrightarrow> length r \<le> length s"
  by (induction x sc ov s rule: leading_fraction.induct) (fastforce simp: Let_def split: if_splits)+

lemma duration_term_consumes: "duration_term s = Inr (v, rest) \<Longrightarrow> length rest < length s"
proof -
  assume t: "duration_term s = Inr (v, rest)"
  have drop: "takeWhile P u \<noteq> [] \<Longrightarrow> length (dropWhile P u) < length u" for P and u :: string
    by (cases u) (auto simp: le_imp_less_Suc length_dropWhile_le split: if_splits)
  from t show ?thesis
    by (auto simp: duration_term_def Let_def
        split: list.splits if_splits option.splits prod.splits
        dest!: leading_int_rest leading_fraction_rest drop
        intro: less_le_trans le_less_trans [OF length_dropWhile_le])
qed

text \<open>More rounds never change the result, so the bound of \<open>ParseDuration\<close> is enough.\<close>

lemma duration_terms_enough:
  "length s \<le> n \<Longrightarrow> duration_terms n d s = duration_terms (length s) d s"
proof (induction "length s" arbitrary: s n d rule: less_induct)
  case less
  show ?case
  proof (cases s)
    case Nil
    then show ?thesis by simp
  next
    case (Cons c cs)
    with less.prems obtain m where n: "n = Suc m" "length cs \<le> m" by (cases n) auto
    have "duration_terms m (d + v) rest = duration_terms (length cs) (d + v) rest"
      if "duration_term s = Inr (v, rest)" for v rest
      using duration_term_consumes [OF that] less.hyps [of rest m "d + v"]
        less.hyps [of rest "length cs" "d + v"] n Cons by simp
    then show ?thesis by (auto simp: n Cons split: sum.splits prod.splits)
  qed
qed

end
