(* ===== verification/Run_History.thy ===== *)
theory Run_History
  imports Process_Types Go_Time
begin

text \<open>
  The package \<open>runhistory\<close>: the records of finished runs, run identifiers and the day they
  carry, file names of stage logs, the matching rules of queries, and the two journals with
  their day files, retention and newest-first scans.
\<close>

section \<open>Records (runhistory/record.go)\<close>

datatype run_event = EventRun | EventCronSkip | EventLaunchFail

datatype run_status = RunSuccess | RunFailed | RunSkipped | RunCancelled

text \<open>\<open>TriggerNone\<close> is the zero value of the string type, the empty string.\<close>

datatype trigger =
    TriggerNone | TriggerManual | TriggerCron | TriggerCronRestart | TriggerWatch | TriggerAutoRestart
  | TriggerResurrect | TriggerRestart | TriggerWebhook | TriggerNested

record task_record =
  tr_TS :: gotime
  tr_Kind :: string
  tr_Event :: run_event
  tr_RunID :: string
  tr_Namespace :: string
  tr_Name :: string
  tr_ID :: int
  tr_Trigger :: trigger
  tr_PID :: int
  tr_StartedAt :: gotime
  tr_DurationMS :: int
  tr_ExitCode :: "int option"
  tr_Signal :: string
  tr_Restarts :: int
  tr_Status :: run_status
  tr_Detail :: string

text \<open>An empty \<open>Status\<close> string is \<open>None\<close>.\<close>

record stage_record =
  sgr_Name :: string
  sgr_Kind :: string
  sgr_Ref :: string
  sgr_Status :: "run_status option"
  sgr_ExitCode :: "int option"
  sgr_Signal :: string
  sgr_StartedAt :: gotime
  sgr_DurationMS :: int
  sgr_Log :: string
  sgr_ChildRunID :: string
  sgr_Error :: string

record workflow_record =
  wr_RunID :: string
  wr_Kind :: string
  wr_Workflow :: string
  wr_Category :: string
  wr_Name :: string
  wr_Trigger :: trigger
  wr_ParentRunID :: string
  wr_Depth :: nat
  wr_StartedAt :: gotime
  wr_FinishedAt :: gotime
  wr_DurationMS :: int
  wr_Status :: "run_status option"
  wr_Params :: "string gomap"
  wr_Stages :: "stage_record list"
  wr_Error :: string
  wr_Truncated :: bool

definition KindTask :: string where
  "KindTask = ''task''"

definition KindWorkflow :: string where
  "KindWorkflow = ''workflow''"

definition ExitCodeOf :: "int \<Rightarrow> bool \<Rightarrow> int option" where
  "ExitCodeOf code known = (if \<not> known then None else Some code)"

section \<open>Run identifiers (runhistory/runid.go)\<close>

definition hex_digit :: "nat \<Rightarrow> char" where
  "hex_digit n = (if n < 10 then char_of (48 + n) else char_of (87 + n))"

definition hex_byte :: "8 word \<Rightarrow> string" where
  "hex_byte b = [hex_digit (unat b div 16), hex_digit (unat b mod 16)]"

definition fmt_runid_time :: "civil \<Rightarrow> string" where
  "fmt_runid_time c =
     pad4 (cv_year c) @ pad2 (cv_month c) @ pad2 (cv_day c) @ ''T'' @
     pad2 (cv_hour c) @ pad2 (cv_min c) @ pad2 (cv_sec c)"

text \<open>\<open>NewRunID(t)\<close> with the three random bytes as an argument.\<close>

definition NewRunID :: "civil \<Rightarrow> 8 word list \<Rightarrow> string" where
  "NewRunID c rnd = fmt_runid_time c @ ''-'' @ concat (map hex_byte rnd)"

fun parse_runid_time :: "string \<Rightarrow> civil option" where
  "parse_runid_time [y1, y2, y3, y4, m1, m2, d1, d2, t, h1, h2, n1, n2, s1, s2] =
     (let y = digits_val [y1, y2, y3, y4]; m = digits_val [m1, m2]; d = digits_val [d1, d2];
          c = \<lparr>cv_year = y, cv_month = m, cv_day = d, cv_hour = digits_val [h1, h2],
               cv_min = digits_val [n1, n2], cv_sec = digits_val [s1, s2]\<rparr>
      in if list_all is_digit [y1, y2, y3, y4, m1, m2, d1, d2, h1, h2, n1, n2, s1, s2] \<and>
            t = CHR ''T'' \<and> valid_civil c
         then Some c else None)"
| "parse_runid_time _ = None"

definition dayOfRunID :: "string \<Rightarrow> string option" where
  "dayOfRunID runID =
     (if length runID < 15 then None
      else map_option fmt_date (parse_runid_time (take 15 runID)))"

lemma parse_runid_time_fmt:
  assumes "valid_civil c"
  shows "parse_runid_time (fmt_runid_time c) = Some c"
proof -
  have d: "valid_date (cv_year c) (cv_month c) (cv_day c)" and
    t: "cv_hour c < 100" "cv_min c < 100" "cv_sec c < 100"
    using assms by (auto simp: valid_civil_def)
  note bs = valid_date_bounds [OF d]
  have eta: "\<lparr>cv_year = cv_year c, cv_month = cv_month c, cv_day = cv_day c,
      cv_hour = cv_hour c, cv_min = cv_min c, cv_sec = cv_sec c\<rparr> = c" by simp
  show ?thesis
    using assms bs t digits_val_pad4 [of "cv_year c"] digits_val_pad2 [of "cv_month c"]
      digits_val_pad2 [of "cv_day c"] digits_val_pad2 [of "cv_hour c"]
      digits_val_pad2 [of "cv_min c"] digits_val_pad2 [of "cv_sec c"]
      pad4_digits [of "cv_year c"] pad2_digits [of "cv_month c"] pad2_digits [of "cv_day c"]
      pad2_digits [of "cv_hour c"] pad2_digits [of "cv_min c"] pad2_digits [of "cv_sec c"]
    by (auto simp: fmt_runid_time_def Let_def eta simp del: civil.surjective)
qed

lemma length_fmt_runid_time [simp]: "length (fmt_runid_time c) = 15"
  by (simp add: fmt_runid_time_def pad4_def)

lemma dayOfRunID_NewRunID:
  "valid_civil c \<Longrightarrow> dayOfRunID (NewRunID c rnd) = Some (fmt_date c)"
  by (simp add: dayOfRunID_def NewRunID_def parse_runid_time_fmt)

section \<open>Names (runhistory/query.go)\<close>

definition DefaultLimit :: nat where
  "DefaultLimit = 100"

record query =
  q_Name :: string
  q_Status :: "run_status option"
  q_Limit :: int

definition Query_limit :: "query \<Rightarrow> nat" where
  "Query_limit q = (if q_Limit q \<le> 0 then DefaultLimit else nat (q_Limit q))"

definition safe_char :: "char \<Rightarrow> bool" where
  "safe_char c \<longleftrightarrow>
     (let n = of_char c :: nat in
        97 \<le> n \<and> n \<le> 122 \<or> 48 \<le> n \<and> n \<le> 57 \<or> c = CHR ''-'' \<or> c = CHR ''_'')"

text \<open>
  The loop of the code ranges over runes; a byte outside ASCII is part of a rune that becomes
  one hyphen, so the model is exact for ASCII names.
\<close>

definition safeComponent :: "string \<Rightarrow> string" where
  "safeComponent s =
     (let out = map (\<lambda>c. if safe_char c then c else CHR ''-'') (to_lower s)
      in if out = [] then ''unnamed'' else out)"

definition stageLogName :: "string \<Rightarrow> string \<Rightarrow> string \<Rightarrow> string" where
  "stageLogName workflow runID stage =
     safeComponent workflow @ ''.'' @ runID @ ''.'' @ safeComponent stage @ ''.log''"

definition TasksDir :: "string \<Rightarrow> string" where
  "TasksDir home = path_join [home, ''tasks'', ''runs'']"

definition WorkflowsDir :: "string \<Rightarrow> string" where
  "WorkflowsDir home = path_join [home, ''workflows'', ''runs'']"

definition WorkflowLogsDir :: "string \<Rightarrow> string" where
  "WorkflowLogsDir home = path_join [home, ''workflows'', ''logs'']"

definition StageLogPath :: "string \<Rightarrow> string \<Rightarrow> string \<Rightarrow> string \<Rightarrow> string" where
  "StageLogPath home workflow runID stage =
     path_join [WorkflowLogsDir home, stageLogName workflow runID stage]"

definition matchName :: "string \<Rightarrow> string \<Rightarrow> string \<Rightarrow> bool" where
  "matchName want namespace name \<longleftrightarrow>
     want = '''' \<or> want = name \<or> want = namespace @ '':'' @ name"

definition matchStatus :: "run_status option \<Rightarrow> run_status option \<Rightarrow> bool" where
  "matchStatus want got \<longleftrightarrow> want = None \<or> want = got"

lemma safe_char_path: "safe_char c \<Longrightarrow> c \<noteq> CHR ''/'' \<and> c \<noteq> CHR ''.''"
  by (auto simp: safe_char_def)

lemma safeComponent_safe: "safeComponent s \<noteq> '''' \<and> list_all safe_char (safeComponent s)"
proof -
  have "list_all safe_char ''unnamed''" by code_simp
  moreover have "safe_char CHR ''-''" by code_simp
  ultimately show ?thesis by (auto simp: safeComponent_def Let_def list_all_iff)
qed

lemma fmt_runid_time_no_slash: "CHR ''/'' \<notin> set (fmt_runid_time c)"
proof -
  have slash: "\<not> is_digit CHR ''/''" by code_simp
  have "CHR ''/'' \<notin> set (pad2 n)" for n
    using pad2_digits [of n] slash by auto
  then show ?thesis by (simp add: fmt_runid_time_def pad4_def)
qed

lemma hex_byte_no_slash: "CHR ''/'' \<notin> set (hex_byte b)"
proof -
  have hx: "hex_digit n \<noteq> CHR ''/''" if "n < 16" for n
  proof
    assume "hex_digit n = CHR ''/''"
    then have "of_char (hex_digit n) = (47 :: nat)" by simp
    with that show False by (auto simp: hex_digit_def of_char_of split: if_splits)
  qed
  have "unat b < 2 ^ LENGTH(8)" by (rule unsigned_less)
  then have "unat b div 16 < 16" by simp
  then show ?thesis
    using hx [of "unat b div 16"] hx [of "unat b mod 16"] by (simp add: hex_byte_def not_sym)
qed

lemma NewRunID_no_slash: "CHR ''/'' \<notin> set (NewRunID c rnd)"
  using fmt_runid_time_no_slash [of c] hex_byte_no_slash by (auto simp: NewRunID_def)

text \<open>
  No workflow or stage name steers a stage log out of the directory the program owns, whatever
  characters it has.
\<close>

lemma StageLogPath_contained:
  assumes "canonical_dir home" "CHR ''/'' \<notin> set runID"
  shows "StageLogPath home w runID st = home @ ''/workflows/logs/'' @ stageLogName w runID st"
proof -
  have p: "list_all proper_comp [''workflows'', ''logs'']" by (simp add: proper_comp_def)
  have dir: "canonical_dir (WorkflowLogsDir home)" "WorkflowLogsDir home = home @ ''/workflows/logs''"
    unfolding WorkflowLogsDir_def
    using canonical_path_join [OF assms(1) p] path_join_canonical [OF assms(1) p]
    by (simp_all add: str_join_def)
  have "CHR ''/'' \<notin> set (safeComponent s)" for s
    using safeComponent_safe [of s] safe_char_path by (auto simp: list_all_iff)
  then have slash: "CHR ''/'' \<notin> set (stageLogName w runID st)"
    using assms(2) by (simp add: stageLogName_def)
  have "length (stageLogName w runID st) > 2" by (simp add: stageLogName_def)
  then have "stageLogName w runID st \<noteq> s" if "length s \<le> 2" for s
    using that by (metis not_le)
  from this [of "''''"] this [of "''.''"] this [of "''..''"] slash
  have "proper_comp (stageLogName w runID st)" by (simp add: proper_comp_def)
  then have "path_join (WorkflowLogsDir home # [stageLogName w runID st]) =
      WorkflowLogsDir home @ ''/'' @ str_join ''/'' [stageLogName w runID st]"
    by (intro path_join_canonical dir) simp_all
  then show ?thesis by (simp add: StageLogPath_def dir(2))
qed

end
