(* ===== verification/Executor.thy ===== *)
theory Executor
  imports Process_Types
begin

text \<open>
  The package \<open>daemon/executor\<close>: classification of \<open>cmd.Wait\<close>, the command line and
  environment of a child, and the launch, watch and stop sequences of one process. What the
  operating system answers is a record of outcomes; the effects (handles left open, signals
  sent, callbacks run) are explicit results.
\<close>

section \<open>ExitInfo (executor/exit.go)\<close>

record exit_info =
  ei_Err :: "string option"
  ei_Code :: int
  ei_Signal :: string
  ei_Signaled :: bool
  ei_Known :: bool

text \<open>
  What \<open>cmd.Wait()\<close> reports: no error, an \<open>ExitError\<close> of a signalled child (number and
  name of the signal), an \<open>ExitError\<close> with an exit code, or some other error.
\<close>

datatype wait_result =
    WaitNil
  | WaitSignaled string int string
  | WaitExit string int
  | WaitOther string

definition ExitInfo_Success :: "exit_info \<Rightarrow> bool" where
  "ExitInfo_Success e \<longleftrightarrow> ei_Known e \<and> ei_Code e = 0"

definition ExitInfoFromWait :: "wait_result \<Rightarrow> exit_info" where
  "ExitInfoFromWait w =
     (case w of
        WaitNil \<Rightarrow> \<lparr>ei_Err = None, ei_Code = 0, ei_Signal = '''', ei_Signaled = False, ei_Known = True\<rparr>
      | WaitSignaled err sig name \<Rightarrow>
          \<lparr>ei_Err = Some err, ei_Code = 128 + sig, ei_Signal = name, ei_Signaled = True, ei_Known = True\<rparr>
      | WaitExit err code \<Rightarrow>
          \<lparr>ei_Err = Some err, ei_Code = code, ei_Signal = '''', ei_Signaled = False, ei_Known = True\<rparr>
      | WaitOther err \<Rightarrow>
          \<lparr>ei_Err = Some err, ei_Code = -1, ei_Signal = '''', ei_Signaled = False, ei_Known = False\<rparr>)"

definition no_exit :: exit_info where
  "no_exit = \<lparr>ei_Err = None, ei_Code = 0, ei_Signal = '''', ei_Signaled = False, ei_Known = False\<rparr>"

text \<open>
  \<open>os/exec\<close> returns an \<open>ExitError\<close> only for an unsuccessful child, and signal numbers
  are positive.
\<close>

definition wait_ok :: "wait_result \<Rightarrow> bool" where
  "wait_ok w \<longleftrightarrow>
     (case w of WaitSignaled _ sig _ \<Rightarrow> 0 < sig | WaitExit _ code \<Rightarrow> code \<noteq> 0 | _ \<Rightarrow> True)"

lemma ExitInfoFromWait_Success:
  "wait_ok w \<Longrightarrow> ExitInfo_Success (ExitInfoFromWait w) \<longleftrightarrow> ei_Err (ExitInfoFromWait w) = None"
  by (cases w) (simp_all add: ExitInfo_Success_def ExitInfoFromWait_def wait_ok_def)

lemma ExitInfoFromWait_signal:
  "ei_Signaled (ExitInfoFromWait w) \<longleftrightarrow> (\<exists>err sig name. w = WaitSignaled err sig name)"
  by (cases w) (simp_all add: ExitInfoFromWait_def)

section \<open>BuildCommand (executor/builder.go)\<close>

record command =
  cm_Argv :: "string list"
  cm_Setpgid :: bool
  cm_Dir :: string
  cm_Env :: "string list"

definition BuildCommand ::
  "os_env \<Rightarrow> string \<Rightarrow> string list \<Rightarrow> string list \<Rightarrow> string gomap \<Rightarrow> string \<Rightarrow> command" where
  "BuildCommand os script args base extra workDir =
     (let pwd = (if workDir = '''' then (case os_getwd os of Some d \<Rightarrow> d | None \<Rightarrow> '''') else workDir)
      in \<lparr>cm_Argv = [''/bin/bash'', ''-c'', str_join '' '' (script # args)],
          cm_Setpgid = True,
          cm_Dir = workDir,
          cm_Env =
            filter (\<lambda>kv. \<not> prefix ''PWD='' kv) base @
            map (\<lambda>(k, v). k @ ''='' @ v) (filter (\<lambda>(k, v). k \<noteq> ''PWD'') extra) @
            (if pwd \<noteq> '''' then [''PWD='' @ pwd] else [])\<rparr>)"

text \<open>The child sees exactly one \<open>PWD\<close>, the directory it is started in.\<close>

lemma BuildCommand_PWD:
  assumes "workDir \<noteq> ''''" "\<forall>k \<in> set (gm_keys extra). CHR ''='' \<notin> set k"
  shows "filter (\<lambda>kv. prefix ''PWD='' kv) (cm_Env (BuildCommand os script args base extra workDir)) =
         [''PWD='' @ workDir]"
proof -
  have "\<not> prefix ''PWD='' (k @ ''='' @ v)" if "(k, v) \<in> set extra" "k \<noteq> ''PWD''" for k v
  proof
    assume "prefix ''PWD='' (k @ ''='' @ v)"
    then obtain r where r: "k @ ''='' @ v = ''PWD='' @ r" by (auto simp: prefix_def)
    have "CHR ''='' \<notin> set k" using assms(2) that(1) by (force simp: gm_keys_def)
    then have "str_index CHR ''='' (k @ CHR ''='' # v) = Some (length k)"
      by (rule str_index_append)
    moreover have "k @ CHR ''='' # v = ''PWD'' @ CHR ''='' # r" using r by simp
    moreover have "str_index CHR ''='' (''PWD'' @ CHR ''='' # r) = Some (length ''PWD'')"
      by (rule str_index_append) simp
    ultimately have "length k = length ''PWD''" by simp
    moreover have "k @ (''='' @ v) = ''PWD'' @ (''='' @ r)" using r by simp
    ultimately have "k = ''PWD''" using append_eq_append_conv [of k "''PWD''"] by blast
    with that(2) show False by simp
  qed
  then have "filter (\<lambda>kv. prefix ''PWD='' kv)
      (map (\<lambda>(k, v). k @ ''='' @ v) (filter (\<lambda>(k, v). k \<noteq> ''PWD'') extra)) = []"
    by (auto simp: filter_empty_conv)
  then show ?thesis
    using assms(1) by (simp add: BuildCommand_def Let_def filter_filter filter_empty_conv)
qed

section \<open>Start (executor/executor.go)\<close>

text \<open>The start request of the daemon (\<open>model.AppStartReq\<close>).\<close>

record app_start_req =
  rq_App :: app_config
  rq_CronTriggered :: bool

record start_env =
  se_os :: os_env
  se_mkdir :: "string option"
  se_open :: "string \<Rightarrow> string option"
  se_environ :: "string list"
  se_spawn :: "command \<Rightarrow> string + int"
  se_watch :: "string \<Rightarrow> bool"

datatype start_error =
    CreateTaskLogDir string
  | OpenStdoutLog string
  | OpenStderrLog string
  | StartProcess string

text \<open>\<open>sr_Cmd\<close> is the pid of the started command, \<open>None\<close> for a nil \<open>Cmd\<close>.\<close>

record start_result =
  sr_Cmd :: "int option"
  sr_Watcher :: bool
  sr_LogFile :: string
  sr_ErrFile :: string
  sr_CWD :: string

definition resolveWorkDir :: "os_env \<Rightarrow> app_config \<Rightarrow> string" where
  "resolveWorkDir os a =
     (let workDir = (if ac_CWD a = '''' then path_dir (ac_ConfigFile a) else ac_CWD a)
      in if os_exists os workDir
         then (case path_abs os workDir of Some absDir \<Rightarrow> absDir | None \<Rightarrow> workDir)
         else (case os_getwd os of Some cwd \<Rightarrow> cwd | None \<Rightarrow> ''''))"

definition is_cron_task :: "app_start_req \<Rightarrow> bool" where
  "is_cron_task req \<longleftrightarrow> ac_Cron (rq_App req) \<noteq> '''' \<and> \<not> rq_CronTriggered req"

text \<open>
  The second component lists the log writers still open when \<open>Start\<close> returns; the caller
  hands them to \<open>Watch\<close>, which closes them.
\<close>

definition Executor_Start ::
  "start_env \<Rightarrow> string \<Rightarrow> app_start_req \<Rightarrow> string \<Rightarrow> (start_error + start_result) \<times> string list" where
  "Executor_Start env homeDir req name =
     (let a = rq_App req;
          logFile = TaskLogPath homeDir name;
          errFile = TaskErrPath homeDir name
      in case se_mkdir env of Some e \<Rightarrow> (Inl (CreateTaskLogDir e), [])
      | None \<Rightarrow>
        (case se_open env logFile of Some e \<Rightarrow> (Inl (OpenStdoutLog e), [])
         | None \<Rightarrow>
           (case se_open env errFile of Some e \<Rightarrow> (Inl (OpenStderrLog e), [])
            | None \<Rightarrow>
              (let workDir = resolveWorkDir (se_os env) a
               in if is_cron_task req \<or> ac_Paused a then
                    (Inr \<lparr>sr_Cmd = None, sr_Watcher = False, sr_LogFile = logFile,
                          sr_ErrFile = errFile, sr_CWD = workDir\<rparr>, [])
                  else
                    (let base = (if ac_BaseEnv a = [] then se_environ env else ac_BaseEnv a);
                         cmd = BuildCommand (se_os env) (ac_Script a) (ac_Args a) base (ac_Env a) workDir
                     in case se_spawn env cmd of
                          Inl e \<Rightarrow> (Inl (StartProcess e), [])
                        | Inr pid \<Rightarrow>
                            (Inr \<lparr>sr_Cmd = Some pid,
                                  sr_Watcher = (ac_Watch a \<and> se_watch env (ac_Script a)),
                                  sr_LogFile = logFile, sr_ErrFile = errFile, sr_CWD = workDir\<rparr>,
                             [logFile, errFile]))))))"

lemma Executor_Start_idle:
  assumes "Executor_Start env home req name = (Inr r, hs)"
  shows "sr_Cmd r = None \<longleftrightarrow> is_cron_task req \<or> ac_Paused (rq_App req)"
  using assms by (auto simp: Executor_Start_def Let_def split: option.splits if_splits sum.splits)

lemma Executor_Start_paths:
  assumes "Executor_Start env home req name = (Inr r, hs)"
  shows "sr_LogFile r = TaskLogPath home name" "sr_ErrFile r = TaskErrPath home name"
    "sr_CWD r = resolveWorkDir (se_os env) (rq_App req)"
  using assms by (auto simp: Executor_Start_def Let_def split: option.splits if_splits sum.splits)

text \<open>No log handle outlives a launch that started no child.\<close>

lemma Executor_Start_handles:
  assumes "Executor_Start env home req name = (x, hs)"
  shows "hs = (case x of
                 Inr r \<Rightarrow> if sr_Cmd r = None then [] else [sr_LogFile r, sr_ErrFile r]
               | Inl _ \<Rightarrow> [])"
  using assms by (auto simp: Executor_Start_def Let_def split: option.splits if_splits sum.splits)

lemma Executor_Start_spawned:
  assumes "Executor_Start env home req name = (Inr r, hs)" "sr_Cmd r = Some pid"
  shows "\<exists>cmd. se_spawn env cmd = Inr pid \<and> cm_Setpgid cmd \<and>
    cm_Dir cmd = resolveWorkDir (se_os env) (rq_App req)"
proof -
  let ?a = "rq_App req"
  let ?base = "if ac_BaseEnv ?a = [] then se_environ env else ac_BaseEnv ?a"
  let ?cmd = "BuildCommand (se_os env) (ac_Script ?a) (ac_Args ?a) ?base (ac_Env ?a)
    (resolveWorkDir (se_os env) ?a)"
  have "se_spawn env ?cmd = Inr pid"
    using assms by (auto simp: Executor_Start_def Let_def split: option.splits if_splits sum.splits)
  then show ?thesis by (intro exI [of _ ?cmd]) (simp add: BuildCommand_def Let_def)
qed

section \<open>Watch and Stop (executor/executor.go)\<close>

datatype watch_action = CloseOut | CloseErr | CloseWatcher | CloseDone | OnExit exit_info

text \<open>The calls \<open>Watch\<close> makes after \<open>cmd.Wait\<close>, in order; absent arguments are skipped.\<close>

definition Executor_Watch ::
  "wait_result option \<Rightarrow> bool \<Rightarrow> bool \<Rightarrow> bool \<Rightarrow> bool \<Rightarrow> bool \<Rightarrow> watch_action list" where
  "Executor_Watch cmd outF errF watcher don onExit =
     (let exit = (case cmd of Some w \<Rightarrow> ExitInfoFromWait w | None \<Rightarrow> no_exit)
      in (if outF then [CloseOut] else []) @ (if errF then [CloseErr] else []) @
         (if watcher then [CloseWatcher] else []) @ (if don then [CloseDone] else []) @
         (if onExit then [OnExit exit] else []))"

datatype signal_sent = TermGroup int | KillLeader int | KillGroup int

datatype kill_outcome = KillOk | KillESRCH | KillFailed

text \<open>The signals \<open>Stop\<close> sends; \<open>done_in_time\<close> is whether \<open>done\<close> closes within the timeout.\<close>

definition stop_signals :: "kill_outcome \<Rightarrow> bool \<Rightarrow> int option \<Rightarrow> bool \<Rightarrow> signal_sent list" where
  "stop_signals killed done_in_time cmd has_done =
     (case cmd of
        None \<Rightarrow> []
      | Some pid \<Rightarrow>
          [TermGroup pid] @ (if killed = KillFailed then [KillLeader pid] else []) @
          (if has_done \<and> \<not> done_in_time then [KillGroup pid] else []))"

definition Executor_Stop ::
  "kill_outcome \<Rightarrow> bool \<Rightarrow> int option \<Rightarrow> bool \<Rightarrow> ('s \<Rightarrow> 's) \<Rightarrow> ('s \<Rightarrow> 's) \<Rightarrow>
   (signal_sent list \<Rightarrow> 's \<Rightarrow> 's) \<Rightarrow> 's \<Rightarrow> 's" where
  "Executor_Stop killed done_in_time cmd has_done onStopping onStopped deliver s =
     onStopped (deliver (stop_signals killed done_in_time cmd has_done) (onStopping s))"

text \<open>A child that ignores the termination signal is killed with its whole group.\<close>

lemma stop_signals_escalate:
  "KillGroup pid \<in> set (stop_signals k t cmd d) \<longleftrightarrow> cmd = Some pid \<and> d \<and> \<not> t"
  by (auto simp: stop_signals_def split: option.splits if_splits)

lemma stop_signals_term: "TermGroup pid \<in> set (stop_signals k t cmd d) \<longleftrightarrow> cmd = Some pid"
  by (auto simp: stop_signals_def split: option.splits)

end
