(* ===== verification/Registry.thy ===== *)
theory Registry
  imports Run_History Executor
begin

text \<open>
  \<open>daemon/process_registry.go\<close> and \<open>daemon/cron_key.go\<close>: the map from
  \<open>namespace:name\<close> to the managed process, its lookups by target, and the guarded
  field updates. A \<open>*ManagedProcess\<close> is a value with its identity in \<open>mp_addr\<close>; its
  namespace, name and command never change after it is made, so a stale copy still carries
  what the code reads through a stale pointer.
\<close>

section \<open>Managed processes\<close>

text \<open>\<open>mp_Cmd\<close> is the pid of the command handle, \<open>None\<close> for a nil \<open>Cmd\<close>.\<close>

record managed_process =
  mp_addr :: nat
  mp_Info :: process_info
  mp_Cmd :: "int option"
  mp_stopping :: bool
  mp_paused :: bool
  mp_Watcher :: bool
  mp_runID :: string
  mp_trigger :: trigger

type_synonym registry = "managed_process gomap"

abbreviation mp_ns :: "managed_process \<Rightarrow> string" where
  "mp_ns mp \<equiv> ac_Namespace (pi_App (mp_Info mp))"

abbreviation mp_name :: "managed_process \<Rightarrow> string" where
  "mp_name mp \<equiv> ac_Name (pi_App (mp_Info mp))"

definition cronKey :: "string \<Rightarrow> string \<Rightarrow> string" where
  "cronKey ns name = ns @ '':'' @ name"

definition mp_key :: "managed_process \<Rightarrow> string" where
  "mp_key mp = cronKey (mp_ns mp) (mp_name mp)"

section \<open>\<open>fmt.Sscan\<close> into an \<open>int\<close>\<close>

definition base_digit :: "nat \<Rightarrow> char \<Rightarrow> nat option" where
  "base_digit b c =
     (let n = of_char (lower_char c) :: nat;
          d = (if is_digit c then digit_val c else if 97 \<le> n \<and> n \<le> 102 then n - 87 else 99)
      in if d < b then Some d else None)"

definition scan_digit :: "nat \<Rightarrow> char \<Rightarrow> bool" where
  "scan_digit b c \<longleftrightarrow> base_digit b c \<noteq> None \<or> c = CHR ''_''"

text \<open>
  The underscore rule of \<open>strconv\<close>: one between two digits, or between the base prefix and a
  digit. \<open>prev\<close> says whether the last character was a digit or the prefix.
\<close>

fun underscores_ok :: "bool \<Rightarrow> string \<Rightarrow> bool" where
  "underscores_ok prev [] = True"
| "underscores_ok prev (c # cs) =
     (if c = CHR ''_'' then prev \<and> cs \<noteq> [] \<and> hd cs \<noteq> CHR ''_'' \<and> underscores_ok False cs
      else underscores_ok True cs)"

fun base_value :: "nat \<Rightarrow> int \<Rightarrow> string \<Rightarrow> int" where
  "base_value b v [] = v"
| "base_value b v (c # cs) =
     (case base_digit b c of
        None \<Rightarrow> base_value b v cs
      | Some d \<Rightarrow> base_value b (int b * v + int d) cs)"

definition signed_int :: "bool \<Rightarrow> int \<Rightarrow> int option" where
  "signed_int neg v = (let i = (if neg then - v else v) in if int64_ok i then Some i else None)"

text \<open>
  \<open>fmt.Sscan(s, &idVal)\<close> on one operand: leading space, a sign, an optional base prefix,
  the longest run of digits of that base. What follows the run is left unread, which is no
  error.
\<close>

definition sscan_int :: "string \<Rightarrow> int option" where
  "sscan_int s =
     (let t = dropWhile is_space s;
          neg = (t \<noteq> [] \<and> hd t = CHR ''-'');
          u = (if t \<noteq> [] \<and> (hd t = CHR ''-'' \<or> hd t = CHR ''+'') then tl t else t)
      in case u of
           [] \<Rightarrow> None
         | c # r \<Rightarrow>
             if c \<noteq> CHR ''0'' then
               (let ds = takeWhile (scan_digit 10) u
                in if ds = [] \<or> \<not> underscores_ok False ds then None
                   else signed_int neg (base_value 10 0 ds))
             else
               (let p = (if r = [] then CHR ''_'' else lower_char (hd r));
                    b = (if p = CHR ''b'' then 2 else if p = CHR ''o'' then 8
                         else if p = CHR ''x'' then 16 else 0)
                in if b = 0 then
                     (let ds = takeWhile (scan_digit 8) r
                      in if \<not> underscores_ok True ds then None
                         else signed_int neg (base_value 8 0 ds))
                   else
                     (let ds = takeWhile (scan_digit b) (tl r)
                      in if ds = [] \<or> \<not> underscores_ok True ds then None
                         else signed_int neg (base_value b 0 ds))))"

section \<open>Operations\<close>

definition Registry_Add :: "string \<Rightarrow> managed_process \<Rightarrow> registry \<Rightarrow> registry" where
  "Registry_Add key mp r = gm_set key mp r"

definition Registry_Get :: "string \<Rightarrow> registry \<Rightarrow> managed_process option" where
  "Registry_Get key r = gm_get r key"

definition SnapshotOne :: "string \<Rightarrow> registry \<Rightarrow> process_info option" where
  "SnapshotOne key r = map_option mp_Info (gm_get r key)"

definition Registry_Remove :: "string \<Rightarrow> registry \<Rightarrow> managed_process option \<times> registry" where
  "Registry_Remove key r =
     (case gm_get r key of None \<Rightarrow> (None, r) | Some mp \<Rightarrow> (Some mp, gm_del key r))"

definition Registry_List :: "registry \<Rightarrow> managed_process list" where
  "Registry_List r = gm_vals r"

definition SnapshotMap :: "registry \<Rightarrow> registry" where
  "SnapshotMap r = map (\<lambda>(k, v). (k, v)) r"

record process_sample =
  ps_PID :: int
  ps_Online :: bool

definition info_online :: "process_info \<Rightarrow> bool" where
  "info_online i \<longleftrightarrow> 0 < pi_PID i \<and> pi_Status i = StatusOnline"

definition SnapshotForMetrics :: "registry \<Rightarrow> process_sample gomap" where
  "SnapshotForMetrics r =
     map (\<lambda>(k, mp). (k, \<lparr>ps_PID = pi_PID (mp_Info mp), ps_Online = info_online (mp_Info mp)\<rparr>)) r"

definition Registry_Snapshot :: "registry \<Rightarrow> process_info list" where
  "Registry_Snapshot r = map mp_Info (gm_vals r)"

definition SnapshotAppConfigs :: "registry \<Rightarrow> app_config list" where
  "SnapshotAppConfigs r =
     map (\<lambda>mp. (pi_App (mp_Info mp))\<lparr>ac_Paused := mp_paused mp\<rparr>) (gm_vals r)"

definition Registry_Len :: "registry \<Rightarrow> nat" where
  "Registry_Len r = length r"

definition FindByTarget :: "string \<Rightarrow> registry \<Rightarrow> managed_process list" where
  "FindByTarget target r =
     (if target = ''all'' then gm_vals r
      else case gm_get r target of
        Some mp \<Rightarrow> [mp]
      | None \<Rightarrow>
          (let byID = (case sscan_int target of
                         None \<Rightarrow> None
                       | Some idVal \<Rightarrow> find (\<lambda>mp. pi_ID (mp_Info mp) = idVal) (gm_vals r));
               byName = filter (\<lambda>mp. mp_name mp = target) (gm_vals r)
           in case byID of
                Some mp \<Rightarrow> [mp]
              | None \<Rightarrow>
                  if byName \<noteq> [] then byName
                  else filter (\<lambda>mp. mp_ns mp = target) (gm_vals r)))"

definition UpdateInfo ::
  "string \<Rightarrow> (managed_process \<Rightarrow> managed_process) \<Rightarrow> registry \<Rightarrow> bool \<times> registry" where
  "UpdateInfo key f r =
     (case gm_get r key of None \<Rightarrow> (False, r) | Some mp \<Rightarrow> (True, gm_set key (f mp) r))"

abbreviation upd_info :: "(process_info \<Rightarrow> process_info) \<Rightarrow> managed_process \<Rightarrow> managed_process" where
  "upd_info f mp \<equiv> mp\<lparr>mp_Info := f (mp_Info mp)\<rparr>"

definition UpdateMetrics :: "string \<Rightarrow> int \<Rightarrow> rat \<Rightarrow> 64 word \<Rightarrow> registry \<Rightarrow> bool \<times> registry" where
  "UpdateMetrics key expectedPID cpu mem r =
     (case gm_get r key of
        None \<Rightarrow> (False, r)
      | Some mp \<Rightarrow>
          if pi_PID (mp_Info mp) \<noteq> expectedPID then (False, r)
          else if info_online (mp_Info mp)
          then (True, gm_set key (upd_info (\<lambda>i. i\<lparr>pi_CPU := cpu, pi_Memory := mem\<rparr>) mp) r)
          else (True, gm_set key (upd_info (\<lambda>i. i\<lparr>pi_CPU := 0, pi_Memory := 0\<rparr>) mp) r))"

definition UpdateCronStatus :: "string \<Rightarrow> gotime \<Rightarrow> string \<Rightarrow> registry \<Rightarrow> bool \<times> registry" where
  "UpdateCronStatus key firedAt st r =
     UpdateInfo key (upd_info (\<lambda>i. i\<lparr>pi_LastCronAt := firedAt, pi_LastCronStatus := st\<rparr>)) r"

definition UpdateCronOutcome :: "string \<Rightarrow> string \<Rightarrow> registry \<Rightarrow> bool \<times> registry" where
  "UpdateCronOutcome key st r =
     UpdateInfo key (upd_info (\<lambda>i. i\<lparr>pi_LastCronStatus := st\<rparr>)) r"

definition findExistingForLaunch ::
  "string \<Rightarrow> string \<Rightarrow> string \<Rightarrow> registry \<Rightarrow> (managed_process \<times> string) option" where
  "findExistingForLaunch ns name configFile r =
     (case gm_get r (cronKey ns name) of
        Some m \<Rightarrow> Some (m, cronKey ns name)
      | None \<Rightarrow>
          if configFile = '''' then None
          else map_option (\<lambda>(k, m). (m, k))
            (find (\<lambda>(k, m). mp_name m = name \<and> ac_ConfigFile (pi_App (mp_Info m)) = configFile) r))"

section \<open>The registry as a table\<close>

text \<open>
  What the manager relies on: an entry is found under its key, an update touches one key, and
  an absent key is never created by an update.
\<close>

locale process_table =
  fixes ok :: "'s \<Rightarrow> bool"
    and look :: "string \<Rightarrow> 's \<Rightarrow> 'v option"
    and put :: "string \<Rightarrow> 'v \<Rightarrow> 's \<Rightarrow> 's"
    and drop :: "string \<Rightarrow> 's \<Rightarrow> 's"
    and upd :: "string \<Rightarrow> ('v \<Rightarrow> 'v) \<Rightarrow> 's \<Rightarrow> 's"
  assumes ok_put: "ok s \<Longrightarrow> ok (put k v s)"
    and ok_drop: "ok s \<Longrightarrow> ok (drop k s)"
    and ok_upd: "ok s \<Longrightarrow> ok (upd k f s)"
    and look_put: "look k' (put k v s) = (if k' = k then Some v else look k' s)"
    and look_drop: "look k' (drop k s) = (if k' = k then None else look k' s)"
    and look_upd: "look k' (upd k f s) = (if k' = k then map_option f (look k s) else look k' s)"
begin

lemma look_upd_absent: "look k s = None \<Longrightarrow> look k' (upd k f s) = look k' s"
  by (simp add: look_upd)

lemma look_upd_upd: "look k' (upd k f (upd k g s)) = look k' (upd k (f \<circ> g) s)"
  by (simp add: look_upd option.map_comp)

lemma look_upd_commute: "k \<noteq> l \<Longrightarrow> look k' (upd k f (upd l g s)) = look k' (upd l g (upd k f s))"
  by (simp add: look_upd)

lemma look_drop_upd: "look k' (drop k (upd k f s)) = look k' (drop k s)"
  by (simp add: look_upd look_drop)

text \<open>A write computed while the entry was replaced or removed lands on what is there now.\<close>

lemma look_upd_put: "look k' (upd k f (put k v s)) = look k' (put k (f v) s)"
  by (simp add: look_upd look_put)

lemma look_fold_upd:
  "distinct (map fst kfs) \<Longrightarrow>
   look k' (fold (\<lambda>(k, f). upd k f) kfs s) =
     (case map_of kfs k' of None \<Rightarrow> look k' s | Some f \<Rightarrow> map_option f (look k' s))"
proof (induction kfs arbitrary: s)
  case (Cons x kfs)
  obtain k f where x: "x = (k, f)" by (cases x)
  have "map_of kfs k = None" using Cons.prems by (simp add: x map_of_eq_None_iff)
  with Cons show ?case by (auto simp: x look_upd split: option.split)
qed simp

end

interpretation reg: process_table gm_ok Registry_Get Registry_Add
  "\<lambda>k r. snd (Registry_Remove k r)" "\<lambda>k f r. snd (UpdateInfo k f r)"
  by unfold_locales
    (auto simp: Registry_Get_def Registry_Add_def Registry_Remove_def UpdateInfo_def registry_simps
      split: option.splits)

lemma UpdateInfo_get [registry_simps]:
  "gm_get (snd (UpdateInfo k f r)) k' = (if k' = k then map_option f (gm_get r k) else gm_get r k')"
  using reg.look_upd [of k' k f r] by (simp add: Registry_Get_def)

lemma UpdateInfo_ok [simp]: "gm_ok r \<Longrightarrow> gm_ok (snd (UpdateInfo k f r))"
  by (rule reg.ok_upd)

lemma UpdateInfo_found: "fst (UpdateInfo k f r) \<longleftrightarrow> gm_get r k \<noteq> None"
  by (simp add: UpdateInfo_def split: option.split)

lemma Registry_Remove_get [registry_simps]:
  "gm_get (snd (Registry_Remove k r)) k' = (if k' = k then None else gm_get r k')"
  using reg.look_drop [of k' k r] by (simp add: Registry_Get_def)

lemma UpdateMetrics_get [registry_simps]:
  "gm_get (snd (UpdateMetrics k pid cpu mem r)) k' =
     (if k' = k
      then map_option (\<lambda>mp. if pi_PID (mp_Info mp) \<noteq> pid then mp
             else if info_online (mp_Info mp) then upd_info (\<lambda>i. i\<lparr>pi_CPU := cpu, pi_Memory := mem\<rparr>) mp
             else upd_info (\<lambda>i. i\<lparr>pi_CPU := 0, pi_Memory := 0\<rparr>) mp) (gm_get r k)
      else gm_get r k')"
  by (auto simp: UpdateMetrics_def registry_simps split: option.split)

lemma UpdateMetrics_ok [simp]: "gm_ok r \<Longrightarrow> gm_ok (snd (UpdateMetrics k pid cpu mem r))"
  by (auto simp: UpdateMetrics_def split: option.split)

section \<open>Well-formed registries\<close>

text \<open>Every entry sits under the key of its own namespace and name.\<close>

definition keys_ok :: "registry \<Rightarrow> bool" where
  "keys_ok r \<longleftrightarrow> gm_ok r \<and> (\<forall>k mp. gm_get r k = Some mp \<longrightarrow> k = mp_key mp)"

definition ids_ok :: "int \<Rightarrow> registry \<Rightarrow> bool" where
  "ids_ok n r \<longleftrightarrow>
     (\<forall>k mp. gm_get r k = Some mp \<longrightarrow> 0 \<le> pi_ID (mp_Info mp) \<and> pi_ID (mp_Info mp) < n) \<and>
     (\<forall>k mp k' mp'. gm_get r k = Some mp \<and> gm_get r k' = Some mp' \<and>
        pi_ID (mp_Info mp) = pi_ID (mp_Info mp') \<longrightarrow> k = k')"

lemma keys_ok_UpdateInfo:
  assumes "keys_ok r" "\<And>mp. mp_key (f mp) = mp_key mp"
  shows "keys_ok (snd (UpdateInfo k f r))"
  using assms by (auto simp: keys_ok_def registry_simps)

lemma keys_ok_Remove: "keys_ok r \<Longrightarrow> keys_ok (gm_del k r)"
  by (auto simp: keys_ok_def registry_simps)

lemma keys_ok_set: "keys_ok r \<Longrightarrow> keys_ok (gm_set (mp_key mp) mp r)"
  by (auto simp: keys_ok_def registry_simps)

lemma ids_ok_UpdateInfo:
  assumes "ids_ok n r" "\<And>mp. pi_ID (mp_Info (f mp)) = pi_ID (mp_Info mp)"
  shows "ids_ok n (snd (UpdateInfo k f r))"
  using assms by (auto simp: ids_ok_def registry_simps split: if_splits)

lemma ids_ok_Remove: "ids_ok n r \<Longrightarrow> ids_ok n (gm_del k r)"
  by (auto simp: ids_ok_def registry_simps split: if_splits)

lemma vals_mp_key: "keys_ok r \<Longrightarrow> mp \<in> set (gm_vals r) \<Longrightarrow> gm_get r (mp_key mp) = Some mp"
  using gm_vals_get by (fastforce simp: keys_ok_def)

lemma map_mp_key_vals: "keys_ok r \<Longrightarrow> map mp_key (gm_vals r) = gm_keys r"
  by (auto simp: keys_ok_def gm_vals_def gm_keys_def gm_get_in_set)

lemma distinct_vals_keys: "keys_ok r \<Longrightarrow> distinct (map mp_key (gm_vals r))"
  by (simp add: map_mp_key_vals distinct_gm_keys keys_ok_def)

section \<open>Targets\<close>

lemma FindByTarget_sound: "set (FindByTarget t r) \<subseteq> set (gm_vals r)"
proof -
  have "mp \<in> set (gm_vals r)" if "gm_get r k = Some mp" for k mp
    using gm_get_SomeD [OF that] by (force simp: gm_vals_def)
  moreover have "mp \<in> set xs" if "find P xs = Some mp" for P mp and xs :: "managed_process list"
    using that by (auto simp: find_Some_iff)
  ultimately show ?thesis
    by (auto simp: FindByTarget_def Let_def split: option.splits if_splits)
qed

lemma FindByTarget_get:
  assumes "keys_ok r" "mp \<in> set (FindByTarget t r)"
  shows "gm_get r (mp_key mp) = Some mp"
  using assms FindByTarget_sound vals_mp_key by blast

lemma FindByTarget_distinct: "keys_ok r \<Longrightarrow> distinct (map mp_key (FindByTarget t r))"
  using distinct_vals_keys [of r]
  by (auto simp: FindByTarget_def Let_def distinct_map_filter split: option.split)

lemma cronKey_colon: "CHR '':'' \<in> set (cronKey ns name)"
  by (simp add: cronKey_def)

lemma FindByTarget_key:
  assumes "gm_get r (cronKey ns name) = Some mp"
  shows "FindByTarget (cronKey ns name) r = [mp]"
proof -
  have "cronKey ns name \<noteq> ''all''" using cronKey_colon [of ns name] by auto
  then show ?thesis using assms by (simp add: FindByTarget_def)
qed

lemma scan_digit_not_underscore: "scan_digit 10 c \<Longrightarrow> c \<noteq> CHR ''_'' \<Longrightarrow> is_digit c"
  by (auto simp: scan_digit_def base_digit_def Let_def split: if_splits)

lemma is_digit_scan: "is_digit c \<Longrightarrow> scan_digit 10 c \<and> base_digit 10 c = Some (digit_val c) \<and> c \<noteq> CHR ''_''"
  by (auto simp: scan_digit_def base_digit_def Let_def is_digit_def digit_val_def)

lemma underscores_ok_digits: "list_all is_digit ds \<Longrightarrow> underscores_ok prev ds"
proof (induction ds arbitrary: prev)
  case (Cons c cs)
  moreover have "c \<noteq> CHR ''_''" using Cons.prems is_digit_scan [of c] by simp
  ultimately show ?case by simp
qed simp

lemma base_value_digits:
  "list_all is_digit ds \<Longrightarrow> base_value 10 v ds = v * 10 ^ length ds + int (digits_val ds)"
proof (induction ds arbitrary: v rule: rev_induct)
  case (snoc c cs)
  have app: "base_value 10 v (cs @ [c]) = 10 * base_value 10 v cs + int (digit_val c)"
    using snoc.prems
  proof (induction cs arbitrary: v)
    case Nil
    then show ?case using is_digit_scan [of c] by simp
  next
    case (Cons d ds)
    then show ?case using is_digit_scan [of d] by simp
  qed
  show ?case using snoc by (simp add: app algebra_simps)
qed (simp add: digits_val_def)

text \<open>
  A run of digits that starts with a positive digit reads as its value whatever follows it,
  which is how a target such as \<open>2fa\<close> reads as the number 2.
\<close>

lemma sscan_int_digits:
  assumes "list_all is_digit ds" "ds \<noteq> []" "hd ds \<noteq> CHR ''0''" "int64_ok (int (digits_val ds))"
    "rest = [] \<or> \<not> scan_digit 10 (hd rest)"
  shows "sscan_int (ds @ rest) = Some (int (digits_val ds))"
proof -
  obtain c cs where ds: "ds = c # cs" using assms(2) by (cases ds) auto
  have c: "is_digit c" using assms(1) by (simp add: ds)
  then have c': "\<not> is_space c" "c \<noteq> CHR ''-''" "c \<noteq> CHR ''+''"
    by (auto simp: is_digit_def is_space_def Let_def)
  have tw: "takeWhile (scan_digit 10) (ds @ rest) = ds"
  proof -
    have "\<forall>d \<in> set ds. scan_digit 10 d" using assms(1) is_digit_scan by (auto simp: list_all_iff)
    then have "takeWhile (scan_digit 10) (ds @ rest) = ds @ takeWhile (scan_digit 10) rest"
      by (simp add: takeWhile_append2)
    also have "takeWhile (scan_digit 10) rest = []" using assms(5) by (cases rest) auto
    finally show ?thesis by simp
  qed
  have tw': "takeWhile (scan_digit 10) (c # cs @ rest) = c # cs" using tw by (simp add: ds)
  have "base_value 10 0 ds = int (digits_val ds)" using base_value_digits [OF assms(1), of 0] by simp
  moreover have "underscores_ok False ds" by (rule underscores_ok_digits [OF assms(1)])
  ultimately show ?thesis
    using assms(3,4) c' tw' unfolding sscan_int_def ds
    by (simp add: Let_def signed_int_def del: takeWhile.simps)
qed

lemma hd_nat_digits: "0 < n \<Longrightarrow> hd (nat_digits n) \<noteq> CHR ''0''"
proof (induction n rule: nat_digits.induct)
  case (1 n)
  have c0: "CHR ''0'' = char_of (48 :: nat)" by code_simp
  have *: "char_of (48 + n) \<noteq> CHR ''0''" if "n < 10"
  proof
    assume "char_of (48 + n) = CHR ''0''"
    then have "of_char (char_of (48 + n)) = (of_char (CHR ''0'') :: nat)" by simp
    with that 1(2) show False by simp
  qed
  show ?case
  proof (cases "n < 10")
    case True
    then have "nat_digits n = [char_of (48 + n)]" by (subst nat_digits.simps) simp
    then show ?thesis using * [OF True] by simp
  next
    case False
    then have "nat_digits n = nat_digits (n div 10) @ [char_of (48 + n mod 10)]"
      by (subst nat_digits.simps) simp
    moreover have "0 < n div 10" using False by simp
    ultimately show ?thesis using 1(1) [OF False] by (simp add: hd_append)
  qed
qed

lemma sscan_int_itoa:
  assumes "0 \<le> i" "int64_ok i"
  shows "sscan_int (itoa i) = Some i"
proof (cases "i = 0")
  case True
  have "sscan_int (itoa 0) = Some 0" by code_simp
  with True show ?thesis by simp
next
  case False
  with assms have "0 < nat i" by simp
  from sscan_int_digits [of "nat_digits (nat i)" "[]"] hd_nat_digits [OF this]
  show ?thesis using assms by (simp add: itoa_def nat_digits_are_digits)
qed

lemma find_unique:
  assumes "x \<in> set xs" "P x" "\<And>y. y \<in> set xs \<Longrightarrow> P y \<Longrightarrow> y = x"
  shows "find P xs = Some x"
  using assms
proof (induction xs)
  case (Cons a xs)
  show ?case
  proof (cases "P a")
    case True
    then show ?thesis using Cons.prems(3) [of a] by simp
  next
    case False
    have "x \<in> set xs" using Cons.prems(1,2) False by auto
    moreover have "y = x" if "y \<in> set xs" "P y" for y
      using that by (intro Cons.prems(3)) simp_all
    ultimately have "find P xs = Some x" using Cons.prems(2) by (intro Cons.IH)
    with False show ?thesis by simp
  qed
qed simp

lemma find_ID:
  assumes "keys_ok r" "ids_ok n r" "gm_get r k = Some mp"
  shows "find (\<lambda>m. pi_ID (mp_Info m) = pi_ID (mp_Info mp)) (gm_vals r) = Some mp"
proof (rule find_unique)
  show "mp \<in> set (gm_vals r)"
    using assms(1,3) by (auto simp: keys_ok_def gm_vals_get)
  show "y = mp" if "y \<in> set (gm_vals r)" "pi_ID (mp_Info y) = pi_ID (mp_Info mp)" for y
  proof -
    have "gm_get r (mp_key y) = Some y" by (rule vals_mp_key [OF assms(1) that(1)])
    moreover from this have "mp_key y = k" using assms(2,3) that(2) unfolding ids_ok_def by blast
    ultimately show ?thesis using assms(3) by simp
  qed
qed simp

text \<open>
  A target that reads as the number of a registered process selects that process alone, unless
  it is the literal key of another.
\<close>

lemma FindByTarget_ID:
  assumes "keys_ok r" "ids_ok n r" "gm_get r k = Some mp"
    "sscan_int t = Some (pi_ID (mp_Info mp))" "gm_get r t = None" "t \<noteq> ''all''"
  shows "FindByTarget t r = [mp]"
  using assms find_ID [OF assms(1-3)] by (simp add: FindByTarget_def)

lemma keys_ok_colon: "keys_ok r \<Longrightarrow> CHR '':'' \<notin> set t \<Longrightarrow> gm_get r t = None"
  using cronKey_colon by (cases "gm_get r t") (auto simp: keys_ok_def mp_key_def)

lemma itoa_no_colon: "CHR '':'' \<notin> set (itoa i)"
proof -
  have "\<not> is_digit CHR '':''" by code_simp
  then show ?thesis by (simp add: itoa_def not_digit_notin_nat_digits)
qed

lemma FindByTarget_itoa:
  assumes "keys_ok r" "ids_ok n r" "gm_get r k = Some mp" "int64_ok (pi_ID (mp_Info mp))"
  shows "FindByTarget (itoa (pi_ID (mp_Info mp))) r = [mp]"
proof -
  have nn: "0 \<le> pi_ID (mp_Info mp)" using assms(2,3) by (auto simp: ids_ok_def)
  have "sscan_int ''all'' = None" by code_simp
  then have "itoa (pi_ID (mp_Info mp)) \<noteq> ''all''"
    using sscan_int_itoa [OF nn assms(4)] by auto
  then show ?thesis
    using assms keys_ok_colon [OF assms(1) itoa_no_colon] sscan_int_itoa [OF nn assms(4)]
    by (intro FindByTarget_ID) auto
qed

lemma FindByTarget_name:
  assumes "gm_get r t = None" "sscan_int t = None" "t \<noteq> ''all''"
    "\<exists>mp \<in> set (gm_vals r). mp_name mp = t"
  shows "FindByTarget t r = filter (\<lambda>mp. mp_name mp = t) (gm_vals r)"
  using assms by (auto simp: FindByTarget_def filter_empty_conv)

lemma findExisting_found:
  assumes "findExistingForLaunch ns name cf r = Some (mp, k)" "gm_ok r"
  shows "gm_get r k = Some mp"
proof (cases "gm_get r (cronKey ns name)")
  case None
  then obtain x where "find (\<lambda>(k, m). mp_name m = name \<and> ac_ConfigFile (pi_App (mp_Info m)) = cf) r = Some x"
    "x = (k, mp)"
    using assms(1) by (auto simp: findExistingForLaunch_def split: if_splits)
  then have "(k, mp) \<in> set r" by (auto dest: find_SomeD)
  then show ?thesis using assms(2) by (simp add: gm_get_in_set)
qed (use assms(1) in \<open>simp add: findExistingForLaunch_def\<close>)

lemma findExisting_same_key:
  assumes "findExistingForLaunch ns name cf r = Some (mp, k)" "k \<noteq> cronKey ns name"
  shows "gm_get r (cronKey ns name) = None"
  using assms by (auto simp: findExistingForLaunch_def split: option.splits)

end
