(* ===== verification/Cron_Scheduler.thy ===== *)
theory Cron_Scheduler
  imports Prelude
begin

text \<open>
  \<open>cron/scheduler.go\<close>: the per-process bookkeeping on top of \<open>robfig/cron\<close>. The library
  itself is a table of armed jobs with fresh entry ids; which schedule strings it parses is the
  parameter \<open>valid_spec\<close>. A job is a value of type \<open>'j\<close> that names the callback.
\<close>

record 'j cron_entry =
  ce_ID :: nat
  ce_Spec :: string
  ce_Job :: 'j

record 'j scheduler =
  sc_entries :: "nat gomap"
  sc_cron :: "'j cron_entry list"
  sc_nextID :: nat

datatype sched_error = SchedParse string

definition Scheduler_New :: "'j scheduler" where
  "Scheduler_New = \<lparr>sc_entries = [], sc_cron = [], sc_nextID = 0\<rparr>"

text \<open>\<open>cron.Remove(id)\<close> and \<open>cron.AddFunc(spec, job)\<close> of the library.\<close>

definition cron_remove :: "nat \<Rightarrow> 'j cron_entry list \<Rightarrow> 'j cron_entry list" where
  "cron_remove i es = filter (\<lambda>e. ce_ID e \<noteq> i) es"

definition Scheduler_Remove :: "string \<Rightarrow> 'j scheduler \<Rightarrow> 'j scheduler" where
  "Scheduler_Remove name s =
     (case gm_get (sc_entries s) name of
        Some i \<Rightarrow> s\<lparr>sc_cron := cron_remove i (sc_cron s),
                   sc_entries := gm_del name (sc_entries s)\<rparr>
      | None \<Rightarrow> s)"

definition Scheduler_Register ::
  "(string \<Rightarrow> bool) \<Rightarrow> string \<Rightarrow> string \<Rightarrow> 'j \<Rightarrow> 'j scheduler \<Rightarrow> sched_error option \<times> 'j scheduler" where
  "Scheduler_Register valid_spec name schedule job s0 =
     (let s = (case gm_get (sc_entries s0) name of
                 Some i \<Rightarrow> s0\<lparr>sc_cron := cron_remove i (sc_cron s0),
                              sc_entries := gm_del name (sc_entries s0)\<rparr>
               | None \<Rightarrow> s0)
      in if schedule = '''' then (None, s)
         else if \<not> valid_spec schedule then (Some (SchedParse schedule), s)
         else (None,
               s\<lparr>sc_cron := sc_cron s @ [\<lparr>ce_ID = sc_nextID s, ce_Spec = schedule, ce_Job = job\<rparr>],
                 sc_nextID := Suc (sc_nextID s),
                 sc_entries := gm_set name (sc_nextID s) (sc_entries s)\<rparr>))"

definition Scheduler_EntryCount :: "'j scheduler \<Rightarrow> nat" where
  "Scheduler_EntryCount s = length (sc_entries s)"

section \<open>What a name has armed\<close>

definition cron_find :: "nat \<Rightarrow> 'j cron_entry list \<Rightarrow> (string \<times> 'j) option" where
  "cron_find i es = map_option (\<lambda>e. (ce_Spec e, ce_Job e)) (find (\<lambda>e. ce_ID e = i) es)"

definition armed :: "'j scheduler \<Rightarrow> string \<Rightarrow> (string \<times> 'j) option" where
  "armed s name = Option.bind (gm_get (sc_entries s) name) (\<lambda>i. cron_find i (sc_cron s))"

text \<open>
  The bookkeeping and the library's table agree: every recorded id is armed exactly once under
  one name, and nothing is armed that no name records.
\<close>

definition sched_ok :: "'j scheduler \<Rightarrow> bool" where
  "sched_ok s \<longleftrightarrow>
     gm_ok (sc_entries s) \<and>
     (\<forall>n n' i. gm_get (sc_entries s) n = Some i \<and> gm_get (sc_entries s) n' = Some i \<longrightarrow> n = n') \<and>
     distinct (map ce_ID (sc_cron s)) \<and>
     (\<forall>i. i \<in> ce_ID ` set (sc_cron s) \<longleftrightarrow> (\<exists>n. gm_get (sc_entries s) n = Some i)) \<and>
     (\<forall>i \<in> ce_ID ` set (sc_cron s). i < sc_nextID s)"

lemma cron_find_remove: "cron_find i (cron_remove j es) = (if i = j then None else cron_find i es)"
  by (induction es) (auto simp: cron_find_def cron_remove_def)

lemma cron_find_append:
  "cron_find i (es @ [e]) =
     (case cron_find i es of Some x \<Rightarrow> Some x
      | None \<Rightarrow> if ce_ID e = i then Some (ce_Spec e, ce_Job e) else None)"
  by (induction es) (auto simp: cron_find_def)

lemma cron_find_None: "i \<notin> ce_ID ` set es \<Longrightarrow> cron_find i es = None"
  by (induction es) (auto simp: cron_find_def)

lemma cron_find_Some: "i \<in> ce_ID ` set es \<Longrightarrow> \<exists>x. cron_find i es = Some x"
  by (induction es) (auto simp: cron_find_def)

lemma ids_cron_remove [simp]: "ce_ID ` set (cron_remove i es) = ce_ID ` set es - {i}"
  by (auto simp: cron_remove_def)

lemma distinct_cron_remove [simp]:
  "distinct (map ce_ID es) \<Longrightarrow> distinct (map ce_ID (cron_remove i es))"
  by (simp add: cron_remove_def distinct_map_filter)

lemma sched_ok_New [simp]: "sched_ok Scheduler_New"
  by (simp add: sched_ok_def Scheduler_New_def)

lemma armed_New [simp]: "armed Scheduler_New n = None"
  by (simp add: armed_def Scheduler_New_def)

lemma sched_ok_Remove [simp]:
  assumes "sched_ok s"
  shows "sched_ok (Scheduler_Remove name s)"
proof (cases "gm_get (sc_entries s) name")
  case None
  with assms show ?thesis by (simp add: Scheduler_Remove_def)
next
  case (Some i)
  let ?s = "s\<lparr>sc_cron := cron_remove i (sc_cron s), sc_entries := gm_del name (sc_entries s)\<rparr>"
  have inj: "n = name" if "gm_get (sc_entries s) n = Some i" for n
    using assms Some that unfolding sched_ok_def by blast
  have "(j \<in> ce_ID ` set (sc_cron ?s)) = (\<exists>n. gm_get (sc_entries ?s) n = Some j)" for j
  proof -
    have "(j \<in> ce_ID ` set (sc_cron ?s)) = ((\<exists>n. gm_get (sc_entries s) n = Some j) \<and> j \<noteq> i)"
      using assms by (simp add: sched_ok_def)
    also have "\<dots> = (\<exists>n. gm_get (sc_entries ?s) n = Some j)"
    proof -
      have "gm_get (sc_entries ?s) n = Some j \<longleftrightarrow> gm_get (sc_entries s) n = Some j \<and> j \<noteq> i" for n
        using inj [of n] Some by (cases "n = name") (auto simp: registry_simps)
      then show ?thesis by simp
    qed
    finally show ?thesis .
  qed
  moreover have "n = n'" if "gm_get (sc_entries ?s) n = Some j" "gm_get (sc_entries ?s) n' = Some j"
    for n n' j
  proof -
    have "gm_get (sc_entries s) n = Some j" "gm_get (sc_entries s) n' = Some j"
      using that by (simp_all add: registry_simps split: if_splits)
    with assms show ?thesis unfolding sched_ok_def by blast
  qed
  moreover have "\<forall>j \<in> ce_ID ` set (sc_cron ?s). j < sc_nextID ?s"
    using assms by (auto simp: sched_ok_def)
  ultimately have "sched_ok ?s"
    using assms unfolding sched_ok_def by simp
  then show ?thesis using Some by (simp add: Scheduler_Remove_def)
qed

lemma armed_Remove [registry_simps]:
  assumes "sched_ok s"
  shows "armed (Scheduler_Remove name s) n = (if n = name then None else armed s n)"
proof (cases "gm_get (sc_entries s) name")
  case None
  then show ?thesis by (simp add: Scheduler_Remove_def armed_def)
next
  case (Some i)
  have "gm_get (sc_entries s) n \<noteq> Some i" if "n \<noteq> name"
    using assms Some that unfolding sched_ok_def by blast
  then show ?thesis
    using Some by (cases "gm_get (sc_entries s) n")
      (auto simp: Scheduler_Remove_def armed_def registry_simps cron_find_remove)
qed

lemma entry_Remove [simp]: "gm_get (sc_entries (Scheduler_Remove name s)) name = None"
  by (simp add: Scheduler_Remove_def registry_simps split: option.split)

lemma Scheduler_Register_alt:
  "Scheduler_Register vs name schedule job s =
     (let s = Scheduler_Remove name s
      in if schedule = '''' then (None, s)
         else if \<not> vs schedule then (Some (SchedParse schedule), s)
         else (None,
               s\<lparr>sc_cron := sc_cron s @ [\<lparr>ce_ID = sc_nextID s, ce_Spec = schedule, ce_Job = job\<rparr>],
                 sc_nextID := Suc (sc_nextID s),
                 sc_entries := gm_set name (sc_nextID s) (sc_entries s)\<rparr>))"
  by (simp add: Scheduler_Register_def Scheduler_Remove_def Let_def split: option.split)

lemma add_entry_ok:
  fixes s :: "'j scheduler" and sp :: string and job :: 'j
  assumes "sched_ok s" "gm_get (sc_entries s) name = None"
  defines "t \<equiv> s\<lparr>sc_cron := sc_cron s @ [\<lparr>ce_ID = sc_nextID s, ce_Spec = sp, ce_Job = job\<rparr>],
                 sc_nextID := Suc (sc_nextID s),
                 sc_entries := gm_set name (sc_nextID s) (sc_entries s)\<rparr>"
  shows "sched_ok t" "armed t n = (if n = name then Some (sp, job) else armed s n)"
proof -
  have fresh: "sc_nextID s \<notin> ce_ID ` set (sc_cron s)"
    using assms(1) unfolding sched_ok_def by blast
  then have free: "gm_get (sc_entries s) m \<noteq> Some (sc_nextID s)" for m
    using assms(1) unfolding sched_ok_def by blast
  have "(j \<in> ce_ID ` set (sc_cron t)) = (\<exists>n. gm_get (sc_entries t) n = Some j)" for j
  proof -
    have "(j \<in> ce_ID ` set (sc_cron t)) = (j = sc_nextID s \<or> (\<exists>n. gm_get (sc_entries s) n = Some j))"
      using assms(1) by (simp add: t_def sched_ok_def)
    also have "\<dots> = (\<exists>n. gm_get (sc_entries t) n = Some j)"
    proof (cases "j = sc_nextID s")
      case True
      then show ?thesis by (auto simp: t_def registry_simps)
    next
      case False
      then have "gm_get (sc_entries t) m = Some j \<longleftrightarrow> gm_get (sc_entries s) m = Some j" for m
        using assms(2) by (auto simp: t_def registry_simps)
      with False show ?thesis by simp
    qed
    finally show ?thesis .
  qed
  moreover have "m = n'" if "gm_get (sc_entries t) m = Some j" "gm_get (sc_entries t) n' = Some j"
    for m n' j
  proof -
    have u: "gm_get (sc_entries s) m = Some j \<Longrightarrow> gm_get (sc_entries s) n' = Some j \<Longrightarrow> m = n'"
      using assms(1) unfolding sched_ok_def by blast
    with that free show ?thesis by (auto simp: t_def registry_simps split: if_splits)
  qed
  moreover have "\<forall>j \<in> ce_ID ` set (sc_cron t). j < sc_nextID t"
    using assms(1) by (auto simp: t_def sched_ok_def less_Suc_eq)
  moreover have "distinct (map ce_ID (sc_cron t))" "gm_ok (sc_entries t)"
    using assms(1) fresh by (auto simp: t_def sched_ok_def)
  ultimately show "sched_ok t" unfolding sched_ok_def by blast
  show "armed t n = (if n = name then Some (sp, job) else armed s n)"
  proof (cases "n = name")
    case True
    then show ?thesis
      using cron_find_None [OF fresh] by (simp add: t_def armed_def registry_simps cron_find_append)
  next
    case False
    then show ?thesis
      using free [of n] by (cases "gm_get (sc_entries s) n")
        (auto simp: t_def armed_def registry_simps cron_find_append split: option.splits)
  qed
qed

lemma sched_ok_Register [simp]:
  "sched_ok s \<Longrightarrow> sched_ok (snd (Scheduler_Register vs name sp job s))"
  unfolding Scheduler_Register_alt Let_def
  using add_entry_ok(1) [of "Scheduler_Remove name s" name] by simp

lemma armed_Register [registry_simps]:
  assumes "sched_ok s"
  shows "armed (snd (Scheduler_Register vs name sp job s)) n =
           (if n = name then (if sp \<noteq> '''' \<and> vs sp then Some (sp, job) else None) else armed s n)"
  using add_entry_ok(2) [of "Scheduler_Remove name s" name] assms
  by (simp add: Scheduler_Register_alt Let_def armed_Remove)

lemma Register_error:
  "fst (Scheduler_Register vs name sp job s) =
     (if sp \<noteq> '''' \<and> \<not> vs sp then Some (SchedParse sp) else None)"
  by (simp add: Scheduler_Register_def Let_def split: option.split)

text \<open>\<open>EntryCount\<close> counts the armed names.\<close>

lemma armed_iff_entry: "sched_ok s \<Longrightarrow> armed s n \<noteq> None \<longleftrightarrow> gm_get (sc_entries s) n \<noteq> None"
proof -
  assume ok: "sched_ok s"
  have "\<exists>x. cron_find i (sc_cron s) = Some x" if "gm_get (sc_entries s) n = Some i" for i
    using ok that cron_find_Some unfolding sched_ok_def by blast
  then show ?thesis by (cases "gm_get (sc_entries s) n") (auto simp: armed_def)
qed

lemma EntryCount_armed: "sched_ok s \<Longrightarrow> Scheduler_EntryCount s = card {n. armed s n \<noteq> None}"
proof -
  assume ok: "sched_ok s"
  have "{n. armed s n \<noteq> None} = set (gm_keys (sc_entries s))"
    using armed_iff_entry [OF ok] gm_keys_get by blast
  moreover have "distinct (gm_keys (sc_entries s))"
    using ok by (simp add: sched_ok_def distinct_gm_keys)
  ultimately show ?thesis
    by (simp add: Scheduler_EntryCount_def distinct_card) (simp add: gm_keys_def)
qed

section \<open>The interface the clients rely on\<close>

text \<open>Walking a list of names with their schedules, arming or disarming each.\<close>

fun sweep ::
  "(string \<Rightarrow> string \<Rightarrow> 'j \<Rightarrow> 's \<Rightarrow> 's) \<Rightarrow> (string \<Rightarrow> 's \<Rightarrow> 's) \<Rightarrow>
   (string \<times> string \<times> 'j) list \<Rightarrow> 's \<Rightarrow> 's" where
  "sweep arm disarm [] s = s"
| "sweep arm disarm ((n, sp, j) # xs) s =
     sweep arm disarm xs (if sp = '''' then disarm n s else arm n sp j s)"

text \<open>
  A scheduler, seen by its clients, maps a name to at most one armed job; both the process
  manager and the workflow engine use only these laws.
\<close>

locale job_table =
  fixes ok :: "'s \<Rightarrow> bool"
    and look :: "'s \<Rightarrow> string \<Rightarrow> (string \<times> 'j) option"
    and arm :: "string \<Rightarrow> string \<Rightarrow> 'j \<Rightarrow> 's \<Rightarrow> 's"
    and disarm :: "string \<Rightarrow> 's \<Rightarrow> 's"
    and valid :: "string \<Rightarrow> bool"
  assumes ok_arm: "ok s \<Longrightarrow> ok (arm n sp j s)"
    and ok_disarm: "ok s \<Longrightarrow> ok (disarm n s)"
    and look_arm: "ok s \<Longrightarrow>
      look (arm n sp j s) m =
        (if m = n then (if sp \<noteq> '''' \<and> valid sp then Some (sp, j) else None) else look s m)"
    and look_disarm: "ok s \<Longrightarrow> look (disarm n s) m = (if m = n then None else look s m)"
begin

lemma look_arm_same: "ok s \<Longrightarrow> sp \<noteq> '''' \<Longrightarrow> valid sp \<Longrightarrow> look (arm n sp j s) n = Some (sp, j)"
  by (simp add: look_arm)

lemma look_arm_other: "ok s \<Longrightarrow> m \<noteq> n \<Longrightarrow> look (arm n sp j s) m = look s m"
  by (simp add: look_arm)

lemma disarm_arm: "ok s \<Longrightarrow> look (disarm n (arm n sp j s)) m = look (disarm n s) m"
  by (simp add: look_arm look_disarm ok_arm)

text \<open>Arming is idempotent: only the last registration of a name counts.\<close>

lemma arm_arm: "ok s \<Longrightarrow> look (arm n sp j (arm n sp' j' s)) m = look (arm n sp j s) m"
  by (simp add: look_arm ok_arm)

lemma ok_sweep: "ok s \<Longrightarrow> ok (sweep arm disarm xs s)"
proof (induction xs arbitrary: s)
  case (Cons x xs)
  then show ?case by (cases x) (simp add: ok_arm ok_disarm)
qed simp

lemma look_sweep:
  "ok s \<Longrightarrow> distinct (map fst xs) \<Longrightarrow>
   look (sweep arm disarm xs s) m =
     (case map_of xs m of
        Some (sp, j) \<Rightarrow> if sp \<noteq> '''' \<and> valid sp then Some (sp, j) else None
      | None \<Rightarrow> look s m)"
proof (induction xs arbitrary: s)
  case Nil
  then show ?case by simp
next
  case (Cons x xs)
  obtain n sp j where x: "x = (n, sp, j)" by (cases x)
  let ?s = "if sp = '''' then disarm n s else arm n sp j s"
  have "map_of xs n = None" using Cons.prems(2) by (simp add: x map_of_eq_None_iff)
  moreover have "ok ?s" using Cons.prems(1) by (simp add: ok_arm ok_disarm)
  then have "look (sweep arm disarm xs ?s) m =
      (case map_of xs m of
         Some (sp, j) \<Rightarrow> if sp \<noteq> '''' \<and> valid sp then Some (sp, j) else None
       | None \<Rightarrow> look ?s m)"
    using Cons.prems(2) by (intro Cons.IH) simp_all
  ultimately show ?case
    using Cons.prems(1) by (auto simp: x look_arm look_disarm split: option.splits)
qed

end

interpretation sched: job_table sched_ok armed
  "\<lambda>n sp j s. snd (Scheduler_Register vs n sp j s)" Scheduler_Remove vs for vs
  by unfold_locales (simp_all add: armed_Register armed_Remove)

end
