(* ===== verification/Process_Manager.thy ===== *)
theory Process_Manager
  imports Registry Cron_Scheduler
begin

text \<open>
  \<open>daemon/process_manager.go\<close>, \<open>launch.go\<close>, \<open>lifecycle.go\<close>, \<open>history.go\<close>,
  \<open>autosave.go\<close>, \<open>helpers.go\<close> and the task lookup of \<open>workflow.go\<close>: the operations on
  managed processes as functions on one state. The goroutines the code starts are data of that
  state: children under \<open>Watch\<close>, exits whose \<open>done\<close> channel is closed and whose callback has
  not run yet, and sleeping auto-restarts. \<open>Daemon_Steps\<close> interleaves them with the requests.
\<close>

section \<open>State\<close>

text \<open>The closures given to the scheduler, by what they captured.\<close>

datatype pm_job =
    JobCronRestart string string string
  | JobCron string string app_start_req

datatype dump = NoDump | DumpTorn | DumpEntries "app_config list"

text \<open>
  \<open>pm_unmanaged\<close> lists the children that run under \<open>Watch\<close> with no callback, \<open>pm_spawned\<close>
  every child the daemon forked. \<open>pm_journal\<close> holds the records handed to
  \<open>Store.AppendTask\<close>, newest first. \<open>pm_tick\<close> counts primitive operations and selects the
  answers of the environment.
\<close>

record pm =
  pm_reg :: registry
  pm_nextID :: int
  pm_nextAddr :: nat
  pm_tick :: nat
  pm_sched :: "pm_job scheduler"
  pm_watching :: "managed_process list"
  pm_pending :: "(managed_process \<times> exit_info) list"
  pm_timers :: "managed_process list"
  pm_unmanaged :: "int list"
  pm_spawned :: "int list"
  pm_signals :: "signal_sent list"
  pm_journal :: "task_record list"
  pm_dump :: dump
  pm_suppress :: bool
  pm_home :: string
  pm_startedAt :: gotime
  pm_web :: "(string \<times> string) option"

text \<open>
  How one \<open>Stop\<close> goes: the answer of \<open>kill(2)\<close>, whether \<open>done\<close> closes within the timeout,
  what \<open>cmd.Wait\<close> reports then, and whether the exit callback runs before \<open>Stop\<close> returns.
\<close>

record stop_outcome =
  so_kill :: kill_outcome
  so_in_time :: bool
  so_wait :: wait_result
  so_callback_first :: bool

datatype dump_write = DumpWritten | DumpOpenFailed | DumpWriteFailed

record pm_env =
  pe_start :: "nat \<Rightarrow> start_env"
  pe_now :: "nat \<Rightarrow> gotime"
  pe_local :: "gotime \<Rightarrow> civil"
  pe_random :: "nat \<Rightarrow> 8 word list"
  pe_user :: "string option"
  pe_package :: "string \<Rightarrow> string option"
  pe_valid_spec :: "string \<Rightarrow> bool"
  pe_stop :: "nat \<Rightarrow> stop_outcome"
  pe_dump_write :: "nat \<Rightarrow> dump_write"
  pe_error_text :: "start_error \<Rightarrow> string"

datatype pm_error =
    ProcessNotFound string
  | AlreadyExists string string
  | LaunchError string start_error
  | ResumeError string start_error
  | DumpMissing
  | DumpIncompatible
  | DumpSaveError

definition NewProcessManager :: "string \<Rightarrow> gotime \<Rightarrow> pm" where
  "NewProcessManager home now =
     \<lparr>pm_reg = [], pm_nextID = 0, pm_nextAddr = 0, pm_tick = 0, pm_sched = Scheduler_New,
      pm_watching = [], pm_pending = [], pm_timers = [], pm_unmanaged = [], pm_spawned = [],
      pm_signals = [], pm_journal = [], pm_dump = NoDump, pm_suppress = False, pm_home = home,
      pm_startedAt = now, pm_web = None\<rparr>"

definition upd_reg :: "(registry \<Rightarrow> registry) \<Rightarrow> pm \<Rightarrow> pm" where
  "upd_reg f pm = pm\<lparr>pm_reg := f (pm_reg pm)\<rparr>"

definition tick :: "pm \<Rightarrow> pm" where
  "tick pm = pm\<lparr>pm_tick := Suc (pm_tick pm)\<rparr>"

section \<open>The run journal of tasks (history.go)\<close>

definition sinceMS :: "gotime \<Rightarrow> gotime \<Rightarrow> int" where
  "sinceMS start finish =
     (if is_zero_time start \<or> finish < start then 0 else sub_ms finish start)"

definition recordRun ::
  "pm_env \<Rightarrow> process_info \<Rightarrow> string \<Rightarrow> trigger \<Rightarrow> exit_info \<Rightarrow> pm \<Rightarrow> pm" where
  "recordRun ev info runID trg ex pm =
     (let now = pe_now ev (pm_tick pm)
      in pm\<lparr>pm_journal :=
          \<lparr>tr_TS = now, tr_Kind = KindTask, tr_Event = EventRun, tr_RunID = runID,
           tr_Namespace = ac_Namespace (pi_App info), tr_Name = ac_Name (pi_App info),
           tr_ID = pi_ID info, tr_Trigger = trg, tr_PID = pi_PID info,
           tr_StartedAt = pi_StartedAt info, tr_DurationMS = sinceMS (pi_StartedAt info) now,
           tr_ExitCode = ExitCodeOf (ei_Code ex) (ei_Known ex), tr_Signal = ei_Signal ex,
           tr_Restarts = pi_Restarts info,
           tr_Status = (if ExitInfo_Success ex then RunSuccess else RunFailed), tr_Detail = ''''\<rparr>
          # pm_journal pm\<rparr>)"

definition recordCronSkip :: "pm_env \<Rightarrow> string \<Rightarrow> string \<Rightarrow> gotime \<Rightarrow> pm \<Rightarrow> pm" where
  "recordCronSkip ev ns name firedAt pm =
     pm\<lparr>pm_journal :=
         \<lparr>tr_TS = firedAt, tr_Kind = KindTask, tr_Event = EventCronSkip,
          tr_RunID = NewRunID (pe_local ev firedAt) (pe_random ev (pm_tick pm)),
          tr_Namespace = ns, tr_Name = name, tr_ID = 0, tr_Trigger = TriggerCron, tr_PID = 0,
          tr_StartedAt = zero_time, tr_DurationMS = 0, tr_ExitCode = None, tr_Signal = '''',
          tr_Restarts = 0, tr_Status = RunSkipped, tr_Detail = ''previous run still active''\<rparr>
         # pm_journal pm\<rparr>"

definition recordLaunchFailure :: "pm_env \<Rightarrow> string \<Rightarrow> string \<Rightarrow> trigger \<Rightarrow> string \<Rightarrow> pm \<Rightarrow> pm" where
  "recordLaunchFailure ev ns name trg detail pm =
     (let now = pe_now ev (pm_tick pm)
      in pm\<lparr>pm_journal :=
          \<lparr>tr_TS = now, tr_Kind = KindTask, tr_Event = EventLaunchFail,
           tr_RunID = NewRunID (pe_local ev now) (pe_random ev (pm_tick pm)),
           tr_Namespace = ns, tr_Name = name, tr_ID = 0, tr_Trigger = trg, tr_PID = 0,
           tr_StartedAt = zero_time, tr_DurationMS = 0, tr_ExitCode = None, tr_Signal = '''',
           tr_Restarts = 0, tr_Status = RunFailed, tr_Detail = detail\<rparr>
          # pm_journal pm\<rparr>)"

section \<open>Launch (launch.go, helpers.go)\<close>

text \<open>\<open>pkg\<close> gives the version field of the package file at a path, if it can be read.\<close>

fun app_version_from :: "(string \<Rightarrow> string option) \<Rightarrow> nat \<Rightarrow> string \<Rightarrow> string" where
  "app_version_from pkg 0 dir = ''-''"
| "app_version_from pkg (Suc n) dir =
     (case pkg (path_join [dir, ''package.json'']) of
        Some (c # v) \<Rightarrow> c # v
      | _ \<Rightarrow> (let parent = path_dir dir
              in if parent = dir then ''-'' else app_version_from pkg n parent))"

definition getAppVersion :: "(string \<Rightarrow> string option) \<Rightarrow> string \<Rightarrow> string" where
  "getAppVersion pkg script = app_version_from pkg 5 (path_dir script)"

definition req_ns :: "app_start_req \<Rightarrow> string" where
  "req_ns req =
     (if ac_Namespace (rq_App req) = '''' then DefaultNamespace else ac_Namespace (rq_App req))"

text \<open>The fields of the entry that the request and the result of \<open>Start\<close> determine.\<close>

definition launch_config ::
  "pm_env \<Rightarrow> string \<Rightarrow> app_start_req \<Rightarrow> start_result \<Rightarrow> app_config" where
  "launch_config ev name req result =
     (let a = rq_App req
      in \<lparr>ac_Namespace = req_ns req, ac_Name = name, ac_Script = ac_Script a,
          ac_Args = ac_Args a, ac_Instances = 0, ac_Env = ac_Env a,
          ac_CronRestart = ac_CronRestart a, ac_Cron = ac_Cron a, ac_Watch = ac_Watch a,
          ac_MaxRestarts = ac_MaxRestarts a,
          ac_Version = (if ac_Version a = '''' then getAppVersion (pe_package ev) (ac_Script a)
                        else ac_Version a),
          ac_ConfigFile = ac_ConfigFile a, ac_CWD = sr_CWD result, ac_BaseEnv = ac_BaseEnv a,
          ac_Paused = False, ac_Optional = ac_Optional a\<rparr>)"

definition launch_status :: "app_start_req \<Rightarrow> status" where
  "launch_status req =
     (if ac_Paused (rq_App req) then StatusPaused
      else if is_cron_task req then StatusStopped
      else StatusOnline)"

definition runs_now :: "app_start_req \<Rightarrow> bool" where
  "runs_now req \<longleftrightarrow> \<not> is_cron_task req \<and> \<not> ac_Paused (rq_App req)"

definition new_process ::
  "pm_env \<Rightarrow> nat \<Rightarrow> nat \<Rightarrow> int \<Rightarrow> string \<Rightarrow> app_start_req \<Rightarrow> trigger \<Rightarrow> start_result \<Rightarrow>
   process_info option \<Rightarrow> managed_process" where
  "new_process ev t addr newID name req trg result existing =
     \<lparr>mp_addr = addr,
      mp_Info =
        \<lparr>pi_App = launch_config ev name req result,
         pi_ID = (case existing of Some i \<Rightarrow> pi_ID i | None \<Rightarrow> newID),
         pi_LogFile = sr_LogFile result, pi_ErrorFile = sr_ErrFile result,
         pi_PID = (if runs_now req then (case sr_Cmd result of Some p \<Rightarrow> p | None \<Rightarrow> 0) else 0),
         pi_Status = launch_status req,
         pi_Restarts = (case existing of Some i \<Rightarrow> pi_Restarts i | None \<Rightarrow> 0),
         pi_StartedAt = (if runs_now req then pe_now ev t else zero_time),
         pi_CPU = 0, pi_Memory = 0,
         pi_User = (case pe_user ev of Some u \<Rightarrow> u | None \<Rightarrow> ''unknown''),
         pi_LastCronAt = (case existing of Some i \<Rightarrow> pi_LastCronAt i | None \<Rightarrow> zero_time),
         pi_LastCronStatus = (case existing of Some i \<Rightarrow> pi_LastCronStatus i | None \<Rightarrow> '''')\<rparr>,
      mp_Cmd = sr_Cmd result,
      mp_stopping = False,
      mp_paused = ac_Paused (rq_App req),
      mp_Watcher = sr_Watcher result,
      mp_runID = NewRunID (pe_local ev (pe_now ev t)) (pe_random ev t),
      mp_trigger = trg\<rparr>"

definition register_jobs ::
  "pm_env \<Rightarrow> string \<Rightarrow> app_start_req \<Rightarrow> pm_job scheduler \<Rightarrow> pm_job scheduler" where
  "register_jobs ev name req sched =
     (let a = rq_App req; ns = req_ns req; ck = cronKey ns name;
          s1 = (if ac_CronRestart a \<noteq> '''' \<and> \<not> ac_Paused a
                then snd (Scheduler_Register (pe_valid_spec ev) ck (ac_CronRestart a)
                            (JobCronRestart ck ns name) sched)
                else sched)
      in if ac_Cron a \<noteq> '''' \<and> \<not> ac_Paused a
         then snd (Scheduler_Register (pe_valid_spec ev) ck (ac_Cron a) (JobCron ns name req) s1)
         else s1)"

definition launchProcessWith ::
  "pm_env \<Rightarrow> string \<Rightarrow> app_start_req \<Rightarrow> trigger \<Rightarrow> pm \<Rightarrow> (start_error + process_info) \<times> pm" where
  "launchProcessWith ev name req trg pm =
     (let t = pm_tick pm
      in case fst (Executor_Start (pe_start ev t) (pm_home pm) req name) of
        Inl e \<Rightarrow> (Inl e, tick pm)
      | Inr result \<Rightarrow>
          (let ns = req_ns req; ck = cronKey ns name;
               found = findExistingForLaunch ns name (ac_ConfigFile (rq_App req)) (pm_reg pm);
               forked = (case sr_Cmd result of Some p \<Rightarrow> [p] | None \<Rightarrow> [])
           in if (case found of Some (m, _) \<Rightarrow> mp_paused m | None \<Rightarrow> False) \<and> rq_CronTriggered req
              then (Inr (mp_Info (fst (the found))),
                    (tick pm)\<lparr>pm_unmanaged := forked @ pm_unmanaged pm,
                              pm_spawned := forked @ pm_spawned pm\<rparr>)
              else
                (let mp = new_process ev t (pm_nextAddr pm) (pm_nextID pm) name req trg result
                            (map_option (\<lambda>x. mp_Info (fst x)) found);
                     installed = gm_set ck mp (pm_reg pm)
                 in (Inr (mp_Info mp),
                     pm\<lparr>pm_tick := Suc t,
                        pm_nextAddr := Suc (pm_nextAddr pm),
                        pm_nextID := (if found = None then pm_nextID pm + 1 else pm_nextID pm),
                        pm_reg := (case found of
                                     Some (_, oldKey) \<Rightarrow>
                                       if oldKey \<noteq> '''' \<and> oldKey \<noteq> ck then gm_del oldKey installed
                                       else installed
                                   | None \<Rightarrow> installed),
                        pm_watching := (if runs_now req then mp # pm_watching pm else pm_watching pm),
                        pm_spawned := forked @ pm_spawned pm,
                        pm_sched := register_jobs ev name req (pm_sched pm)\<rparr>))))"

definition launchProcess ::
  "pm_env \<Rightarrow> string \<Rightarrow> app_start_req \<Rightarrow> pm \<Rightarrow> (start_error + process_info) \<times> pm" where
  "launchProcess ev name req pm = launchProcessWith ev name req TriggerManual pm"

section \<open>Exit, stop and cron (lifecycle.go)\<close>

definition pidOf :: "managed_process \<Rightarrow> int" where
  "pidOf mp = (case mp_Cmd mp of Some p \<Rightarrow> p | None \<Rightarrow> 0)"

definition zero_info :: process_info where
  "zero_info =
     \<lparr>pi_App = empty_app_config, pi_ID = 0, pi_LogFile = '''', pi_ErrorFile = '''', pi_PID = 0,
      pi_Status = StatusUnset, pi_Restarts = 0, pi_StartedAt = zero_time, pi_CPU = 0, pi_Memory = 0,
      pi_User = '''', pi_LastCronAt = zero_time, pi_LastCronStatus = ''''\<rparr>"

text \<open>The closure of the exit callback: the status after the exit and whether to restart.\<close>

definition exit_status :: "exit_info \<Rightarrow> managed_process \<Rightarrow> status" where
  "exit_status ex mp =
     (if mp_stopping mp then pi_Status (mp_Info mp)
      else if ei_Err ex \<noteq> None then StatusErrored else StatusStopped)"

definition exit_restarts :: "exit_info \<Rightarrow> managed_process \<Rightarrow> bool" where
  "exit_restarts ex mp \<longleftrightarrow>
     \<not> mp_stopping mp \<and> exit_status ex mp = StatusErrored \<and>
     pi_Restarts (mp_Info mp) < ac_MaxRestarts (pi_App (mp_Info mp))"

definition exit_update :: "exit_info \<Rightarrow> managed_process \<Rightarrow> managed_process" where
  "exit_update ex mp =
     mp\<lparr>mp_Info := (mp_Info mp)
         \<lparr>pi_PID := 0,
          pi_Status := (if exit_restarts ex mp then StatusLaunching else exit_status ex mp),
          pi_Restarts := (if exit_restarts ex mp then pi_Restarts (mp_Info mp) + 1
                          else pi_Restarts (mp_Info mp))\<rparr>\<rparr>"

text \<open>
  \<open>mp\<close> is the process whose child exited; the callback updates whatever entry the registry
  holds under its key at that moment. With no such entry the snapshot stays the zero value.
\<close>

definition onProcessExit :: "pm_env \<Rightarrow> managed_process \<Rightarrow> exit_info \<Rightarrow> pm \<Rightarrow> pm" where
  "onProcessExit ev mp ex pm0 =
     (let key = mp_key mp;
          cur = gm_get (pm_reg pm0) key;
          after = map_option (exit_update ex) cur;
          snapshot = (case after of Some m \<Rightarrow> mp_Info m | None \<Rightarrow> zero_info);
          runID = (case after of Some m \<Rightarrow> mp_runID m | None \<Rightarrow> '''');
          trg = (case after of Some m \<Rightarrow> mp_trigger m | None \<Rightarrow> TriggerNone);
          restart = (case cur of Some m \<Rightarrow> exit_restarts ex m | None \<Rightarrow> False);
          pm1 = upd_reg (\<lambda>r. snd (UpdateInfo key (exit_update ex) r)) pm0;
          pm2 = recordRun ev (snapshot\<lparr>pi_PID := pidOf mp\<rparr>) runID trg ex pm1;
          pm3 = (if trg = TriggerCron
                 then upd_reg (\<lambda>r. snd (UpdateCronOutcome key
                        (if ExitInfo_Success ex then ''ok'' else ''failed'') r)) pm2
                 else pm2)
      in tick (if restart then pm3\<lparr>pm_timers := mp # pm_timers pm3\<rparr> else pm3))"

text \<open>\<open>cmd.Wait\<close> has returned: \<open>done\<close> is closed and the callback is due.\<close>

definition child_done :: "nat \<Rightarrow> exit_info \<Rightarrow> pm \<Rightarrow> pm" where
  "child_done addr ex pm =
     pm\<lparr>pm_pending := map (\<lambda>m. (m, ex)) (filter (\<lambda>m. mp_addr m = addr) (pm_watching pm)) @ pm_pending pm,
       pm_watching := filter (\<lambda>m. mp_addr m \<noteq> addr) (pm_watching pm)\<rparr>"

definition is_watching :: "nat \<Rightarrow> pm \<Rightarrow> bool" where
  "is_watching addr pm \<longleftrightarrow> addr \<in> mp_addr ` set (pm_watching pm)"

text \<open>Running the callbacks that are due for one process.\<close>

definition run_callback :: "pm_env \<Rightarrow> nat \<Rightarrow> pm \<Rightarrow> pm" where
  "run_callback ev addr pm =
     (case find (\<lambda>(m, ex). mp_addr m = addr) (pm_pending pm) of
        None \<Rightarrow> pm
      | Some (m, ex) \<Rightarrow>
          onProcessExit ev m ex
            (pm\<lparr>pm_pending := filter (\<lambda>(m, ex). mp_addr m \<noteq> addr) (pm_pending pm)\<rparr>))"

text \<open>
  What the signals of one \<open>Stop\<close> lead to while \<open>Stop\<close> waits: the child of the handle exits
  unless the wait times out.
\<close>

definition deliver ::
  "pm_env \<Rightarrow> stop_outcome \<Rightarrow> managed_process \<Rightarrow> signal_sent list \<Rightarrow> pm \<Rightarrow> pm" where
  "deliver ev so mp sigs pm =
     (let pm1 = pm\<lparr>pm_signals := pm_signals pm @ sigs\<rparr>
      in if sigs = [] \<or> \<not> is_watching (mp_addr mp) pm \<or> \<not> so_in_time so then pm1
         else
           (let pm2 = child_done (mp_addr mp) (ExitInfoFromWait (so_wait so)) pm1
            in if so_callback_first so then run_callback ev (mp_addr mp) pm2 else pm2))"

definition mark_stopping :: "managed_process \<Rightarrow> managed_process" where
  "mark_stopping mp =
     mp\<lparr>mp_stopping := True,
       mp_Info := (if mp_paused mp then mp_Info mp
                   else (mp_Info mp)\<lparr>pi_Status := StatusStopping\<rparr>)\<rparr>"

definition mark_stopped :: "managed_process \<Rightarrow> managed_process" where
  "mark_stopped mp =
     mp\<lparr>mp_Info := (mp_Info mp)
         \<lparr>pi_PID := 0,
          pi_Status := (if mp_paused mp then pi_Status (mp_Info mp) else StatusStopped)\<rparr>\<rparr>"

text \<open>\<open>mp.Watcher.Close()\<close> through the pointer: it reaches the registry if the entry is that one.\<close>

definition close_watcher :: "managed_process \<Rightarrow> registry \<Rightarrow> registry" where
  "close_watcher mp r =
     snd (UpdateInfo (mp_key mp)
       (\<lambda>m. if mp_addr m = mp_addr mp then m\<lparr>mp_Watcher := False\<rparr> else m) r)"

definition stopProcess :: "pm_env \<Rightarrow> managed_process \<Rightarrow> pm \<Rightarrow> pm" where
  "stopProcess ev mp pm0 =
     (let key = mp_key mp; so = pe_stop ev (pm_tick pm0);
          pm1 = pm0\<lparr>pm_tick := Suc (pm_tick pm0),
                   pm_sched := Scheduler_Remove key (pm_sched pm0),
                   pm_reg := close_watcher mp (pm_reg pm0)\<rparr>
      in Executor_Stop (so_kill so) (so_in_time so \<or> \<not> is_watching (mp_addr mp) pm0) (mp_Cmd mp) True
           (upd_reg (\<lambda>r. snd (UpdateInfo key mark_stopping r)))
           (upd_reg (\<lambda>r. snd (UpdateInfo key mark_stopped r)))
           (deliver ev so mp)
           pm1)"

definition CronStatusSkipped :: string where
  "CronStatusSkipped = ''skipped''"

definition CronStatusRunning :: string where
  "CronStatusRunning = ''running''"

definition cronRunActive :: "process_info \<Rightarrow> bool" where
  "cronRunActive info \<longleftrightarrow> pi_PID info \<noteq> 0 \<or> pi_Status info = StatusLaunching"

definition triggerCron :: "pm_env \<Rightarrow> string \<Rightarrow> string \<Rightarrow> app_start_req \<Rightarrow> pm \<Rightarrow> pm" where
  "triggerCron ev ns name originalReq pm =
     (let key = cronKey ns name; firedAt = pe_now ev (pm_tick pm)
      in case Registry_Get key (pm_reg pm) of
        None \<Rightarrow> pm
      | Some mp \<Rightarrow>
          if (case SnapshotOne key (pm_reg pm) of Some i \<Rightarrow> cronRunActive i | None \<Rightarrow> False)
          then tick (recordCronSkip ev ns name firedAt
                 (upd_reg (\<lambda>r. snd (UpdateCronStatus key firedAt CronStatusSkipped r)) pm))
          else
            (case launchProcessWith ev name (originalReq\<lparr>rq_CronTriggered := True\<rparr>) TriggerCron
                    (stopProcess ev mp pm) of
               (Inl e, pm1) \<Rightarrow>
                 upd_reg (\<lambda>r. snd (UpdateCronStatus key firedAt ''failed'' r))
                   (recordLaunchFailure ev ns name TriggerCron (pe_error_text ev e) pm1)
             | (Inr _, pm1) \<Rightarrow>
                 upd_reg (\<lambda>r. snd (UpdateCronStatus key firedAt CronStatusRunning r)) pm1))"

text \<open>The sleep of an automatic restart is over.\<close>

definition restart_timer :: "pm_env \<Rightarrow> managed_process \<Rightarrow> pm \<Rightarrow> pm" where
  "restart_timer ev mp pm =
     (case gm_get (pm_reg pm) (mp_key mp) of
        None \<Rightarrow> pm
      | Some current \<Rightarrow>
          if mp_addr current \<noteq> mp_addr mp \<or> mp_stopping current then pm
          else snd (launchProcessWith ev (mp_name current)
                      \<lparr>rq_App = pi_App (mp_Info current), rq_CronTriggered = False\<rparr>
                      TriggerAutoRestart pm))"

section \<open>The requests (process_manager.go, autosave.go)\<close>

definition Save :: "pm_env \<Rightarrow> pm \<Rightarrow> pm_error option \<times> pm" where
  "Save ev pm =
     (case pe_dump_write ev (pm_tick pm) of
        DumpWritten \<Rightarrow> (None, pm\<lparr>pm_dump := DumpEntries (SnapshotAppConfigs (pm_reg pm))\<rparr>)
      | DumpOpenFailed \<Rightarrow> (Some DumpSaveError, pm)
      | DumpWriteFailed \<Rightarrow> (Some DumpSaveError, pm\<lparr>pm_dump := DumpTorn\<rparr>))"

definition autoSave :: "pm_env \<Rightarrow> pm \<Rightarrow> pm" where
  "autoSave ev pm = (if pm_suppress pm then pm else snd (Save ev pm))"

definition instance_name :: "app_start_req \<Rightarrow> int \<Rightarrow> nat \<Rightarrow> string" where
  "instance_name req n i =
     (if 1 < n then ac_Name (rq_App req) @ ''-'' @ itoa (int i) else ac_Name (rq_App req))"

definition req_instances :: "app_start_req \<Rightarrow> int" where
  "req_instances req =
     (if ac_Instances (rq_App req) \<le> 0 then DefaultInstances else ac_Instances (rq_App req))"

text \<open>The loop of \<open>StartApp\<close> over the instance numbers, with the infos launched so far.\<close>

fun start_instances ::
  "pm_env \<Rightarrow> app_start_req \<Rightarrow> nat list \<Rightarrow> process_info list \<Rightarrow> pm \<Rightarrow>
   (process_info list \<times> pm_error option) \<times> pm" where
  "start_instances ev req [] infos pm = ((infos, None), pm)"
| "start_instances ev req (i # is) infos pm =
     (let name = instance_name req (req_instances req) i
      in case findExistingForLaunch (req_ns req) name (ac_ConfigFile (rq_App req)) (pm_reg pm) of
        Some (existing, _) \<Rightarrow>
          if ac_Script (pi_App (mp_Info existing)) \<noteq> ac_Script (rq_App req)
          then ((infos, Some (AlreadyExists name (ac_Script (pi_App (mp_Info existing))))), pm)
          else
            (case launchProcess ev name req (stopProcess ev existing pm) of
               (Inl e, pm1) \<Rightarrow> ((infos, Some (LaunchError name e)), pm1)
             | (Inr info, pm1) \<Rightarrow> start_instances ev req is (infos @ [info]) pm1)
      | None \<Rightarrow>
          (case launchProcess ev name req pm of
             (Inl e, pm1) \<Rightarrow> ((infos, Some (LaunchError name e)), pm1)
           | (Inr info, pm1) \<Rightarrow> start_instances ev req is (infos @ [info]) pm1))"

definition StartApp ::
  "pm_env \<Rightarrow> app_start_req \<Rightarrow> pm \<Rightarrow> (process_info list \<times> pm_error option) \<times> pm" where
  "StartApp ev req pm =
     (case start_instances ev req [0..<nat (req_instances req)] [] pm of
        ((infos, err), pm1) \<Rightarrow> ((infos, err), if infos = [] then pm1 else autoSave ev pm1))"

definition stop_one :: "pm_env \<Rightarrow> managed_process \<Rightarrow> pm \<Rightarrow> pm" where
  "stop_one ev mp pm = stopProcess ev mp pm"

definition StopByName :: "pm_env \<Rightarrow> string \<Rightarrow> pm \<Rightarrow> pm_error option \<times> pm" where
  "StopByName ev name pm =
     (let targets = FindByTarget name (pm_reg pm)
      in if targets = [] then (Some (ProcessNotFound name), pm)
         else (None, autoSave ev (fold (stop_one ev) targets pm)))"

definition restart_one :: "pm_env \<Rightarrow> trigger \<Rightarrow> managed_process \<Rightarrow> pm \<Rightarrow> pm" where
  "restart_one ev trg mp pm =
     (case gm_get (pm_reg pm) (mp_key mp) of
        None \<Rightarrow> pm
      | Some current \<Rightarrow>
          snd (launchProcessWith ev (mp_name current)
                 \<lparr>rq_App = pi_App (mp_Info current), rq_CronTriggered = True\<rparr> trg
                 (stopProcess ev mp pm)))"

definition restartTargets :: "pm_env \<Rightarrow> string \<Rightarrow> trigger \<Rightarrow> pm \<Rightarrow> pm_error option \<times> pm" where
  "restartTargets ev name trg pm =
     (let targets = FindByTarget name (pm_reg pm)
      in if targets = [] then (Some (ProcessNotFound name), pm)
         else (None, fold (restart_one ev trg) targets pm))"

definition RestartByName :: "pm_env \<Rightarrow> string \<Rightarrow> pm \<Rightarrow> pm_error option \<times> pm" where
  "RestartByName ev name pm =
     (case restartTargets ev name TriggerRestart pm of
        (Some e, pm1) \<Rightarrow> (Some e, pm1)
      | (None, pm1) \<Rightarrow> (None, autoSave ev pm1))"

definition mark_paused :: "managed_process \<Rightarrow> managed_process" where
  "mark_paused mp = mp\<lparr>mp_paused := True, mp_Info := (mp_Info mp)\<lparr>pi_Status := StatusPaused\<rparr>\<rparr>"

definition pause_one :: "pm_env \<Rightarrow> managed_process \<Rightarrow> pm \<Rightarrow> pm" where
  "pause_one ev mp pm =
     upd_reg (\<lambda>r. snd (UpdateInfo (mp_key mp) mark_paused r)) (stopProcess ev mp pm)"

definition PauseByName :: "pm_env \<Rightarrow> string \<Rightarrow> pm \<Rightarrow> pm_error option \<times> pm" where
  "PauseByName ev name pm =
     (let targets = FindByTarget name (pm_reg pm)
      in if targets = [] then (Some (ProcessNotFound name), pm)
         else (None, autoSave ev (fold (pause_one ev) targets pm)))"

fun resume_all :: "pm_env \<Rightarrow> managed_process list \<Rightarrow> pm \<Rightarrow> pm_error option \<times> pm" where
  "resume_all ev [] pm = (None, pm)"
| "resume_all ev (mp # mps) pm =
     (case gm_get (pm_reg pm) (mp_key mp) of
        None \<Rightarrow> resume_all ev mps pm
      | Some current \<Rightarrow>
          if \<not> mp_paused current then resume_all ev mps pm
          else
            (case launchProcessWith ev (mp_name current)
                    \<lparr>rq_App = pi_App (mp_Info current), rq_CronTriggered = False\<rparr>
                    TriggerResurrect pm of
               (Inl e, pm1) \<Rightarrow> (Some (ResumeError (mp_name current) e), pm1)
             | (Inr _, pm1) \<Rightarrow> resume_all ev mps pm1))"

definition ResumeByName :: "pm_env \<Rightarrow> string \<Rightarrow> pm \<Rightarrow> pm_error option \<times> pm" where
  "ResumeByName ev name pm =
     (let targets = FindByTarget name (pm_reg pm)
      in if targets = [] then (Some (ProcessNotFound name), pm)
         else
           (case resume_all ev targets pm of
              (Some e, pm1) \<Rightarrow> (Some e, pm1)
            | (None, pm1) \<Rightarrow> (None, autoSave ev pm1)))"

definition delete_one :: "pm_env \<Rightarrow> managed_process \<Rightarrow> pm \<Rightarrow> pm" where
  "delete_one ev mp pm =
     upd_reg (\<lambda>r. snd (Registry_Remove (mp_key mp) r)) (stopProcess ev mp pm)"

definition DeleteByName :: "pm_env \<Rightarrow> string \<Rightarrow> pm \<Rightarrow> pm_error option \<times> pm" where
  "DeleteByName ev name pm =
     (let targets = FindByTarget name (pm_reg pm)
      in if targets = [] then (Some (ProcessNotFound name), pm)
         else (None, autoSave ev (fold (delete_one ev) targets pm)))"

definition ListAll :: "pm \<Rightarrow> process_info list" where
  "ListAll pm = Registry_Snapshot (pm_reg pm)"

text \<open>A failed launch is logged and the loop goes on.\<close>

fun replay :: "pm_env \<Rightarrow> os_env \<Rightarrow> app_config list \<Rightarrow> pm \<Rightarrow> pm" where
  "replay ev os [] pm = pm"
| "replay ev os (e # es) pm =
     replay ev os es
       (snd (StartApp ev \<lparr>rq_App = AppConfig_Normalize os '''' e, rq_CronTriggered = False\<rparr> pm))"

definition Resurrect :: "pm_env \<Rightarrow> pm \<Rightarrow> pm_error option \<times> pm" where
  "Resurrect ev pm =
     (case pm_dump pm of
        NoDump \<Rightarrow> (Some DumpMissing, pm)
      | DumpTorn \<Rightarrow> (Some DumpIncompatible, pm)
      | DumpEntries entries \<Rightarrow>
          (None,
           (replay ev (se_os (pe_start ev (pm_tick pm))) entries (pm\<lparr>pm_suppress := True\<rparr>))
             \<lparr>pm_suppress := False\<rparr>))"

text \<open>The drain that follows waits for the callbacks, which are steps of their own.\<close>

definition KillAll :: "pm_env \<Rightarrow> pm \<Rightarrow> pm" where
  "KillAll ev pm = fold (stop_one ev) (FindByTarget ''all'' (pm_reg pm)) pm"

text \<open>\<open>WaitForExits\<close> has drained when no watcher goroutine with a callback is left.\<close>

definition exits_drained :: "pm \<Rightarrow> bool" where
  "exits_drained pm \<longleftrightarrow> pm_watching pm = [] \<and> pm_pending pm = []"

definition PM_Status :: "int \<Rightarrow> string \<Rightarrow> pm \<Rightarrow> daemon_info" where
  "PM_Status pid version pm =
     \<lparr>di_PID = pid, di_StartedAt = pm_startedAt pm, di_Version = version,
      di_HomeDir = pm_home pm, di_ProcessCount = int (Registry_Len (pm_reg pm)),
      di_WebAddr = (case pm_web pm of Some (a, _) \<Rightarrow> a | None \<Rightarrow> ''''),
      di_WebError = (case pm_web pm of Some (_, e) \<Rightarrow> e | None \<Rightarrow> '''')\<rparr>"

section \<open>The jobs the scheduler and the file watcher run\<close>

definition cronRestart :: "pm_env \<Rightarrow> string \<Rightarrow> string \<Rightarrow> string \<Rightarrow> (pm_error \<Rightarrow> string) \<Rightarrow> pm \<Rightarrow> pm" where
  "cronRestart ev ck ns name msg pm =
     (let firedAt = pe_now ev (pm_tick pm)
      in case restartTargets ev ck TriggerCronRestart pm of
        (None, pm1) \<Rightarrow> upd_reg (\<lambda>r. snd (UpdateCronStatus ck firedAt ''ok'' r)) pm1
      | (Some e, pm1) \<Rightarrow>
          upd_reg (\<lambda>r. snd (UpdateCronStatus ck firedAt ''failed'' r))
            (recordLaunchFailure ev ns name TriggerCronRestart (msg e) pm1))"

definition run_job :: "pm_env \<Rightarrow> (pm_error \<Rightarrow> string) \<Rightarrow> pm_job \<Rightarrow> pm \<Rightarrow> pm" where
  "run_job ev msg job pm =
     (case job of
        JobCronRestart ck ns name \<Rightarrow> cronRestart ev ck ns name msg pm
      | JobCron ns name req \<Rightarrow> triggerCron ev ns name req pm)"

text \<open>The closure \<open>onFileChanged\<close> of a launch under \<open>name\<close>.\<close>

definition onFileChanged :: "pm_env \<Rightarrow> string \<Rightarrow> pm \<Rightarrow> pm" where
  "onFileChanged ev name pm = snd (restartTargets ev name TriggerWatch pm)"

section \<open>Task references of workflows (workflow.go)\<close>

datatype lookup_error = TaskNotRegistered string | TaskAmbiguous string "string list"

definition info_key :: "process_info \<Rightarrow> string" where
  "info_key i = cronKey (ac_Namespace (pi_App i)) (ac_Name (pi_App i))"

definition LookupTask :: "string \<Rightarrow> pm \<Rightarrow> lookup_error + app_config" where
  "LookupTask ref pm =
     (let infos = Registry_Snapshot (pm_reg pm)
      in if CHR '':'' \<in> set ref then
           (case find (\<lambda>i. info_key i = ref) infos of
              Some i \<Rightarrow> Inr (pi_App i)
            | None \<Rightarrow> Inl (TaskNotRegistered ref))
         else
           (let matches = filter (\<lambda>i. ac_Name (pi_App i) = ref) infos
            in case find (\<lambda>i. ac_Namespace (pi_App i) = DefaultNamespace) matches of
                 Some i \<Rightarrow> Inr (pi_App i)
               | None \<Rightarrow>
                   (case matches of
                      [] \<Rightarrow> Inl (TaskNotRegistered ref)
                    | [i] \<Rightarrow> Inr (pi_App i)
                    | _ \<Rightarrow> Inl (TaskAmbiguous ref (map info_key matches)))))"

end
