(* ===== verification/PM_Invariant.thy ===== *)
theory PM_Invariant
  imports Process_Manager
begin

text \<open>
  The invariant of the process manager and its preservation by every operation. The part of an
  entry the invariant speaks of is its shape: identity, configuration, ID, command handle and
  paused flag. Stopping, exiting and metrics keep the shape of every entry, so one lemma covers
  all of them.
\<close>

section \<open>Shapes\<close>

definition shape :: "managed_process \<Rightarrow> nat \<times> app_config \<times> int \<times> int option \<times> bool" where
  "shape m = (mp_addr m, pi_App (mp_Info m), pi_ID (mp_Info m), mp_Cmd m, mp_paused m)"

definition reg_shape :: "registry \<Rightarrow> string \<Rightarrow> (nat \<times> app_config \<times> int \<times> int option \<times> bool) option" where
  "reg_shape r k = map_option shape (gm_get r k)"

lemma shape_eqD:
  assumes "shape m = shape m'"
  shows "mp_addr m = mp_addr m'" "pi_App (mp_Info m) = pi_App (mp_Info m')"
    "pi_ID (mp_Info m) = pi_ID (mp_Info m')" "mp_Cmd m = mp_Cmd m'" "mp_paused m = mp_paused m'"
    "mp_key m = mp_key m'"
  using assms by (simp_all add: shape_def mp_key_def)

lemma reg_shape_Some:
  "reg_shape r' = reg_shape r \<Longrightarrow> gm_get r' k = Some m' \<Longrightarrow> \<exists>m. gm_get r k = Some m \<and> shape m = shape m'"
  by (cases "gm_get r k") (auto simp: reg_shape_def fun_eq_iff dest!: spec [of _ k])

lemma reg_shape_UpdateInfo:
  assumes "\<And>m. shape (f m) = shape m"
  shows "reg_shape (snd (UpdateInfo k f r)) = reg_shape r"
  using assms by (auto simp: reg_shape_def fun_eq_iff registry_simps option.map_comp comp_def)

lemma shape_updates [simp]:
  "shape (exit_update ex m) = shape m" "shape (mark_stopping m) = shape m"
  "shape (mark_stopped m) = shape m" "shape (m\<lparr>mp_Watcher := b\<rparr>) = shape m"
  "shape (upd_info (\<lambda>i. i\<lparr>pi_LastCronStatus := st\<rparr>) m) = shape m"
  "shape (upd_info (\<lambda>i. i\<lparr>pi_LastCronAt := t, pi_LastCronStatus := st\<rparr>) m) = shape m"
  "shape (upd_info (\<lambda>i. i\<lparr>pi_CPU := c, pi_Memory := w\<rparr>) m) = shape m"
  by (simp_all add: shape_def exit_update_def mark_stopping_def mark_stopped_def)

lemma shape_close_watcher [simp]: "reg_shape (close_watcher mp r) = reg_shape r"
  unfolding close_watcher_def by (rule reg_shape_UpdateInfo) (simp split: if_splits)

lemma gm_ok_close_watcher [simp]: "gm_ok r \<Longrightarrow> gm_ok (close_watcher mp r)"
  by (simp add: close_watcher_def)

section \<open>The invariant\<close>

definition armed_ok :: "registry \<Rightarrow> pm_job scheduler \<Rightarrow> bool" where
  "armed_ok r s \<longleftrightarrow>
     (\<forall>k sp job. armed s k = Some (sp, job) \<longrightarrow>
        (\<exists>mp. gm_get r k = Some mp \<and> \<not> mp_paused mp \<and> sp \<noteq> '''' \<and>
           (sp = ac_Cron (pi_App (mp_Info mp)) \<and>
              (\<exists>req. job = JobCron (mp_ns mp) (mp_name mp) req \<and> req_ns req = mp_ns mp \<and> \<not> ac_Paused (rq_App req)) \<or>
            ac_Cron (pi_App (mp_Info mp)) = '''' \<and> sp = ac_CronRestart (pi_App (mp_Info mp)) \<and>
            job = JobCronRestart k (mp_ns mp) (mp_name mp))))"

text \<open>Every pointer a goroutine still holds.\<close>

definition handles :: "pm \<Rightarrow> managed_process list" where
  "handles pm = pm_watching pm @ map fst (pm_pending pm) @ pm_timers pm"

definition handle_ok :: "registry \<Rightarrow> nat \<Rightarrow> managed_process \<Rightarrow> bool" where
  "handle_ok r n m \<longleftrightarrow>
     mp_addr m < n \<and>
     (\<forall>k mp. gm_get r k = Some mp \<and> mp_addr mp = mp_addr m \<longrightarrow> mp_key m = k \<and> mp_Cmd m = mp_Cmd mp)"

definition addrs_ok :: "nat \<Rightarrow> registry \<Rightarrow> bool" where
  "addrs_ok n r \<longleftrightarrow>
     (\<forall>k mp. gm_get r k = Some mp \<longrightarrow> mp_addr mp < n) \<and>
     (\<forall>k mp k' mp'. gm_get r k = Some mp \<and> gm_get r k' = Some mp' \<and> mp_addr mp = mp_addr mp' \<longrightarrow>
        k = k')"

definition run_records :: "pm \<Rightarrow> task_record list" where
  "run_records pm = filter (\<lambda>t. tr_Event t = EventRun) (pm_journal pm)"

text \<open>Every child that was forked is running, due, unmanaged or journaled.\<close>

definition accounted :: "pm \<Rightarrow> bool" where
  "accounted pm \<longleftrightarrow>
     length (pm_spawned pm) =
       length (pm_watching pm) + length (pm_pending pm) + length (pm_unmanaged pm) +
       length (run_records pm)"

definition goroutines_ok :: "pm \<Rightarrow> bool" where
  "goroutines_ok pm \<longleftrightarrow>
     (\<forall>m \<in> set (handles pm). handle_ok (pm_reg pm) (pm_nextAddr pm) m) \<and>
     distinct (map mp_addr (pm_watching pm) @ map (mp_addr \<circ> fst) (pm_pending pm))"

text \<open>An entry has a namespace and an unpaused configuration; pausing is a flag beside it.\<close>

definition configs_ok :: "registry \<Rightarrow> bool" where
  "configs_ok r \<longleftrightarrow>
     (\<forall>k m. gm_get r k = Some m \<longrightarrow> mp_ns m \<noteq> '''' \<and> \<not> ac_Paused (pi_App (mp_Info m)))"

definition pm_ok :: "pm \<Rightarrow> bool" where
  "pm_ok pm \<longleftrightarrow>
     keys_ok (pm_reg pm) \<and> configs_ok (pm_reg pm) \<and> ids_ok (pm_nextID pm) (pm_reg pm) \<and> 0 \<le> pm_nextID pm \<and>
     addrs_ok (pm_nextAddr pm) (pm_reg pm) \<and> sched_ok (pm_sched pm) \<and>
     armed_ok (pm_reg pm) (pm_sched pm) \<and> goroutines_ok pm \<and> accounted pm"

lemma pm_ok_New: "pm_ok (NewProcessManager home now)"
  by (simp add: pm_ok_def NewProcessManager_def keys_ok_def configs_ok_def ids_ok_def addrs_ok_def armed_ok_def
      goroutines_ok_def handles_def accounted_def run_records_def)

text \<open>What one operation may do to the registry without touching the invariant.\<close>

lemma keys_ok_shape: "gm_ok r' \<Longrightarrow> reg_shape r' = reg_shape r \<Longrightarrow> keys_ok r \<Longrightarrow> keys_ok r'"
  using reg_shape_Some [of r' r] shape_eqD(6) unfolding keys_ok_def by metis

lemma ids_ok_shape: "reg_shape r' = reg_shape r \<Longrightarrow> ids_ok n r \<Longrightarrow> ids_ok n r'"
  using reg_shape_Some [of r' r] shape_eqD(3) unfolding ids_ok_def by metis

lemma configs_ok_shape: "reg_shape r' = reg_shape r \<Longrightarrow> configs_ok r \<Longrightarrow> configs_ok r'"
  using reg_shape_Some [of r' r] shape_eqD(2) unfolding configs_ok_def by metis

lemma addrs_ok_shape: "reg_shape r' = reg_shape r \<Longrightarrow> addrs_ok n r \<Longrightarrow> addrs_ok n r'"
  using reg_shape_Some [of r' r] shape_eqD(1) unfolding addrs_ok_def by metis

lemma handle_ok_shape: "reg_shape r' = reg_shape r \<Longrightarrow> handle_ok r n m \<Longrightarrow> handle_ok r' n m"
  using reg_shape_Some [of r' r] shape_eqD(1,4) unfolding handle_ok_def by metis

lemma armed_ok_shape:
  assumes "reg_shape r' = reg_shape r" "armed_ok r s"
  shows "armed_ok r' s"
  unfolding armed_ok_def
proof (intro allI impI)
  fix k sp job
  assume "armed s k = Some (sp, job)"
  then obtain mp where mp: "gm_get r k = Some mp" "\<not> mp_paused mp" "sp \<noteq> ''''"
    "sp = ac_Cron (pi_App (mp_Info mp)) \<and>
              (\<exists>req. job = JobCron (mp_ns mp) (mp_name mp) req \<and> req_ns req = mp_ns mp \<and> \<not> ac_Paused (rq_App req)) \<or>
     ac_Cron (pi_App (mp_Info mp)) = '''' \<and> sp = ac_CronRestart (pi_App (mp_Info mp)) \<and>
     job = JobCronRestart k (mp_ns mp) (mp_name mp)"
    using assms(2) unfolding armed_ok_def by blast
  obtain mp' where "gm_get r' k = Some mp'" "shape mp' = shape mp"
    using reg_shape_Some [OF assms(1) [symmetric] mp(1)] by blast
  with mp shape_eqD [of mp' mp]
  show "\<exists>mp. gm_get r' k = Some mp \<and> \<not> mp_paused mp \<and> sp \<noteq> '''' \<and>
    (sp = ac_Cron (pi_App (mp_Info mp)) \<and>
              (\<exists>req. job = JobCron (mp_ns mp) (mp_name mp) req \<and> req_ns req = mp_ns mp \<and> \<not> ac_Paused (rq_App req)) \<or>
     ac_Cron (pi_App (mp_Info mp)) = '''' \<and> sp = ac_CronRestart (pi_App (mp_Info mp)) \<and>
     job = JobCronRestart k (mp_ns mp) (mp_name mp))"
    by auto
qed

lemma armed_ok_Remove: "sched_ok s \<Longrightarrow> armed_ok r s \<Longrightarrow> armed_ok r (Scheduler_Remove k s)"
  by (auto simp: armed_ok_def armed_Remove split: if_splits)

text \<open>
  An operation that keeps the shapes of the entries, disarms at most, moves handles around and
  keeps the books balanced preserves the invariant.
\<close>

lemma pm_ok_step:
  assumes "pm_ok pm" "gm_ok (pm_reg pm')" "reg_shape (pm_reg pm') = reg_shape (pm_reg pm)"
    "pm_nextID pm' = pm_nextID pm" "pm_nextAddr pm' = pm_nextAddr pm"
    "pm_sched pm' = pm_sched pm \<or> pm_sched pm' = Scheduler_Remove k (pm_sched pm)"
    "\<forall>m \<in> set (handles pm'). handle_ok (pm_reg pm) (pm_nextAddr pm) m"
    "distinct (map mp_addr (pm_watching pm') @ map (mp_addr \<circ> fst) (pm_pending pm'))"
    "accounted pm'"
  shows "pm_ok pm'"
proof -
  have ok: "keys_ok (pm_reg pm)" "configs_ok (pm_reg pm)" "ids_ok (pm_nextID pm) (pm_reg pm)" "0 \<le> pm_nextID pm"
    "addrs_ok (pm_nextAddr pm) (pm_reg pm)" "sched_ok (pm_sched pm)"
    "armed_ok (pm_reg pm) (pm_sched pm)"
    using assms(1) by (simp_all add: pm_ok_def)
  have "sched_ok (pm_sched pm')" "armed_ok (pm_reg pm) (pm_sched pm')"
    using assms(6) ok by (auto simp: armed_ok_Remove)
  with ok assms show ?thesis
    using keys_ok_shape [OF assms(2,3)] configs_ok_shape [OF assms(3)] ids_ok_shape [OF assms(3)] addrs_ok_shape [OF assms(3)]
      armed_ok_shape [OF assms(3)] handle_ok_shape [OF assms(3)]
    by (simp add: pm_ok_def goroutines_ok_def)
qed

section \<open>What the primitives change\<close>

lemma upd_reg_simps [pm_simps]:
  "pm_reg (upd_reg f pm) = f (pm_reg pm)" "pm_nextID (upd_reg f pm) = pm_nextID pm"
  "pm_nextAddr (upd_reg f pm) = pm_nextAddr pm" "pm_sched (upd_reg f pm) = pm_sched pm"
  "pm_watching (upd_reg f pm) = pm_watching pm" "pm_pending (upd_reg f pm) = pm_pending pm"
  "pm_timers (upd_reg f pm) = pm_timers pm" "pm_unmanaged (upd_reg f pm) = pm_unmanaged pm"
  "pm_spawned (upd_reg f pm) = pm_spawned pm" "pm_journal (upd_reg f pm) = pm_journal pm"
  "pm_home (upd_reg f pm) = pm_home pm" "pm_suppress (upd_reg f pm) = pm_suppress pm"
  "pm_dump (upd_reg f pm) = pm_dump pm" "pm_tick (upd_reg f pm) = pm_tick pm"
  "pm_signals (upd_reg f pm) = pm_signals pm"
  by (simp_all add: upd_reg_def)

lemma tick_simps [pm_simps]:
  "pm_reg (tick pm) = pm_reg pm" "pm_nextID (tick pm) = pm_nextID pm"
  "pm_nextAddr (tick pm) = pm_nextAddr pm" "pm_sched (tick pm) = pm_sched pm"
  "pm_watching (tick pm) = pm_watching pm" "pm_pending (tick pm) = pm_pending pm"
  "pm_timers (tick pm) = pm_timers pm" "pm_unmanaged (tick pm) = pm_unmanaged pm"
  "pm_spawned (tick pm) = pm_spawned pm" "pm_journal (tick pm) = pm_journal pm"
  "pm_home (tick pm) = pm_home pm" "pm_suppress (tick pm) = pm_suppress pm"
  "pm_dump (tick pm) = pm_dump pm" "pm_signals (tick pm) = pm_signals pm"
  by (simp_all add: tick_def)

text \<open>The entry an exit callback leaves, as one update.\<close>

definition exit_entry :: "exit_info \<Rightarrow> managed_process \<Rightarrow> managed_process" where
  "exit_entry ex m =
     (if mp_trigger m = TriggerCron
      then upd_info (\<lambda>i. i\<lparr>pi_LastCronStatus := (if ExitInfo_Success ex then ''ok'' else ''failed'')\<rparr>)
             (exit_update ex m)
      else exit_update ex m)"

lemma mp_trigger_exit_update [simp]: "mp_trigger (exit_update ex m) = mp_trigger m"
  by (simp add: exit_update_def)

lemma onProcessExit_reg [pm_simps]:
  "gm_get (pm_reg (onProcessExit ev mp ex pm)) k =
     (if k = mp_key mp then map_option (exit_entry ex) (gm_get (pm_reg pm) k)
      else gm_get (pm_reg pm) k)"
proof (cases "gm_get (pm_reg pm) (mp_key mp)")
  case None
  then show ?thesis by (auto simp: onProcessExit_def Let_def pm_simps recordRun_def registry_simps)
next
  case (Some m)
  show ?thesis
    by (simp add: onProcessExit_def Let_def Some pm_simps recordRun_def registry_simps
        UpdateCronOutcome_def exit_entry_def)
qed

lemma onProcessExit_simps [pm_simps]:
  "pm_nextID (onProcessExit ev mp ex pm) = pm_nextID pm"
  "pm_nextAddr (onProcessExit ev mp ex pm) = pm_nextAddr pm"
  "pm_sched (onProcessExit ev mp ex pm) = pm_sched pm"
  "pm_watching (onProcessExit ev mp ex pm) = pm_watching pm"
  "pm_pending (onProcessExit ev mp ex pm) = pm_pending pm"
  "pm_unmanaged (onProcessExit ev mp ex pm) = pm_unmanaged pm"
  "pm_spawned (onProcessExit ev mp ex pm) = pm_spawned pm"
  "pm_home (onProcessExit ev mp ex pm) = pm_home pm"
  "pm_suppress (onProcessExit ev mp ex pm) = pm_suppress pm"
  "pm_dump (onProcessExit ev mp ex pm) = pm_dump pm"
  "pm_signals (onProcessExit ev mp ex pm) = pm_signals pm"
  by (simp_all add: onProcessExit_def Let_def pm_simps recordRun_def)

lemma onProcessExit_timers:
  "pm_timers (onProcessExit ev mp ex pm) =
     (if \<exists>m. gm_get (pm_reg pm) (mp_key mp) = Some m \<and> exit_restarts ex m then mp # pm_timers pm
      else pm_timers pm)"
  by (auto simp: onProcessExit_def Let_def pm_simps recordRun_def split: option.split)

text \<open>The record the callback writes: the entry under the key, or the zero value without one.\<close>

lemma onProcessExit_journal:
  "\<exists>rec. pm_journal (onProcessExit ev mp ex pm) = rec # pm_journal pm \<and>
     tr_Event rec = EventRun \<and> tr_PID rec = pidOf mp \<and>
     tr_ExitCode rec = ExitCodeOf (ei_Code ex) (ei_Known ex) \<and> tr_Signal rec = ei_Signal ex \<and>
     tr_Status rec = (if ExitInfo_Success ex then RunSuccess else RunFailed) \<and>
     (case gm_get (pm_reg pm) (mp_key mp) of
        Some m \<Rightarrow> tr_Namespace rec = mp_ns m \<and> tr_Name rec = mp_name m \<and>
          tr_ID rec = pi_ID (mp_Info m) \<and> tr_RunID rec = mp_runID m \<and> tr_Trigger rec = mp_trigger m
      | None \<Rightarrow> tr_Namespace rec = '''' \<and> tr_Name rec = '''' \<and> tr_RunID rec = '''' \<and>
          tr_Trigger rec = TriggerNone)"
  by (auto simp: onProcessExit_def Let_def pm_simps recordRun_def exit_update_def zero_info_def
      empty_app_config_def split: option.split)

lemma gm_ok_onProcessExit [simp]: "gm_ok (pm_reg pm) \<Longrightarrow> gm_ok (pm_reg (onProcessExit ev mp ex pm))"
  by (auto simp: onProcessExit_def Let_def pm_simps recordRun_def UpdateCronOutcome_def)

lemma shape_exit_entry [simp]: "shape (exit_entry ex m) = shape m"
  by (simp add: exit_entry_def)

lemma reg_shape_onProcessExit [pm_simps]:
  "reg_shape (pm_reg (onProcessExit ev mp ex pm)) = reg_shape (pm_reg pm)"
  by (auto simp: reg_shape_def fun_eq_iff pm_simps option.map_comp comp_def)

lemma run_records_onProcessExit [simp]:
  "length (run_records (onProcessExit ev mp ex pm)) = Suc (length (run_records pm))"
  using onProcessExit_journal [of ev mp ex pm] by (auto simp: run_records_def)

text \<open>A due callback is a step that keeps the invariant.\<close>

lemma pm_ok_callback:
  assumes "pm_ok pm" "pm_pending pm = xs @ (m, ex) # ys"
  shows "pm_ok (onProcessExit ev m ex (pm\<lparr>pm_pending := xs @ ys\<rparr>))"
proof (rule pm_ok_step [OF assms(1)])
  have g: "gm_ok (pm_reg pm)" "goroutines_ok pm" "accounted pm"
    using assms(1) by (simp_all add: pm_ok_def keys_ok_def)
  show "gm_ok (pm_reg (onProcessExit ev m ex (pm\<lparr>pm_pending := xs @ ys\<rparr>)))"
    using g(1) by simp
  show "\<forall>h \<in> set (handles (onProcessExit ev m ex (pm\<lparr>pm_pending := xs @ ys\<rparr>))).
      handle_ok (pm_reg pm) (pm_nextAddr pm) h"
    using g(2) assms(2)
    by (auto simp: handles_def goroutines_ok_def pm_simps onProcessExit_timers)
  show "distinct (map mp_addr (pm_watching (onProcessExit ev m ex (pm\<lparr>pm_pending := xs @ ys\<rparr>))) @
      map (mp_addr \<circ> fst) (pm_pending (onProcessExit ev m ex (pm\<lparr>pm_pending := xs @ ys\<rparr>))))"
    using g(2) assms(2) by (auto simp: goroutines_ok_def pm_simps)
  show "accounted (onProcessExit ev m ex (pm\<lparr>pm_pending := xs @ ys\<rparr>))"
    using g(3) assms(2) by (simp add: accounted_def pm_simps) (simp add: run_records_def)
qed (simp_all add: pm_simps)

lemma child_done_simps [pm_simps]:
  "pm_reg (child_done a ex pm) = pm_reg pm" "pm_nextID (child_done a ex pm) = pm_nextID pm"
  "pm_nextAddr (child_done a ex pm) = pm_nextAddr pm" "pm_sched (child_done a ex pm) = pm_sched pm"
  "pm_timers (child_done a ex pm) = pm_timers pm" "pm_unmanaged (child_done a ex pm) = pm_unmanaged pm"
  "pm_spawned (child_done a ex pm) = pm_spawned pm" "pm_journal (child_done a ex pm) = pm_journal pm"
  "pm_home (child_done a ex pm) = pm_home pm" "pm_suppress (child_done a ex pm) = pm_suppress pm"
  "pm_dump (child_done a ex pm) = pm_dump pm" "pm_signals (child_done a ex pm) = pm_signals pm"
  by (simp_all add: child_done_def)

lemma distinct_move:
  assumes "distinct (map f W @ map (f \<circ> fst) P)"
  shows "distinct (map f (filter (\<lambda>m. f m \<noteq> a) W) @
    map (f \<circ> fst) (map (\<lambda>m. (m, e)) (filter (\<lambda>m. f m = a) W) @ P))"
  using assms by (induction W) (auto simp: rev_image_eqI)

lemma pm_ok_child_done:
  assumes "pm_ok pm"
  shows "pm_ok (child_done a ex pm)"
proof (rule pm_ok_step [OF assms])
  have g: "gm_ok (pm_reg pm)" "goroutines_ok pm" "accounted pm"
    using assms by (simp_all add: pm_ok_def keys_ok_def)
  show "gm_ok (pm_reg (child_done a ex pm))" using g(1) by (simp add: pm_simps)
  show "\<forall>h \<in> set (handles (child_done a ex pm)). handle_ok (pm_reg pm) (pm_nextAddr pm) h"
    using g(2) by (auto simp: handles_def goroutines_ok_def child_done_def)
  show "distinct (map mp_addr (pm_watching (child_done a ex pm)) @
      map (mp_addr \<circ> fst) (pm_pending (child_done a ex pm)))"
    using distinct_move [of mp_addr "pm_watching pm" "pm_pending pm" a ex] g(2)
    by (simp add: goroutines_ok_def child_done_def)
  have "length (filter P xs) + length (filter (\<lambda>x. \<not> P x) xs) = length xs"
    for P and xs :: "managed_process list" by (rule sum_length_filter_compl)
  from this [of "\<lambda>m. mp_addr m = a" "pm_watching pm"]
  show "accounted (child_done a ex pm)"
    using g(3) by (simp add: accounted_def pm_simps run_records_def) (simp add: child_done_def)
qed (simp_all add: pm_simps)

section \<open>Stop\<close>

text \<open>Projections that no step of \<open>stopProcess\<close> changes.\<close>

definition same_books :: "pm \<Rightarrow> pm \<Rightarrow> bool" where
  "same_books pm pm' \<longleftrightarrow>
     reg_shape (pm_reg pm') = reg_shape (pm_reg pm) \<and> pm_nextID pm' = pm_nextID pm \<and>
     pm_nextAddr pm' = pm_nextAddr pm \<and> pm_home pm' = pm_home pm \<and>
     pm_unmanaged pm' = pm_unmanaged pm \<and> pm_spawned pm' = pm_spawned pm \<and>
     pm_suppress pm' = pm_suppress pm \<and> pm_dump pm' = pm_dump pm"

lemma same_books_trans: "same_books a b \<Longrightarrow> same_books b c \<Longrightarrow> same_books a c"
  by (simp add: same_books_def)

lemma find_pending_split:
  assumes "find (\<lambda>(m, ex). mp_addr m = a) xs = Some (m, ex)" "distinct (map (mp_addr \<circ> fst) xs)"
  shows "\<exists>ys zs. xs = ys @ (m, ex) # zs \<and> filter (\<lambda>(m, ex). mp_addr m \<noteq> a) xs = ys @ zs"
  using assms
proof (induction xs)
  case (Cons x xs)
  obtain m' ex' where x: "x = (m', ex')" by (cases x)
  show ?case
  proof (cases "mp_addr m' = a")
    case True
    have "filter (\<lambda>(m, ex). mp_addr m \<noteq> a) xs = xs"
      using Cons.prems(2) True by (force simp: x filter_id_conv)
    then show ?thesis
      using Cons.prems(1) True by (intro exI [of _ "[]"] exI [of _ xs]) (auto simp: x)
  next
    case False
    then obtain ys zs where "xs = ys @ (m, ex) # zs" "filter (\<lambda>(m, ex). mp_addr m \<noteq> a) xs = ys @ zs"
      using Cons by (auto simp: x)
    then show ?thesis using False by (intro exI [of _ "x # ys"] exI [of _ zs]) (simp add: x)
  qed
qed simp

lemma run_callback_ok:
  assumes "pm_ok pm"
  shows "pm_ok (run_callback ev a pm) \<and> same_books pm (run_callback ev a pm) \<and>
    pm_sched (run_callback ev a pm) = pm_sched pm"
proof (cases "find (\<lambda>(m, ex). mp_addr m = a) (pm_pending pm)")
  case None
  then show ?thesis using assms by (simp add: run_callback_def same_books_def)
next
  case (Some mex)
  obtain m ex where mex: "mex = (m, ex)" by (cases mex)
  have "distinct (map (mp_addr \<circ> fst) (pm_pending pm))"
    using assms by (simp add: pm_ok_def goroutines_ok_def)
  then obtain ys zs where s: "pm_pending pm = ys @ (m, ex) # zs"
    "filter (\<lambda>(m, ex). mp_addr m \<noteq> a) (pm_pending pm) = ys @ zs"
    using find_pending_split [OF Some [unfolded mex]] by blast
  have "run_callback ev a pm = onProcessExit ev m ex (pm\<lparr>pm_pending := ys @ zs\<rparr>)"
    by (simp add: run_callback_def Some mex s(2))
  then show ?thesis
    using pm_ok_callback [OF assms s(1), of ev] by (simp add: same_books_def pm_simps)
qed

lemma pm_ok_cong:
  assumes "pm_ok pm" "pm_reg pm' = pm_reg pm" "pm_nextID pm' = pm_nextID pm"
    "pm_nextAddr pm' = pm_nextAddr pm" "pm_sched pm' = pm_sched pm"
    "pm_watching pm' = pm_watching pm" "pm_pending pm' = pm_pending pm" "pm_timers pm' = pm_timers pm"
    "pm_unmanaged pm' = pm_unmanaged pm" "pm_spawned pm' = pm_spawned pm"
    "length (run_records pm') = length (run_records pm)"
  shows "pm_ok pm'"
  using assms by (simp add: pm_ok_def goroutines_ok_def handles_def accounted_def)

lemma deliver_ok:
  assumes "pm_ok pm"
  shows "pm_ok (deliver ev so mp sigs pm) \<and> same_books pm (deliver ev so mp sigs pm) \<and>
    pm_sched (deliver ev so mp sigs pm) = pm_sched pm"
proof -
  let ?pm1 = "pm\<lparr>pm_signals := pm_signals pm @ sigs\<rparr>"
  let ?pm2 = "child_done (mp_addr mp) (ExitInfoFromWait (so_wait so)) ?pm1"
  have 1: "pm_ok ?pm1" by (rule pm_ok_cong [OF assms]) (simp_all add: run_records_def)
  have b1: "same_books pm ?pm1" by (simp add: same_books_def)
  have 2: "pm_ok ?pm2" by (rule pm_ok_child_done [OF 1])
  have b2: "same_books pm ?pm2" by (simp add: same_books_def pm_simps)
  have 3: "pm_ok (run_callback ev (mp_addr mp) ?pm2)"
    "same_books pm (run_callback ev (mp_addr mp) ?pm2)"
    "pm_sched (run_callback ev (mp_addr mp) ?pm2) = pm_sched pm"
    using run_callback_ok [OF 2, of ev "mp_addr mp"] same_books_trans [OF b2] by (auto simp: pm_simps)
  show ?thesis using 1 2 3 b1 b2 by (simp add: deliver_def Let_def pm_simps)
qed

lemma pm_ok_upd_shape:
  assumes "pm_ok pm" "\<And>m. shape (f m) = shape m"
  shows "pm_ok (upd_reg (\<lambda>r. snd (UpdateInfo k f r)) pm)"
    "same_books pm (upd_reg (\<lambda>r. snd (UpdateInfo k f r)) pm)"
proof -
  have sh: "reg_shape (snd (UpdateInfo k f (pm_reg pm))) = reg_shape (pm_reg pm)"
    by (rule reg_shape_UpdateInfo [OF assms(2)])
  have g: "gm_ok (pm_reg pm)" "goroutines_ok pm" "accounted pm"
    using assms(1) by (simp_all add: pm_ok_def keys_ok_def)
  show "pm_ok (upd_reg (\<lambda>r. snd (UpdateInfo k f r)) pm)"
    by (rule pm_ok_step [OF assms(1)])
      (use g sh in \<open>simp_all add: pm_simps handles_def goroutines_ok_def accounted_def run_records_def\<close>)
  show "same_books pm (upd_reg (\<lambda>r. snd (UpdateInfo k f r)) pm)"
    using sh by (simp add: same_books_def pm_simps)
qed

lemma stopProcess_ok:
  assumes "pm_ok pm"
  shows "pm_ok (stopProcess ev mp pm)" "same_books pm (stopProcess ev mp pm)"
    "pm_sched (stopProcess ev mp pm) = Scheduler_Remove (mp_key mp) (pm_sched pm)"
proof -
  let ?so = "pe_stop ev (pm_tick pm)"
  let ?sigs = "stop_signals (so_kill ?so) (so_in_time ?so \<or> \<not> is_watching (mp_addr mp) pm) (mp_Cmd mp) True"
  let ?pm1 = "pm\<lparr>pm_tick := Suc (pm_tick pm), pm_sched := Scheduler_Remove (mp_key mp) (pm_sched pm),
      pm_reg := close_watcher mp (pm_reg pm)\<rparr>"
  let ?pm2 = "upd_reg (\<lambda>r. snd (UpdateInfo (mp_key mp) mark_stopping r)) ?pm1"
  let ?pm3 = "deliver ev ?so mp ?sigs ?pm2"
  have g: "gm_ok (pm_reg pm)" "goroutines_ok pm" "accounted pm"
    using assms by (simp_all add: pm_ok_def keys_ok_def)
  have 1: "pm_ok ?pm1"
    by (rule pm_ok_step [OF assms, where k = "mp_key mp"])
      (use g in \<open>simp_all add: pm_simps handles_def goroutines_ok_def accounted_def run_records_def\<close>)
  have b1: "same_books pm ?pm1" by (simp add: same_books_def)
  note 2 = pm_ok_upd_shape [OF 1, of mark_stopping "mp_key mp"]
  have s2: "pm_sched ?pm2 = Scheduler_Remove (mp_key mp) (pm_sched pm)" by (simp add: pm_simps)
  have 3: "pm_ok ?pm3" "same_books ?pm2 ?pm3" "pm_sched ?pm3 = Scheduler_Remove (mp_key mp) (pm_sched pm)"
    using deliver_ok [OF 2(1), of ev ?so mp ?sigs] s2 by auto
  have e: "stopProcess ev mp pm = upd_reg (\<lambda>r. snd (UpdateInfo (mp_key mp) mark_stopped r)) ?pm3"
    by (simp add: stopProcess_def Let_def Executor_Stop_def)
  show "pm_ok (stopProcess ev mp pm)"
    unfolding e by (rule pm_ok_upd_shape [OF 3(1)]) simp
  show "pm_sched (stopProcess ev mp pm) = Scheduler_Remove (mp_key mp) (pm_sched pm)"
    unfolding e by (simp add: pm_simps 3(3))
  have "same_books ?pm3 (upd_reg (\<lambda>r. snd (UpdateInfo (mp_key mp) mark_stopped r)) ?pm3)"
    by (rule pm_ok_upd_shape [OF 3(1)]) simp
  then show "same_books pm (stopProcess ev mp pm)"
    unfolding e
    by (intro same_books_trans [OF b1 same_books_trans [OF 2(2) same_books_trans [OF 3(2)]]])
      simp_all
qed

lemma stopProcess_disarmed:
  assumes "pm_ok pm"
  shows "armed (pm_sched (stopProcess ev mp pm)) k =
    (if k = mp_key mp then None else armed (pm_sched pm) k)"
  using assms by (simp add: stopProcess_ok(3) armed_Remove pm_ok_def)

lemma stopProcess_entry:
  assumes "pm_ok pm" "gm_get (pm_reg pm) k = Some m"
  shows "\<exists>m'. gm_get (pm_reg (stopProcess ev mp pm)) k = Some m' \<and> shape m' = shape m"
  using reg_shape_Some [of "pm_reg pm" "pm_reg (stopProcess ev mp pm)" k m]
    stopProcess_ok(2) [OF assms(1), of ev mp] assms(2) by (simp add: same_books_def)

section \<open>Launch\<close>

definition launch_key :: "string \<Rightarrow> app_start_req \<Rightarrow> string" where
  "launch_key name req = cronKey (req_ns req) name"

definition launch_found :: "string \<Rightarrow> app_start_req \<Rightarrow> pm \<Rightarrow> (managed_process \<times> string) option" where
  "launch_found name req pm =
     findExistingForLaunch (req_ns req) name (ac_ConfigFile (rq_App req)) (pm_reg pm)"

text \<open>A launch that meets a paused entry and was triggered by a schedule or a restart.\<close>

definition launch_blocked :: "string \<Rightarrow> app_start_req \<Rightarrow> pm \<Rightarrow> bool" where
  "launch_blocked name req pm \<longleftrightarrow>
     rq_CronTriggered req \<and> (\<exists>m k. launch_found name req pm = Some (m, k) \<and> mp_paused m)"

definition launched :: "pm_env \<Rightarrow> string \<Rightarrow> app_start_req \<Rightarrow> trigger \<Rightarrow> start_result \<Rightarrow> pm \<Rightarrow> managed_process" where
  "launched ev name req trg result pm =
     new_process ev (pm_tick pm) (pm_nextAddr pm) (pm_nextID pm) name req trg result
       (map_option (\<lambda>x. mp_Info (fst x)) (launch_found name req pm))"

lemma launch_Inl:
  assumes "fst (Executor_Start (pe_start ev (pm_tick pm)) (pm_home pm) req name) = Inl e"
  shows "launchProcessWith ev name req trg pm = (Inl e, tick pm)"
  using assms by (simp add: launchProcessWith_def)

lemma launch_blocked_eq:
  assumes "fst (Executor_Start (pe_start ev (pm_tick pm)) (pm_home pm) req name) = Inr result"
    "launch_found name req pm = Some (m, k)" "mp_paused m" "rq_CronTriggered req"
  shows "launchProcessWith ev name req trg pm =
    (Inr (mp_Info m),
     (tick pm)\<lparr>pm_unmanaged := (case sr_Cmd result of Some p \<Rightarrow> [p] | None \<Rightarrow> []) @ pm_unmanaged pm,
               pm_spawned := (case sr_Cmd result of Some p \<Rightarrow> [p] | None \<Rightarrow> []) @ pm_spawned pm\<rparr>)"
  using assms by (simp add: launchProcessWith_def launch_found_def Let_def)

lemma launch_new:
  assumes "fst (Executor_Start (pe_start ev (pm_tick pm)) (pm_home pm) req name) = Inr result"
    "\<not> launch_blocked name req pm"
  shows "launchProcessWith ev name req trg pm =
    (let mp = launched ev name req trg result pm; ck = launch_key name req;
         installed = gm_set ck mp (pm_reg pm)
     in (Inr (mp_Info mp),
         pm\<lparr>pm_tick := Suc (pm_tick pm),
            pm_nextAddr := Suc (pm_nextAddr pm),
            pm_nextID := (if launch_found name req pm = None then pm_nextID pm + 1 else pm_nextID pm),
            pm_reg := (case launch_found name req pm of
                         Some (_, oldKey) \<Rightarrow>
                           if oldKey \<noteq> '''' \<and> oldKey \<noteq> ck then gm_del oldKey installed else installed
                       | None \<Rightarrow> installed),
            pm_watching := (if runs_now req then mp # pm_watching pm else pm_watching pm),
            pm_spawned := (case sr_Cmd result of Some p \<Rightarrow> [p] | None \<Rightarrow> []) @ pm_spawned pm,
            pm_sched := register_jobs ev name req (pm_sched pm)\<rparr>))"
proof -
  have "((case launch_found name req pm of Some (m, _) \<Rightarrow> mp_paused m | None \<Rightarrow> False) \<and>
      rq_CronTriggered req) = False"
    using assms(2) by (auto simp: launch_blocked_def split: option.splits)
  then show ?thesis
    unfolding launchProcessWith_def Let_def launched_def launch_key_def launch_found_def
    by (simp only: assms(1) sum.case if_False)
qed

lemma Executor_Start_Cmd:
  assumes "fst (Executor_Start env home req name) = Inr result"
  shows "sr_Cmd result = None \<longleftrightarrow> \<not> runs_now req"
  using Executor_Start_idle [of env home req name result "snd (Executor_Start env home req name)"] assms
  by (auto simp: runs_now_def prod_eq_iff)

lemma launched_simps [pm_simps]:
  "mp_addr (launched ev name req trg result pm) = pm_nextAddr pm"
  "mp_ns (launched ev name req trg result pm) = req_ns req"
  "mp_name (launched ev name req trg result pm) = name"
  "mp_key (launched ev name req trg result pm) = launch_key name req"
  "mp_paused (launched ev name req trg result pm) = ac_Paused (rq_App req)"
  "mp_stopping (launched ev name req trg result pm) = False"
  "mp_Cmd (launched ev name req trg result pm) = sr_Cmd result"
  "mp_trigger (launched ev name req trg result pm) = trg"
  "ac_Cron (pi_App (mp_Info (launched ev name req trg result pm))) = ac_Cron (rq_App req)"
  "ac_CronRestart (pi_App (mp_Info (launched ev name req trg result pm))) = ac_CronRestart (rq_App req)"
  "pi_Status (mp_Info (launched ev name req trg result pm)) = launch_status req"
  by (simp_all add: launched_def new_process_def launch_config_def mp_key_def launch_key_def Let_def)

lemma launched_ID:
  "pi_ID (mp_Info (launched ev name req trg result pm)) =
     (case launch_found name req pm of Some (m, _) \<Rightarrow> pi_ID (mp_Info m) | None \<Rightarrow> pm_nextID pm)"
  by (simp add: launched_def new_process_def split: option.split)

text \<open>What a launch leaves armed.\<close>

lemma register_jobs_armed:
  assumes "sched_ok s"
  shows "sched_ok (register_jobs ev name req s)"
    "armed (register_jobs ev name req s) k =
      (if k \<noteq> launch_key name req \<or> ac_Paused (rq_App req) then armed s k
       else if ac_Cron (rq_App req) \<noteq> '''' then
         (if pe_valid_spec ev (ac_Cron (rq_App req))
          then Some (ac_Cron (rq_App req), JobCron (req_ns req) name req) else None)
       else if ac_CronRestart (rq_App req) \<noteq> '''' then
         (if pe_valid_spec ev (ac_CronRestart (rq_App req))
          then Some (ac_CronRestart (rq_App req), JobCronRestart k (req_ns req) name) else None)
       else armed s k)"
  using assms by (simp_all add: register_jobs_def Let_def launch_key_def armed_Register)

definition launch_pre :: "string \<Rightarrow> app_start_req \<Rightarrow> pm \<Rightarrow> bool" where
  "launch_pre name req pm \<longleftrightarrow>
     (armed (pm_sched pm) (launch_key name req) = None \<or>
      \<not> ac_Paused (rq_App req) \<and> (ac_Cron (rq_App req) \<noteq> '''' \<or> ac_CronRestart (rq_App req) \<noteq> '''')) \<and>
     (\<forall>m k. launch_found name req pm = Some (m, k) \<and> k \<noteq> launch_key name req \<longrightarrow>
        armed (pm_sched pm) k = None)"

lemma launch_reg_get:
  assumes "keys_ok (pm_reg pm)"
  shows "gm_get (case launch_found name req pm of
                   Some (_, oldKey) \<Rightarrow>
                     if oldKey \<noteq> '''' \<and> oldKey \<noteq> launch_key name req
                     then gm_del oldKey (gm_set (launch_key name req) mp (pm_reg pm))
                     else gm_set (launch_key name req) mp (pm_reg pm)
                 | None \<Rightarrow> gm_set (launch_key name req) mp (pm_reg pm)) k =
    (if k = launch_key name req then Some mp
     else if \<exists>m. launch_found name req pm = Some (m, k) then None
     else gm_get (pm_reg pm) k)"
proof (cases "launch_found name req pm")
  case None
  then show ?thesis by (simp add: registry_simps)
next
  case (Some mk)
  obtain m oldKey where mk: "mk = (m, oldKey)" by (cases mk)
  have "gm_get (pm_reg pm) oldKey = Some m"
    using findExisting_found Some assms by (auto simp: launch_found_def mk keys_ok_def)
  then have "oldKey = mp_key m" using assms by (auto simp: keys_ok_def)
  then have "oldKey \<noteq> ''''" by (simp add: mp_key_def cronKey_def)
  then show ?thesis by (auto simp: Some mk registry_simps)
qed

lemma gm_ok_launch_reg:
  "gm_ok r \<Longrightarrow> gm_ok (case found of
                   Some (_, oldKey) \<Rightarrow>
                     if oldKey \<noteq> '''' \<and> oldKey \<noteq> ck then gm_del oldKey (gm_set ck mp r) else gm_set ck mp r
                 | None \<Rightarrow> gm_set ck mp r)"
  by (auto split: option.split)

text \<open>The parts of the invariant after an entry was installed and at most one other removed.\<close>

lemma installed_ok:
  assumes "keys_ok r" "gm_ok r'" "mp_key mp = ck"
    "\<And>k. gm_get r' k = (if k = ck then Some mp else if k \<in> gone then None else gm_get r k)"
  shows "keys_ok r'"
  using assms by (auto simp: keys_ok_def split: if_splits)

lemma installed_ids:
  assumes "ids_ok n r" "0 \<le> n"
    "\<And>k. gm_get r' k = (if k = ck then Some mp else if k \<in> gone then None else gm_get r k)"
    "pi_ID (mp_Info mp) = n \<and> n' = n + 1 \<or>
     n' = n \<and> (\<exists>m k. gm_get r k = Some m \<and> pi_ID (mp_Info m) = pi_ID (mp_Info mp) \<and> (k = ck \<or> k \<in> gone))"
  shows "ids_ok n' r'"
  using assms(4)
proof
  assume "pi_ID (mp_Info mp) = n \<and> n' = n + 1"
  then show ?thesis
    using assms(1,2) by (auto simp: ids_ok_def assms(3) split: if_splits) fastforce+
next
  assume "n' = n \<and> (\<exists>m k. gm_get r k = Some m \<and> pi_ID (mp_Info m) = pi_ID (mp_Info mp) \<and> (k = ck \<or> k \<in> gone))"
  then obtain m k where h: "n' = n" "gm_get r k = Some m" "pi_ID (mp_Info m) = pi_ID (mp_Info mp)"
    "k = ck \<or> k \<in> gone" by blast
  have old: "0 \<le> pi_ID (mp_Info a) \<and> pi_ID (mp_Info a) < n" if "gm_get r l = Some a" for l a
    using assms(1) that by (auto simp: ids_ok_def)
  have uniq: "l = k" if "gm_get r l = Some a" "pi_ID (mp_Info a) = pi_ID (mp_Info mp)" for l a
    using assms(1) that h(2,3) unfolding ids_ok_def by metis
  have rest: "l = l'" if "gm_get r l = Some a" "gm_get r l' = Some a'"
    "pi_ID (mp_Info a) = pi_ID (mp_Info a')" for l a l' a'
    using assms(1) that unfolding ids_ok_def by blast
  show ?thesis
    unfolding ids_ok_def
  proof (intro conjI allI impI; (elim conjE)?)
    fix l a assume "gm_get r' l = Some a"
    then show "0 \<le> pi_ID (mp_Info a)" "pi_ID (mp_Info a) < n'"
      using old [of l a] old [OF h(2)] h(1,3) by (auto simp: assms(3) split: if_splits)
  next
    fix l a l' a'
    assume "gm_get r' l = Some a" "gm_get r' l' = Some a'" "pi_ID (mp_Info a) = pi_ID (mp_Info a')"
    then have c: "l = ck \<and> a = mp \<or> l \<noteq> ck \<and> l \<notin> gone \<and> gm_get r l = Some a"
      "l' = ck \<and> a' = mp \<or> l' \<noteq> ck \<and> l' \<notin> gone \<and> gm_get r l' = Some a'"
      and e: "pi_ID (mp_Info a) = pi_ID (mp_Info a')"
      by (simp_all add: assms(3) split: if_splits)
    have "l = ck" if "gm_get r l = Some b" "pi_ID (mp_Info b) = pi_ID (mp_Info mp)" "l \<notin> gone" for l b
      using uniq [OF that(1,2)] that(3) h(4) by blast
    with c e rest show "l = l'" by metis
  qed
qed

lemma installed_addrs:
  assumes "addrs_ok n r" "mp_addr mp = n"
    "\<And>k. gm_get r' k = (if k = ck then Some mp else if k \<in> gone then None else gm_get r k)"
  shows "addrs_ok (Suc n) r'"
proof -
  have old: "mp_addr a < n" if "gm_get r l = Some a" for l a
    using assms(1) that by (auto simp: addrs_ok_def)
  have uniq: "l = l'" if "gm_get r l = Some a" "gm_get r l' = Some a'" "mp_addr a = mp_addr a'" for l a l' a'
    using assms(1) that unfolding addrs_ok_def by blast
  show ?thesis
    unfolding addrs_ok_def
  proof (intro conjI allI impI; (elim conjE)?)
    fix l a assume "gm_get r' l = Some a"
    then show "mp_addr a < Suc n"
      using old [of l a] assms(2) by (auto simp: assms(3) split: if_splits)
  next
    fix l a l' a'
    assume "gm_get r' l = Some a" "gm_get r' l' = Some a'" "mp_addr a = mp_addr a'"
    then show "l = l'"
      using uniq [of l a l' a'] old [of l a] old [of l' a'] assms(2) by (auto simp: assms(3) split: if_splits)
  qed
qed

lemma installed_handle:
  assumes "handle_ok r n m" "mp_addr mp = n"
    "\<And>k. gm_get r' k = (if k = ck then Some mp else if k \<in> gone then None else gm_get r k)"
  shows "handle_ok r' (Suc n) m"
  using assms(1,2) by (auto simp: handle_ok_def assms(3) split: if_splits)

lemma installed_handle_self:
  assumes "addrs_ok n r" "mp_addr mp = n" "mp_key mp = ck"
    "\<And>k. gm_get r' k = (if k = ck then Some mp else if k \<in> gone then None else gm_get r k)"
  shows "handle_ok r' (Suc n) mp"
  using assms(1-3) by (fastforce simp: handle_ok_def addrs_ok_def assms(4) split: if_splits)

lemma installed_armed:
  assumes "armed_ok r s" "armed_ok_at = (\<lambda>sp job. \<not> mp_paused mp \<and> sp \<noteq> '''' \<and>
       (sp = ac_Cron (pi_App (mp_Info mp)) \<and>
              (\<exists>req. job = JobCron (mp_ns mp) (mp_name mp) req \<and> req_ns req = mp_ns mp \<and> \<not> ac_Paused (rq_App req)) \<or>
        ac_Cron (pi_App (mp_Info mp)) = '''' \<and> sp = ac_CronRestart (pi_App (mp_Info mp)) \<and>
        job = JobCronRestart ck (mp_ns mp) (mp_name mp)))"
    "\<And>k. gm_get r' k = (if k = ck then Some mp else if k \<in> gone then None else gm_get r k)"
    "\<And>k. k \<noteq> ck \<Longrightarrow> armed s' k = armed s k"
    "\<And>k. k \<in> gone \<Longrightarrow> k \<noteq> ck \<Longrightarrow> armed s k = None"
    "\<And>sp job. armed s' ck = Some (sp, job) \<Longrightarrow> armed_ok_at sp job"
  shows "armed_ok r' s'"
  unfolding armed_ok_def
proof (intro allI impI)
  fix k sp job
  assume a: "armed s' k = Some (sp, job)"
  show "\<exists>mp. gm_get r' k = Some mp \<and> \<not> mp_paused mp \<and> sp \<noteq> '''' \<and>
    (sp = ac_Cron (pi_App (mp_Info mp)) \<and>
              (\<exists>req. job = JobCron (mp_ns mp) (mp_name mp) req \<and> req_ns req = mp_ns mp \<and> \<not> ac_Paused (rq_App req)) \<or>
     ac_Cron (pi_App (mp_Info mp)) = '''' \<and> sp = ac_CronRestart (pi_App (mp_Info mp)) \<and>
     job = JobCronRestart k (mp_ns mp) (mp_name mp))"
  proof (cases "k = ck")
    case True
    then show ?thesis using a assms(6) by (simp add: assms(2,3))
  next
    case False
    then have "armed s k = Some (sp, job)" "k \<notin> gone"
      using a assms(4) [of k] assms(5) [of k] by auto
    then show ?thesis using assms(1) False unfolding armed_ok_def assms(3) by simp
  qed
qed

lemma pm_ok_launch:
  assumes ok: "pm_ok pm" and pre: "launch_pre name req pm"
  shows "pm_ok (snd (launchProcessWith ev name req trg pm))"
proof (cases "fst (Executor_Start (pe_start ev (pm_tick pm)) (pm_home pm) req name)")
  case (Inl e)
  then show ?thesis
    using pm_ok_cong [OF ok, of "tick pm"] by (simp add: launch_Inl pm_simps run_records_def)
next
  case (Inr result)
  note start = Inr
  have cfg: "configs_ok (pm_reg pm)" using ok by (simp add: pm_ok_def)
  have all: "keys_ok (pm_reg pm)" "ids_ok (pm_nextID pm) (pm_reg pm)" "0 \<le> pm_nextID pm"
    "addrs_ok (pm_nextAddr pm) (pm_reg pm)" "sched_ok (pm_sched pm)"
    "armed_ok (pm_reg pm) (pm_sched pm)" "goroutines_ok pm" "accounted pm"
    using ok by (simp_all add: pm_ok_def)
  show ?thesis
  proof (cases "launch_blocked name req pm")
    case True
    then obtain m k where "launch_found name req pm = Some (m, k)" "mp_paused m" "rq_CronTriggered req"
      by (auto simp: launch_blocked_def)
    from launch_blocked_eq [OF start this] show ?thesis
      using all cfg by (simp add: pm_ok_def pm_simps goroutines_ok_def handles_def accounted_def run_records_def)
  next
    case False
    define mp where "mp = launched ev name req trg result pm"
    define ck where "ck = launch_key name req"
    define gone where "gone = {k. \<exists>m. launch_found name req pm = Some (m, k)}"
    define pm' where "pm' = snd (launchProcessWith ev name req trg pm)"
    note new = launch_new [OF start False, of trg, folded mp_def ck_def, unfolded Let_def]
    have mp: "mp_addr mp = pm_nextAddr pm" "mp_key mp = ck" "mp_Cmd mp = sr_Cmd result"
      by (simp_all add: mp_def ck_def pm_simps)
    have get: "gm_get (pm_reg pm') k =
        (if k = ck then Some mp else if k \<in> gone then None else gm_get (pm_reg pm) k)" for k
      using launch_reg_get [OF all(1), of name req mp k, folded ck_def]
      by (simp add: pm'_def new gone_def)
    have gm: "gm_ok (pm_reg pm')"
      using all(1) by (simp add: pm'_def new keys_ok_def gm_ok_launch_reg)
    have k': "keys_ok (pm_reg pm')" by (rule installed_ok [OF all(1) gm mp(2) get])
    have "mp_ns mp \<noteq> ''''" "\<not> ac_Paused (pi_App (mp_Info mp))"
      by (simp_all add: mp_def launched_def new_process_def launch_config_def Let_def req_ns_def
          DefaultNamespace_def)
    then have d': "configs_ok (pm_reg pm')"
      using cfg by (auto simp: configs_ok_def get split: if_splits)
    have i': "ids_ok (pm_nextID pm') (pm_reg pm')"
    proof (rule installed_ids [OF all(2,3) get])
      show "pi_ID (mp_Info mp) = pm_nextID pm \<and> pm_nextID pm' = pm_nextID pm + 1 \<or>
        pm_nextID pm' = pm_nextID pm \<and>
        (\<exists>m k. gm_get (pm_reg pm) k = Some m \<and> pi_ID (mp_Info m) = pi_ID (mp_Info mp) \<and>
          (k = ck \<or> k \<in> gone))"
      proof (cases "launch_found name req pm")
        case None
        then show ?thesis by (simp add: mp_def launched_ID pm'_def new)
      next
        case (Some mk)
        obtain m k where mk: "mk = (m, k)" by (cases mk)
        have "gm_get (pm_reg pm) k = Some m"
          using findExisting_found Some all(1) by (auto simp: launch_found_def mk keys_ok_def)
        then show ?thesis
          using Some by (auto simp: mp_def launched_ID pm'_def new gone_def mk)
      qed
    qed
    have n': "0 \<le> pm_nextID pm'" using all(3) by (simp add: pm'_def new)
    have a': "addrs_ok (pm_nextAddr pm') (pm_reg pm')"
      using installed_addrs [OF all(4) mp(1) get] by (simp add: pm'_def new)
    have s: "pm_sched pm' = register_jobs ev name req (pm_sched pm)" by (simp add: pm'_def new)
    have s': "sched_ok (pm_sched pm')" unfolding s by (rule register_jobs_armed(1) [OF all(5)])
    have r': "armed_ok (pm_reg pm') (pm_sched pm')"
    proof (rule installed_armed [OF all(6) refl get])
      show "armed (pm_sched pm') k = armed (pm_sched pm) k" if "k \<noteq> ck" for k
        using that by (simp add: s register_jobs_armed(2) [OF all(5)] ck_def)
      show "armed (pm_sched pm) k = None" if "k \<in> gone" "k \<noteq> ck" for k
        using pre that by (auto simp: launch_pre_def gone_def ck_def)
      show "\<not> mp_paused mp \<and> sp \<noteq> '''' \<and>
          (sp = ac_Cron (pi_App (mp_Info mp)) \<and>
              (\<exists>req. job = JobCron (mp_ns mp) (mp_name mp) req \<and> req_ns req = mp_ns mp \<and> \<not> ac_Paused (rq_App req)) \<or>
           ac_Cron (pi_App (mp_Info mp)) = '''' \<and> sp = ac_CronRestart (pi_App (mp_Info mp)) \<and>
           job = JobCronRestart ck (mp_ns mp) (mp_name mp))"
        if "armed (pm_sched pm') ck = Some (sp, job)" for sp job
        using that pre
        by (auto simp: s register_jobs_armed(2) [OF all(5)] ck_def launch_pre_def mp_def pm_simps
            split: if_splits)
    qed
    have g': "goroutines_ok pm'"
    proof -
      have h: "handle_ok (pm_reg pm') (Suc (pm_nextAddr pm)) m" if "m \<in> set (handles pm)" for m
        using installed_handle [OF _ mp(1) get] all(7) that by (simp add: goroutines_ok_def)
      have self: "handle_ok (pm_reg pm') (Suc (pm_nextAddr pm)) mp"
        by (rule installed_handle_self [OF all(4) mp(1,2) get])
      have fresh: "mp_addr m < pm_nextAddr pm" if "m \<in> set (handles pm)" for m
        using all(7) that by (simp add: goroutines_ok_def handle_ok_def)
      have w: "pm_watching pm' = (if runs_now req then mp # pm_watching pm else pm_watching pm)"
        "pm_pending pm' = pm_pending pm" "pm_timers pm' = pm_timers pm"
        "pm_nextAddr pm' = Suc (pm_nextAddr pm)"
        by (simp_all add: pm'_def new)
      have "set (handles pm') \<subseteq> insert mp (set (handles pm))"
        by (auto simp: handles_def w)
      then have "\<forall>m \<in> set (handles pm'). handle_ok (pm_reg pm') (pm_nextAddr pm') m"
        using h self by (auto simp: w(4))
      moreover have "pm_nextAddr pm \<notin> set (map mp_addr (pm_watching pm) @ map (mp_addr \<circ> fst) (pm_pending pm))"
        using fresh by (fastforce simp: handles_def)
      then have "distinct (map mp_addr (pm_watching pm') @ map (mp_addr \<circ> fst) (pm_pending pm'))"
        using all(7) by (simp add: w goroutines_ok_def mp(1))
      ultimately show ?thesis by (simp add: goroutines_ok_def)
    qed
    have c': "accounted pm'"
      using all(8) Executor_Start_Cmd [OF start]
      by (auto simp: accounted_def pm'_def new run_records_def split: option.split)
    show ?thesis
      using k' d' i' n' a' s' r' g' c' by (simp add: pm_ok_def pm'_def)
  qed
qed

section \<open>The requests keep the invariant\<close>

lemma pm_ok_keys: "pm_ok pm \<Longrightarrow> gm_get (pm_reg pm) k = Some m \<Longrightarrow> mp_key m = k"
  by (simp add: pm_ok_def keys_ok_def)

lemma launch_found_get:
  "pm_ok pm \<Longrightarrow> launch_found name req pm = Some (m, k) \<Longrightarrow> gm_get (pm_reg pm) k = Some m"
  using findExisting_found by (auto simp: launch_found_def pm_ok_def keys_ok_def)

lemma launch_found_other:
  "launch_found name req pm = Some (m, k) \<Longrightarrow> k \<noteq> launch_key name req \<Longrightarrow>
   gm_get (pm_reg pm) (launch_key name req) = None"
  using findExisting_same_key by (auto simp: launch_found_def launch_key_def)

lemma armed_entry:
  "pm_ok pm \<Longrightarrow> armed (pm_sched pm) k = Some (sp, job) \<Longrightarrow>
   \<exists>m. gm_get (pm_reg pm) k = Some m \<and> \<not> mp_paused m \<and>
     (sp = ac_Cron (pi_App (mp_Info m)) \<or> sp = ac_CronRestart (pi_App (mp_Info m))) \<and> sp \<noteq> ''''"
  unfolding pm_ok_def armed_ok_def by blast

lemma armed_registered: "pm_ok pm \<Longrightarrow> gm_get (pm_reg pm) k = None \<Longrightarrow> armed (pm_sched pm) k = None"
  using armed_entry by (cases "armed (pm_sched pm) k") fastforce+

lemma armed_not_paused:
  "pm_ok pm \<Longrightarrow> gm_get (pm_reg pm) k = Some m \<Longrightarrow> mp_paused m \<Longrightarrow> armed (pm_sched pm) k = None"
  using armed_entry by (cases "armed (pm_sched pm) k") fastforce+

text \<open>A launch under a key that is registered finds the entry there.\<close>

lemma launch_found_key:
  "gm_get (pm_reg pm) (launch_key name req) = Some m \<Longrightarrow>
   launch_found name req pm = Some (m, launch_key name req)"
  by (simp add: launch_found_def findExistingForLaunch_def launch_key_def)

text \<open>After the process a launch would replace is stopped, nothing stands in the way.\<close>

lemma launch_found_shape:
  assumes "pm_ok pm" "launch_found name req (stopProcess ev mp pm) = Some (m, k)"
  shows "\<exists>m'. gm_get (pm_reg pm) k = Some m' \<and> shape m' = shape m"
  using launch_found_get [OF stopProcess_ok(1) [OF assms(1)] assms(2)] reg_shape_Some
    stopProcess_ok(2) [OF assms(1)] by (metis same_books_def)

lemma launch_pre_same_key:
  assumes "pm_ok pm" "gm_get (pm_reg pm) (launch_key name req) = Some m"
    "armed (pm_sched pm) (launch_key name req) = None"
  shows "launch_pre name req pm"
  using assms(3) launch_found_key [OF assms(2)] by (simp add: launch_pre_def)

text \<open>
  The entries stay in place while one of them is stopped, so the lookups by key and by
  configuration file find the same keys before and after.
\<close>

definition app_of :: "registry \<Rightarrow> (string \<times> app_config) list" where
  "app_of r = map (\<lambda>(k, m). (k, pi_App (mp_Info m))) r"

lemma gm_set_same:
  "gm_get r k = Some v \<Longrightarrow> f v' = f v \<Longrightarrow>
   map (\<lambda>(k, m). (k, f m)) (gm_set k v' r) = map (\<lambda>(k, m). (k, f m)) r"
  by (induction r) (auto simp: gm_set_def gm_get_def split: if_splits)

lemma app_of_UpdateInfo:
  "(\<And>m. pi_App (mp_Info (f m)) = pi_App (mp_Info m)) \<Longrightarrow> app_of (snd (UpdateInfo k f r)) = app_of r"
  using gm_set_same [of r k _ "\<lambda>m. pi_App (mp_Info m)"]
  by (auto simp: app_of_def UpdateInfo_def split: option.split)

lemma app_of_onProcessExit: "app_of (pm_reg (onProcessExit ev m ex pm)) = app_of (pm_reg pm)"
  by (auto simp: onProcessExit_def Let_def pm_simps recordRun_def UpdateCronOutcome_def
      exit_update_def app_of_UpdateInfo)

lemma app_of_stopProcess: "app_of (pm_reg (stopProcess ev mp pm)) = app_of (pm_reg pm)"
proof -
  have c: "app_of (pm_reg (run_callback ev a p)) = app_of (pm_reg p)" for a p
    by (auto simp: run_callback_def app_of_onProcessExit split: option.split)
  have d: "app_of (pm_reg (deliver ev so mp sigs p)) = app_of (pm_reg p)" for so sigs p
    by (simp add: deliver_def Let_def c pm_simps)
  show ?thesis
    by (simp add: stopProcess_def Let_def Executor_Stop_def pm_simps d close_watcher_def
        app_of_UpdateInfo mark_stopping_def mark_stopped_def)
qed

lemma find_map: "find P (map f xs) = map_option f (find (P \<circ> f) xs)"
  by (induction xs) auto

lemma findExisting_keys:
  "map_option snd (findExistingForLaunch ns name cf r) =
     (if cronKey ns name \<in> fst ` set (app_of r) then Some (cronKey ns name)
      else if cf = '''' then None
      else map_option fst (find (\<lambda>(k, a). ac_Name a = name \<and> ac_ConfigFile a = cf) (app_of r)))"
proof -
  have "cronKey ns name \<in> fst ` set (app_of r) \<longleftrightarrow> gm_get r (cronKey ns name) \<noteq> None"
    by (force simp: app_of_def gm_get_def map_of_eq_None_iff)
  then show ?thesis
    by (auto simp: findExistingForLaunch_def app_of_def find_map comp_def case_prod_unfold
        option.map_comp split: option.split)
qed

lemma launch_found_stop_key:
  "map_option snd (launch_found name req (stopProcess ev mp pm)) = map_option snd (launch_found name req pm)"
  by (simp add: launch_found_def findExisting_keys app_of_stopProcess)

lemma launch_pre_after_stop:
  assumes "pm_ok pm" "launch_found name req pm = Some (m, k)"
  shows "launch_pre name req (stopProcess ev m pm)"
proof -
  have key: "mp_key m = k" using launch_found_get [OF assms] pm_ok_keys [OF assms(1)] by blast
  have k': "k' = k" if "launch_found name req (stopProcess ev m pm) = Some (m', k')" for m' k'
    using launch_found_stop_key [of name req ev m pm] that assms(2) by simp
  have "armed (pm_sched (stopProcess ev m pm)) (launch_key name req) = None"
  proof (cases "k = launch_key name req")
    case True
    then show ?thesis by (simp add: stopProcess_disarmed [OF assms(1)] key)
  next
    case False
    then have "armed (pm_sched pm) (launch_key name req) = None"
      by (rule armed_registered [OF assms(1) launch_found_other [OF assms(2)]])
    then show ?thesis by (simp add: stopProcess_disarmed [OF assms(1)])
  qed
  then show ?thesis
    using k' by (auto simp: launch_pre_def stopProcess_disarmed [OF assms(1)] key)
qed

lemma launch_pre_fresh:
  assumes "pm_ok pm" "launch_found name req pm = None"
  shows "launch_pre name req pm"
proof -
  have "gm_get (pm_reg pm) (launch_key name req) = None"
    using assms(2) by (auto simp: launch_found_def findExistingForLaunch_def launch_key_def split: option.splits)
  then show ?thesis using armed_registered [OF assms(1)] assms(2) by (simp add: launch_pre_def)
qed

lemma start_instances_ok [inv_intros]:
  "pm_ok pm \<Longrightarrow> pm_ok (snd (start_instances ev req is infos pm))"
proof (induction "is" arbitrary: infos pm)
  case Nil
  then show ?case by simp
next
  case (Cons i rest)
  let ?name = "instance_name req (req_instances req) i"
  show ?case
  proof (cases "launch_found ?name req pm")
    case None
    have "pm_ok (snd (launchProcess ev ?name req pm))"
      unfolding launchProcess_def by (rule pm_ok_launch [OF Cons.prems launch_pre_fresh [OF Cons.prems None]])
    then show ?thesis
      using None Cons.IH
      by (auto simp: launch_found_def Let_def split: prod.split sum.split)
  next
    case (Some mk)
    obtain m k where mk: "mk = (m, k)" by (cases mk)
    have "pm_ok (snd (launchProcess ev ?name req (stopProcess ev m pm)))"
      unfolding launchProcess_def
      by (rule pm_ok_launch [OF stopProcess_ok(1) [OF Cons.prems]
            launch_pre_after_stop [OF Cons.prems Some [unfolded mk]]])
    then show ?thesis
      using Some Cons.IH Cons.prems
      by (auto simp: launch_found_def Let_def mk split: prod.split sum.split)
  qed
qed

lemma Save_ok: "pm_ok pm \<Longrightarrow> pm_ok (snd (Save ev pm))"
  by (rule pm_ok_cong [of pm]) (auto simp: Save_def run_records_def split: dump_write.split)

lemma autoSave_ok [inv_intros]: "pm_ok pm \<Longrightarrow> pm_ok (autoSave ev pm)"
  by (simp add: autoSave_def Save_ok)

lemma StartApp_ok [inv_intros]: "pm_ok pm \<Longrightarrow> pm_ok (snd (StartApp ev req pm))"
  using start_instances_ok [of pm ev req "[0..<nat (req_instances req)]" "[]"]
  by (auto simp: StartApp_def autoSave_ok split: prod.split)

text \<open>A request made from an entry goes to the key of the entry.\<close>

lemma entry_launch_key:
  assumes "pm_ok pm" "gm_get (pm_reg pm) k = Some m"
  shows "launch_key (mp_name m) \<lparr>rq_App = pi_App (mp_Info m), rq_CronTriggered = b\<rparr> = k"
    "\<not> ac_Paused (pi_App (mp_Info m))"
proof -
  have "mp_ns m \<noteq> ''''" "\<not> ac_Paused (pi_App (mp_Info m))"
    using assms by (auto simp: pm_ok_def configs_ok_def)
  then show "launch_key (mp_name m) \<lparr>rq_App = pi_App (mp_Info m), rq_CronTriggered = b\<rparr> = k"
    "\<not> ac_Paused (pi_App (mp_Info m))"
    using pm_ok_keys [OF assms] by (simp_all add: launch_key_def req_ns_def mp_key_def)
qed

lemma restart_one_ok [inv_intros]:
  assumes "pm_ok pm"
  shows "pm_ok (restart_one ev trg mp pm)"
proof (cases "gm_get (pm_reg pm) (mp_key mp)")
  case None
  then show ?thesis using assms by (simp add: restart_one_def)
next
  case (Some m)
  let ?req = "\<lparr>rq_App = pi_App (mp_Info m), rq_CronTriggered = True\<rparr>"
  have k: "launch_key (mp_name m) ?req = mp_key mp" by (rule entry_launch_key(1) [OF assms Some])
  obtain m' where m': "gm_get (pm_reg (stopProcess ev mp pm)) (mp_key mp) = Some m'"
    using stopProcess_entry [OF assms Some, of ev mp] by blast
  have "launch_pre (mp_name m) ?req (stopProcess ev mp pm)"
    using m' by (intro launch_pre_same_key stopProcess_ok(1) [OF assms])
      (simp_all add: k stopProcess_disarmed [OF assms])
  then show ?thesis
    using Some pm_ok_launch [OF stopProcess_ok(1) [OF assms]] by (simp add: restart_one_def)
qed

lemma fold_ok:
  assumes "\<And>mp pm. pm_ok pm \<Longrightarrow> pm_ok (f mp pm)" "pm_ok pm"
  shows "pm_ok (fold f mps pm)"
  using assms(2) by (induction mps arbitrary: pm) (simp_all add: assms(1))

lemma stop_one_ok [inv_intros]: "pm_ok pm \<Longrightarrow> pm_ok (stop_one ev mp pm)"
  by (simp add: stop_one_def stopProcess_ok(1))

text \<open>Pausing and deleting touch one entry that is no longer armed.\<close>

lemma pause_update_ok:
  assumes "pm_ok pm" "armed (pm_sched pm) key = None"
  shows "pm_ok (upd_reg (\<lambda>r. snd (UpdateInfo key mark_paused r)) pm)"
proof -
  let ?r = "snd (UpdateInfo key mark_paused (pm_reg pm))"
  have same: "mp_addr (mark_paused m) = mp_addr m" "pi_App (mp_Info (mark_paused m)) = pi_App (mp_Info m)"
    "pi_ID (mp_Info (mark_paused m)) = pi_ID (mp_Info m)" "mp_Cmd (mark_paused m) = mp_Cmd m"
    "mp_key (mark_paused m) = mp_key m" for m
    by (simp_all add: mark_paused_def mp_key_def)
  have all: "keys_ok (pm_reg pm)" "configs_ok (pm_reg pm)" "ids_ok (pm_nextID pm) (pm_reg pm)"
    "addrs_ok (pm_nextAddr pm) (pm_reg pm)" "armed_ok (pm_reg pm) (pm_sched pm)" "goroutines_ok pm"
    "accounted pm" "sched_ok (pm_sched pm)" "0 \<le> pm_nextID pm"
    using assms(1) by (simp_all add: pm_ok_def)
  have g: "\<exists>m0. gm_get (pm_reg pm) k = Some m0 \<and> mp_addr m = mp_addr m0 \<and>
      pi_App (mp_Info m) = pi_App (mp_Info m0) \<and> pi_ID (mp_Info m) = pi_ID (mp_Info m0) \<and>
      mp_Cmd m = mp_Cmd m0 \<and> (k \<noteq> key \<longrightarrow> m = m0)" if "gm_get ?r k = Some m" for k m
    using that same by (cases "k = key") (auto simp: registry_simps)
  have k': "keys_ok ?r" by (rule keys_ok_UpdateInfo [OF all(1) same(5)])
  have i': "ids_ok (pm_nextID pm) ?r" by (rule ids_ok_UpdateInfo [OF all(3) same(3)])
  have c': "configs_ok ?r" using all(2) g unfolding configs_ok_def by metis
  have a': "addrs_ok (pm_nextAddr pm) ?r" using all(4) g unfolding addrs_ok_def by metis
  have h': "handle_ok ?r (pm_nextAddr pm) m" if "handle_ok (pm_reg pm) (pm_nextAddr pm) m" for m
    using that g unfolding handle_ok_def by metis
  have r': "armed_ok ?r (pm_sched pm)"
    unfolding armed_ok_def
  proof (intro allI impI)
    fix k sp job
    assume a: "armed (pm_sched pm) k = Some (sp, job)"
    then have "k \<noteq> key" using assms(2) by auto
    then have "gm_get ?r k = gm_get (pm_reg pm) k" by (simp add: registry_simps)
    then show "\<exists>mp. gm_get ?r k = Some mp \<and> \<not> mp_paused mp \<and> sp \<noteq> '''' \<and>
      (sp = ac_Cron (pi_App (mp_Info mp)) \<and>
              (\<exists>req. job = JobCron (mp_ns mp) (mp_name mp) req \<and> req_ns req = mp_ns mp \<and> \<not> ac_Paused (rq_App req)) \<or>
       ac_Cron (pi_App (mp_Info mp)) = '''' \<and> sp = ac_CronRestart (pi_App (mp_Info mp)) \<and>
       job = JobCronRestart k (mp_ns mp) (mp_name mp))"
      using all(5) a unfolding armed_ok_def by simp
  qed
  show ?thesis
    using k' i' c' a' h' r' all(6-9)
    by (simp add: pm_ok_def pm_simps goroutines_ok_def handles_def accounted_def run_records_def)
qed

lemma pause_one_ok [inv_intros]: "pm_ok pm \<Longrightarrow> pm_ok (pause_one ev mp pm)"
  unfolding pause_one_def
  by (rule pause_update_ok) (simp_all add: stopProcess_ok(1) stopProcess_disarmed)

lemma remove_entry_ok:
  assumes "pm_ok pm" "armed (pm_sched pm) key = None"
  shows "pm_ok (upd_reg (\<lambda>r. snd (Registry_Remove key r)) pm)"
proof -
  let ?r = "snd (Registry_Remove key (pm_reg pm))"
  have all: "keys_ok (pm_reg pm)" "configs_ok (pm_reg pm)" "ids_ok (pm_nextID pm) (pm_reg pm)"
    "addrs_ok (pm_nextAddr pm) (pm_reg pm)" "armed_ok (pm_reg pm) (pm_sched pm)" "goroutines_ok pm"
    "accounted pm" "sched_ok (pm_sched pm)" "0 \<le> pm_nextID pm"
    using assms(1) by (simp_all add: pm_ok_def)
  have g: "gm_get (pm_reg pm) k = Some m" if "gm_get ?r k = Some m" for k m
    using that by (simp add: registry_simps split: if_splits)
  have "gm_ok ?r" using all(1) by (intro reg.ok_drop) (simp add: keys_ok_def)
  then have k': "keys_ok ?r" using all(1) g unfolding keys_ok_def by metis
  have i': "ids_ok (pm_nextID pm) ?r" using all(3) g unfolding ids_ok_def by metis
  have c': "configs_ok ?r" using all(2) g unfolding configs_ok_def by metis
  have a': "addrs_ok (pm_nextAddr pm) ?r" using all(4) g unfolding addrs_ok_def by metis
  have h': "handle_ok ?r (pm_nextAddr pm) m" if "handle_ok (pm_reg pm) (pm_nextAddr pm) m" for m
    using that g unfolding handle_ok_def by metis
  have "k \<noteq> key" if "armed (pm_sched pm) k = Some (sp, job)" for k sp job using that assms(2) by auto
  then have r': "armed_ok ?r (pm_sched pm)"
    using all(5) unfolding armed_ok_def by (simp add: registry_simps)
  show ?thesis
    using k' i' c' a' h' r' all(6-9)
    by (simp add: pm_ok_def pm_simps goroutines_ok_def handles_def accounted_def run_records_def)
qed

lemma delete_one_ok [inv_intros]: "pm_ok pm \<Longrightarrow> pm_ok (delete_one ev mp pm)"
  unfolding delete_one_def
  by (rule remove_entry_ok) (simp_all add: stopProcess_ok(1) stopProcess_disarmed)

lemma StopByName_ok [inv_intros]: "pm_ok pm \<Longrightarrow> pm_ok (snd (StopByName ev name pm))"
  by (simp add: StopByName_def Let_def fold_ok stop_one_ok autoSave_ok)

lemma restartTargets_ok [inv_intros]: "pm_ok pm \<Longrightarrow> pm_ok (snd (restartTargets ev name trg pm))"
  by (simp add: restartTargets_def Let_def fold_ok restart_one_ok)

lemma RestartByName_ok [inv_intros]: "pm_ok pm \<Longrightarrow> pm_ok (snd (RestartByName ev name pm))"
  using restartTargets_ok [of pm ev name TriggerRestart]
  by (auto simp: RestartByName_def autoSave_ok split: prod.split option.split)

lemma PauseByName_ok [inv_intros]: "pm_ok pm \<Longrightarrow> pm_ok (snd (PauseByName ev name pm))"
  by (simp add: PauseByName_def Let_def fold_ok pause_one_ok autoSave_ok)

lemma DeleteByName_ok [inv_intros]: "pm_ok pm \<Longrightarrow> pm_ok (snd (DeleteByName ev name pm))"
  by (simp add: DeleteByName_def Let_def fold_ok delete_one_ok autoSave_ok)

lemma KillAll_ok [inv_intros]: "pm_ok pm \<Longrightarrow> pm_ok (KillAll ev pm)"
  by (simp add: KillAll_def fold_ok stop_one_ok)

lemma resume_all_ok: "pm_ok pm \<Longrightarrow> pm_ok (snd (resume_all ev mps pm))"
proof (induction mps arbitrary: pm)
  case Nil
  then show ?case by simp
next
  case (Cons mp mps)
  show ?case
  proof (cases "gm_get (pm_reg pm) (mp_key mp)")
    case None
    then show ?thesis using Cons by simp
  next
    case (Some m)
    let ?req = "\<lparr>rq_App = pi_App (mp_Info m), rq_CronTriggered = False\<rparr>"
    have k: "launch_key (mp_name m) ?req = mp_key mp" by (rule entry_launch_key(1) [OF Cons.prems Some])
    show ?thesis
    proof (cases "mp_paused m")
      case True
      have "launch_pre (mp_name m) ?req pm"
        using Some armed_not_paused [OF Cons.prems Some True]
        by (intro launch_pre_same_key Cons.prems) (simp_all add: k)
      from pm_ok_launch [OF Cons.prems this, of ev TriggerResurrect] show ?thesis
        using Some True Cons.IH by (auto split: prod.split sum.split)
    next
      case False
      then show ?thesis using Some Cons by simp
    qed
  qed
qed

lemma ResumeByName_ok [inv_intros]: "pm_ok pm \<Longrightarrow> pm_ok (snd (ResumeByName ev name pm))"
  using resume_all_ok [of pm ev "FindByTarget name (pm_reg pm)"]
  by (auto simp: ResumeByName_def Let_def autoSave_ok split: prod.split option.split)

lemma replay_ok: "pm_ok pm \<Longrightarrow> pm_ok (replay ev os es pm)"
  by (induction es arbitrary: pm) (simp_all add: StartApp_ok)

lemma Resurrect_ok [inv_intros]:
  assumes "pm_ok pm"
  shows "pm_ok (snd (Resurrect ev pm))"
proof (cases "pm_dump pm")
  case (DumpEntries es)
  have "pm_ok (pm\<lparr>pm_suppress := True\<rparr>)" by (rule pm_ok_cong [OF assms]) (simp_all add: run_records_def)
  note replay_ok [OF this, of ev "se_os (pe_start ev (pm_tick pm))" es]
  from pm_ok_cong [OF this, of "(replay ev (se_os (pe_start ev (pm_tick pm))) es
      (pm\<lparr>pm_suppress := True\<rparr>))\<lparr>pm_suppress := False\<rparr>"]
  show ?thesis by (simp add: Resurrect_def DumpEntries run_records_def)
qed (use assms in \<open>simp_all add: Resurrect_def\<close>)

lemma UpdateCronStatus_ok:
  "pm_ok pm \<Longrightarrow> pm_ok (upd_reg (\<lambda>r. snd (UpdateCronStatus key t st r)) pm)"
  unfolding UpdateCronStatus_def by (rule pm_ok_upd_shape(1)) simp_all

lemma journal_other_ok:
  "pm_ok pm \<Longrightarrow> pm_ok (recordLaunchFailure ev ns name trg d pm) \<and> pm_ok (recordCronSkip ev ns name t pm) \<and>
   pm_ok (tick pm)"
  by (auto intro!: pm_ok_cong [of pm]
      simp: recordLaunchFailure_def recordCronSkip_def run_records_def Let_def pm_simps)

text \<open>The request a cron job carries goes to the key the job is armed under.\<close>

definition job_at :: "string \<Rightarrow> pm_job \<Rightarrow> bool" where
  "job_at k job \<longleftrightarrow>
     (case job of
        JobCron ns name req \<Rightarrow> cronKey ns name = k \<and> req_ns req = ns \<and> \<not> ac_Paused (rq_App req)
      | JobCronRestart ck ns name \<Rightarrow> ck = k \<and> cronKey ns name = k)"

lemma triggerCron_ok:
  assumes "pm_ok pm" "job_at k (JobCron ns name req)"
  shows "pm_ok (triggerCron ev ns name req pm)"
proof (cases "gm_get (pm_reg pm) k")
  case None
  then show ?thesis using assms by (simp add: triggerCron_def Registry_Get_def job_at_def)
next
  case (Some m)
  let ?req = "req\<lparr>rq_CronTriggered := True\<rparr>"
  have key: "cronKey ns name = k" "launch_key name ?req = k" "mp_key m = k"
    using assms(2) pm_ok_keys [OF assms(1) Some] by (auto simp: job_at_def launch_key_def req_ns_def)
  obtain m' where "gm_get (pm_reg (stopProcess ev m pm)) k = Some m'"
    using stopProcess_entry [OF assms(1) Some, of ev m] by blast
  then have "launch_pre name ?req (stopProcess ev m pm)"
    by (intro launch_pre_same_key stopProcess_ok(1) [OF assms(1)])
      (simp_all add: key stopProcess_disarmed [OF assms(1)])
  from pm_ok_launch [OF stopProcess_ok(1) [OF assms(1)] this, of ev TriggerCron]
  show ?thesis
    using assms(1) key
    by (auto simp: triggerCron_def Registry_Get_def SnapshotOne_def Some Let_def UpdateCronStatus_ok
        journal_other_ok split: prod.split sum.split)
qed

lemma cronRestart_ok: "pm_ok pm \<Longrightarrow> pm_ok (cronRestart ev ck ns name msg pm)"
  using restartTargets_ok [of pm ev ck TriggerCronRestart]
  by (auto simp: cronRestart_def Let_def UpdateCronStatus_ok journal_other_ok split: prod.split option.split)

lemma run_job_ok [inv_intros]: "pm_ok pm \<Longrightarrow> job_at k job \<Longrightarrow> pm_ok (run_job ev msg job pm)"
  using triggerCron_ok cronRestart_ok by (auto simp: run_job_def split: pm_job.split)

lemma restart_timer_ok:
  assumes "pm_ok pm"
  shows "pm_ok (restart_timer ev mp pm)"
proof (cases "gm_get (pm_reg pm) (mp_key mp)")
  case None
  then show ?thesis using assms by (simp add: restart_timer_def)
next
  case (Some m)
  let ?req = "\<lparr>rq_App = pi_App (mp_Info m), rq_CronTriggered = False\<rparr>"
  have k: "launch_key (mp_name m) ?req = mp_key mp" "\<not> ac_Paused (pi_App (mp_Info m))"
    by (rule entry_launch_key [OF assms Some])+
  have found: "launch_found (mp_name m) ?req pm = Some (m, mp_key mp)"
    using launch_found_key [of pm "mp_name m" ?req m] Some by (simp add: k)
  have "launch_pre (mp_name m) ?req pm"
  proof (cases "armed (pm_sched pm) (mp_key mp)")
    case None
    then show ?thesis using found k by (auto simp: launch_pre_def)
  next
    case (Some e)
    then show ?thesis
      using armed_entry [OF assms, of "mp_key mp" "fst e" "snd e"] found k \<open>gm_get (pm_reg pm) (mp_key mp) = Some m\<close>
      by (auto simp: launch_pre_def)
  qed
  then show ?thesis using pm_ok_launch [OF assms] Some assms by (simp add: restart_timer_def)
qed

section \<open>What one stop leaves\<close>

lemma handle_key:
  assumes "pm_ok pm" "gm_get (pm_reg pm) k = Some mp" "m \<in> set (handles pm)" "mp_addr m = mp_addr mp"
  shows "mp_key m = k"
  using assms unfolding pm_ok_def goroutines_ok_def handle_ok_def by metis

text \<open>
  The entry after a stop: it is marked, has no process, and shows \<open>stopped\<close> unless it is paused.
  A callback that runs inside the stop only records the outcome of a cron run.
\<close>

definition stopped_entry :: "managed_process \<Rightarrow> managed_process \<Rightarrow> bool" where
  "stopped_entry m m' \<longleftrightarrow>
     shape m' = shape m \<and> mp_stopping m' \<and> pi_PID (mp_Info m') = 0 \<and>
     pi_Status (mp_Info m') = (if mp_paused m then pi_Status (mp_Info m) else StatusStopped) \<and>
     pi_Restarts (mp_Info m') = pi_Restarts (mp_Info m) \<and>
     mp_runID m' = mp_runID m \<and> mp_trigger m' = mp_trigger m"

definition stopping_entry :: "managed_process \<Rightarrow> managed_process \<Rightarrow> bool" where
  "stopping_entry m m' \<longleftrightarrow>
     shape m' = shape m \<and> mp_stopping m' \<and>
     (mp_paused m \<longrightarrow> pi_Status (mp_Info m') = pi_Status (mp_Info m)) \<and>
     pi_Restarts (mp_Info m') = pi_Restarts (mp_Info m) \<and>
     mp_runID m' = mp_runID m \<and> mp_trigger m' = mp_trigger m"

lemma stopping_exit: "stopping_entry m m' \<Longrightarrow> stopping_entry m (exit_entry ex m')"
  by (auto simp: stopping_entry_def exit_entry_def exit_update_def exit_restarts_def exit_status_def
      shape_def)

lemma stopping_stopped: "stopping_entry m m' \<Longrightarrow> stopped_entry m (mark_stopped m')"
  by (auto simp: stopping_entry_def stopped_entry_def mark_stopped_def shape_def)

lemma run_callback_view:
  assumes "pm_ok pm" "gm_get (pm_reg pm) k = Some e" "mp_addr e = a"
  shows "gm_get (pm_reg (run_callback ev a pm)) k' =
      (if k' = k \<and> a \<in> (mp_addr \<circ> fst) ` set (pm_pending pm)
       then gm_get (pm_reg (run_callback ev a pm)) k else gm_get (pm_reg pm) k')"
    "\<exists>ex. gm_get (pm_reg (run_callback ev a pm)) k \<in> {Some e, Some (exit_entry ex e)}"
proof -
  have "gm_get (pm_reg (run_callback ev a pm)) k' =
      (if k' = k \<and> a \<in> (mp_addr \<circ> fst) ` set (pm_pending pm)
       then gm_get (pm_reg (run_callback ev a pm)) k else gm_get (pm_reg pm) k') \<and>
    (\<exists>ex. gm_get (pm_reg (run_callback ev a pm)) k \<in> {Some e, Some (exit_entry ex e)})"
  proof (cases "find (\<lambda>(m, ex). mp_addr m = a) (pm_pending pm)")
    case None
    then show ?thesis using assms(2) by (simp add: run_callback_def)
  next
    case (Some mex)
    obtain m ex where mex: "mex = (m, ex)" by (cases mex)
    have m: "(m, ex) \<in> set (pm_pending pm)" "mp_addr m = a"
      using find_SomeD [OF Some] by (simp_all add: mex)
    have "m \<in> set (handles pm)" using m(1) by (force simp: handles_def)
    then have key: "mp_key m = k" using handle_key [OF assms(1,2)] m(2) assms(3) by simp
    have r: "gm_get (pm_reg (run_callback ev a pm)) l =
        (if l = k then map_option (exit_entry ex) (gm_get (pm_reg pm) k) else gm_get (pm_reg pm) l)" for l
      by (simp add: run_callback_def Some mex pm_simps key)
    have "a \<in> (mp_addr \<circ> fst) ` set (pm_pending pm)" using m by force
    then show ?thesis using r [of k'] r [of k] assms(2) by auto
  qed
  then show "gm_get (pm_reg (run_callback ev a pm)) k' =
      (if k' = k \<and> a \<in> (mp_addr \<circ> fst) ` set (pm_pending pm)
       then gm_get (pm_reg (run_callback ev a pm)) k else gm_get (pm_reg pm) k')"
    "\<exists>ex. gm_get (pm_reg (run_callback ev a pm)) k \<in> {Some e, Some (exit_entry ex e)}" by blast+
qed

lemma deliver_view:
  assumes "pm_ok pm" "gm_get (pm_reg pm) k = Some e" "mp_addr e = mp_addr mp"
  shows "k' \<noteq> k \<Longrightarrow> gm_get (pm_reg (deliver ev so mp sigs pm)) k' = gm_get (pm_reg pm) k'"
    "\<exists>ex. gm_get (pm_reg (deliver ev so mp sigs pm)) k \<in> {Some e, Some (exit_entry ex e)}"
proof -
  let ?pm1 = "pm\<lparr>pm_signals := pm_signals pm @ sigs\<rparr>"
  let ?pm2 = "child_done (mp_addr mp) (ExitInfoFromWait (so_wait so)) ?pm1"
  have "pm_ok ?pm1" by (rule pm_ok_cong [OF assms(1)]) (simp_all add: run_records_def)
  then have 2: "pm_ok ?pm2" by (rule pm_ok_child_done)
  have g2: "gm_get (pm_reg ?pm2) k = Some e" using assms(2) by (simp add: pm_simps)
  note v = run_callback_view [OF 2 g2 assms(3), of ev]
  show "gm_get (pm_reg (deliver ev so mp sigs pm)) k' = gm_get (pm_reg pm) k'" if "k' \<noteq> k"
    using v(1) [of k'] that by (simp add: deliver_def Let_def pm_simps)
  show "\<exists>ex. gm_get (pm_reg (deliver ev so mp sigs pm)) k \<in> {Some e, Some (exit_entry ex e)}"
    using v(2) assms(2) by (simp add: deliver_def Let_def pm_simps)
qed

lemma stopProcess_view:
  assumes "pm_ok pm" "gm_get (pm_reg pm) (mp_key mp) = Some mp"
  shows "k \<noteq> mp_key mp \<Longrightarrow> gm_get (pm_reg (stopProcess ev mp pm)) k = gm_get (pm_reg pm) k"
    "\<exists>m'. gm_get (pm_reg (stopProcess ev mp pm)) (mp_key mp) = Some m' \<and> stopped_entry mp m'"
proof -
  let ?so = "pe_stop ev (pm_tick pm)" and ?k = "mp_key mp"
  let ?sigs = "stop_signals (so_kill ?so) (so_in_time ?so \<or> \<not> is_watching (mp_addr mp) pm) (mp_Cmd mp) True"
  let ?pm1 = "pm\<lparr>pm_tick := Suc (pm_tick pm), pm_sched := Scheduler_Remove ?k (pm_sched pm),
      pm_reg := close_watcher mp (pm_reg pm)\<rparr>"
  let ?pm2 = "upd_reg (\<lambda>r. snd (UpdateInfo ?k mark_stopping r)) ?pm1"
  let ?e = "mark_stopping (mp\<lparr>mp_Watcher := False\<rparr>)"
  have g: "gm_ok (pm_reg pm)" "goroutines_ok pm" "accounted pm"
    using assms by (simp_all add: pm_ok_def keys_ok_def)
  have "pm_ok ?pm1"
    by (rule pm_ok_step [OF assms(1), where k = ?k])
      (use g in \<open>simp_all add: pm_simps handles_def goroutines_ok_def accounted_def run_records_def\<close>)
  then have 2: "pm_ok ?pm2" by (rule pm_ok_upd_shape(1)) simp
  have g2: "gm_get (pm_reg ?pm2) l = (if l = ?k then Some ?e else gm_get (pm_reg pm) l)" for l
    using assms(2) by (simp add: pm_simps registry_simps close_watcher_def)
  have e: "mp_addr ?e = mp_addr mp" by (simp add: mark_stopping_def)
  have s: "stopProcess ev mp pm = upd_reg (\<lambda>r. snd (UpdateInfo ?k mark_stopped r)) (deliver ev ?so mp ?sigs ?pm2)"
    by (simp add: stopProcess_def Let_def Executor_Stop_def)
  have own: "gm_get (pm_reg ?pm2) ?k = Some ?e" using g2 by simp
  note v = deliver_view [OF 2 own e]
  show "gm_get (pm_reg (stopProcess ev mp pm)) k = gm_get (pm_reg pm) k" if "k \<noteq> ?k"
    unfolding s using v(1) [OF that, of ev ?so ?sigs] that g2 [of k] by (simp add: pm_simps registry_simps)
  have "stopping_entry mp ?e" by (simp add: stopping_entry_def mark_stopping_def shape_def)
  then obtain e' where "gm_get (pm_reg (deliver ev ?so mp ?sigs ?pm2)) ?k = Some e'" "stopping_entry mp e'"
    using v(2) [of ev ?so ?sigs] stopping_exit by blast
  then show "\<exists>m'. gm_get (pm_reg (stopProcess ev mp pm)) ?k = Some m' \<and> stopped_entry mp m'"
    unfolding s using stopping_stopped by (simp add: pm_simps registry_simps)
qed

end
