(* ===== verification/PM_Operations.thy ===== *)
theory PM_Operations
  imports PM_Invariant
begin

text \<open>
  What the requests on a target do: every entry the target selects is changed the way the
  operation changes one, every other entry and every other schedule stays as it was.
\<close>

section \<open>Sweeps over the selected entries\<close>

text \<open>
  An operation on one entry that looks at nothing but its own key can be run over any list of
  entries with distinct keys, in any order, with the same effect on each.
\<close>

locale keyed_sweep =
  fixes inv :: "'s \<Rightarrow> bool"
    and key :: "'v \<Rightarrow> string"
    and view :: "'s \<Rightarrow> string \<Rightarrow> 'o"
    and holds :: "'v \<Rightarrow> 'o \<Rightarrow> bool"
    and post :: "'v \<Rightarrow> 'o \<Rightarrow> bool"
    and step :: "'v \<Rightarrow> 's \<Rightarrow> 's"
  assumes inv_step: "inv s \<Longrightarrow> inv (step v s)"
    and view_other: "inv s \<Longrightarrow> holds v (view s (key v)) \<Longrightarrow> k \<noteq> key v \<Longrightarrow> view (step v s) k = view s k"
    and view_own: "inv s \<Longrightarrow> holds v (view s (key v)) \<Longrightarrow> post v (view (step v s) (key v))"
begin

lemma sweep_inv: "inv s \<Longrightarrow> inv (fold step vs s)"
  by (induction vs arbitrary: s) (simp_all add: inv_step)

lemma sweep:
  assumes "inv s" "distinct (map key vs)" "\<forall>v \<in> set vs. holds v (view s (key v))"
  shows "(\<forall>v \<in> set vs. post v (view (fold step vs s) (key v))) \<and>
    (\<forall>k. k \<notin> key ` set vs \<longrightarrow> view (fold step vs s) k = view s k)"
  using assms
proof (induction vs arbitrary: s)
  case (Cons v vs)
  have o: "view (step v s) k = view s k" if "k \<noteq> key v" for k
    using view_other Cons.prems(1,3) that by simp
  have "\<forall>w \<in> set vs. holds w (view (step v s) (key w))"
  proof
    fix w assume w: "w \<in> set vs"
    moreover have "key v \<notin> key ` set vs" using Cons.prems(2) by simp
    ultimately have "key w \<noteq> key v" by (metis imageI)
    then show "holds w (view (step v s) (key w))" using o Cons.prems(3) w by simp
  qed
  then have IH: "(\<forall>w \<in> set vs. post w (view (fold step vs (step v s)) (key w))) \<and>
      (\<forall>k. k \<notin> key ` set vs \<longrightarrow> view (fold step vs (step v s)) k = view (step v s) k)"
    using Cons.prems by (intro Cons.IH) (simp_all add: inv_step)
  moreover have "post v (view (step v s) (key v))" using view_own Cons.prems(1,3) by simp
  moreover have "key v \<notin> key ` set vs" using Cons.prems(2) by simp
  ultimately show ?case using o by simp
qed simp

text \<open>The order of the targets, which the code takes from a map, does not matter to the frame.\<close>

lemma sweep_frame:
  assumes "inv s" "distinct (map key vs)" "\<forall>v \<in> set vs. holds v (view s (key v))"
    "set ws = set vs" "distinct (map key ws)" "k \<notin> key ` set vs"
  shows "view (fold step ws s) k = view (fold step vs s) k"
  using sweep [OF assms(1-3)] sweep [OF assms(1,5)] assms(3,4,6) by simp

end

text \<open>The observation: the entry and the armed job under a key.\<close>

definition view :: "pm \<Rightarrow> string \<Rightarrow> managed_process option \<times> (string \<times> pm_job) option" where
  "view pm k = (gm_get (pm_reg pm) k, armed (pm_sched pm) k)"

definition holds :: "managed_process \<Rightarrow> managed_process option \<times> (string \<times> pm_job) option \<Rightarrow> bool" where
  "holds m o1 \<longleftrightarrow> fst o1 = Some m"

definition post_stop :: "managed_process \<Rightarrow> managed_process option \<times> (string \<times> pm_job) option \<Rightarrow> bool" where
  "post_stop m o1 \<longleftrightarrow> (\<exists>m'. fst o1 = Some m' \<and> stopped_entry m m') \<and> snd o1 = None"

definition post_pause :: "managed_process \<Rightarrow> managed_process option \<times> (string \<times> pm_job) option \<Rightarrow> bool" where
  "post_pause m o1 \<longleftrightarrow>
     (\<exists>m'. fst o1 = Some m' \<and> mp_paused m' \<and> pi_Status (mp_Info m') = StatusPaused \<and>
        pi_PID (mp_Info m') = 0 \<and> pi_App (mp_Info m') = pi_App (mp_Info m) \<and>
        pi_ID (mp_Info m') = pi_ID (mp_Info m)) \<and> snd o1 = None"

definition post_delete :: "managed_process \<Rightarrow> managed_process option \<times> (string \<times> pm_job) option \<Rightarrow> bool" where
  "post_delete m o1 \<longleftrightarrow> o1 = (None, None)"

lemma view_stop:
  assumes "pm_ok pm" "holds m (view pm (mp_key m))"
  shows "k \<noteq> mp_key m \<Longrightarrow> view (stopProcess ev m pm) k = view pm k"
    "post_stop m (view (stopProcess ev m pm) (mp_key m))"
  using stopProcess_view [OF assms(1), of m] stopProcess_disarmed [OF assms(1)] assms(2)
  by (auto simp: view_def holds_def post_stop_def)

interpretation stopping: keyed_sweep pm_ok mp_key view holds post_stop "stop_one ev" for ev
  by unfold_locales (simp_all add: stop_one_def view_stop stopProcess_ok(1))

interpretation pausing: keyed_sweep pm_ok mp_key view holds post_pause "pause_one ev" for ev
proof
  fix pm m k
  assume ok: "pm_ok pm" and h: "holds m (view pm (mp_key m))"
  show "view (pause_one ev m pm) k = view pm k" if "k \<noteq> mp_key m"
    using view_stop(1) [OF ok h that, of ev] that
    by (simp add: view_def pause_one_def pm_simps registry_simps)
  show "post_pause m (view (pause_one ev m pm) (mp_key m))"
  proof -
    obtain m' where m': "gm_get (pm_reg (stopProcess ev m pm)) (mp_key m) = Some m'"
      "stopped_entry m m'" "armed (pm_sched (stopProcess ev m pm)) (mp_key m) = None"
      using view_stop(2) [OF ok h, of ev] by (auto simp: view_def post_stop_def)
    have "shape m' = shape m" "pi_PID (mp_Info m') = 0" using m'(2) by (simp_all add: stopped_entry_def)
    then show ?thesis
      using m'(1,3)
      by (simp add: view_def pause_one_def pm_simps registry_simps post_pause_def mark_paused_def
          shape_eqD(2,3) [of m' m])
  qed
qed (rule pause_one_ok)

interpretation deleting: keyed_sweep pm_ok mp_key view holds post_delete "delete_one ev" for ev
proof
  fix pm m k
  assume ok: "pm_ok pm" and h: "holds m (view pm (mp_key m))"
  show "view (delete_one ev m pm) k = view pm k" if "k \<noteq> mp_key m"
    using view_stop(1) [OF ok h that, of ev] that
    by (simp add: view_def delete_one_def pm_simps registry_simps)
  show "post_delete m (view (delete_one ev m pm) (mp_key m))"
    using view_stop(2) [OF ok h, of ev]
    by (simp add: view_def delete_one_def pm_simps registry_simps post_stop_def post_delete_def)
qed (rule delete_one_ok)

lemma targets_hold:
  assumes "pm_ok pm"
  shows "distinct (map mp_key (FindByTarget t (pm_reg pm)))"
    "\<forall>m \<in> set (FindByTarget t (pm_reg pm)). holds m (view pm (mp_key m))"
  using FindByTarget_distinct FindByTarget_get assms by (auto simp: pm_ok_def view_def holds_def)

definition targets :: "string \<Rightarrow> pm \<Rightarrow> string set" where
  "targets t pm = mp_key ` set (FindByTarget t (pm_reg pm))"

lemma view_autoSave [simp]: "view (autoSave ev pm) = view pm"
  by (auto simp: view_def fun_eq_iff autoSave_def Save_def split: dump_write.split)

lemma StopByName_view:
  assumes "pm_ok pm" "FindByTarget t (pm_reg pm) \<noteq> []"
  shows "fst (StopByName ev t pm) = None"
    "\<forall>m \<in> set (FindByTarget t (pm_reg pm)). post_stop m (view (snd (StopByName ev t pm)) (mp_key m))"
    "k \<notin> targets t pm \<Longrightarrow> view (snd (StopByName ev t pm)) k = view pm k"
  using stopping.sweep [OF assms(1) targets_hold [OF assms(1)], of t ev] assms(2)
  by (auto simp: StopByName_def Let_def targets_def)

lemma PauseByName_view:
  assumes "pm_ok pm" "FindByTarget t (pm_reg pm) \<noteq> []"
  shows "fst (PauseByName ev t pm) = None"
    "\<forall>m \<in> set (FindByTarget t (pm_reg pm)). post_pause m (view (snd (PauseByName ev t pm)) (mp_key m))"
    "k \<notin> targets t pm \<Longrightarrow> view (snd (PauseByName ev t pm)) k = view pm k"
  using pausing.sweep [OF assms(1) targets_hold [OF assms(1)], of t ev] assms(2)
  by (auto simp: PauseByName_def Let_def targets_def)

lemma DeleteByName_view:
  assumes "pm_ok pm" "FindByTarget t (pm_reg pm) \<noteq> []"
  shows "fst (DeleteByName ev t pm) = None"
    "k \<in> targets t pm \<Longrightarrow> view (snd (DeleteByName ev t pm)) k = (None, None)"
    "k \<notin> targets t pm \<Longrightarrow> view (snd (DeleteByName ev t pm)) k = view pm k"
  using deleting.sweep [OF assms(1) targets_hold [OF assms(1)], of t ev] assms(2)
  by (auto simp: DeleteByName_def Let_def targets_def post_delete_def)

end
