(* ===== verification/Metrics.thy ===== *)
theory Metrics
  imports Registry
begin

text \<open>
  \<open>daemon/executor/metrics.go\<close>: the three-phase refresh of CPU and memory. Phase 1 takes a
  snapshot, phase 2 measures without a lock, phase 3 writes back to whatever the registry holds
  by then. The measurement itself (\<open>ps\<close>) is an argument.
\<close>

definition MetricsWorkers :: nat where
  "MetricsWorkers = 8"

text \<open>Phase 2: \<open>out[i]\<close> is measured for the online targets and stays zero for the rest.\<close>

definition collect ::
  "(int \<Rightarrow> rat \<times> 64 word) \<Rightarrow> process_sample gomap \<Rightarrow> (string \<times> int \<times> rat \<times> 64 word) list" where
  "collect ps targets =
     map (\<lambda>(k, s). (k, ps_PID s, if ps_Online s then ps (ps_PID s) else (0, 0))) targets"

definition write_back :: "(string \<times> int \<times> rat \<times> 64 word) list \<Rightarrow> registry \<Rightarrow> registry" where
  "write_back out r =
     fold (\<lambda>(k, pid, cpu, mem) r. snd (UpdateMetrics k pid cpu mem r)) out r"

text \<open>
  \<open>before\<close> is the registry the snapshot was taken from, \<open>now\<close> the one phase 3 finds.
\<close>

definition Refresh :: "(int \<Rightarrow> rat \<times> 64 word) \<Rightarrow> registry \<Rightarrow> registry \<Rightarrow> registry" where
  "Refresh ps before now = write_back (collect ps (SnapshotForMetrics before)) now"

text \<open>
  The backend interface: a snapshot has one sample per entry and a write changes at most the
  entry under its key, and only while the process identifier is the one that was measured.
\<close>

locale metrics_backend =
  fixes ok :: "'s \<Rightarrow> bool"
    and snap :: "'s \<Rightarrow> process_sample gomap"
    and post :: "string \<Rightarrow> int \<Rightarrow> rat \<Rightarrow> 64 word \<Rightarrow> 's \<Rightarrow> 's"
    and info :: "'s \<Rightarrow> string \<Rightarrow> process_info option"
  assumes snap_ok: "ok s \<Longrightarrow> gm_ok (snap s)"
    and snap_get: "ok s \<Longrightarrow> gm_get (snap s) k =
      map_option (\<lambda>i. \<lparr>ps_PID = pi_PID i, ps_Online = info_online i\<rparr>) (info s k)"
    and ok_write: "ok s \<Longrightarrow> ok (post k pid cpu mem s)"
    and info_write: "info (post k pid cpu mem s) k' =
      (if k' = k
       then map_option (\<lambda>i. if pi_PID i \<noteq> pid then i
              else if info_online i then i\<lparr>pi_CPU := cpu, pi_Memory := mem\<rparr>
              else i\<lparr>pi_CPU := 0, pi_Memory := 0\<rparr>) (info s k)
       else info s k')"
begin

definition write_all :: "(string \<times> int \<times> rat \<times> 64 word) list \<Rightarrow> 's \<Rightarrow> 's" where
  "write_all out s = fold (\<lambda>(k, pid, cpu, mem) s. post k pid cpu mem s) out s"

lemma info_write_all:
  "distinct (map fst out) \<Longrightarrow>
   info (write_all out s) k =
     (case map_of out k of
        None \<Rightarrow> info s k
      | Some (pid, cpu, mem) \<Rightarrow> info (post k pid cpu mem s) k)"
proof (induction out arbitrary: s)
  case Nil
  then show ?case by (simp add: write_all_def)
next
  case (Cons x out)
  obtain k0 pid cpu mem where x: "x = (k0, pid, cpu, mem)" by (cases x)
  have n: "map_of out k0 = None" using Cons.prems by (simp add: x map_of_eq_None_iff)
  have step: "write_all ((k0, pid, cpu, mem) # out) s = write_all out (post k0 pid cpu mem s)"
    by (simp add: write_all_def x)
  show ?case
    using Cons.IH [of "post k0 pid cpu mem s"] Cons.prems n
    by (cases "k = k0") (auto simp: step x info_write split: option.split)
qed

text \<open>
  A measurement reaches an entry only if the entry still has the measured process; nothing
  else of the entry changes.
\<close>

lemma refresh_info:
  assumes "ok s"
  shows "info (write_all (collect ps (snap s)) t) k =
    (case (info s k, info t k) of
       (Some i, Some j) \<Rightarrow>
         Some (if pi_PID j \<noteq> pi_PID i then j
               else if info_online j
               then (let m = (if info_online i then ps (pi_PID i) else (0, 0))
                     in j\<lparr>pi_CPU := fst m, pi_Memory := snd m\<rparr>)
               else j\<lparr>pi_CPU := 0, pi_Memory := 0\<rparr>)
     | (_, x) \<Rightarrow> x)"
proof -
  let ?f = "\<lambda>s. (ps_PID s, if ps_Online s then ps (ps_PID s) else (0, 0))"
  have c: "collect ps (snap s) = map (\<lambda>(k, s). (k, ?f s)) (snap s)" by (simp add: collect_def)
  have d: "distinct (map fst (collect ps (snap s)))"
    using snap_ok [OF assms] by (simp add: c gm_ok_def comp_def case_prod_unfold)
  have m: "map_of (collect ps (snap s)) k = map_option ?f (gm_get (snap s) k)"
    by (simp add: c map_of_map gm_get_def)
  show ?thesis
    unfolding info_write_all [OF d] m snap_get [OF assms]
    by (auto simp: info_write Let_def split: option.split prod.split)
qed

end

interpretation backend: metrics_backend gm_ok SnapshotForMetrics
  "\<lambda>k pid cpu mem r. snd (UpdateMetrics k pid cpu mem r)" "\<lambda>r k. SnapshotOne k r"
proof
  show "gm_ok (SnapshotForMetrics s)" if "gm_ok s" for s
    using that by (simp add: SnapshotForMetrics_def gm_ok_def comp_def case_prod_unfold)
  show "gm_get (SnapshotForMetrics s) k =
      map_option (\<lambda>i. \<lparr>ps_PID = pi_PID i, ps_Online = info_online i\<rparr>) (SnapshotOne k s)" for s k
    by (simp add: SnapshotForMetrics_def SnapshotOne_def gm_get_def map_of_map option.map_comp comp_def)
qed (auto simp: SnapshotOne_def registry_simps option.map_comp comp_def intro!: map_option_cong)

lemma write_back_eq: "write_back = backend.write_all"
  by (simp add: fun_eq_iff write_back_def backend.write_all_def)

end
