(* ===== verification/Daemon_Steps.thy ===== *)
theory Daemon_Steps
  imports PM_Operations Metrics
begin

text \<open>
  The daemon as a transition system: client requests, exits of children, exit callbacks,
  restart timers, schedules, file watches and the metrics sweep, in any order. A request is one
  step; the callbacks of the children it stops run inside it or at any later time. The debounce timer
  of a file watcher outlives the watcher and its entry, so a file change may restart any name at any time.
\<close>

section \<open>Steps\<close>

datatype request =
    ReqStart app_start_req
  | ReqStop string
  | ReqRestart string
  | ReqPause string
  | ReqResume string
  | ReqDelete string
  | ReqSave
  | ReqResurrect
  | ReqKill

definition serve :: "pm_env \<Rightarrow> request \<Rightarrow> pm \<Rightarrow> pm" where
  "serve ev req pm =
     (case req of
        ReqStart r \<Rightarrow> snd (StartApp ev r pm)
      | ReqStop t \<Rightarrow> snd (StopByName ev t pm)
      | ReqRestart t \<Rightarrow> snd (RestartByName ev t pm)
      | ReqPause t \<Rightarrow> snd (PauseByName ev t pm)
      | ReqResume t \<Rightarrow> snd (ResumeByName ev t pm)
      | ReqDelete t \<Rightarrow> snd (DeleteByName ev t pm)
      | ReqSave \<Rightarrow> snd (Save ev pm)
      | ReqResurrect \<Rightarrow> snd (Resurrect ev pm)
      | ReqKill \<Rightarrow> KillAll ev pm)"

inductive daemon_step :: "pm \<Rightarrow> pm \<Rightarrow> bool" where
  step_request: "daemon_step pm (serve ev req pm)"
| step_exit: "m \<in> set (pm_watching pm) \<Longrightarrow>
    daemon_step pm (child_done (mp_addr m) (ExitInfoFromWait w) pm)"
| step_callback: "pm_pending pm = xs @ (m, ex) # ys \<Longrightarrow>
    daemon_step pm (onProcessExit ev m ex (pm\<lparr>pm_pending := xs @ ys\<rparr>))"
| step_timer: "pm_timers pm = xs @ m # ys \<Longrightarrow>
    daemon_step pm (restart_timer ev m (pm\<lparr>pm_timers := xs @ ys\<rparr>))"
| step_cron: "armed (pm_sched pm) k = Some (sp, job) \<Longrightarrow> daemon_step pm (run_job ev msg job pm)"
| step_file: "daemon_step pm (onFileChanged ev name pm)"
| step_metrics: "daemon_step pm (upd_reg (Refresh ps before) pm)"

inductive reachable :: "string \<Rightarrow> gotime \<Rightarrow> pm \<Rightarrow> bool" for home now where
  reach_start: "reachable home now (NewProcessManager home now)"
| reach_step: "reachable home now pm \<Longrightarrow> daemon_step pm pm' \<Longrightarrow> reachable home now pm'"

inductive_cases daemon_stepE: "daemon_step pm pm'"

section \<open>The invariant holds in every reachable state\<close>

lemma serve_ok: "pm_ok pm \<Longrightarrow> pm_ok (serve ev req pm)"
  by (cases req) (simp_all add: serve_def inv_intros Save_ok)

lemma job_at_armed:
  assumes "pm_ok pm" "armed (pm_sched pm) k = Some (sp, job)"
  shows "job_at k job"
proof -
  obtain mp where mp: "gm_get (pm_reg pm) k = Some mp"
    "(\<exists>req. job = JobCron (mp_ns mp) (mp_name mp) req \<and> req_ns req = mp_ns mp \<and> \<not> ac_Paused (rq_App req)) \<or>
     job = JobCronRestart k (mp_ns mp) (mp_name mp)"
    using assms unfolding pm_ok_def armed_ok_def by blast
  have "cronKey (mp_ns mp) (mp_name mp) = k"
    using pm_ok_keys [OF assms(1) mp(1)] by (simp add: mp_key_def)
  then show ?thesis using mp(2) by (auto simp: job_at_def)
qed

lemma shape_UpdateMetrics: "reg_shape (snd (UpdateMetrics k pid cpu mem r)) = reg_shape r"
  by (auto simp: reg_shape_def fun_eq_iff registry_simps option.map_comp comp_def intro!: map_option_cong)

lemma Refresh_shape:
  "reg_shape (Refresh ps before r) = reg_shape r" "gm_ok r \<Longrightarrow> gm_ok (Refresh ps before r)"
proof -
  have "reg_shape (write_back out r) = reg_shape r" for out
    by (induction out arbitrary: r) (auto simp: write_back_def shape_UpdateMetrics)
  then show "reg_shape (Refresh ps before r) = reg_shape r" by (simp add: Refresh_def)
  have "gm_ok r \<Longrightarrow> gm_ok (write_back out r)" for out
    by (induction out arbitrary: r) (auto simp: write_back_def)
  then show "gm_ok r \<Longrightarrow> gm_ok (Refresh ps before r)" by (simp add: Refresh_def)
qed

lemma metrics_ok: "pm_ok pm \<Longrightarrow> pm_ok (upd_reg (Refresh ps before) pm)"
  by (rule pm_ok_step [of pm])
    (simp_all add: pm_simps Refresh_shape handles_def accounted_def run_records_def pm_ok_def
      goroutines_ok_def keys_ok_def)

lemma timer_removed_ok:
  assumes "pm_ok pm" "pm_timers pm = xs @ m # ys"
  shows "pm_ok (pm\<lparr>pm_timers := xs @ ys\<rparr>)"
  using assms by (auto simp: pm_ok_def goroutines_ok_def handles_def accounted_def run_records_def)

lemma daemon_step_ok: "daemon_step pm pm' \<Longrightarrow> pm_ok pm \<Longrightarrow> pm_ok pm'"
proof (induction rule: daemon_step.induct)
  case (step_cron pm k sp job ev msg)
  then show ?case using run_job_ok [OF _ job_at_armed] by blast
next
  case (step_timer pm xs m ys ev)
  then show ?case by (intro restart_timer_ok timer_removed_ok)
qed (simp_all add: serve_ok pm_ok_child_done pm_ok_callback onFileChanged_def restartTargets_ok metrics_ok)

lemma reachable_ok: "reachable home now pm \<Longrightarrow> pm_ok pm"
  by (induction rule: reachable.induct) (auto simp: pm_ok_New daemon_step_ok)

end
