(* ===== verification/PM_Results.thy ===== *)
theory PM_Results
  imports Daemon_Steps
begin

text \<open>
  What a launch, a cron fire, a crash and a restart leave behind, on every branch: the lemmas the
  properties of the process manager rest on.
\<close>

section \<open>One launch\<close>

definition launch_starts :: "pm_env \<Rightarrow> string \<Rightarrow> app_start_req \<Rightarrow> pm \<Rightarrow> start_result \<Rightarrow> bool" where
  "launch_starts ev name req pm result \<longleftrightarrow>
     fst (Executor_Start (pe_start ev (pm_tick pm)) (pm_home pm) req name) = Inr result"

definition launch_fails :: "pm_env \<Rightarrow> string \<Rightarrow> app_start_req \<Rightarrow> pm \<Rightarrow> start_error \<Rightarrow> bool" where
  "launch_fails ev name req pm e \<longleftrightarrow>
     fst (Executor_Start (pe_start ev (pm_tick pm)) (pm_home pm) req name) = Inl e"

text \<open>A launch that fails in the executor changes nothing but the clock.\<close>

lemma launch_failed:
  "launch_fails ev name req pm e \<Longrightarrow> launchProcessWith ev name req trg pm = (Inl e, tick pm)"
  by (simp add: launch_fails_def launch_Inl)

lemma launch_result:
  fixes trg :: trigger
  assumes "keys_ok (pm_reg pm)" "launch_starts ev name req pm result" "\<not> launch_blocked name req pm"
  defines "pm' \<equiv> snd (launchProcessWith ev name req trg pm)"
  defines "mp \<equiv> launched ev name req trg result pm"
  shows "fst (launchProcessWith ev name req trg pm) = Inr (mp_Info mp)"
    "gm_get (pm_reg pm') k =
       (if k = launch_key name req then Some mp
        else if \<exists>m. launch_found name req pm = Some (m, k) then None else gm_get (pm_reg pm) k)"
    "pm_spawned pm' = (case sr_Cmd result of Some p \<Rightarrow> [p] | None \<Rightarrow> []) @ pm_spawned pm"
    "pm_watching pm' = (if runs_now req then mp # pm_watching pm else pm_watching pm)"
    "pm_unmanaged pm' = pm_unmanaged pm" "pm_journal pm' = pm_journal pm"
    "pm_sched pm' = register_jobs ev name req (pm_sched pm)" "pm_pending pm' = pm_pending pm"
    "pm_timers pm' = pm_timers pm"
  unfolding pm'_def mp_def
  using launch_new [OF assms(2) [unfolded launch_starts_def] assms(3), of trg]
    launch_reg_get [OF assms(1), of name req "launched ev name req trg result pm" k]
  by (simp_all add: Let_def)

text \<open>An identity, once given, stays with the name and configuration file of the process.\<close>

lemma launch_ID:
  assumes "keys_ok (pm_reg pm)" "launch_starts ev name req pm result" "\<not> launch_blocked name req pm"
    "launch_found name req pm = Some (m, k)"
  shows "\<exists>e. gm_get (pm_reg (snd (launchProcessWith ev name req trg pm))) (launch_key name req) = Some e \<and>
    pi_ID (mp_Info e) = pi_ID (mp_Info m) \<and> pi_Restarts (mp_Info e) = pi_Restarts (mp_Info m) \<and>
    pi_LastCronAt (mp_Info e) = pi_LastCronAt (mp_Info m) \<and>
    pi_LastCronStatus (mp_Info e) = pi_LastCronStatus (mp_Info m) \<and>
    (k \<noteq> launch_key name req \<longrightarrow>
       gm_get (pm_reg (snd (launchProcessWith ev name req trg pm))) k = None)"
  using launch_result(2) [OF assms(1-3), of trg "launch_key name req"]
    launch_result(2) [OF assms(1-3), of trg k] assms(4)
  by (simp add: launched_def new_process_def)

text \<open>A paused configuration comes back as a paused entry: no child, no schedule.\<close>

lemma launch_paused:
  assumes "pm_ok pm" "launch_starts ev name req pm result" "ac_Paused (rq_App req)"
    "rq_CronTriggered req = False" "armed (pm_sched pm) (launch_key name req) = None"
  shows "\<exists>e. gm_get (pm_reg (snd (launchProcessWith ev name req trg pm))) (launch_key name req) = Some e \<and>
    mp_paused e \<and> pi_Status (mp_Info e) = StatusPaused \<and> pi_PID (mp_Info e) = 0 \<and> mp_Cmd e = None"
    "pm_spawned (snd (launchProcessWith ev name req trg pm)) = pm_spawned pm"
    "armed (pm_sched (snd (launchProcessWith ev name req trg pm))) (launch_key name req) = None"
proof -
  have k: "keys_ok (pm_reg pm)" and s: "sched_ok (pm_sched pm)" using assms(1) by (simp_all add: pm_ok_def)
  have nb: "\<not> launch_blocked name req pm" using assms(4) by (simp add: launch_blocked_def)
  have idle: "\<not> runs_now req" using assms(3) by (simp add: runs_now_def)
  have c: "sr_Cmd result = None"
    using Executor_Start_Cmd [OF assms(2) [unfolded launch_starts_def]] idle by simp
  show "\<exists>e. gm_get (pm_reg (snd (launchProcessWith ev name req trg pm))) (launch_key name req) = Some e \<and>
    mp_paused e \<and> pi_Status (mp_Info e) = StatusPaused \<and> pi_PID (mp_Info e) = 0 \<and> mp_Cmd e = None"
    using launch_result(2) [OF k assms(2) nb, of trg "launch_key name req"] assms(3) idle c
    by (simp add: launched_def new_process_def launch_status_def)
  show "pm_spawned (snd (launchProcessWith ev name req trg pm)) = pm_spawned pm"
    using launch_result(3) [OF k assms(2) nb, of trg] c by simp
  show "armed (pm_sched (snd (launchProcessWith ev name req trg pm))) (launch_key name req) = None"
    using launch_result(7) [OF k assms(2) nb, of trg] register_jobs_armed(2) [OF s] assms(3,5) by simp
qed

text \<open>
  A cron task that is not triggered is registered without a child and armed with its schedule.
\<close>

lemma launch_cron_idle:
  assumes "pm_ok pm" "launch_starts ev name req pm result" "is_cron_task req"
    "\<not> ac_Paused (rq_App req)" "pe_valid_spec ev (ac_Cron (rq_App req))"
  shows "\<exists>e. gm_get (pm_reg (snd (launchProcessWith ev name req trg pm))) (launch_key name req) = Some e \<and>
    pi_Status (mp_Info e) = StatusStopped \<and> pi_PID (mp_Info e) = 0 \<and> mp_Cmd e = None"
    "pm_spawned (snd (launchProcessWith ev name req trg pm)) = pm_spawned pm"
    "armed (pm_sched (snd (launchProcessWith ev name req trg pm))) (launch_key name req) =
      Some (ac_Cron (rq_App req), JobCron (req_ns req) name req)"
proof -
  have k: "keys_ok (pm_reg pm)" and s: "sched_ok (pm_sched pm)" using assms(1) by (simp_all add: pm_ok_def)
  have nb: "\<not> launch_blocked name req pm" using assms(3) by (simp add: launch_blocked_def is_cron_task_def)
  have idle: "\<not> runs_now req" using assms(3) by (simp add: runs_now_def)
  have c: "sr_Cmd result = None"
    using Executor_Start_Cmd [OF assms(2) [unfolded launch_starts_def]] idle by simp
  show "\<exists>e. gm_get (pm_reg (snd (launchProcessWith ev name req trg pm))) (launch_key name req) = Some e \<and>
    pi_Status (mp_Info e) = StatusStopped \<and> pi_PID (mp_Info e) = 0 \<and> mp_Cmd e = None"
    using launch_result(2) [OF k assms(2) nb, of trg "launch_key name req"] assms(3,4) idle c
    by (simp add: launched_def new_process_def launch_status_def)
  show "pm_spawned (snd (launchProcessWith ev name req trg pm)) = pm_spawned pm"
    using launch_result(3) [OF k assms(2) nb, of trg] c by simp
  show "armed (pm_sched (snd (launchProcessWith ev name req trg pm))) (launch_key name req) =
      Some (ac_Cron (rq_App req), JobCron (req_ns req) name req)"
    using launch_result(7) [OF k assms(2) nb, of trg] register_jobs_armed(2) [OF s] assms(3-5)
    by (simp add: is_cron_task_def)
qed

section \<open>A cron fire\<close>

lemma triggerCron_skipped:
  assumes "gm_get (pm_reg pm) (cronKey ns name) = Some m" "cronRunActive (mp_Info m)"
  shows "triggerCron ev ns name req pm =
    tick (recordCronSkip ev ns name (pe_now ev (pm_tick pm))
      (upd_reg (\<lambda>r. snd (UpdateCronStatus (cronKey ns name) (pe_now ev (pm_tick pm)) CronStatusSkipped r)) pm))"
  using assms by (simp add: triggerCron_def Registry_Get_def SnapshotOne_def Let_def)

lemma triggerCron_fires:
  assumes "gm_get (pm_reg pm) (cronKey ns name) = Some m" "\<not> cronRunActive (mp_Info m)"
  shows "triggerCron ev ns name req pm =
    (case launchProcessWith ev name (req\<lparr>rq_CronTriggered := True\<rparr>) TriggerCron (stopProcess ev m pm) of
       (Inl e, pm1) \<Rightarrow>
         upd_reg (\<lambda>r. snd (UpdateCronStatus (cronKey ns name) (pe_now ev (pm_tick pm)) ''failed'' r))
           (recordLaunchFailure ev ns name TriggerCron (pe_error_text ev e) pm1)
     | (Inr _, pm1) \<Rightarrow>
         upd_reg (\<lambda>r. snd (UpdateCronStatus (cronKey ns name) (pe_now ev (pm_tick pm)) CronStatusRunning r)) pm1)"
  using assms by (simp add: triggerCron_def Registry_Get_def SnapshotOne_def Let_def)

lemma recordLaunchFailure_simps [pm_simps]:
  "pm_reg (recordLaunchFailure ev ns name trg d pm) = pm_reg pm"
  "pm_sched (recordLaunchFailure ev ns name trg d pm) = pm_sched pm"
  "pm_spawned (recordLaunchFailure ev ns name trg d pm) = pm_spawned pm"
  "pm_watching (recordLaunchFailure ev ns name trg d pm) = pm_watching pm"
  by (simp_all add: recordLaunchFailure_def Let_def)

text \<open>
  A fire whose launch fails leaves the task registered with no schedule: the stop before the
  launch has disarmed it and only a successful launch arms it again.
\<close>

lemma triggerCron_failure:
  assumes "pm_ok pm" "gm_get (pm_reg pm) (cronKey ns name) = Some m" "\<not> cronRunActive (mp_Info m)"
    "launch_fails ev name (req\<lparr>rq_CronTriggered := True\<rparr>) (stopProcess ev m pm) e"
  shows "armed (pm_sched (triggerCron ev ns name req pm)) (cronKey ns name) = None"
    "\<exists>m'. gm_get (pm_reg (triggerCron ev ns name req pm)) (cronKey ns name) = Some m' \<and>
      pi_LastCronStatus (mp_Info m') = ''failed'' \<and> mp_paused m' = mp_paused m \<and>
      pi_App (mp_Info m') = pi_App (mp_Info m)"
proof -
  have key: "mp_key m = cronKey ns name" by (rule pm_ok_keys [OF assms(1,2)])
  obtain m' where m': "gm_get (pm_reg (stopProcess ev m pm)) (cronKey ns name) = Some m'" "shape m' = shape m"
    using stopProcess_entry [OF assms(1,2), of ev m] by blast
  show "armed (pm_sched (triggerCron ev ns name req pm)) (cronKey ns name) = None"
    using key by (simp add: triggerCron_fires [OF assms(2,3)] launch_failed [OF assms(4)] pm_simps
        stopProcess_disarmed [OF assms(1)])
  show "\<exists>m'. gm_get (pm_reg (triggerCron ev ns name req pm)) (cronKey ns name) = Some m' \<and>
      pi_LastCronStatus (mp_Info m') = ''failed'' \<and> mp_paused m' = mp_paused m \<and>
      pi_App (mp_Info m') = pi_App (mp_Info m)"
    using m' shape_eqD [OF m'(2)]
    by (simp add: triggerCron_fires [OF assms(2,3)] launch_failed [OF assms(4)] pm_simps
        UpdateCronStatus_def registry_simps)
qed

text \<open>A fire of an idle task that starts a child keeps the schedule and reports \<open>running\<close>.\<close>

lemma triggerCron_success:
  assumes "pm_ok pm" "gm_get (pm_reg pm) (cronKey ns name) = Some m" "\<not> cronRunActive (mp_Info m)"
    "\<not> mp_paused m" "req_ns req = ns" "ac_Cron (rq_App req) \<noteq> ''''" "\<not> ac_Paused (rq_App req)"
    "pe_valid_spec ev (ac_Cron (rq_App req))"
    "launch_starts ev name (req\<lparr>rq_CronTriggered := True\<rparr>) (stopProcess ev m pm) result"
  defines "pm' \<equiv> triggerCron ev ns name req pm"
  shows "armed (pm_sched pm') (cronKey ns name) =
      Some (ac_Cron (rq_App req), JobCron ns name (req\<lparr>rq_CronTriggered := True\<rparr>))"
    "\<exists>e p. gm_get (pm_reg pm') (cronKey ns name) = Some e \<and> mp_Cmd e = Some p \<and>
      pi_PID (mp_Info e) = p \<and> pi_Status (mp_Info e) = StatusOnline \<and> mp_trigger e = TriggerCron \<and>
      pi_LastCronStatus (mp_Info e) = CronStatusRunning \<and> pi_ID (mp_Info e) = pi_ID (mp_Info m) \<and>
      pm_spawned pm' = p # pm_spawned pm \<and> mp_addr e \<in> mp_addr ` set (pm_watching pm')"
proof -
  let ?req = "req\<lparr>rq_CronTriggered := True\<rparr>" and ?st = "stopProcess ev m pm"
  note ok = stopProcess_ok(1) [OF assms(1), of ev m]
  have k: "keys_ok (pm_reg ?st)" and s: "sched_ok (pm_sched ?st)" using ok by (simp_all add: pm_ok_def)
  have ck: "launch_key name ?req = cronKey ns name"
    using assms(5) by (auto simp: launch_key_def req_ns_def)
  obtain m' where m': "gm_get (pm_reg ?st) (cronKey ns name) = Some m'" "shape m' = shape m"
    using stopProcess_entry [OF assms(1,2), of ev m] by blast
  have found: "launch_found name ?req ?st = Some (m', cronKey ns name)"
    using launch_found_key [of ?st name ?req m'] m'(1) by (simp add: ck)
  have nb: "\<not> launch_blocked name ?req ?st"
    using found assms(4) shape_eqD(5) [OF m'(2)] by (simp add: launch_blocked_def)
  have run: "runs_now ?req" using assms(7) by (simp add: runs_now_def is_cron_task_def)
  then obtain p where p: "sr_Cmd result = Some p"
    using Executor_Start_Cmd [OF assms(9) [unfolded launch_starts_def]] by auto
  let ?mp = "launched ev name ?req TriggerCron result ?st"
  note r = launch_result [OF k assms(9) nb, of TriggerCron]
  obtain info pm1 where L: "launchProcessWith ev name ?req TriggerCron ?st = (Inr info, pm1)"
    using r(1) by (metis prod.exhaust_sel)
  have pm': "pm' = upd_reg (\<lambda>r. snd (UpdateCronStatus (cronKey ns name) (pe_now ev (pm_tick pm)) CronStatusRunning r)) pm1"
    by (simp add: pm'_def triggerCron_fires [OF assms(2,3)] L)
  have pm1: "pm1 = snd (launchProcessWith ev name ?req TriggerCron ?st)" by (simp add: L)
  have ns: "req_ns ?req = ns" using assms(5) by (auto simp: req_ns_def)
  show "armed (pm_sched pm') (cronKey ns name) = Some (ac_Cron (rq_App req), JobCron ns name ?req)"
    using r(7) assms(6-8) register_jobs_armed(2) [OF s, of ev name ?req "cronKey ns name"]
    by (simp add: pm' pm_simps pm1 ck ns)
  have e: "gm_get (pm_reg pm1) (cronKey ns name) = Some ?mp"
    using r(2) [of "cronKey ns name"] by (simp add: pm1 ck)
  have sp: "pm_spawned ?st = pm_spawned pm"
    using stopProcess_ok(2) [OF assms(1), of ev m] by (simp add: same_books_def)
  have id: "pi_ID (mp_Info ?mp) = pi_ID (mp_Info m)"
    using found shape_eqD(3) [OF m'(2)] by (simp add: launched_ID)
  have st: "pi_Status (mp_Info ?mp) = StatusOnline" "pi_PID (mp_Info ?mp) = p"
    using run p by (auto simp: launched_def new_process_def launch_status_def runs_now_def)
  have "pm_spawned pm' = p # pm_spawned pm" using r(3) sp p by (simp add: pm' pm_simps pm1)
  moreover have "mp_addr ?mp \<in> mp_addr ` set (pm_watching pm')"
    using r(4) run by (simp add: pm' pm_simps pm1)
  ultimately show "\<exists>e p. gm_get (pm_reg pm') (cronKey ns name) = Some e \<and> mp_Cmd e = Some p \<and>
      pi_PID (mp_Info e) = p \<and> pi_Status (mp_Info e) = StatusOnline \<and> mp_trigger e = TriggerCron \<and>
      pi_LastCronStatus (mp_Info e) = CronStatusRunning \<and> pi_ID (mp_Info e) = pi_ID (mp_Info m) \<and>
      pm_spawned pm' = p # pm_spawned pm \<and> mp_addr e \<in> mp_addr ` set (pm_watching pm')"
    using e st id p
    by (intro exI [of _ "upd_info (\<lambda>i. i\<lparr>pi_LastCronAt := pe_now ev (pm_tick pm),
          pi_LastCronStatus := CronStatusRunning\<rparr>) ?mp"] exI [of _ p])
      (simp add: pm' pm_simps UpdateCronStatus_def registry_simps)
qed

section \<open>Restarts\<close>

lemma restartTargets_result:
  "fst (restartTargets ev t trg pm) =
     (if FindByTarget t (pm_reg pm) = [] then Some (ProcessNotFound t) else None)"
  by (simp add: restartTargets_def Let_def)

text \<open>A failed relaunch leaves the entry stopped and disarmed and is not reported.\<close>

lemma restart_one_failure:
  assumes "pm_ok pm" "gm_get (pm_reg pm) (mp_key m) = Some m"
    "launch_fails ev (mp_name m) \<lparr>rq_App = pi_App (mp_Info m), rq_CronTriggered = True\<rparr>
       (stopProcess ev m pm) e"
  shows "post_stop m (view (restart_one ev trg m pm) (mp_key m))"
proof -
  have "restart_one ev trg m pm = tick (stopProcess ev m pm)"
    using assms(2) by (simp add: restart_one_def launch_failed [OF assms(3)])
  moreover have "view (tick q) = view q" for q by (simp add: view_def fun_eq_iff pm_simps)
  moreover have "holds m (view pm (mp_key m))" using assms(2) by (simp add: view_def holds_def)
  ultimately show ?thesis using view_stop(2) [OF assms(1)] by simp
qed

text \<open>
  A restart of a paused entry forks a child that no entry refers to: the entry stays paused with
  no process, and no later stop can reach the child.
\<close>

lemma restart_one_paused:
  assumes "pm_ok pm" "gm_get (pm_reg pm) (mp_key m) = Some m" "mp_paused m"
    "launch_starts ev (mp_name m) \<lparr>rq_App = pi_App (mp_Info m), rq_CronTriggered = True\<rparr>
       (stopProcess ev m pm) result"
  shows "\<exists>p m'. sr_Cmd result = Some p \<and>
    pm_spawned (restart_one ev trg m pm) = p # pm_spawned pm \<and>
    pm_unmanaged (restart_one ev trg m pm) = p # pm_unmanaged pm \<and>
    pm_watching (restart_one ev trg m pm) = pm_watching (stopProcess ev m pm) \<and>
    gm_get (pm_reg (restart_one ev trg m pm)) (mp_key m) = Some m' \<and>
    stopped_entry m m' \<and> mp_paused m'"
proof -
  let ?req = "\<lparr>rq_App = pi_App (mp_Info m), rq_CronTriggered = True\<rparr>" and ?st = "stopProcess ev m pm"
  note key = entry_launch_key(1) [OF assms(1,2), of True] entry_launch_key(2) [OF assms(1,2)]
  obtain m' where m': "gm_get (pm_reg ?st) (mp_key m) = Some m'" "stopped_entry m m'"
    using stopProcess_view(2) [OF assms(1,2), of ev] by blast
  then have p': "mp_paused m'" using assms(3) shape_eqD(5) [of m' m] by (simp add: stopped_entry_def)
  have found: "launch_found (mp_name m) ?req ?st = Some (m', mp_key m)"
    using launch_found_key [of ?st "mp_name m" ?req m'] m'(1) by (simp add: key(1))
  have "runs_now ?req" using key(2) by (simp add: runs_now_def is_cron_task_def)
  then obtain p where p: "sr_Cmd result = Some p"
    using Executor_Start_Cmd [OF assms(4) [unfolded launch_starts_def]] by auto
  have sb: "pm_spawned ?st = pm_spawned pm" "pm_unmanaged ?st = pm_unmanaged pm"
    using stopProcess_ok(2) [OF assms(1), of ev m] by (simp_all add: same_books_def)
  have e: "restart_one ev trg m pm =
      (tick ?st)\<lparr>pm_unmanaged := [p] @ pm_unmanaged ?st, pm_spawned := [p] @ pm_spawned ?st\<rparr>"
    using launch_blocked_eq [OF assms(4) [unfolded launch_starts_def] found p', of trg] assms(2) p
    by (simp add: restart_one_def)
  show ?thesis
    unfolding e using m' p p' sb
    by (intro exI [of _ p] exI [of _ m']) (simp add: pm_simps)
qed

section \<open>Exits\<close>

text \<open>A crash uses the restart budget of the entry; without budget the entry stays errored.\<close>

lemma onProcessExit_crash:
  assumes "gm_get (pm_reg pm) (mp_key m) = Some m" "\<not> mp_stopping m" "ei_Err ex \<noteq> None"
  defines "budget \<equiv> pi_Restarts (mp_Info m) < ac_MaxRestarts (pi_App (mp_Info m))"
  shows "\<exists>e. gm_get (pm_reg (onProcessExit ev m ex pm)) (mp_key m) = Some e \<and>
      pi_PID (mp_Info e) = 0 \<and>
      pi_Status (mp_Info e) = (if budget then StatusLaunching else StatusErrored) \<and>
      pi_Restarts (mp_Info e) = (if budget then pi_Restarts (mp_Info m) + 1 else pi_Restarts (mp_Info m))"
    "pm_timers (onProcessExit ev m ex pm) = (if budget then m # pm_timers pm else pm_timers pm)"
  using assms
  by (simp_all add: pm_simps onProcessExit_timers exit_entry_def exit_update_def exit_restarts_def
      exit_status_def)

text \<open>An exit the daemon asked for starts nothing and keeps the status the stop has set.\<close>

lemma onProcessExit_stopped:
  assumes "gm_get (pm_reg pm) (mp_key m) = Some e" "mp_stopping e"
  shows "\<exists>e'. gm_get (pm_reg (onProcessExit ev m ex pm)) (mp_key m) = Some e' \<and>
      pi_PID (mp_Info e') = 0 \<and> pi_Status (mp_Info e') = pi_Status (mp_Info e) \<and>
      pi_Restarts (mp_Info e') = pi_Restarts (mp_Info e)"
    "pm_timers (onProcessExit ev m ex pm) = pm_timers pm"
  using assms
  by (simp_all add: pm_simps onProcessExit_timers exit_entry_def exit_update_def exit_restarts_def
      exit_status_def)

text \<open>
  The callback of a replaced process meets the entry of its successor and takes it for its own.
\<close>

lemma onProcessExit_successor:
  assumes "gm_get (pm_reg pm) (mp_key old) = Some new" "mp_addr new \<noteq> mp_addr old" "\<not> mp_stopping new"
  shows "\<exists>e. gm_get (pm_reg (onProcessExit ev old ex pm)) (mp_key old) = Some e \<and>
      mp_addr e = mp_addr new \<and> mp_Cmd e = mp_Cmd new \<and> pi_PID (mp_Info e) = 0 \<and>
      pi_Status (mp_Info e) \<in> {StatusErrored, StatusStopped, StatusLaunching}"
    "pm_watching (onProcessExit ev old ex pm) = pm_watching pm"
  using assms
  by (simp_all add: pm_simps exit_entry_def exit_update_def exit_restarts_def exit_status_def)

section \<open>Starting instances\<close>

lemma itoa_nat_inject: "itoa (int i) = itoa (int j) \<longleftrightarrow> i = j"
  by simp

lemma instance_name_inject:
  "1 < n \<Longrightarrow> instance_name req n i = instance_name req n j \<longleftrightarrow> i = j"
  by (simp add: instance_name_def)

end
