(* ===== verification/Workflow_Config.thy ===== *)
theory Workflow_Config
  imports Process_Types Go_Time
begin

text \<open>
  \<open>workflow/config.go\<close>: stages and workflow definitions, their keys, normalisation and
  validation. Every \<open>fmt.Errorf\<close> of the file is a constructor of \<open>wf_error\<close> that
  carries the values the message prints.
\<close>

section \<open>Stages and definitions\<close>

definition DefaultCategory :: string where
  "DefaultCategory = ''default''"

datatype stage_kind = StageScript | StageTask | StageWorkflow

record stage =
  sg_Name :: string
  sg_Script :: string
  sg_Args :: "string list"
  sg_Task :: string
  sg_Workflow :: string
  sg_Env :: "string gomap"
  sg_CWD :: string
  sg_Timeout :: string

text \<open>\<open>None\<close> is the empty kind of a stage that is not exactly one of the three forms.\<close>

definition Stage_Kind :: "stage \<Rightarrow> stage_kind option" where
  "Stage_Kind s =
     (if sg_Script s \<noteq> '''' \<and> sg_Task s = '''' \<and> sg_Workflow s = '''' then Some StageScript
      else if sg_Task s \<noteq> '''' \<and> sg_Script s = '''' \<and> sg_Workflow s = '''' then Some StageTask
      else if sg_Workflow s \<noteq> '''' \<and> sg_Script s = '''' \<and> sg_Task s = '''' then Some StageWorkflow
      else None)"

definition Stage_Ref :: "stage \<Rightarrow> string" where
  "Stage_Ref s =
     (case Stage_Kind s of
        Some StageTask \<Rightarrow> sg_Task s
      | Some StageWorkflow \<Rightarrow> sg_Workflow s
      | _ \<Rightarrow> '''')"

record wf_config =
  wc_Category :: string
  wc_Name :: string
  wc_Stages :: "stage list"
  wc_Cron :: string
  wc_Env :: "string gomap"
  wc_CWD :: string
  wc_Timeout :: string
  wc_ConfigFile :: string
  wc_BaseEnv :: "string list"

text \<open>\<open>defs[key]\<close> of an absent key is the zero value.\<close>

definition zero_config :: wf_config where
  "zero_config =
     \<lparr>wc_Category = '''', wc_Name = '''', wc_Stages = [], wc_Cron = '''', wc_Env = [],
      wc_CWD = '''', wc_Timeout = '''', wc_ConfigFile = '''', wc_BaseEnv = []\<rparr>"

definition key_of :: "string \<Rightarrow> string \<Rightarrow> string" where
  "key_of cat name = cat @ '':'' @ name"

definition Config_Key :: "wf_config \<Rightarrow> string" where
  "Config_Key c = key_of (wc_Category c) (wc_Name c)"

definition ParseKey :: "string \<Rightarrow> string \<times> string" where
  "ParseKey ref =
     (case str_index CHR '':'' ref of
        Some i \<Rightarrow> (take i ref, drop (Suc i) ref)
      | None \<Rightarrow> ('''', ref))"

section \<open>Normalisation\<close>

definition normalize_stage :: "os_env \<Rightarrow> string \<Rightarrow> string \<Rightarrow> nat \<Rightarrow> stage \<Rightarrow> stage" where
  "normalize_stage env baseDir cwd i st0 =
     (let st = st0\<lparr>sg_Name := (if sg_Name st0 = '''' then ''stage-'' @ itoa (int i + 1)
                               else sg_Name st0),
                   sg_CWD := (if sg_CWD st0 = '''' then cwd else sg_CWD st0)\<rparr>
      in if Stage_Kind st = Some StageScript \<and> baseDir \<noteq> ''''
         then st\<lparr>sg_Script := ResolveScriptPath env baseDir (sg_Script st)\<rparr> else st)"

fun normalize_stages :: "os_env \<Rightarrow> string \<Rightarrow> string \<Rightarrow> nat \<Rightarrow> stage list \<Rightarrow> stage list" where
  "normalize_stages env baseDir cwd i [] = []"
| "normalize_stages env baseDir cwd i (st # sts) =
     normalize_stage env baseDir cwd i st # normalize_stages env baseDir cwd (Suc i) sts"

definition Config_Normalize :: "os_env \<Rightarrow> string \<Rightarrow> wf_config \<Rightarrow> wf_config" where
  "Config_Normalize env baseDir c =
     (let cwd = (if wc_CWD c = '''' then baseDir else wc_CWD c)
      in c\<lparr>wc_Category := (if wc_Category c = '''' then DefaultCategory else wc_Category c),
           wc_CWD := cwd,
           wc_Stages := normalize_stages env baseDir cwd 0 (wc_Stages c)\<rparr>)"

section \<open>Validation\<close>

datatype timeout_error = TimeoutSyntax duration_error | TimeoutNegative

datatype wf_error =
    WfNameRequired string
  | WfNoStages string
  | WfBadTimeout string string timeout_error
  | WfStageKind string nat string "string list"
  | WfStageFields string nat string "string list" stage_kind
  | WfStageTimeout string nat string string timeout_error
  | WfStageRepeats string nat string nat
  | WfDeclaredTwice string string string
  | WfCycle "string list"

definition parseTimeout :: "string \<Rightarrow> timeout_error + duration" where
  "parseTimeout s =
     (if s = '''' then Inr 0
      else (case ParseDuration s of
              Inl e \<Rightarrow> Inl (TimeoutSyntax e)
            | Inr d \<Rightarrow> if d < 0 then Inl TimeoutNegative else Inr d))"

definition describeStageKeys :: "stage \<Rightarrow> string list" where
  "describeStageKeys st =
     (let found = (if sg_Script st \<noteq> '''' then [''script''] else []) @
                  (if sg_Task st \<noteq> '''' then [''task''] else []) @
                  (if sg_Workflow st \<noteq> '''' then [''workflow''] else [])
      in if found = [] then [''none''] else found)"

definition validateStage :: "string \<Rightarrow> nat \<Rightarrow> stage \<Rightarrow> wf_error + unit" where
  "validateStage key idx st =
     (case Stage_Kind st of
        None \<Rightarrow> Inl (WfStageKind key (idx + 1) (sg_Name st) (describeStageKeys st))
      | Some kind \<Rightarrow>
          (let offenders =
             (if kind \<noteq> StageScript
              then (if sg_Args st \<noteq> [] then [''args''] else []) @
                   (if sg_Env st \<noteq> [] then [''env''] else [])
              else [])
           in if offenders \<noteq> [] then Inl (WfStageFields key (idx + 1) (sg_Name st) offenders kind)
              else (case parseTimeout (sg_Timeout st) of
                      Inl e \<Rightarrow> Inl (WfStageTimeout key (idx + 1) (sg_Name st) (sg_Timeout st) e)
                    | Inr _ \<Rightarrow> Inr ())))"

fun validate_stages :: "string \<Rightarrow> nat \<Rightarrow> nat gomap \<Rightarrow> stage list \<Rightarrow> wf_error + unit" where
  "validate_stages key i seen [] = Inr ()"
| "validate_stages key i seen (st # sts) =
     (case validateStage key i st of
        Inl e \<Rightarrow> Inl e
      | Inr _ \<Rightarrow>
          (case gm_get seen (sg_Name st) of
             Some prev \<Rightarrow> Inl (WfStageRepeats key (i + 1) (sg_Name st) (prev + 1))
           | None \<Rightarrow> validate_stages key (Suc i) (gm_set (sg_Name st) i seen) sts))"

definition Config_Validate :: "wf_config \<Rightarrow> wf_error + unit" where
  "Config_Validate c =
     (if wc_Name c = '''' then Inl (WfNameRequired (wc_ConfigFile c))
      else if wc_Stages c = [] then Inl (WfNoStages (Config_Key c))
      else (case parseTimeout (wc_Timeout c) of
              Inl e \<Rightarrow> Inl (WfBadTimeout (Config_Key c) (wc_Timeout c) e)
            | Inr _ \<Rightarrow> validate_stages (Config_Key c) 0 [] (wc_Stages c)))"

definition TimeoutDuration :: "wf_config \<Rightarrow> stage \<Rightarrow> duration" where
  "TimeoutDuration c st =
     (case parseTimeout (sg_Timeout st) of
        Inr d \<Rightarrow> if d > 0 then d else (case parseTimeout (wc_Timeout c) of Inr d' \<Rightarrow> d' | Inl _ \<Rightarrow> 0)
      | Inl _ \<Rightarrow> (case parseTimeout (wc_Timeout c) of Inr d' \<Rightarrow> d' | Inl _ \<Rightarrow> 0))"

section \<open>What validation establishes\<close>

text \<open>A stage that may run: one form, no field that form ignores, a usable timeout.\<close>

definition stage_ok :: "stage \<Rightarrow> bool" where
  "stage_ok st \<longleftrightarrow>
     Stage_Kind st \<noteq> None \<and>
     (Stage_Kind st \<noteq> Some StageScript \<longrightarrow> sg_Args st = [] \<and> sg_Env st = []) \<and>
     (\<exists>d \<ge> 0. parseTimeout (sg_Timeout st) = Inr d)"

definition config_ok :: "wf_config \<Rightarrow> bool" where
  "config_ok c \<longleftrightarrow>
     wc_Name c \<noteq> '''' \<and> wc_Stages c \<noteq> [] \<and>
     (\<exists>d \<ge> 0. parseTimeout (wc_Timeout c) = Inr d) \<and>
     list_all stage_ok (wc_Stages c) \<and> distinct (map sg_Name (wc_Stages c))"

lemma parseTimeout_nonneg: "parseTimeout s = Inr d \<Longrightarrow> 0 \<le> d"
  by (auto simp: parseTimeout_def split: sum.splits if_splits)

lemma parseTimeout_empty [simp]: "parseTimeout '''' = Inr 0"
  by (simp add: parseTimeout_def)

lemma Inr_unit_iff: "(\<exists>e. x = Inl e) \<longleftrightarrow> x \<noteq> Inr ()"
  by (cases x) auto

lemma validateStage_ok: "validateStage key i st = Inr () \<longleftrightarrow> stage_ok st"
  by (cases "Stage_Kind st"; cases "parseTimeout (sg_Timeout st)")
    (auto simp: validateStage_def stage_ok_def Let_def dest: parseTimeout_nonneg)

lemma validate_stages_ok:
  "validate_stages key i seen sts = Inr () \<longleftrightarrow>
   list_all stage_ok sts \<and> distinct (map sg_Name sts) \<and>
   (\<forall>st \<in> set sts. gm_get seen (sg_Name st) = None)"
proof (induction key i seen sts rule: validate_stages.induct)
  case (1 key i seen)
  then show ?case by simp
next
  case (2 key i seen st sts)
  show ?case
  proof (cases "validateStage key i st = Inr () \<and> gm_get seen (sg_Name st) = None")
    case True
    then have "validate_stages key i seen (st # sts) =
        validate_stages key (Suc i) (gm_set (sg_Name st) i seen) sts" by simp
    moreover have "validate_stages key (Suc i) (gm_set (sg_Name st) i seen) sts = Inr () \<longleftrightarrow>
        list_all stage_ok sts \<and> distinct (map sg_Name sts) \<and>
        (\<forall>s \<in> set sts. gm_get (gm_set (sg_Name st) i seen) (sg_Name s) = None)"
      using 2 True by blast
    moreover have "(\<forall>s \<in> set sts. gm_get (gm_set (sg_Name st) i seen) (sg_Name s) = None) \<longleftrightarrow>
        (\<forall>s \<in> set sts. gm_get seen (sg_Name s) = None \<and> sg_Name s \<noteq> sg_Name st)"
      by (simp add: registry_simps) blast
    ultimately have "validate_stages key i seen (st # sts) = Inr () \<longleftrightarrow>
        list_all stage_ok sts \<and> distinct (map sg_Name sts) \<and>
        (\<forall>s \<in> set sts. gm_get seen (sg_Name s) = None \<and> sg_Name s \<noteq> sg_Name st)"
      by (simp only:)
    with True show ?thesis
      by (auto simp: validateStage_ok image_iff simp del: validate_stages.simps)
  next
    case False
    show ?thesis
    proof (cases "validateStage key i st")
      case (Inl e)
      then have "\<not> stage_ok st" using validateStage_ok [of key i st] by simp
      with Inl show ?thesis by simp
    next
      case (Inr u)
      with False obtain prev where "gm_get seen (sg_Name st) = Some prev" by auto
      with Inr show ?thesis by simp
    qed
  qed
qed

lemma Config_Validate_ok: "Config_Validate c = Inr () \<longleftrightarrow> config_ok c"
  using parseTimeout_nonneg
  by (auto simp: Config_Validate_def config_ok_def validate_stages_ok split: sum.splits)

section \<open>What normalisation establishes\<close>

lemma length_normalize_stages [simp]:
  "length (normalize_stages env bd cwd i sts) = length sts"
  by (induction sts arbitrary: i) (simp_all add: Let_def)

lemma Stage_Kind_cong:
  "sg_Script a = sg_Script b \<Longrightarrow> sg_Task a = sg_Task b \<Longrightarrow> sg_Workflow a = sg_Workflow b \<Longrightarrow>
   Stage_Kind a = Stage_Kind b"
  by (simp add: Stage_Kind_def)

lemma ResolveScriptPath_nonempty:
  assumes "s \<noteq> ''''" "bd \<noteq> ''''" "os_lookpath env s \<noteq> Some ''''"
  shows "ResolveScriptPath env bd s \<noteq> ''''"
proof -
  have clean: "path_clean p \<noteq> ''''" for p by (simp add: path_clean_def Let_def)
  have join: "path_join (bd # es) \<noteq> ''''" for es
    using assms(2) clean by (simp add: path_join_def)
  have abs: "path_abs env p \<noteq> Some ''''" if "p \<noteq> ''''" for p
    using clean that by (auto simp: path_abs_def path_join_def split: list.splits)
  show ?thesis
    using assms join abs by (auto simp: ResolveScriptPath_def split: option.splits)
qed

lemma Stage_Kind_script_update:
  "Stage_Kind st = Some StageScript \<Longrightarrow> s \<noteq> '''' \<Longrightarrow>
   Stage_Kind (st\<lparr>sg_Script := s\<rparr>) = Some StageScript"
  by (auto simp: Stage_Kind_def split: if_splits)

text \<open>The kinds of the stages survive normalisation.\<close>

lemma normalize_stage_kind:
  assumes "\<And>s. os_lookpath env s \<noteq> Some ''''"
  shows "Stage_Kind (normalize_stage env bd cwd i st) = Stage_Kind st"
proof -
  define st1 where "st1 = st\<lparr>sg_Name := (if sg_Name st = '''' then ''stage-'' @ itoa (int i + 1)
      else sg_Name st), sg_CWD := (if sg_CWD st = '''' then cwd else sg_CWD st)\<rparr>"
  have k: "Stage_Kind st1 = Stage_Kind st"
    by (rule Stage_Kind_cong) (simp_all add: st1_def)
  have n: "normalize_stage env bd cwd i st =
      (if Stage_Kind st1 = Some StageScript \<and> bd \<noteq> ''''
       then st1\<lparr>sg_Script := ResolveScriptPath env bd (sg_Script st1)\<rparr> else st1)"
    by (simp only: normalize_stage_def st1_def Let_def)
  show ?thesis
  proof (cases "Stage_Kind st1 = Some StageScript \<and> bd \<noteq> ''''")
    case True
    then have "sg_Script st1 \<noteq> ''''" by (auto simp: Stage_Kind_def split: if_splits)
    with True have "ResolveScriptPath env bd (sg_Script st1) \<noteq> ''''"
      by (intro ResolveScriptPath_nonempty assms) simp_all
    with True k n show ?thesis by (simp only: Stage_Kind_script_update if_True simp_thms)
  next
    case False
    with k n show ?thesis by (simp only: if_False)
  qed
qed

lemma normalize_stages_kind:
  assumes "\<And>s. os_lookpath env s \<noteq> Some ''''"
  shows "map Stage_Kind (normalize_stages env bd cwd i sts) = map Stage_Kind sts"
  using assms by (induction sts arbitrary: i) (simp_all add: normalize_stage_kind)

lemma ParseKey_key_of:
  "CHR '':'' \<notin> set cat \<Longrightarrow> ParseKey (key_of cat name) = (cat, name)"
  by (simp add: ParseKey_def key_of_def str_index_append)

lemma key_of_inject:
  assumes "CHR '':'' \<notin> set a" "CHR '':'' \<notin> set c"
  shows "key_of a b = key_of c d \<longleftrightarrow> a = c \<and> b = d"
  using ParseKey_key_of [OF assms(1), of b] ParseKey_key_of [OF assms(2), of d] by (metis prod.inject)

end
