(* ===== verification/Workflow_Graph.thy ===== *)
theory Workflow_Graph
  imports Workflow_Config
begin

text \<open>
  \<open>workflow/graph.go\<close>: resolution of a reference to a definition key, the depth-first cycle
  check over workflow stages, and dangling references. The check is proved correct against the
  reference graph: it accepts exactly the acyclic definition sets, and the path it reports is a
  cycle of the graph.
\<close>

type_synonym wf_defs = "wf_config gomap"

definition MaxNestingDepth :: nat where
  "MaxNestingDepth = 8"

definition def_of :: "wf_defs \<Rightarrow> string \<Rightarrow> wf_config" where
  "def_of defs key = (case gm_get defs key of Some c \<Rightarrow> c | None \<Rightarrow> zero_config)"

section \<open>Resolution\<close>

definition AmbiguousRef :: "wf_defs \<Rightarrow> string \<Rightarrow> string list" where
  "AmbiguousRef defs ref = filter (\<lambda>key. wc_Name (def_of defs key) = ref) (sorted_keys defs)"

definition resolve :: "wf_defs \<Rightarrow> string \<Rightarrow> string option" where
  "resolve defs ref =
     (let (category, name) = ParseKey ref in
      if category \<noteq> '''' then
        (if gm_get defs (key_of category name) \<noteq> None then Some (key_of category name) else None)
      else if gm_get defs (key_of DefaultCategory ref) \<noteq> None
        then Some (key_of DefaultCategory ref)
      else (case filter (\<lambda>key. wc_Name (def_of defs key) = ref) (sorted_keys defs) of
              [key] \<Rightarrow> Some key
            | _ \<Rightarrow> None))"

record wf_ref =
  rf_Workflow :: string
  rf_Stage :: nat
  rf_Target :: string

fun dangling_stages :: "wf_defs \<Rightarrow> string \<Rightarrow> nat \<Rightarrow> stage list \<Rightarrow> wf_ref list" where
  "dangling_stages defs key i [] = []"
| "dangling_stages defs key i (st # sts) =
     (if Stage_Kind st = Some StageWorkflow \<and> resolve defs (sg_Workflow st) = None
      then [\<lparr>rf_Workflow = key, rf_Stage = i + 1, rf_Target = sg_Workflow st\<rparr>] else []) @
     dangling_stages defs key (Suc i) sts"

definition DanglingRefs :: "wf_defs \<Rightarrow> wf_ref list" where
  "DanglingRefs defs =
     concat (map (\<lambda>key. dangling_stages defs key 0 (wc_Stages (def_of defs key))) (sorted_keys defs))"

section \<open>The cycle check\<close>

datatype colour = White | Grey | Black

type_synonym colouring = "string \<Rightarrow> colour"

definition renderCycle :: "string list \<Rightarrow> string \<Rightarrow> string list" where
  "renderCycle stack repeated = dropWhile (\<lambda>k. k \<noteq> repeated) stack @ [repeated]"

text \<open>
  The loop of \<open>visit\<close> over the stages of the definition on top of the stack; the recursive
  \<open>visit(child)\<close> colours the child grey, pushes it, walks its stages and colours it black.
  The result is the cycle found or the colouring.
\<close>

function visit_stages ::
  "wf_defs \<Rightarrow> colouring \<Rightarrow> string list \<Rightarrow> stage list \<Rightarrow> string list + colouring" where
  "visit_stages defs col stack [] = Inr col"
| "visit_stages defs col stack (st # sts) =
     (if Stage_Kind st \<noteq> Some StageWorkflow then visit_stages defs col stack sts
      else (case resolve defs (sg_Workflow st) of
              None \<Rightarrow> visit_stages defs col stack sts
            | Some child \<Rightarrow>
                (case col child of
                   Grey \<Rightarrow> Inl (renderCycle stack child)
                 | White \<Rightarrow>
                     (case visit_stages defs (col(child := Grey)) (stack @ [child])
                             (wc_Stages (def_of defs child)) of
                        Inl path \<Rightarrow> Inl path
                      | Inr col' \<Rightarrow> visit_stages defs (col'(child := Black)) stack sts)
                 | Black \<Rightarrow> visit_stages defs col stack sts)))"
  by pat_completeness auto

definition white_keys :: "wf_defs \<Rightarrow> colouring \<Rightarrow> string set" where
  "white_keys defs col = {k \<in> set (gm_keys defs). col k = White}"

lemma resolve_in_keys:
  assumes "resolve defs ref = Some k"
  shows "k \<in> set (gm_keys defs)"
proof -
  let ?m = "filter (\<lambda>key. wc_Name (def_of defs key) = ref) (sorted_keys defs)"
  have "k \<in> set (gm_keys defs)" if "(case ?m of [key] \<Rightarrow> Some key | _ \<Rightarrow> None) = Some k"
  proof -
    from that have "?m = [k]" by (auto split: list.splits)
    then have "k \<in> set ?m" by (simp only: list.set insertI1)
    then show ?thesis by simp
  qed
  with assms show ?thesis
    by (auto simp: resolve_def gm_keys_get Let_def split: prod.splits if_splits)
qed

lemma visit_stages_white:
  "visit_stages_dom (defs, col, stack, sts) \<Longrightarrow> visit_stages defs col stack sts = Inr col' \<Longrightarrow>
   white_keys defs col' \<subseteq> white_keys defs col"
proof (induction defs col stack sts arbitrary: col' rule: visit_stages.pinduct)
  case (1 defs col stack)
  then show ?case by (simp add: visit_stages.psimps)
next
  case (2 defs col stack st sts)
  show ?case
  proof (cases "Stage_Kind st = Some StageWorkflow")
    case False
    with 2 show ?thesis by (simp add: visit_stages.psimps)
  next
    case kind: True
    show ?thesis
    proof (cases "resolve defs (sg_Workflow st)")
      case None
      with 2 kind show ?thesis by (simp add: visit_stages.psimps)
    next
      case (Some child)
      show ?thesis
      proof (cases "col child")
        case White
        with 2 kind Some obtain c where
          c: "visit_stages defs (col(child := Grey)) (stack @ [child])
                (wc_Stages (def_of defs child)) = Inr c"
            "visit_stages defs (c(child := Black)) stack sts = Inr col'"
          by (auto simp: visit_stages.psimps split: sum.splits)
        have "white_keys defs c \<subseteq> white_keys defs (col(child := Grey))"
          using "2.IH"(3) kind Some White c(1) by blast
        moreover have "white_keys defs col' \<subseteq> white_keys defs (c(child := Black))"
          using "2.IH"(4) kind Some White c by blast
        ultimately show ?thesis by (auto simp: white_keys_def split: if_splits)
      qed (use 2 kind Some in \<open>simp_all add: visit_stages.psimps\<close>)
    qed
  qed
qed

termination visit_stages
proof (relation "measures [\<lambda>(defs, col, stack, sts). card (white_keys defs col),
    \<lambda>(defs, col, stack, sts). length sts]", goal_cases)
  case (4 defs col stack st sts child)
  have "finite (white_keys defs col)" by (simp add: white_keys_def)
  moreover have "white_keys defs (col(child := Grey)) \<subset> white_keys defs col"
    using 4 by (auto simp: white_keys_def split: if_splits dest: resolve_in_keys)
  ultimately show ?case by (simp add: psubset_card_mono)
next
  case (5 defs col stack st sts child c)
  have "white_keys defs c \<subseteq> white_keys defs (col(child := Grey))"
    using 5 by (intro visit_stages_white) auto
  then have sub: "white_keys defs (c(child := Black)) \<subseteq> white_keys defs col"
    by (auto simp: white_keys_def split: if_splits)
  have "finite (white_keys defs col)" by (simp add: white_keys_def)
  then have "card (white_keys defs (c(child := Black))) \<le> card (white_keys defs col)"
    using sub by (rule card_mono)
  then show ?case by auto
qed auto

definition visit :: "wf_defs \<Rightarrow> colouring \<Rightarrow> string \<Rightarrow> string list + colouring" where
  "visit defs col key =
     (case visit_stages defs (col(key := Grey)) [key] (wc_Stages (def_of defs key)) of
        Inl path \<Rightarrow> Inl path
      | Inr col' \<Rightarrow> Inr (col'(key := Black)))"

fun visit_all :: "wf_defs \<Rightarrow> colouring \<Rightarrow> string list \<Rightarrow> string list + colouring" where
  "visit_all defs col [] = Inr col"
| "visit_all defs col (key # ks) =
     (if col key = White
      then (case visit defs col key of Inl path \<Rightarrow> Inl path | Inr col' \<Rightarrow> visit_all defs col' ks)
      else visit_all defs col ks)"

definition CheckAcyclic :: "wf_defs \<Rightarrow> wf_error + unit" where
  "CheckAcyclic defs =
     (case visit_all defs (\<lambda>_. White) (sorted_keys defs) of
        Inl path \<Rightarrow> Inl (WfCycle path)
      | Inr _ \<Rightarrow> Inr ())"

fun validate_set :: "wf_defs \<Rightarrow> wf_config list \<Rightarrow> wf_error + wf_defs" where
  "validate_set defs [] = Inr defs"
| "validate_set defs (c # cs) =
     (case Config_Validate c of
        Inl e \<Rightarrow> Inl e
      | Inr _ \<Rightarrow>
          (case gm_get defs (Config_Key c) of
             Some prev \<Rightarrow> Inl (WfDeclaredTwice (Config_Key c) (wc_ConfigFile prev) (wc_ConfigFile c))
           | None \<Rightarrow> validate_set (gm_set (Config_Key c) c defs) cs))"

definition ValidateAll :: "wf_config list \<Rightarrow> wf_error + unit" where
  "ValidateAll cfgs =
     (case validate_set [] cfgs of Inl e \<Rightarrow> Inl e | Inr defs \<Rightarrow> CheckAcyclic defs)"

section \<open>The reference graph\<close>

definition succs :: "wf_defs \<Rightarrow> stage list \<Rightarrow> string set" where
  "succs defs sts =
     {c. \<exists>st \<in> set sts. Stage_Kind st = Some StageWorkflow \<and> resolve defs (sg_Workflow st) = Some c}"

definition ref_edges :: "wf_defs \<Rightarrow> (string \<times> string) set" where
  "ref_edges defs =
     {(k, c). k \<in> set (gm_keys defs) \<and> c \<in> succs defs (wc_Stages (def_of defs k))}"

lemma succs_Nil [simp]: "succs defs [] = {}"
  by (simp add: succs_def)

lemma succs_Cons:
  "succs defs (st # sts) =
     (if Stage_Kind st = Some StageWorkflow
      then set_option (resolve defs (sg_Workflow st)) else {}) \<union> succs defs sts"
  by (cases "resolve defs (sg_Workflow st)") (auto simp: succs_def)

lemma succs_keys: "succs defs sts \<subseteq> set (gm_keys defs)"
  by (auto simp: succs_def dest: resolve_in_keys)

subsection \<open>Accepting means acyclic\<close>

text \<open>The finished nodes are closed under references and carry no cycle.\<close>

definition finished :: "wf_defs \<Rightarrow> string set \<Rightarrow> bool" where
  "finished defs B \<longleftrightarrow>
     (\<forall>v \<in> B. \<forall>w. (v, w) \<in> ref_edges defs \<longrightarrow> w \<in> B) \<and> (\<forall>v \<in> B. (v, v) \<notin> (ref_edges defs)\<^sup>+)"

lemma finished_insert:
  assumes "finished defs B" "\<And>w. (v, w) \<in> ref_edges defs \<Longrightarrow> w \<in> B"
  shows "finished defs (insert v B)"
proof (cases "v \<in> B")
  case True
  with assms(1) show ?thesis by (simp add: insert_absorb)
next
  case False
  have closed: "w \<in> B" if "(u, w) \<in> (ref_edges defs)\<^sup>*" "u \<in> B" for u w
    using that assms(1) by (induction rule: rtrancl_induct) (auto simp: finished_def)
  have "(v, v) \<notin> (ref_edges defs)\<^sup>+"
  proof
    assume "(v, v) \<in> (ref_edges defs)\<^sup>+"
    then obtain w where "(v, w) \<in> ref_edges defs" "(w, v) \<in> (ref_edges defs)\<^sup>*"
      by (meson tranclD)
    with assms(2) closed False show False by blast
  qed
  with assms show ?thesis by (auto simp: finished_def)
qed

declare fun_upd_apply [simp del]

definition blacks :: "colouring \<Rightarrow> string set" where
  "blacks col = {k. col k = Black}"

definition greys :: "colouring \<Rightarrow> string set" where
  "greys col = {k. col k = Grey}"

lemma visit_stages_Inr:
  assumes "visit_stages defs col stack sts = Inr col'" "finished defs (blacks col)"
  shows "finished defs (blacks col') \<and> blacks col \<subseteq> blacks col' \<and> greys col' = greys col \<and>
         succs defs sts \<subseteq> blacks col'"
  using assms
proof (induction defs col stack sts arbitrary: col' rule: visit_stages.induct)
  case (1 defs col stack)
  then show ?case by simp
next
  case (2 defs col stack st sts)
  show ?case
  proof (cases "Stage_Kind st = Some StageWorkflow \<and> resolve defs (sg_Workflow st) \<noteq> None")
    case False
    have "finished defs (blacks col') \<and> blacks col \<subseteq> blacks col' \<and> greys col' = greys col \<and>
        succs defs sts \<subseteq> blacks col'"
    proof (cases "Stage_Kind st = Some StageWorkflow")
      case True
      with False show ?thesis
        using "2.IH"(2) "2.prems" by simp
    next
      case False
      then show ?thesis using "2.IH"(1) "2.prems" by simp
    qed
    with False show ?thesis by (auto simp: succs_Cons)
  next
    case True
    then obtain child where kind: "Stage_Kind st = Some StageWorkflow"
      and res: "resolve defs (sg_Workflow st) = Some child" by auto
    show ?thesis
    proof (cases "col child")
      case Grey
      with 2 kind res show ?thesis by simp
    next
      case Black
      with 2 kind res have "finished defs (blacks col') \<and> blacks col \<subseteq> blacks col' \<and>
          greys col' = greys col \<and> succs defs sts \<subseteq> blacks col'" by simp
      with Black kind res show ?thesis by (auto simp: succs_Cons blacks_def)
    next
      case White
      let ?g = "col(child := Grey)"
      from "2.prems" kind res White obtain c where
        c: "visit_stages defs ?g (stack @ [child]) (wc_Stages (def_of defs child)) = Inr c"
          "visit_stages defs (c(child := Black)) stack sts = Inr col'"
        by (auto split: sum.splits)
      have bg: "blacks ?g = blacks col" "greys ?g = insert child (greys col)"
        using White by (auto simp: blacks_def greys_def fun_upd_apply)
      have ih: "finished defs (blacks c) \<and> blacks ?g \<subseteq> blacks c \<and> greys c = greys ?g \<and>
          succs defs (wc_Stages (def_of defs child)) \<subseteq> blacks c"
        using "2.IH"(3) [of child] kind res White c(1) "2.prems"(2) bg by simp
      have bc: "blacks (c(child := Black)) = insert child (blacks c)"
        "greys (c(child := Black)) = greys col"
        using ih bg White by (auto simp: blacks_def greys_def fun_upd_apply)
      have "finished defs (insert child (blacks c))"
        using ih by (intro finished_insert) (auto simp: ref_edges_def)
      then have "finished defs (blacks col') \<and> blacks (c(child := Black)) \<subseteq> blacks col' \<and>
          greys col' = greys (c(child := Black)) \<and> succs defs sts \<subseteq> blacks col'"
        using "2.IH"(4) [of child c col'] kind res White c bc by simp
      with ih bg bc kind res show ?thesis by (auto simp: succs_Cons)
    qed
  qed
qed

lemma visit_all_Inr:
  assumes "visit_all defs col ks = Inr col'" "finished defs (blacks col)" "greys col = {}"
  shows "finished defs (blacks col') \<and> set ks \<subseteq> blacks col'\<and> blacks col \<subseteq> blacks col'"
  using assms
proof (induction ks arbitrary: col)
  case Nil
  then show ?case by simp
next
  case (Cons key ks)
  show ?case
  proof (cases "col key = White")
    case False
    then have "key \<in> blacks col"
      using Cons.prems(3) by (cases "col key") (auto simp: blacks_def greys_def fun_upd_apply)
    with False Cons show ?thesis by auto
  next
    case True
    let ?g = "col(key := Grey)"
    from Cons.prems(1) True obtain c where
      c: "visit_stages defs ?g [key] (wc_Stages (def_of defs key)) = Inr c"
        "visit_all defs (c(key := Black)) ks = Inr col'"
      by (auto simp: visit_def split: sum.splits)
    have bg: "blacks ?g = blacks col" "greys ?g = {key}"
      using True Cons.prems(3) by (auto simp: blacks_def greys_def fun_upd_apply)
    from visit_stages_Inr [OF c(1)] Cons.prems(2) bg
    have s: "finished defs (blacks c)" "blacks col \<subseteq> blacks c" "greys c = {key}"
      "succs defs (wc_Stages (def_of defs key)) \<subseteq> blacks c" by simp_all
    have bc: "blacks (c(key := Black)) = insert key (blacks c)" "greys (c(key := Black)) = {}"
      using s(3) by (auto simp: blacks_def greys_def fun_upd_apply)
    have "finished defs (insert key (blacks c))"
      using s by (intro finished_insert) (auto simp: ref_edges_def)
    then have "finished defs (blacks col') \<and> set ks \<subseteq> blacks col' \<and>
        blacks (c(key := Black)) \<subseteq> blacks col'"
      by (intro Cons.IH c(2)) (simp_all only: bc)
    with bc s show ?thesis by auto
  qed
qed

lemma CheckAcyclic_sound:
  assumes "CheckAcyclic defs = Inr ()"
  shows "acyclic (ref_edges defs)"
proof -
  from assms obtain col where "visit_all defs (\<lambda>_. White) (sorted_keys defs) = Inr col"
    by (auto simp: CheckAcyclic_def split: sum.splits)
  from visit_all_Inr [OF this] have f: "finished defs (blacks col)" "set (gm_keys defs) \<subseteq> blacks col"
    by (simp_all add: finished_def blacks_def greys_def)
  show ?thesis
  proof (rule acyclicI, rule allI)
    fix x
    show "(x, x) \<notin> (ref_edges defs)\<^sup>+"
    proof
      assume t: "(x, x) \<in> (ref_edges defs)\<^sup>+"
      then have "x \<in> set (gm_keys defs)" by (metis (no_types, lifting) ref_edges_def tranclD
            mem_Collect_eq case_prodD)
      with f t show False by (auto simp: finished_def)
    qed
  qed
qed

subsection \<open>The reported path is a cycle\<close>

definition walk :: "wf_defs \<Rightarrow> string list \<Rightarrow> bool" where
  "walk defs p \<longleftrightarrow> successively (\<lambda>a b. (a, b) \<in> ref_edges defs) p"

definition ref_cycle :: "wf_defs \<Rightarrow> string list \<Rightarrow> bool" where
  "ref_cycle defs p \<longleftrightarrow> length p \<ge> 2 \<and> hd p = last p \<and> walk defs p"

lemma walk_snoc:
  "stack \<noteq> [] \<Longrightarrow>
   walk defs (stack @ [c]) \<longleftrightarrow> walk defs stack \<and> (last stack, c) \<in> ref_edges defs"
  by (simp add: walk_def successively_append_iff)

lemma walk_dropWhile: "walk defs p \<Longrightarrow> walk defs (dropWhile P p)"
proof -
  assume "walk defs p"
  then have "walk defs (takeWhile P p @ dropWhile P p)" by simp
  then show ?thesis unfolding walk_def successively_append_iff by simp
qed

lemma renderCycle_cycle:
  assumes "walk defs (stack @ [c])" "c \<in> set stack"
  shows "ref_cycle defs (renderCycle stack c)"
proof -
  let ?d = "dropWhile (\<lambda>k. k \<noteq> c) stack"
  have ne: "?d \<noteq> []" and hd: "hd ?d = c"
    using assms(2) hd_dropWhile [of "\<lambda>k. k \<noteq> c" stack] by auto
  have "dropWhile (\<lambda>k. k \<noteq> c) (stack @ [c]) = ?d @ [c]"
    using assms(2) by (simp add: dropWhile_append1)
  with walk_dropWhile [OF assms(1), of "\<lambda>k. k \<noteq> c"] have "walk defs (?d @ [c])" by simp
  with ne hd show ?thesis
    by (cases ?d) (auto simp: ref_cycle_def renderCycle_def)
qed

lemma visit_stages_Inl:
  assumes "visit_stages defs col stack sts = Inl path"
    and "stack \<noteq> []" "last stack \<in> set (gm_keys defs)" "walk defs stack" "greys col = set stack"
    and "finished defs (blacks col)" "set sts \<subseteq> set (wc_Stages (def_of defs (last stack)))"
  shows "ref_cycle defs path"
  using assms
proof (induction defs col stack sts rule: visit_stages.induct)
  case (1 defs col stack)
  then show ?case by simp
next
  case (2 defs col stack st sts)
  show ?case
  proof (cases "Stage_Kind st = Some StageWorkflow \<and> resolve defs (sg_Workflow st) \<noteq> None")
    case False
    show ?thesis
    proof (cases "Stage_Kind st = Some StageWorkflow")
      case True
      with False show ?thesis using "2.IH"(2) "2.prems" by simp
    next
      case False
      then show ?thesis using "2.IH"(1) "2.prems" by simp
    qed
  next
    case True
    then obtain child where kind: "Stage_Kind st = Some StageWorkflow"
      and res: "resolve defs (sg_Workflow st) = Some child" by auto
    have edge: "(last stack, child) \<in> ref_edges defs"
      using "2.prems"(3,7) kind res by (auto simp: ref_edges_def succs_def)
    have w: "walk defs (stack @ [child])" using "2.prems" edge by (simp add: walk_snoc)
    have key: "child \<in> set (gm_keys defs)" using res by (rule resolve_in_keys)
    show ?thesis
    proof (cases "col child")
      case Grey
      with "2.prems"(5) have "child \<in> set stack" by (auto simp: greys_def)
      with w have "ref_cycle defs (renderCycle stack child)" by (rule renderCycle_cycle)
      with Grey "2.prems"(1) kind res show ?thesis by simp
    next
      case Black
      with 2 kind res show ?thesis by simp
    next
      case White
      let ?g = "col(child := Grey)"
      have bg: "blacks ?g = blacks col" "greys ?g = set (stack @ [child])"
        using White "2.prems"(5) by (auto simp: blacks_def greys_def fun_upd_apply)
      show ?thesis
      proof (cases "visit_stages defs ?g (stack @ [child]) (wc_Stages (def_of defs child))")
        case (Inl p)
        with "2.prems"(1) kind res White have "p = path" by simp
        with Inl "2.IH"(3) kind res White bg w key "2.prems"(6) show ?thesis by simp
      next
        case (Inr c)
        from visit_stages_Inr [OF Inr] "2.prems"(6) bg
        have s: "finished defs (blacks c)" "greys c = set (stack @ [child])"
          "succs defs (wc_Stages (def_of defs child)) \<subseteq> blacks c" by simp_all
        have "child \<notin> greys col" using White by (simp add: greys_def)
        then have "child \<notin> set stack" using "2.prems"(5) by simp
        then have bc: "blacks (c(child := Black)) = insert child (blacks c)"
          "greys (c(child := Black)) = set stack"
          using s(2) by (auto simp: blacks_def greys_def fun_upd_apply split: if_splits)
        have "finished defs (insert child (blacks c))"
          using s by (intro finished_insert) (auto simp: ref_edges_def)
        with "2.IH"(4) [of child c] "2.prems" kind res White Inr bc show ?thesis by simp
      qed
    qed
  qed
qed

lemma visit_all_Inl:
  assumes "visit_all defs col ks = Inl path" "set ks \<subseteq> set (gm_keys defs)"
    and "finished defs (blacks col)" "greys col = {}"
  shows "ref_cycle defs path"
  using assms
proof (induction ks arbitrary: col)
  case Nil
  then show ?case by simp
next
  case (Cons key ks)
  show ?case
  proof (cases "col key = White")
    case False
    with Cons show ?thesis by simp
  next
    case True
    let ?g = "col(key := Grey)"
    have bg: "blacks ?g = blacks col" "greys ?g = set [key]"
      using True Cons.prems(4) by (auto simp: blacks_def greys_def fun_upd_apply)
    show ?thesis
    proof (cases "visit_stages defs ?g [key] (wc_Stages (def_of defs key))")
      case (Inl p)
      with Cons.prems(1) True have "p = path" by (simp add: visit_def)
      with Inl bg Cons.prems visit_stages_Inl [OF Inl] show ?thesis by (simp add: walk_def)
    next
      case (Inr c)
      from visit_stages_Inr [OF Inr] Cons.prems(3) bg
      have s: "finished defs (blacks c)" "greys c = {key}"
        "succs defs (wc_Stages (def_of defs key)) \<subseteq> blacks c" by simp_all
      have bc: "blacks (c(key := Black)) = insert key (blacks c)" "greys (c(key := Black)) = {}"
        using s(2) by (auto simp: blacks_def greys_def fun_upd_apply)
      have "finished defs (insert key (blacks c))"
        using s by (intro finished_insert) (auto simp: ref_edges_def)
      moreover have "visit_all defs (c(key := Black)) ks = Inl path"
        using Cons.prems(1) True Inr by (simp add: visit_def)
      ultimately show ?thesis
        using Cons.prems(2) bc by (intro Cons.IH) simp_all
    qed
  qed
qed

lemma ref_cycle_not_acyclic: "ref_cycle defs p \<Longrightarrow> \<not> acyclic (ref_edges defs)"
proof -
  have path: "walk defs (x # xs) \<Longrightarrow> xs \<noteq> [] \<Longrightarrow> (x, last xs) \<in> (ref_edges defs)\<^sup>+" for x xs
    by (induction xs arbitrary: x) (force simp: walk_def)+
  assume c: "ref_cycle defs p"
  then obtain x xs where p: "p = x # xs" "xs \<noteq> []" "last xs = x"
    by (cases p) (auto simp: ref_cycle_def split: if_splits)
  with c path have "(x, x) \<in> (ref_edges defs)\<^sup>+" by (metis ref_cycle_def)
  then show ?thesis by (auto simp: acyclic_def)
qed

lemma CheckAcyclic_Inl:
  assumes "CheckAcyclic defs = Inl e"
  obtains p where "e = WfCycle p" "ref_cycle defs p"
proof -
  from assms obtain p where "visit_all defs (\<lambda>_. White) (sorted_keys defs) = Inl p" "e = WfCycle p"
    by (auto simp: CheckAcyclic_def split: sum.splits)
  moreover from this(1) have "ref_cycle defs p"
    by (rule visit_all_Inl) (auto simp: finished_def blacks_def greys_def)
  ultimately show ?thesis using that by blast
qed

lemma CheckAcyclic_iff: "CheckAcyclic defs = Inr () \<longleftrightarrow> acyclic (ref_edges defs)"
proof
  assume a: "acyclic (ref_edges defs)"
  show "CheckAcyclic defs = Inr ()"
  proof (cases "CheckAcyclic defs")
    case (Inl e)
    then show ?thesis by (rule CheckAcyclic_Inl) (use a ref_cycle_not_acyclic in blast)
  qed simp
qed (rule CheckAcyclic_sound)

declare fun_upd_apply [simp]

end
