(* ===== verification/Workflow_Run.thy ===== *)
theory Workflow_Run
  imports Workflow_Graph Run_History
begin

text \<open>
  \<open>workflow/run.go\<close> and \<open>workflow/paths.go\<close>: the in-memory state of a run and of its
  stages, and the projection of a finished run into its journal record.
\<close>

record stage_run =
  sn_Index :: nat
  sn_Name :: string
  sn_Kind :: "stage_kind option"
  sn_Ref :: string
  sn_Command :: string
  sn_Status :: "run_status option"
  sn_ExitCode :: int
  sn_ExitKnown :: bool
  sn_Signal :: string
  sn_PID :: int
  sn_StartedAt :: gotime
  sn_EndedAt :: gotime
  sn_LogName :: string
  sn_ChildRunID :: string
  sn_Error :: string

record wf_run =
  rn_ID :: string
  rn_Category :: string
  rn_Name :: string
  rn_Trigger :: trigger
  rn_ParentRunID :: string
  rn_Depth :: nat
  rn_Params :: "string gomap"
  rn_StartedAt :: gotime
  rn_EndedAt :: gotime
  rn_Status :: "run_status option"
  rn_Error :: string
  rn_Stages :: "stage_run list"

definition Run_Key :: "wf_run \<Rightarrow> string" where
  "Run_Key r = key_of (rn_Category r) (rn_Name r)"

definition CurrentStage :: "wf_run \<Rightarrow> string" where
  "CurrentStage r =
     (case find (\<lambda>st. sn_Status st = None) (rn_Stages r) of Some st \<Rightarrow> sn_Name st | None \<Rightarrow> '''')"

definition durationMS :: "gotime \<Rightarrow> gotime \<Rightarrow> int" where
  "durationMS start finish =
     (if is_zero_time start \<or> is_zero_time finish \<or> finish < start then 0 else sub_ms finish start)"

definition kind_string :: "stage_kind option \<Rightarrow> string" where
  "kind_string k =
     (case k of
        None \<Rightarrow> ''''
      | Some StageScript \<Rightarrow> ''script''
      | Some StageTask \<Rightarrow> ''task''
      | Some StageWorkflow \<Rightarrow> ''workflow'')"

definition stage_record_of :: "stage_run \<Rightarrow> stage_record" where
  "stage_record_of st =
     \<lparr>sgr_Name = sn_Name st, sgr_Kind = kind_string (sn_Kind st), sgr_Ref = sn_Ref st,
      sgr_Status = sn_Status st, sgr_ExitCode = ExitCodeOf (sn_ExitCode st) (sn_ExitKnown st),
      sgr_Signal = sn_Signal st, sgr_StartedAt = sn_StartedAt st,
      sgr_DurationMS = durationMS (sn_StartedAt st) (sn_EndedAt st), sgr_Log = sn_LogName st,
      sgr_ChildRunID = sn_ChildRunID st, sgr_Error = sn_Error st\<rparr>"

definition Run_Record :: "wf_run \<Rightarrow> workflow_record" where
  "Run_Record r =
     \<lparr>wr_RunID = rn_ID r, wr_Kind = '''', wr_Workflow = Run_Key r, wr_Category = rn_Category r,
      wr_Name = rn_Name r, wr_Trigger = rn_Trigger r, wr_ParentRunID = rn_ParentRunID r,
      wr_Depth = rn_Depth r, wr_StartedAt = rn_StartedAt r, wr_FinishedAt = rn_EndedAt r,
      wr_DurationMS = durationMS (rn_StartedAt r) (rn_EndedAt r), wr_Status = rn_Status r,
      wr_Params = rn_Params r, wr_Stages = map stage_record_of (rn_Stages r),
      wr_Error = rn_Error r, wr_Truncated = False\<rparr>"

record wf_status =
  ws_Config :: wf_config
  ws_Running :: bool
  ws_RunID :: string
  ws_LastStatus :: "run_status option"
  ws_LastRunAt :: gotime

definition Workflow_Dir :: "string \<Rightarrow> string" where
  "Workflow_Dir home = path_join [home, ''workflows'']"

definition DumpPath :: "string \<Rightarrow> string" where
  "DumpPath home = path_join [Workflow_Dir home, ''dump.json'']"

lemma durationMS_nonneg: "0 \<le> durationMS s e"
  by (cases s; cases e) (auto simp: durationMS_def sub_ms_def less_gotime_def)

lemma Run_Record_status:
  "list_all (\<lambda>st. sn_Status st = Some RunSuccess) (rn_Stages r) \<longleftrightarrow>
   list_all (\<lambda>st. sgr_Status st = Some RunSuccess) (wr_Stages (Run_Record r))"
  by (simp add: Run_Record_def stage_record_of_def list_all_iff)

section \<open>Durations as text (\<open>time.Duration.String\<close>)\<close>

text \<open>The decimal digits of a fraction of \<open>10 ^ width\<close>, without trailing zeros.\<close>

definition frac_text :: "int \<Rightarrow> nat \<Rightarrow> string" where
  "frac_text v width =
     (let ds = nat_digits (nat v); padded = replicate (width - length ds) (CHR ''0'') @ ds;
          kept = rev (dropWhile (\<lambda>c. c = CHR ''0'') (rev padded))
      in if v = 0 then '''' else ''.'' @ kept)"

definition micro :: string where
  "micro = [char_of (194 :: nat), char_of (181 :: nat), CHR ''s'']"

definition duration_text :: "int \<Rightarrow> string" where
  "duration_text d =
     (let u = abs d;
          body =
            (if u = 0 then ''0s''
             else if u < 1000 then itoa u @ ''ns''
             else if u < 1000000 then itoa (u div 1000) @ frac_text (u mod 1000) 3 @ micro
             else if u < 1000000000 then itoa (u div 1000000) @ frac_text (u mod 1000000) 6 @ ''ms''
             else
               (let total = u div 1000000000;
                    secs = itoa (total mod 60) @ frac_text (u mod 1000000000) 9 @ ''s''
                in if total < 60 then secs
                   else if total < 3600 then itoa (total div 60) @ ''m'' @ secs
                   else itoa (total div 3600) @ ''h'' @ itoa (total div 60 mod 60) @ ''m'' @ secs))
      in (if d < 0 then ''-'' else '''') @ body)"

end
