(* ===== verification/Engine.thy ===== *)
theory Engine
  imports Workflow_Run Executor Cron_Scheduler
begin

text \<open>
  \<open>daemon/wfengine\<close>: registration, schedules, single flight and the execution of workflow runs
  with nested workflows. A run is executed stage by stage; between two stages the environment
  may change the engine in any way (\<open>we_others\<close>: other runs, registrations, deletions) and may
  cancel the run or one of its ancestors.
\<close>

section \<open>State (engine.go)\<close>

definition MaxConcurrentRuns :: nat where
  "MaxConcurrentRuns = 32"

text \<open>
  \<open>ar_addr\<close> is the identity of the \<open>*activeRun\<close>, \<open>ar_ctx\<close> the identities of the runs whose
  contexts it descends from, root first, itself last.
\<close>

record active_run =
  ar_addr :: nat
  ar_Run :: wf_run
  ar_chain :: "string list"
  ar_ctx :: "nat list"

datatype wf_dump = NoWfDump | WfDumpTorn | WfDumpEntries "wf_config list"

text \<open>The job of a schedule is the key the closure \<open>cronFire(key)\<close> captured.\<close>

record engine =
  en_home :: string
  en_defs :: wf_defs
  en_inflight :: "active_run gomap"
  en_sched :: "string scheduler"
  en_nextAddr :: nat
  en_tick :: nat
  en_dump :: wf_dump
  en_history :: "workflow_record list"

datatype engine_error =
    RunInProgress string string
  | TooManyRuns nat
  | UnknownWorkflow string
  | AmbiguousWorkflow string "string list"
  | NoRunInFlight string
  | InvalidWorkflow wf_error
  | PersistFailed
  | LoadReadFailed
  | LoadParseFailed

datatype stage_end = Waited | TimedOut | CtxDone

datatype persist_outcome = PersistDone | PersistMkdirFailed | PersistOpenFailed | PersistTorn

record engine_env =
  we_now :: "nat \<Rightarrow> gotime"
  we_local :: "gotime \<Rightarrow> civil"
  we_random :: "nat \<Rightarrow> 8 word list"
  we_os :: os_env
  we_lookup :: "nat \<Rightarrow> string \<Rightarrow> string + app_config"
  we_mkdir :: "nat \<Rightarrow> string option"
  we_open :: "nat \<Rightarrow> string option"
  we_spawn :: "nat \<Rightarrow> command \<Rightarrow> string + int"
  we_wait :: "nat \<Rightarrow> wait_result"
  we_end :: "nat \<Rightarrow> stage_end"
  we_cancel :: "nat \<Rightarrow> nat option"
  we_others :: "nat \<Rightarrow> engine \<Rightarrow> engine"
  we_valid_spec :: "string \<Rightarrow> bool"
  we_persist :: "nat \<Rightarrow> persist_outcome"
  we_error_text :: "engine_error \<Rightarrow> string"

definition Engine_New :: "string \<Rightarrow> engine" where
  "Engine_New home =
     \<lparr>en_home = home, en_defs = [], en_inflight = [], en_sched = Scheduler_New, en_nextAddr = 0,
      en_tick = 0, en_dump = NoWfDump, en_history = []\<rparr>"

text \<open>A context is done when the run or an ancestor was cancelled by then.\<close>

definition ctx_err :: "engine_env \<Rightarrow> nat list \<Rightarrow> nat \<Rightarrow> bool" where
  "ctx_err ev ctx t \<longleftrightarrow>
     list_ex (\<lambda>a. case we_cancel ev a of Some n \<Rightarrow> n \<le> t | None \<Rightarrow> False) ctx"

definition interfere :: "engine_env \<Rightarrow> engine \<Rightarrow> engine" where
  "interfere ev eng = (we_others ev (en_tick eng) eng)\<lparr>en_tick := Suc (en_tick eng)\<rparr>"

section \<open>Claim and release\<close>

definition fresh_stage :: "nat \<Rightarrow> stage \<Rightarrow> stage_run" where
  "fresh_stage i st =
     \<lparr>sn_Index = i, sn_Name = sg_Name st, sn_Kind = Stage_Kind st, sn_Ref = Stage_Ref st,
      sn_Command = '''', sn_Status = None, sn_ExitCode = 0, sn_ExitKnown = False, sn_Signal = '''',
      sn_PID = 0, sn_StartedAt = zero_time, sn_EndedAt = zero_time, sn_LogName = '''',
      sn_ChildRunID = '''', sn_Error = ''''\<rparr>"

definition newActiveRun ::
  "engine_env \<Rightarrow> nat \<Rightarrow> nat \<Rightarrow> wf_config \<Rightarrow> trigger \<Rightarrow> active_run option \<Rightarrow> active_run" where
  "newActiveRun ev t addr cfg trg parent =
     \<lparr>ar_addr = addr,
      ar_Run =
        \<lparr>rn_ID = NewRunID (we_local ev (we_now ev t)) (we_random ev t),
         rn_Category = wc_Category cfg, rn_Name = wc_Name cfg, rn_Trigger = trg,
         rn_ParentRunID = (case parent of Some p \<Rightarrow> rn_ID (ar_Run p) | None \<Rightarrow> ''''),
         rn_Depth = (case parent of Some p \<Rightarrow> rn_Depth (ar_Run p) + 1 | None \<Rightarrow> 0),
         rn_Params = [], rn_StartedAt = we_now ev t, rn_EndedAt = zero_time, rn_Status = None,
         rn_Error = '''',
         rn_Stages = map (\<lambda>(i, st). fresh_stage i st) (enumerate 0 (wc_Stages cfg))\<rparr>,
      ar_chain = (case parent of Some p \<Rightarrow> ar_chain p | None \<Rightarrow> []) @ [Config_Key cfg],
      ar_ctx = (case parent of Some p \<Rightarrow> ar_ctx p | None \<Rightarrow> []) @ [addr]\<rparr>"

definition claim ::
  "engine_env \<Rightarrow> wf_config \<Rightarrow> trigger \<Rightarrow> active_run option \<Rightarrow> engine \<Rightarrow>
   (engine_error + active_run) \<times> engine" where
  "claim ev cfg trg parent eng =
     (let key = Config_Key cfg
      in case gm_get (en_inflight eng) key of
        Some existing \<Rightarrow> (Inl (RunInProgress key (rn_ID (ar_Run existing))), eng)
      | None \<Rightarrow>
          if MaxConcurrentRuns \<le> length (en_inflight eng)
          then (Inl (TooManyRuns (length (en_inflight eng))), eng)
          else
            (let ar = newActiveRun ev (en_tick eng) (en_nextAddr eng) cfg trg parent
             in (Inr ar,
                 eng\<lparr>en_inflight := gm_set key ar (en_inflight eng),
                     en_nextAddr := Suc (en_nextAddr eng),
                     en_tick := Suc (en_tick eng)\<rparr>)))"

definition release :: "string \<Rightarrow> active_run \<Rightarrow> engine \<Rightarrow> engine" where
  "release key ar eng =
     (case gm_get (en_inflight eng) key of
        Some a \<Rightarrow>
          if ar_addr a = ar_addr ar then eng\<lparr>en_inflight := gm_del key (en_inflight eng)\<rparr> else eng
      | None \<Rightarrow> eng)"

text \<open>The live view of a run: the entry in flight, if it is still this run.\<close>

definition publish :: "string \<Rightarrow> active_run \<Rightarrow> wf_run \<Rightarrow> engine \<Rightarrow> engine" where
  "publish key ar run eng =
     (case gm_get (en_inflight eng) key of
        Some a \<Rightarrow>
          if ar_addr a = ar_addr ar
          then eng\<lparr>en_inflight := gm_set key (a\<lparr>ar_Run := run\<rparr>) (en_inflight eng)\<rparr>
          else eng
      | None \<Rightarrow> eng)"

definition set_stage :: "nat \<Rightarrow> stage_run \<Rightarrow> wf_run \<Rightarrow> wf_run" where
  "set_stage i st run = run\<lparr>rn_Stages := (rn_Stages run)[i := st]\<rparr>"

definition markRemaining :: "nat \<Rightarrow> run_status \<Rightarrow> wf_run \<Rightarrow> wf_run" where
  "markRemaining start status run =
     run\<lparr>rn_Stages :=
       map (\<lambda>(i, st). if start \<le> i \<and> sn_Status st = None then st\<lparr>sn_Status := Some status\<rparr> else st)
         (enumerate 0 (rn_Stages run))\<rparr>"

section \<open>One command (stage.go)\<close>

record stage_exec =
  se_Script :: string
  se_Args :: "string list"
  se_Env :: "string gomap"
  se_BaseEnv :: "string list"
  se_CWD :: string
  se_Timeout :: int

definition commandLine :: "stage_exec \<Rightarrow> string" where
  "commandLine se = se_Script se @ concat (map (\<lambda>a. '' '' @ a) (se_Args se))"

definition fillExit :: "exit_info \<Rightarrow> stage_run \<Rightarrow> stage_run" where
  "fillExit ex r =
     (if ExitInfo_Success ex
      then r\<lparr>sn_ExitCode := ei_Code ex, sn_ExitKnown := ei_Known ex, sn_Signal := ei_Signal ex,
            sn_Status := Some RunSuccess\<rparr>
      else r\<lparr>sn_ExitCode := ei_Code ex, sn_ExitKnown := ei_Known ex, sn_Signal := ei_Signal ex,
            sn_Status := Some RunFailed,
            sn_Error := (case ei_Err ex of Some e \<Rightarrow> e | None \<Rightarrow> sn_Error r)\<rparr>)"

definition failed :: "string \<Rightarrow> stage_run \<Rightarrow> stage_run" where
  "failed msg r = r\<lparr>sn_Status := Some RunFailed, sn_Error := msg\<rparr>"

text \<open>
  A timer that was not set and a context that is not done never win the \<open>select\<close>.
\<close>

definition stage_outcome :: "engine_env \<Rightarrow> nat list \<Rightarrow> nat \<Rightarrow> int \<Rightarrow> stage_end" where
  "stage_outcome ev ctx t timeout =
     (case we_end ev t of
        Waited \<Rightarrow> Waited
      | TimedOut \<Rightarrow> if 0 < timeout then TimedOut else Waited
      | CtxDone \<Rightarrow> if ctx_err ev ctx (Suc t) then CtxDone else Waited)"

definition execStage ::
  "engine_env \<Rightarrow> stage_exec \<Rightarrow> wf_config \<Rightarrow> active_run \<Rightarrow> wf_run \<Rightarrow> nat \<Rightarrow> stage_run \<Rightarrow> engine \<Rightarrow>
   stage_run \<times> engine" where
  "execStage ev se cfg ar run idx result0 eng0 =
     (let t = en_tick eng0; eng = eng0\<lparr>en_tick := Suc t\<rparr>;
          result1 = result0\<lparr>sn_LogName := stageLogName (Config_Key cfg) (rn_ID run) (sn_Name result0),
                           sn_Command := commandLine se\<rparr>
      in case we_mkdir ev t of
        Some e \<Rightarrow> (failed (''create workflow log directory: '' @ e) result1, eng)
      | None \<Rightarrow>
        (case we_open ev t of
           Some e \<Rightarrow> (failed (''open stage log: '' @ e) result1, eng)
         | None \<Rightarrow>
           (case we_spawn ev t (BuildCommand (we_os ev) (se_Script se) (se_Args se) (se_BaseEnv se)
                     (se_Env se) (se_CWD se)) of
              Inl e \<Rightarrow> (failed e result1, eng)
            | Inr pid \<Rightarrow>
                (let result2 = result1\<lparr>sn_PID := pid\<rparr>;
                     live = publish (Config_Key cfg) ar (set_stage idx result2 run) eng;
                     result3 = fillExit (ExitInfoFromWait (we_wait ev t)) result2
                 in case stage_outcome ev (ar_ctx ar) t (se_Timeout se) of
                      Waited \<Rightarrow> (result3, live)
                    | TimedOut \<Rightarrow>
                        (failed (''stage exceeded its '' @ duration_text (se_Timeout se) @ '' timeout'')
                           result3, live)
                    | CtxDone \<Rightarrow>
                        (result3\<lparr>sn_Status := Some RunCancelled, sn_Error := ''run cancelled''\<rparr>, live)))))"

section \<open>Stages and runs (execute.go)\<close>

definition go_quote :: "string \<Rightarrow> string" where
  "go_quote s =
     [CHR 0x22] @
     concat (map (\<lambda>c. if c = CHR 0x22 \<or> c = CHR 0x5C then [CHR 0x5C, c]
                      else if c = CHR 0x0A then [CHR 0x5C, CHR ''n'']
                      else if c = CHR 0x09 then [CHR 0x5C, CHR ''t'']
                      else if c = CHR 0x0D then [CHR 0x5C, CHR ''r'']
                      else [c]) s) @
     [CHR 0x22]"

definition status_text :: "run_status option \<Rightarrow> string" where
  "status_text s =
     (case s of
        None \<Rightarrow> ''''
      | Some RunSuccess \<Rightarrow> ''success''
      | Some RunFailed \<Rightarrow> ''failed''
      | Some RunSkipped \<Rightarrow> ''skipped''
      | Some RunCancelled \<Rightarrow> ''cancelled'')"

definition describeStageFailure :: "stage_run \<Rightarrow> string" where
  "describeStageFailure st =
     (if sn_Signal st \<noteq> '''' then ''was terminated by '' @ sn_Signal st
      else if sn_ExitKnown st then ''exited '' @ itoa (sn_ExitCode st)
      else if sn_Error st \<noteq> '''' then sn_Error st
      else status_text (sn_Status st))"

definition mergeEnv :: "string gomap \<Rightarrow> string gomap \<Rightarrow> string gomap" where
  "mergeEnv base override = fold (\<lambda>(k, v) out. gm_set k v out) override (fold (\<lambda>(k, v) out. gm_set k v out) base [])"

text \<open>The start of one stage: finished, or a nested run to execute inline.\<close>

datatype stage_step =
    StageDone stage_run engine
  | StageNested wf_config active_run stage_run engine

definition runNested ::
  "engine_env \<Rightarrow> stage \<Rightarrow> active_run \<Rightarrow> stage_run \<Rightarrow> engine \<Rightarrow> stage_step" where
  "runNested ev st ar result eng =
     (case resolve (en_defs eng) (sg_Workflow st) of
        None \<Rightarrow> StageDone (failed (''unknown workflow: '' @ sg_Workflow st) result) eng
      | Some childKey \<Rightarrow>
          if childKey \<in> set (ar_chain ar)
          then StageDone (failed (''workflow cycle: '' @ str_join '' -> '' (ar_chain ar @ [childKey])) result) eng
          else if MaxNestingDepth \<le> length (ar_chain ar)
          then StageDone (failed (''workflow nesting depth '' @ itoa (int MaxNestingDepth) @
                  '' exceeded: '' @ str_join '' -> '' (ar_chain ar)) result) eng
          else
            (case claim ev (def_of (en_defs eng) childKey) TriggerNested (Some ar) eng of
               (Inl e, eng1) \<Rightarrow> StageDone (failed (we_error_text ev e) result) eng1
             | (Inr child, eng1) \<Rightarrow>
                 StageNested (def_of (en_defs eng) childKey) child result eng1))"

text \<open>\<open>runStage\<close> up to a nested run; \<open>run\<close> is the run with the stages finished so far.\<close>

definition startStage ::
  "engine_env \<Rightarrow> wf_config \<Rightarrow> stage \<Rightarrow> active_run \<Rightarrow> wf_run \<Rightarrow> nat \<Rightarrow> engine \<Rightarrow> stage_step" where
  "startStage ev cfg st ar run idx eng0 =
     (let t = en_tick eng0;
          result = (fresh_stage idx st)\<lparr>sn_StartedAt := we_now ev t\<rparr>;
          eng = publish (Config_Key cfg) ar (set_stage idx result run) (eng0\<lparr>en_tick := Suc t\<rparr>)
      in case Stage_Kind st of
        Some StageWorkflow \<Rightarrow> runNested ev st (ar\<lparr>ar_Run := set_stage idx result run\<rparr>) result eng
      | Some StageTask \<Rightarrow>
          (case we_lookup ev t (sg_Task st) of
             Inl e \<Rightarrow> StageDone (failed e result) eng
           | Inr app \<Rightarrow>
               (case execStage ev
                   \<lparr>se_Script = ac_Script app, se_Args = ac_Args app, se_Env = ac_Env app,
                    se_BaseEnv = ac_BaseEnv app, se_CWD = ac_CWD app,
                    se_Timeout = TimeoutDuration cfg st\<rparr> cfg ar run idx result eng of
                  (r, eng1) \<Rightarrow> StageDone r eng1))
      | _ \<Rightarrow>
          (case execStage ev
              \<lparr>se_Script = sg_Script st, se_Args = sg_Args st, se_Env = mergeEnv (wc_Env cfg) (sg_Env st),
               se_BaseEnv = wc_BaseEnv cfg, se_CWD = sg_CWD st,
               se_Timeout = TimeoutDuration cfg st\<rparr> cfg ar run idx result eng of
             (r, eng1) \<Rightarrow> StageDone r eng1))"

text \<open>The end of \<open>execute\<close>: the terminal state, the slot, the journal.\<close>

definition finishRun ::
  "engine_env \<Rightarrow> wf_config \<Rightarrow> active_run \<Rightarrow> wf_run \<Rightarrow> run_status option \<Rightarrow> string \<Rightarrow> engine \<Rightarrow> wf_run \<times> engine" where
  "finishRun ev cfg ar run status err eng0 =
     (let t = en_tick eng0;
          run' = run\<lparr>rn_Status := status, rn_Error := err, rn_EndedAt := we_now ev t\<rparr>;
          eng = release (Config_Key cfg) ar (eng0\<lparr>en_tick := Suc t\<rparr>)
      in (run', eng\<lparr>en_history := Run_Record run' # en_history eng\<rparr>))"

definition nested_result :: "wf_run \<Rightarrow> stage_run \<Rightarrow> stage_run" where
  "nested_result snap r =
     r\<lparr>sn_ChildRunID := rn_ID snap, sn_Status := rn_Status snap, sn_Error := rn_Error snap\<rparr>"

definition stage_error :: "nat \<Rightarrow> stage_run \<Rightarrow> string" where
  "stage_error i r =
     ''stage '' @ itoa (int i + 1) @ '' ('' @ go_quote (sn_Name r) @ '') '' @ describeStageFailure r"

lemma claim_chain:
  "claim ev cfg trg (Some p) eng = (Inr ar, eng') \<Longrightarrow> ar_chain ar = ar_chain p @ [Config_Key cfg]"
  by (auto simp: claim_def Let_def newActiveRun_def split: option.splits if_splits)

lemma startStage_nested:
  assumes "startStage ev cfg st ar run i eng = StageNested ccfg child r eng'"
  shows "length (ar_chain ar) < MaxNestingDepth" "ar_chain child = ar_chain ar @ [Config_Key ccfg]"
proof -
  obtain ar' r0 eng0 where n: "runNested ev st ar' r0 eng0 = StageNested ccfg child r eng'"
    "ar_chain ar' = ar_chain ar"
    using assms by (auto simp: startStage_def Let_def split: option.splits stage_kind.splits sum.splits prod.splits)
  show "length (ar_chain ar) < MaxNestingDepth" "ar_chain child = ar_chain ar @ [Config_Key ccfg]"
    using n claim_chain by (auto simp: runNested_def split: option.splits if_splits prod.splits sum.splits)
qed

text \<open>
  One stage, with \<open>nested\<close> for the execution of a child run (\<open>e.execute(childCfg, child)\<close>).
\<close>

definition runStage ::
  "(wf_config \<Rightarrow> active_run \<Rightarrow> engine \<Rightarrow> wf_run \<times> engine) \<Rightarrow>
   engine_env \<Rightarrow> wf_config \<Rightarrow> stage \<Rightarrow> active_run \<Rightarrow> wf_run \<Rightarrow> nat \<Rightarrow> engine \<Rightarrow> stage_run \<times> engine" where
  "runStage nested ev cfg st ar run i eng =
     (case startStage ev cfg st ar run i eng of
        StageDone r eng1 \<Rightarrow> (r\<lparr>sn_EndedAt := we_now ev (en_tick eng1)\<rparr>, eng1)
      | StageNested ccfg child r eng1 \<Rightarrow>
          (case nested ccfg child eng1 of
             (snap, eng2) \<Rightarrow> ((nested_result snap r)\<lparr>sn_EndedAt := we_now ev (en_tick eng2)\<rparr>, eng2)))"

text \<open>
  The loop of \<open>execute\<close> from index \<open>i\<close> on: the run with its stages, the terminal status,
  the error and the engine.
\<close>

fun stageLoop ::
  "(wf_config \<Rightarrow> active_run \<Rightarrow> engine \<Rightarrow> wf_run \<times> engine) \<Rightarrow>
   engine_env \<Rightarrow> wf_config \<Rightarrow> active_run \<Rightarrow> wf_run \<Rightarrow> nat \<Rightarrow> stage list \<Rightarrow> engine \<Rightarrow>
   wf_run \<times> run_status option \<times> string \<times> engine" where
  "stageLoop nested ev cfg ar run i [] eng = (run, Some RunSuccess, '''', eng)"
| "stageLoop nested ev cfg ar run i (st # sts) eng0 =
     (let eng = interfere ev eng0
      in if ctx_err ev (ar_ctx ar) (en_tick eng) then
           (markRemaining i RunCancelled run, Some RunCancelled, ''run cancelled'', eng)
         else
           (case runStage nested ev cfg st ar run i eng of
              (result, eng1) \<Rightarrow>
                (let run1 = set_stage i result run; live = publish (Config_Key cfg) ar run1 eng1
                 in if sn_Status result = Some RunSuccess
                    then stageLoop nested ev cfg ar run1 (Suc i) sts live
                    else (markRemaining (Suc i) RunSkipped run1, sn_Status result,
                          stage_error i result, live))))"

definition executeWith ::
  "(wf_config \<Rightarrow> active_run \<Rightarrow> engine \<Rightarrow> wf_run \<times> engine) \<Rightarrow>
   engine_env \<Rightarrow> wf_config \<Rightarrow> active_run \<Rightarrow> engine \<Rightarrow> wf_run \<times> engine" where
  "executeWith nested ev cfg ar eng =
     (case stageLoop nested ev cfg ar (ar_Run ar) 0 (wc_Stages cfg) eng of
        (run, status, err, eng1) \<Rightarrow> finishRun ev cfg ar run status err eng1)"

text \<open>
  The recursion through nested runs. The depth guard of \<open>runNested\<close> bounds it: a run whose
  chain has \<open>n\<close> keys nests at most \<open>MaxNestingDepth - n\<close> deep, so the fuel never runs out
  (\<open>executeDepth_enough\<close> and \<open>execute_unfold\<close> below).
\<close>

fun executeDepth :: "nat \<Rightarrow> engine_env \<Rightarrow> wf_config \<Rightarrow> active_run \<Rightarrow> engine \<Rightarrow> wf_run \<times> engine" where
  "executeDepth 0 ev cfg ar eng = (ar_Run ar, eng)"
| "executeDepth (Suc n) ev cfg ar eng = executeWith (executeDepth n ev) ev cfg ar eng"

definition execute :: "engine_env \<Rightarrow> wf_config \<Rightarrow> active_run \<Rightarrow> engine \<Rightarrow> wf_run \<times> engine" where
  "execute ev cfg ar eng = executeDepth (Suc MaxNestingDepth) ev cfg ar eng"

section \<open>The fuel is enough\<close>

lemma stageLoop_cong:
  assumes "\<And>ccfg child e. length (ar_chain ar) < MaxNestingDepth \<Longrightarrow>
      length (ar_chain child) = Suc (length (ar_chain ar)) \<Longrightarrow> nested ccfg child e = nested' ccfg child e"
  shows "stageLoop nested ev cfg ar run i sts eng = stageLoop nested' ev cfg ar run i sts eng"
proof (induction sts arbitrary: run i eng)
  case (Cons st sts)
  have "runStage nested ev cfg st ar run i e = runStage nested' ev cfg st ar run i e" for e
  proof (cases "startStage ev cfg st ar run i e")
    case (StageNested ccfg child r e1)
    then show ?thesis using startStage_nested [OF StageNested] assms by (simp add: runStage_def)
  qed (simp add: runStage_def)
  then show ?case using Cons.IH by (simp add: Let_def split: prod.split)
qed simp

lemma executeDepth_enough:
  "MaxNestingDepth < n + length (ar_chain ar) \<Longrightarrow> MaxNestingDepth < m + length (ar_chain ar) \<Longrightarrow>
   0 < n \<Longrightarrow> 0 < m \<Longrightarrow> executeDepth n ev cfg ar eng = executeDepth m ev cfg ar eng"
proof (induction n arbitrary: m cfg ar eng)
  case (Suc n)
  obtain m' where m: "m = Suc m'" using Suc.prems(4) by (cases m) auto
  have "stageLoop (executeDepth n ev) ev cfg ar run i sts e =
      stageLoop (executeDepth m' ev) ev cfg ar run i sts e" for run i sts e
  proof (rule stageLoop_cong)
    fix ccfg and child :: active_run and e1
    assume "length (ar_chain ar) < MaxNestingDepth" "length (ar_chain child) = Suc (length (ar_chain ar))"
    then show "executeDepth n ev ccfg child e1 = executeDepth m' ev ccfg child e1"
      using Suc.prems(1,2) by (intro Suc.IH) (simp_all add: m)
  qed
  then show ?case by (simp add: m executeWith_def)
qed simp

text \<open>\<open>execute\<close> is the recursion of the code, without a bound.\<close>

lemma execute_unfold:
  "ar_chain ar \<noteq> [] \<Longrightarrow> execute ev cfg ar eng = executeWith (execute ev) ev cfg ar eng"
proof -
  assume "ar_chain ar \<noteq> []"
  then have l: "1 \<le> length (ar_chain ar)" by (cases "ar_chain ar") auto
  have "stageLoop (executeDepth MaxNestingDepth ev) ev cfg ar run i sts e =
      stageLoop (execute ev) ev cfg ar run i sts e" for run i sts e
  proof (rule stageLoop_cong)
    fix ccfg and child :: active_run and e1
    assume h: "length (ar_chain child) = Suc (length (ar_chain ar))"
    have "executeDepth MaxNestingDepth ev ccfg child e1 = executeDepth (Suc MaxNestingDepth) ev ccfg child e1"
      by (rule executeDepth_enough) (use h l in \<open>simp_all add: MaxNestingDepth_def\<close>)
    then show "executeDepth MaxNestingDepth ev ccfg child e1 = execute ev ccfg child e1"
      by (simp add: execute_def)
  qed
  then show ?thesis
    unfolding execute_def executeDepth.simps executeWith_def by simp
qed

end
