(* ===== verification/Engine_Ops.thy ===== *)
theory Engine_Ops
  imports Engine
begin

text \<open>
  The operations of the engine the daemon calls (\<open>engine.go\<close>, \<open>cron.go\<close>): loading and
  registering definitions, arming their schedules, deleting, listing, triggering and stopping
  runs.
\<close>

section \<open>Definitions and schedules\<close>

datatype warning = CronRejected string string | DanglingWarning wf_ref

definition persist :: "engine_env \<Rightarrow> wf_defs \<Rightarrow> engine \<Rightarrow> engine_error option \<times> engine" where
  "persist ev defs eng =
     (let es = map (def_of defs) (sorted_keys defs)
      in case we_persist ev (en_tick eng) of
        PersistDone \<Rightarrow> (None, eng\<lparr>en_dump := WfDumpEntries es\<rparr>)
      | PersistTorn \<Rightarrow> (Some PersistFailed, eng\<lparr>en_dump := WfDumpTorn\<rparr>)
      | _ \<Rightarrow> (Some PersistFailed, eng))"

fun arm_keys ::
  "(string \<Rightarrow> bool) \<Rightarrow> wf_defs \<Rightarrow> string list \<Rightarrow> string scheduler \<Rightarrow> warning list \<times> string scheduler" where
  "arm_keys valid defs [] s = ([], s)"
| "arm_keys valid defs (key # keys) s =
     (let c = wc_Cron (def_of defs key)
      in if c = '''' then arm_keys valid defs keys (Scheduler_Remove key s)
         else
           (case Scheduler_Register valid key c key s of
              (err, s1) \<Rightarrow>
                (case arm_keys valid defs keys s1 of
                   (ws, s2) \<Rightarrow>
                     ((case err of Some _ \<Rightarrow> [CronRejected key c] | None \<Rightarrow> []) @ ws, s2))))"

definition armAll :: "engine_env \<Rightarrow> wf_defs \<Rightarrow> engine \<Rightarrow> warning list \<times> engine" where
  "armAll ev defs eng =
     (case arm_keys (we_valid_spec ev) defs (sorted_keys defs) (en_sched eng) of
        (ws, s) \<Rightarrow> (ws @ map DanglingWarning (DanglingRefs defs), eng\<lparr>en_sched := s\<rparr>))"

definition merge_defs :: "wf_config list \<Rightarrow> wf_defs \<Rightarrow> wf_defs" where
  "merge_defs cfgs defs = fold (\<lambda>c m. gm_set (Config_Key c) c m) cfgs defs"

text \<open>\<open>None\<close> for a missing dump; \<open>os\<close> is what \<open>Normalize\<close> asks of the system.\<close>

definition Engine_Load :: "engine_env \<Rightarrow> engine \<Rightarrow> engine_error option \<times> engine" where
  "Engine_Load ev eng =
     (case en_dump eng of
        NoWfDump \<Rightarrow> (None, eng)
      | WfDumpTorn \<Rightarrow> (Some LoadParseFailed, eng)
      | WfDumpEntries cfgs \<Rightarrow>
          (let defs = merge_defs (map (Config_Normalize (we_os ev) '''') cfgs) (en_defs eng)
           in (None, snd (armAll ev defs (eng\<lparr>en_defs := defs\<rparr>)))))"

definition Engine_Register ::
  "engine_env \<Rightarrow> wf_config list \<Rightarrow> engine \<Rightarrow> (engine_error + string list \<times> warning list) \<times> engine" where
  "Engine_Register ev cfgs eng =
     (case find (\<lambda>c. Config_Validate c \<noteq> Inr ()) cfgs of
        Some c \<Rightarrow> (Inl (InvalidWorkflow (case Config_Validate c of Inl e \<Rightarrow> e | Inr _ \<Rightarrow> WfNoStages '''')), eng)
      | None \<Rightarrow>
          (let merged = merge_defs cfgs (en_defs eng)
           in case CheckAcyclic merged of
             Inl e \<Rightarrow> (Inl (InvalidWorkflow e), eng)
           | Inr _ \<Rightarrow>
               (case persist ev merged (eng\<lparr>en_defs := merged\<rparr>) of
                  (Some e, eng1) \<Rightarrow> (Inl e, eng1)
                | (None, eng1) \<Rightarrow>
                    (case armAll ev merged eng1 of
                       (ws, eng2) \<Rightarrow> (Inr (sort (map Config_Key cfgs), ws), eng2)))))"

definition Engine_Delete :: "engine_env \<Rightarrow> string \<Rightarrow> engine \<Rightarrow> engine_error option \<times> engine" where
  "Engine_Delete ev ref eng =
     (case resolve (en_defs eng) ref of
        None \<Rightarrow> (Some (UnknownWorkflow ref), eng)
      | Some key \<Rightarrow>
          (let defs = gm_del key (en_defs eng)
           in persist ev defs
                (eng\<lparr>en_defs := defs, en_sched := Scheduler_Remove key (en_sched eng)\<rparr>)))"

section \<open>Queries\<close>

text \<open>The newest record of the journal whose name matches the key (\<open>RecentWorkflows\<close>, limit 1).\<close>

definition latest_run :: "string \<Rightarrow> engine \<Rightarrow> workflow_record option" where
  "latest_run key eng = find (\<lambda>r. matchName key (wr_Category r) (wr_Name r)) (en_history eng)"

definition Engine_List :: "engine \<Rightarrow> wf_status list" where
  "Engine_List eng =
     map (\<lambda>key.
       (case gm_get (en_inflight eng) key of
          Some ar \<Rightarrow>
            \<lparr>ws_Config = def_of (en_defs eng) key, ws_Running = True, ws_RunID = rn_ID (ar_Run ar),
             ws_LastStatus = None, ws_LastRunAt = zero_time\<rparr>
        | None \<Rightarrow>
            (case latest_run key eng of
               Some r \<Rightarrow>
                 \<lparr>ws_Config = def_of (en_defs eng) key, ws_Running = False, ws_RunID = wr_RunID r,
                  ws_LastStatus = wr_Status r, ws_LastRunAt = wr_FinishedAt r\<rparr>
             | None \<Rightarrow>
                 \<lparr>ws_Config = def_of (en_defs eng) key, ws_Running = False, ws_RunID = '''',
                  ws_LastStatus = None, ws_LastRunAt = zero_time\<rparr>)))
       (sorted_keys (en_defs eng))"

text \<open>Newest first; the order among equal start times is left open by \<open>sort.Slice\<close>.\<close>

definition LiveRuns :: "engine \<Rightarrow> wf_run list" where
  "LiveRuns eng = rev (sort_key rn_StartedAt (map ar_Run (gm_vals (en_inflight eng))))"

section \<open>Triggers\<close>

text \<open>\<open>Run\<close> up to the claim; the caller then executes the run, with or without waiting.\<close>

definition Run_claim ::
  "engine_env \<Rightarrow> string \<Rightarrow> trigger \<Rightarrow> engine \<Rightarrow> (engine_error + wf_config \<times> active_run) \<times> engine" where
  "Run_claim ev ref trg eng =
     (case resolve (en_defs eng) ref of
        None \<Rightarrow>
          (Inl (if 1 < length (AmbiguousRef (en_defs eng) ref)
                then AmbiguousWorkflow ref (AmbiguousRef (en_defs eng) ref)
                else UnknownWorkflow ref), eng)
      | Some key \<Rightarrow>
          (case claim ev (def_of (en_defs eng) key) trg None eng of
             (Inl e, eng1) \<Rightarrow> (Inl e, eng1)
           | (Inr ar, eng1) \<Rightarrow> (Inr (def_of (en_defs eng) key, ar), eng1)))"

text \<open>\<open>Run(ref, trigger, true)\<close>: the run to its end.\<close>

definition Run_wait ::
  "engine_env \<Rightarrow> string \<Rightarrow> trigger \<Rightarrow> engine \<Rightarrow> (engine_error + wf_run) \<times> engine" where
  "Run_wait ev ref trg eng =
     (case Run_claim ev ref trg eng of
        (Inl e, eng1) \<Rightarrow> (Inl e, eng1)
      | (Inr (cfg, ar), eng1) \<Rightarrow>
          (case execute ev cfg ar eng1 of (run, eng2) \<Rightarrow> (Inr run, eng2)))"

definition recordSkip :: "engine_env \<Rightarrow> string \<Rightarrow> engine_error \<Rightarrow> engine \<Rightarrow> engine" where
  "recordSkip ev key cause eng =
     (let t = en_tick eng; now = we_now ev t; (category, name) = ParseKey key
      in eng\<lparr>en_tick := Suc t,
             en_history :=
               \<lparr>wr_RunID = NewRunID (we_local ev now) (we_random ev t), wr_Kind = '''',
                wr_Workflow = key, wr_Category = category, wr_Name = name, wr_Trigger = TriggerCron,
                wr_ParentRunID = '''', wr_Depth = 0, wr_StartedAt = now, wr_FinishedAt = now,
                wr_DurationMS = 0, wr_Status = Some RunSkipped, wr_Params = [], wr_Stages = [],
                wr_Error = we_error_text ev cause, wr_Truncated = False\<rparr> # en_history eng\<rparr>)"

definition cronFire :: "engine_env \<Rightarrow> string \<Rightarrow> engine \<Rightarrow> engine" where
  "cronFire ev key eng =
     (case Run_claim ev key TriggerCron eng of
        (Inl e, eng1) \<Rightarrow> recordSkip ev key e eng1
      | (Inr (cfg, ar), eng1) \<Rightarrow> snd (execute ev cfg ar eng1))"

text \<open>Which run \<open>StopRun\<close> cancels; the cancellation is an event of the run's environment.\<close>

definition StopRun_target :: "string \<Rightarrow> engine \<Rightarrow> engine_error + active_run" where
  "StopRun_target runID eng =
     (case find (\<lambda>ar. rn_ID (ar_Run ar) = runID) (gm_vals (en_inflight eng)) of
        Some ar \<Rightarrow> Inr ar
      | None \<Rightarrow> Inl (NoRunInFlight runID))"

section \<open>Arming\<close>

lemma arm_keys_sweep:
  "snd (arm_keys valid defs keys s) =
     sweep (\<lambda>n sp j s. snd (Scheduler_Register valid n sp j s)) Scheduler_Remove
       (map (\<lambda>k. (k, wc_Cron (def_of defs k), k)) keys) s"
proof (induction keys arbitrary: s)
  case (Cons key keys)
  obtain err s1 where r: "Scheduler_Register valid key (wc_Cron (def_of defs key)) key s = (err, s1)"
    by (metis prod.exhaust)
  then show ?case
    using Cons [of s1] Cons [of "Scheduler_Remove key s"]
    by (cases "arm_keys valid defs keys s1") (simp add: Let_def)
qed simp

lemma arm_keys_ok: "sched_ok s \<Longrightarrow> sched_ok (snd (arm_keys valid defs keys s))"
  unfolding arm_keys_sweep by (rule sched.ok_sweep)

lemma arm_keys_armed:
  assumes "sched_ok s" "distinct keys"
  shows "armed (snd (arm_keys valid defs keys s)) k =
    (if k \<in> set keys then
       (if wc_Cron (def_of defs k) \<noteq> '''' \<and> valid (wc_Cron (def_of defs k))
        then Some (wc_Cron (def_of defs k), k) else None)
     else armed s k)"
proof -
  let ?xs = "map (\<lambda>k. (k, wc_Cron (def_of defs k), k)) keys"
  have "distinct (map fst ?xs)" using assms(2) by (simp add: comp_def)
  moreover have "map_of ?xs k = (if k \<in> set keys then Some (wc_Cron (def_of defs k), k) else None)"
    by (induction keys) auto
  ultimately show ?thesis
    unfolding arm_keys_sweep by (simp add: sched.look_sweep [OF assms(1)])
qed

lemma arm_keys_warnings:
  "set (fst (arm_keys valid defs keys s)) =
     {CronRejected k (wc_Cron (def_of defs k)) | k.
        k \<in> set keys \<and> wc_Cron (def_of defs k) \<noteq> '''' \<and> \<not> valid (wc_Cron (def_of defs k))}"
proof (induction keys arbitrary: s)
  case (Cons key keys)
  show ?case
  proof (cases "wc_Cron (def_of defs key) = ''''")
    case True
    then show ?thesis using Cons by auto
  next
    case False
    obtain err s1 where r: "Scheduler_Register valid key (wc_Cron (def_of defs key)) key s = (err, s1)"
      by (metis prod.exhaust)
    then have "err = (if valid (wc_Cron (def_of defs key)) then None
        else Some (SchedParse (wc_Cron (def_of defs key))))"
      using Register_error [of valid key "wc_Cron (def_of defs key)" key s] False by simp
    then show ?thesis using Cons [of s1] False by (auto simp: r Let_def split: prod.split)
  qed
qed simp

lemma armAll_sched:
  assumes "sched_ok (en_sched eng)" "gm_ok defs"
  shows "sched_ok (en_sched (snd (armAll ev defs eng)))"
    "armed (en_sched (snd (armAll ev defs eng))) k =
      (if k \<in> set (gm_keys defs) then
         (if wc_Cron (def_of defs k) \<noteq> '''' \<and> we_valid_spec ev (wc_Cron (def_of defs k))
          then Some (wc_Cron (def_of defs k), k) else None)
       else armed (en_sched eng) k)"
  using arm_keys_ok [OF assms(1)] arm_keys_armed [OF assms(1), of "sorted_keys defs"] assms(2)
  by (simp_all add: armAll_def split: prod.split) (metis snd_conv)+

lemma armAll_other [pm_simps]:
  "en_defs (snd (armAll ev defs eng)) = en_defs eng"
  "en_inflight (snd (armAll ev defs eng)) = en_inflight eng"
  "en_dump (snd (armAll ev defs eng)) = en_dump eng"
  "en_history (snd (armAll ev defs eng)) = en_history eng"
  "en_nextAddr (snd (armAll ev defs eng)) = en_nextAddr eng"
  by (simp_all add: armAll_def split: prod.split)

end
