(* ===== verification/Engine_Results.thy ===== *)
theory Engine_Results
  imports Engine_Ops
begin

text \<open>
  What the engine guarantees: registration is all or nothing on a bad definition or a cycle, a
  run always reaches a terminal status with every stage accounted for, its slot is free again
  when it ends whatever other runs do meanwhile, and no run nests into itself.
\<close>

section \<open>Registration\<close>

definition defs_keyed :: "wf_defs \<Rightarrow> bool" where
  "defs_keyed defs \<longleftrightarrow> (\<forall>k c. gm_get defs k = Some c \<longrightarrow> Config_Key c = k)"

definition engine_ok :: "engine \<Rightarrow> bool" where
  "engine_ok eng \<longleftrightarrow>
     gm_ok (en_defs eng) \<and> defs_keyed (en_defs eng) \<and> sched_ok (en_sched eng) \<and>
     (\<forall>k. gm_get (en_defs eng) k = None \<longrightarrow> armed (en_sched eng) k = None) \<and>
     gm_ok (en_inflight eng) \<and> length (en_inflight eng) \<le> MaxConcurrentRuns"

lemma engine_ok_New: "engine_ok (Engine_New home)"
  by (simp add: engine_ok_def Engine_New_def defs_keyed_def)

lemma merge_defs_get:
  "gm_get (merge_defs cfgs defs) k =
     (case find (\<lambda>c. Config_Key c = k) (rev cfgs) of Some c \<Rightarrow> Some c | None \<Rightarrow> gm_get defs k)"
proof (induction cfgs arbitrary: defs)
  case Nil
  then show ?case by (simp add: merge_defs_def)
next
  case (Cons c cfgs)
  have "find P (xs @ [x]) = (case find P xs of Some y \<Rightarrow> Some y | None \<Rightarrow> if P x then Some x else None)"
    for P and xs :: "wf_config list" and x by (induction xs) auto
  then show ?case
    using Cons [of "gm_set (Config_Key c) c defs"]
    by (simp add: merge_defs_def registry_simps split: option.split)
qed

lemma gm_ok_merge: "gm_ok defs \<Longrightarrow> gm_ok (merge_defs cfgs defs)"
  by (induction cfgs arbitrary: defs) (simp_all add: merge_defs_def)

lemma defs_keyed_merge: "defs_keyed defs \<Longrightarrow> defs_keyed (merge_defs cfgs defs)"
  by (auto simp: defs_keyed_def merge_defs_get dest: find_SomeD split: option.splits)

lemma merge_keeps: "gm_get (merge_defs cfgs defs) k = None \<Longrightarrow> gm_get defs k = None"
  by (auto simp: merge_defs_get split: option.splits)

lemma persist_simps [pm_simps]:
  "en_defs (snd (persist ev d eng)) = en_defs eng" "en_sched (snd (persist ev d eng)) = en_sched eng"
  "en_inflight (snd (persist ev d eng)) = en_inflight eng"
  "en_history (snd (persist ev d eng)) = en_history eng"
  "en_tick (snd (persist ev d eng)) = en_tick eng"
  by (simp_all add: persist_def Let_def split: persist_outcome.split)

lemma Register_rejected:
  assumes "fst (Engine_Register ev cfgs eng) = Inl (InvalidWorkflow e)"
  shows "snd (Engine_Register ev cfgs eng) = eng"
  using assms by (auto simp: Engine_Register_def Let_def persist_def split: option.splits sum.splits prod.splits
      persist_outcome.splits)

lemma Register_valid:
  assumes "fst (Engine_Register ev cfgs eng) = Inr (keys, ws)"
  shows "\<forall>c \<in> set cfgs. Config_Validate c = Inr ()"
    "CheckAcyclic (merge_defs cfgs (en_defs eng)) = Inr ()"
    "en_defs (snd (Engine_Register ev cfgs eng)) = merge_defs cfgs (en_defs eng)"
    "keys = sort (map Config_Key cfgs)"
    "en_dump (snd (Engine_Register ev cfgs eng)) =
       WfDumpEntries (map (def_of (merge_defs cfgs (en_defs eng)))
         (sorted_keys (merge_defs cfgs (en_defs eng))))"
proof -
  let ?m = "merge_defs cfgs (en_defs eng)"
  have f: "find (\<lambda>c. Config_Validate c \<noteq> Inr ()) cfgs = None"
    using assms by (auto simp: Engine_Register_def split: option.splits)
  then show "\<forall>c \<in> set cfgs. Config_Validate c = Inr ()" by (auto simp: find_None_iff)
  show c: "CheckAcyclic ?m = Inr ()"
    using assms f by (cases "CheckAcyclic ?m") (auto simp: Engine_Register_def Let_def)
  obtain p eng1 where p: "persist ev ?m (eng\<lparr>en_defs := ?m\<rparr>) = (p, eng1)" by (metis prod.exhaust)
  with assms f c have none: "p = None"
    by (auto simp: Engine_Register_def Let_def split: option.splits)
  have e1: "en_defs eng1 = ?m" "en_dump eng1 = WfDumpEntries (map (def_of ?m) (sorted_keys ?m))"
    using p none by (auto simp: persist_def Let_def split: persist_outcome.splits)
  obtain ws' eng2 where a: "armAll ev ?m eng1 = (ws', eng2)" by (metis prod.exhaust)
  have e2: "en_defs eng2 = en_defs eng1" "en_dump eng2 = en_dump eng1"
    using armAll_other [of ev ?m eng1] by (simp_all add: a)
  show "en_defs (snd (Engine_Register ev cfgs eng)) = ?m" "keys = sort (map Config_Key cfgs)"
    "en_dump (snd (Engine_Register ev cfgs eng)) = WfDumpEntries (map (def_of ?m) (sorted_keys ?m))"
    using assms f c p none a e1 e2 by (simp_all add: Engine_Register_def Let_def)
qed

text \<open>After a registration every definition with a usable schedule is armed with it, no other.\<close>

lemma Register_armed:
  assumes "engine_ok eng" "fst (Engine_Register ev cfgs eng) = Inr (keys, ws)"
  defines "eng' \<equiv> snd (Engine_Register ev cfgs eng)"
  shows "armed (en_sched eng') k =
    (case gm_get (en_defs eng') k of
       None \<Rightarrow> None
     | Some c \<Rightarrow> if wc_Cron c \<noteq> '''' \<and> we_valid_spec ev (wc_Cron c) then Some (wc_Cron c, k) else None)"
    "sched_ok (en_sched eng')"
proof -
  let ?m = "merge_defs cfgs (en_defs eng)"
  have ok: "gm_ok ?m" "sched_ok (en_sched eng)"
    "\<forall>k. gm_get (en_defs eng) k = None \<longrightarrow> armed (en_sched eng) k = None"
    using assms(1) by (simp_all add: engine_ok_def gm_ok_merge)
  have f: "find (\<lambda>c. Config_Validate c \<noteq> Inr ()) cfgs = None"
    using Register_valid(1) [OF assms(2)] by (auto simp: find_None_iff)
  note c = Register_valid(2) [OF assms(2)]
  obtain p eng1 where p: "persist ev ?m (eng\<lparr>en_defs := ?m\<rparr>) = (p, eng1)" by (metis prod.exhaust)
  with assms(2) f c have none: "p = None"
    by (auto simp: Engine_Register_def Let_def split: option.splits)
  have e1: "en_sched eng1 = en_sched eng"
    using persist_simps(2) [of ev ?m "eng\<lparr>en_defs := ?m\<rparr>"] by (simp add: p)
  have eng': "eng' = snd (armAll ev ?m eng1)"
    using f c p none by (simp add: eng'_def Engine_Register_def Let_def split: prod.split)
  have d: "en_defs eng' = ?m" unfolding eng'_def by (rule Register_valid(3) [OF assms(2)])
  show "sched_ok (en_sched eng')" unfolding eng' by (rule armAll_sched(1)) (simp_all add: e1 ok)
  have "armed (en_sched eng') k =
      (if k \<in> set (gm_keys ?m) then
         (if wc_Cron (def_of ?m k) \<noteq> '''' \<and> we_valid_spec ev (wc_Cron (def_of ?m k))
          then Some (wc_Cron (def_of ?m k), k) else None)
       else armed (en_sched eng) k)"
    unfolding eng' using armAll_sched(2) [of eng1 ?m ev k] by (simp add: e1 ok)
  then show "armed (en_sched eng') k =
    (case gm_get (en_defs eng') k of
       None \<Rightarrow> None
     | Some c \<Rightarrow> if wc_Cron c \<noteq> '''' \<and> we_valid_spec ev (wc_Cron c) then Some (wc_Cron c, k) else None)"
    using ok(3) merge_keeps [of cfgs "en_defs eng" k] unfolding d
    by (cases "gm_get ?m k") (auto simp: gm_keys_get def_of_def)
qed

text \<open>A deleted workflow is gone from the definitions and from the schedules.\<close>

lemma Delete_effect:
  fixes ev :: engine_env
  assumes "engine_ok eng" "resolve (en_defs eng) ref = Some key"
  defines "eng' \<equiv> snd (Engine_Delete ev ref eng)"
  shows "gm_get (en_defs eng') k = (if k = key then None else gm_get (en_defs eng) k)"
    "armed (en_sched eng') k = (if k = key then None else armed (en_sched eng) k)"
    "en_inflight eng' = en_inflight eng" "en_history eng' = en_history eng"
  using assms(1,2) by (simp_all add: eng'_def Engine_Delete_def Let_def pm_simps registry_simps
      engine_ok_def armed_Remove)

lemma engine_ok_Delete:
  assumes "engine_ok eng"
  shows "engine_ok (snd (Engine_Delete ev ref eng))"
proof (cases "resolve (en_defs eng) ref")
  case None
  then show ?thesis using assms by (simp add: Engine_Delete_def)
next
  case (Some key)
  then show ?thesis
    using assms
    by (auto simp: Engine_Delete_def Let_def engine_ok_def pm_simps registry_simps armed_Remove defs_keyed_def
        split: if_splits)
qed

lemma engine_ok_armed:
  assumes "gm_ok defs" "defs_keyed defs" "sched_ok (en_sched eng)" "en_defs eng = defs"
    "\<forall>k. gm_get defs k = None \<longrightarrow> armed (en_sched eng) k = None"
    "gm_ok (en_inflight eng)" "length (en_inflight eng) \<le> MaxConcurrentRuns"
  shows "engine_ok (snd (armAll ev defs eng))"
  using assms armAll_sched [OF assms(3,1), of ev]
  by (auto simp: engine_ok_def armAll_other gm_keys_get split: if_splits)

lemma engine_ok_Register:
  assumes "engine_ok eng"
  shows "engine_ok (snd (Engine_Register ev cfgs eng))"
proof -
  let ?m = "merge_defs cfgs (en_defs eng)" and ?e0 = "eng\<lparr>en_defs := merge_defs cfgs (en_defs eng)\<rparr>"
  have p: "engine_ok (snd (persist ev ?m ?e0))"
    using assms by (auto simp: engine_ok_def pm_simps gm_ok_merge defs_keyed_merge merge_keeps)
  then have "engine_ok (snd (armAll ev ?m (snd (persist ev ?m ?e0))))"
    using assms by (intro engine_ok_armed) (auto simp: engine_ok_def pm_simps)
  then show ?thesis
    using assms p
    by (auto simp: Engine_Register_def Let_def split: option.split sum.split prod.split)
qed

lemma engine_ok_Load:
  assumes "engine_ok eng"
  shows "engine_ok (snd (Engine_Load ev eng))"
proof (cases "en_dump eng")
  case (WfDumpEntries cfgs)
  let ?m = "merge_defs (map (Config_Normalize (we_os ev) '''') cfgs) (en_defs eng)"
  have "engine_ok (snd (armAll ev ?m (eng\<lparr>en_defs := ?m\<rparr>)))"
    using assms by (intro engine_ok_armed) (auto simp: engine_ok_def gm_ok_merge defs_keyed_merge merge_keeps)
  then show ?thesis by (simp add: Engine_Load_def WfDumpEntries Let_def)
qed (use assms in \<open>simp_all add: Engine_Load_def\<close>)

section \<open>Single flight\<close>

lemma claim_iff:
  "(\<exists>ar. fst (claim ev cfg trg parent eng) = Inr ar) \<longleftrightarrow>
   gm_get (en_inflight eng) (Config_Key cfg) = None \<and> length (en_inflight eng) < MaxConcurrentRuns"
  by (auto simp: claim_def Let_def split: option.split)

lemma claim_refused:
  "fst (claim ev cfg trg parent eng) = Inl e \<Longrightarrow> snd (claim ev cfg trg parent eng) = eng"
  by (auto simp: claim_def Let_def split: option.splits if_splits)

lemma claim_slot:
  assumes "claim ev cfg trg parent eng = (Inr ar, eng')"
  shows "gm_get (en_inflight eng') k =
    (if k = Config_Key cfg then Some ar else gm_get (en_inflight eng) k)"
    "en_defs eng' = en_defs eng" "en_sched eng' = en_sched eng" "en_history eng' = en_history eng"
    "ar_addr ar = en_nextAddr eng"
  using assms by (auto simp: claim_def Let_def registry_simps newActiveRun_def split: option.splits if_splits)

lemma engine_ok_claim:
  assumes "engine_ok eng"
  shows "engine_ok (snd (claim ev cfg trg parent eng))"
proof -
  have "length (gm_set (Config_Key cfg) ar (en_inflight eng)) = Suc (length (en_inflight eng))"
    if "gm_get (en_inflight eng) (Config_Key cfg) = None" for ar
    using that by (simp add: length_gm_set_new)
  then show ?thesis
    using assms by (auto simp: claim_def Let_def engine_ok_def split: option.split)
qed

section \<open>The outcome of a run\<close>

text \<open>
  A finished run accounts for every stage: all succeeded; or those before the first that did not
  succeed, that one with the status of the run, the rest skipped; or the run was cancelled
  between two stages and the rest is cancelled.
\<close>

definition all_success :: "stage_run list \<Rightarrow> nat \<Rightarrow> bool" where
  "all_success sts n \<longleftrightarrow> (\<forall>j<n. sn_Status (sts ! j) = Some RunSuccess)"

definition run_complete :: "run_status option \<Rightarrow> stage_run list \<Rightarrow> bool" where
  "run_complete status sts \<longleftrightarrow>
     status = Some RunSuccess \<and> all_success sts (length sts) \<or>
     (\<exists>i<length sts. all_success sts i \<and> status \<noteq> None \<and> status \<noteq> Some RunSuccess \<and>
        sn_Status (sts ! i) = status \<and>
        (\<forall>j. i < j \<and> j < length sts \<longrightarrow> sn_Status (sts ! j) = Some RunSkipped)) \<or>
     (\<exists>i<length sts. all_success sts i \<and> status = Some RunCancelled \<and>
        (\<forall>j. i \<le> j \<and> j < length sts \<longrightarrow> sn_Status (sts ! j) = Some RunCancelled))"

lemma run_complete_success:
  "run_complete status sts \<Longrightarrow> status = Some RunSuccess \<longleftrightarrow> list_all (\<lambda>s. sn_Status s = Some RunSuccess) sts"
  by (auto simp: run_complete_def all_success_def list_all_length)

lemma run_complete_status: "run_complete status sts \<Longrightarrow> status \<noteq> None"
  by (auto simp: run_complete_def)

lemma run_complete_stages: "run_complete status sts \<Longrightarrow> s \<in> set sts \<Longrightarrow> sn_Status s \<noteq> None"
proof -
  assume c: "run_complete status sts" and "s \<in> set sts"
  then obtain j where "j < length sts" "s = sts ! j" by (metis in_set_conv_nth)
  with c show ?thesis
    unfolding run_complete_def all_success_def
    by (elim disjE exE conjE) (simp, metis linorder_neqE_nat option.distinct(1), metis not_le option.distinct(1))
qed

lemma failed_status [simp]: "sn_Status (failed msg r) = Some RunFailed"
  by (simp add: failed_def)

lemma fillExit_status: "sn_Status (fillExit ex r) \<noteq> None"
  by (simp add: fillExit_def)

lemma execStage_status: "sn_Status (fst (execStage ev se cfg ar run idx r eng)) \<noteq> None"
  using fillExit_status
  by (auto simp: execStage_def Let_def split: option.split sum.split stage_end.split)

lemma runNested_done: "runNested ev st ar r eng = StageDone r' eng' \<Longrightarrow> sn_Status r' = Some RunFailed"
  by (auto simp: runNested_def split: option.splits if_splits prod.splits sum.splits)

lemma startStage_done:
  assumes "startStage ev cfg st ar run i eng = StageDone r eng'"
  shows "sn_Status r \<noteq> None"
proof -
  have x: "sn_Status a \<noteq> None" if "execStage ev se cfg ar run i r0 e0 = (a, b)" for se r0 e0 a b
    using execStage_status [of ev se cfg ar run i r0 e0] that by simp
  show ?thesis
    using assms runNested_done
    by (auto simp: startStage_def Let_def split: option.splits stage_kind.splits sum.splits prod.splits
        dest: x)
qed

definition child_terminal :: "(wf_config \<Rightarrow> active_run \<Rightarrow> engine \<Rightarrow> wf_run \<times> engine) \<Rightarrow> active_run \<Rightarrow> bool" where
  "child_terminal nested ar \<longleftrightarrow>
     (\<forall>ccfg child e. length (ar_chain ar) < MaxNestingDepth \<and>
        length (ar_chain child) = Suc (length (ar_chain ar)) \<longrightarrow>
        rn_Status (fst (nested ccfg child e)) \<noteq> None)"

lemma runStage_status:
  assumes "child_terminal nested ar"
  shows "sn_Status (fst (runStage nested ev cfg st ar run i eng)) \<noteq> None"
proof (cases "startStage ev cfg st ar run i eng")
  case (StageDone r e)
  then show ?thesis using startStage_done [OF StageDone] by (simp add: runStage_def)
next
  case (StageNested ccfg child r e)
  have "length (ar_chain ar) < MaxNestingDepth" "length (ar_chain child) = Suc (length (ar_chain ar))"
    using startStage_nested [OF StageNested] by simp_all
  with assms have "rn_Status (fst (nested ccfg child e)) \<noteq> None" unfolding child_terminal_def by blast
  then show ?thesis by (auto simp: runStage_def StageNested nested_result_def split: prod.split)
qed

lemma set_stage_nth:
  "length (rn_Stages (set_stage i r run)) = length (rn_Stages run)"
  "j < length (rn_Stages run) \<Longrightarrow> rn_Stages (set_stage i r run) ! j = (if j = i then r else rn_Stages run ! j)"
  by (simp_all add: set_stage_def nth_list_update)

lemma markRemaining_nth:
  "length (rn_Stages (markRemaining i s run)) = length (rn_Stages run)"
  "j < length (rn_Stages run) \<Longrightarrow>
   sn_Status (rn_Stages (markRemaining i s run) ! j) =
     (if i \<le> j \<and> sn_Status (rn_Stages run ! j) = None then Some s else sn_Status (rn_Stages run ! j))"
  by (simp_all add: markRemaining_def nth_enumerate_eq)

text \<open>Stages before \<open>i\<close> have succeeded, the others are untouched.\<close>

definition loop_at :: "wf_run \<Rightarrow> nat \<Rightarrow> bool" where
  "loop_at run i \<longleftrightarrow>
     all_success (rn_Stages run) i \<and>
     (\<forall>j. i \<le> j \<and> j < length (rn_Stages run) \<longrightarrow> sn_Status (rn_Stages run ! j) = None)"

lemma stageLoop_complete:
  assumes "child_terminal nested ar" "loop_at run i" "length (rn_Stages run) = i + length sts"
    "stageLoop nested ev cfg ar run i sts eng = (run', status, err, eng')"
  shows "run_complete status (rn_Stages run')" "length (rn_Stages run') = length (rn_Stages run)"
proof -
  have "run_complete status (rn_Stages run') \<and> length (rn_Stages run') = length (rn_Stages run)"
    using assms(2-4)
  proof (induction sts arbitrary: run i eng)
    case Nil
    then show ?case by (auto simp: run_complete_def loop_at_def)
  next
    case (Cons st sts)
    define e where "e = interfere ev eng"
    have i: "i < length (rn_Stages run)" using Cons.prems(2) by simp
    show ?case
    proof (cases "ctx_err ev (ar_ctx ar) (en_tick e)")
      case True
      then have "run' = markRemaining i RunCancelled run" "status = Some RunCancelled"
        using Cons.prems(3) by (simp_all add: e_def [symmetric] Let_def)
      moreover have "all_success (rn_Stages (markRemaining i RunCancelled run)) i"
        using Cons.prems(1) i by (simp add: all_success_def loop_at_def markRemaining_nth)
      moreover have "\<forall>j. i \<le> j \<and> j < length (rn_Stages run) \<longrightarrow>
          sn_Status (rn_Stages (markRemaining i RunCancelled run) ! j) = Some RunCancelled"
        using Cons.prems(1) by (simp add: loop_at_def markRemaining_nth)
      ultimately show ?thesis using i by (auto simp: run_complete_def markRemaining_nth(1))
    next
      case False
      obtain r e1 where r: "runStage nested ev cfg st ar run i e = (r, e1)" by (metis prod.exhaust)
      have some: "sn_Status r \<noteq> None"
        using runStage_status [OF assms(1), of ev cfg st run i e] by (simp add: r)
      let ?run1 = "set_stage i r run"
      have before: "all_success (rn_Stages ?run1) i"
        using Cons.prems(1) i by (simp add: all_success_def loop_at_def set_stage_nth)
      show ?thesis
      proof (cases "sn_Status r = Some RunSuccess")
        case True
        have "loop_at ?run1 (Suc i)"
          using Cons.prems(1) i True before
          by (auto simp: loop_at_def set_stage_nth all_success_def less_Suc_eq)
        moreover have "stageLoop nested ev cfg ar ?run1 (Suc i) sts (publish (Config_Key cfg) ar ?run1 e1) =
            (run', status, err, eng')"
          using Cons.prems(3) False True by (simp add: e_def [symmetric] r Let_def)
        ultimately show ?thesis
          using Cons.IH [of ?run1 "Suc i"] Cons.prems(2) by (simp add: set_stage_nth(1))
      next
        case bad: False
        have o: "run' = markRemaining (Suc i) RunSkipped ?run1" "status = sn_Status r"
          using Cons.prems(3) False bad by (simp_all add: e_def [symmetric] r Let_def)
        have len: "length (rn_Stages run') = length (rn_Stages run)"
          by (simp add: o markRemaining_nth(1) set_stage_nth(1))
        moreover have "all_success (rn_Stages run') i"
          using before i by (simp add: o all_success_def markRemaining_nth set_stage_nth)
        moreover have "sn_Status (rn_Stages run' ! i) = status"
          using i by (simp add: o markRemaining_nth set_stage_nth)
        moreover have "\<forall>j. i < j \<and> j < length (rn_Stages run) \<longrightarrow>
            sn_Status (rn_Stages run' ! j) = Some RunSkipped"
          using Cons.prems(1) by (simp add: o markRemaining_nth set_stage_nth loop_at_def)
        ultimately have "\<exists>i<length (rn_Stages run'). all_success (rn_Stages run') i \<and> status \<noteq> None \<and>
            status \<noteq> Some RunSuccess \<and> sn_Status (rn_Stages run' ! i) = status \<and>
            (\<forall>j. i < j \<and> j < length (rn_Stages run') \<longrightarrow> sn_Status (rn_Stages run' ! j) = Some RunSkipped)"
          using i some bad o(2) by (intro exI [of _ i]) simp
        then show ?thesis using len by (simp add: run_complete_def)
      qed
    qed
  qed
  then show "run_complete status (rn_Stages run')" "length (rn_Stages run') = length (rn_Stages run)"
    by simp_all
qed

lemma executeWith_complete:
  assumes "child_terminal nested ar" "loop_at (ar_Run ar) 0"
    "length (rn_Stages (ar_Run ar)) = length (wc_Stages cfg)"
    "executeWith nested ev cfg ar eng = (run, eng')"
  shows "run_complete (rn_Status run) (rn_Stages run)"
    "length (rn_Stages run) = length (wc_Stages cfg)"
    "en_history eng' = Run_Record run # tl (en_history eng')"
proof -
  obtain run0 st err e1 where l: "stageLoop nested ev cfg ar (ar_Run ar) 0 (wc_Stages cfg) eng = (run0, st, err, e1)"
    by (metis prod_cases4)
  have "run = run0\<lparr>rn_Status := st, rn_Error := err, rn_EndedAt := we_now ev (en_tick e1)\<rparr>"
    "en_history eng' = Run_Record run # en_history (release (Config_Key cfg) ar (e1\<lparr>en_tick := Suc (en_tick e1)\<rparr>))"
    using assms(4) by (simp_all add: executeWith_def l finishRun_def Let_def) auto
  then show "run_complete (rn_Status run) (rn_Stages run)" "length (rn_Stages run) = length (wc_Stages cfg)"
    "en_history eng' = Run_Record run # tl (en_history eng')"
    using stageLoop_complete [OF assms(1,2) _ l] assms(3) by simp_all
qed

lemma stageLoop_terminal:
  "child_terminal nested ar \<Longrightarrow> stageLoop nested ev cfg ar run i sts eng = (run', status, err, eng') \<Longrightarrow>
   status \<noteq> None"
proof (induction sts arbitrary: run i eng)
  case (Cons st sts)
  obtain r e1 where r: "runStage nested ev cfg st ar run i (interfere ev eng) = (r, e1)" by (metis prod.exhaust)
  obtain y where y: "sn_Status r = Some y"
    using runStage_status [OF Cons.prems(1), of ev cfg st run i "interfere ev eng"] by (auto simp: r)
  show ?case
    using Cons.prems(2) Cons.IH [OF Cons.prems(1), of "set_stage i r run" "Suc i"]
    by (auto simp: r y Let_def split: if_splits)
qed auto

lemma executeDepth_terminal:
  "MaxNestingDepth < n + length (ar_chain ar) \<Longrightarrow> 0 < n \<Longrightarrow>
   rn_Status (fst (executeDepth n ev cfg ar eng)) \<noteq> None"
proof (induction n arbitrary: cfg ar eng)
  case (Suc n)
  have "child_terminal (executeDepth n ev) ar"
    unfolding child_terminal_def using Suc by (auto simp: MaxNestingDepth_def)
  then show ?case
    using stageLoop_terminal
    by (auto simp: executeWith_def finishRun_def Let_def split: prod.split)
qed simp

lemma child_terminal_execute: "child_terminal (execute ev) ar"
proof -
  have "rn_Status (fst (execute ev ccfg child e)) \<noteq> None" for ccfg child e
    unfolding execute_def by (rule executeDepth_terminal) (simp_all add: MaxNestingDepth_def)
  then show ?thesis by (simp add: child_terminal_def)
qed

lemma fresh_loop_at:
  "loop_at (ar_Run (newActiveRun ev t addr cfg trg parent)) 0"
  "length (rn_Stages (ar_Run (newActiveRun ev t addr cfg trg parent))) = length (wc_Stages cfg)"
  "ar_chain (newActiveRun ev t addr cfg trg parent) \<noteq> []"
  by (simp_all add: loop_at_def newActiveRun_def all_success_def nth_enumerate_eq fresh_stage_def)

lemma claim_fresh:
  "claim ev cfg trg parent eng = (Inr ar, eng') \<Longrightarrow> \<exists>t addr. ar = newActiveRun ev t addr cfg trg parent"
  by (auto simp: claim_def Let_def split: option.splits if_splits)

text \<open>A claimed run ends, with every stage accounted for and its record at the head of the journal.\<close>

lemma execute_complete:
  assumes "claim ev cfg trg parent eng0 = (Inr ar, eng)" "execute ev cfg ar eng = (run, eng')"
  shows "run_complete (rn_Status run) (rn_Stages run)"
    "length (rn_Stages run) = length (wc_Stages cfg)"
    "en_history eng' = Run_Record run # tl (en_history eng')"
proof -
  obtain t addr where ar: "ar = newActiveRun ev t addr cfg trg parent" using claim_fresh [OF assms(1)] by blast
  have c: "ar_chain ar \<noteq> []" "loop_at (ar_Run ar) 0" "length (rn_Stages (ar_Run ar)) = length (wc_Stages cfg)"
    by (simp_all add: ar fresh_loop_at)
  have e: "executeWith (execute ev) ev cfg ar eng = (run, eng')"
    using assms(2) execute_unfold [OF c(1)] by simp
  show "run_complete (rn_Status run) (rn_Stages run)"
    "length (rn_Stages run) = length (wc_Stages cfg)"
    "en_history eng' = Run_Record run # tl (en_history eng')"
    by (rule executeWith_complete [OF child_terminal_execute c(2,3) e])+
qed

section \<open>The slot of a run\<close>

definition held :: "engine \<Rightarrow> string \<Rightarrow> nat \<Rightarrow> bool" where
  "held eng k a \<longleftrightarrow> (\<exists>ar. gm_get (en_inflight eng) k = Some ar \<and> ar_addr ar = a)"

text \<open>
  What the rest of the daemon does between two stages: it keeps definitions under their own
  keys and does not touch the slot of a run it does not own.
\<close>

definition others_keep :: "engine_env \<Rightarrow> string \<Rightarrow> nat \<Rightarrow> bool" where
  "others_keep ev k a \<longleftrightarrow>
     (\<forall>t eng. (defs_keyed (en_defs eng) \<longrightarrow> defs_keyed (en_defs (we_others ev t eng))) \<and>
        (held eng k a \<longrightarrow> held (we_others ev t eng) k a))"

definition slot_inv :: "string \<Rightarrow> nat \<Rightarrow> engine \<Rightarrow> bool" where
  "slot_inv k a eng \<longleftrightarrow> defs_keyed (en_defs eng) \<and> held eng k a"

lemma slot_publish [simp]: "slot_inv k a (publish key ar run eng) \<longleftrightarrow> slot_inv k a eng"
  by (auto simp: slot_inv_def held_def publish_def registry_simps split: option.splits)

lemma slot_tick [simp]: "slot_inv k a (eng\<lparr>en_tick := t\<rparr>) \<longleftrightarrow> slot_inv k a eng"
  by (simp add: slot_inv_def held_def)

lemma slot_release: "key \<noteq> k \<Longrightarrow> slot_inv k a (release key ar eng) \<longleftrightarrow> slot_inv k a eng"
  by (auto simp: slot_inv_def held_def release_def registry_simps split: option.splits)

lemma slot_interfere: "others_keep ev k a \<Longrightarrow> slot_inv k a eng \<Longrightarrow> slot_inv k a (interfere ev eng)"
  by (simp add: interfere_def) (simp add: slot_inv_def others_keep_def)

lemma slot_claim:
  assumes "claim ev cfg trg parent eng = (x, eng')" "slot_inv k a eng"
  shows "slot_inv k a eng'"
  using assms
  by (auto simp: claim_def Let_def slot_inv_def held_def registry_simps split: option.splits if_splits)

lemma slot_finish:
  "Config_Key cfg \<noteq> k \<Longrightarrow> slot_inv k a eng \<Longrightarrow> slot_inv k a (snd (finishRun ev cfg ar run st err eng))"
  using slot_release [of "Config_Key cfg" k a ar "eng\<lparr>en_tick := Suc (en_tick eng)\<rparr>"]
  by (simp add: finishRun_def Let_def) (simp add: slot_inv_def held_def)

lemma slot_execStage: "slot_inv k a eng \<Longrightarrow> slot_inv k a (snd (execStage ev se cfg ar run i r eng))"
  by (auto simp: execStage_def Let_def split: option.split sum.split stage_end.split)

lemma slot_runNested:
  assumes "slot_inv k a eng" "k \<in> set (ar_chain ar)"
  shows "runNested ev st ar r eng = StageDone r' e' \<Longrightarrow> slot_inv k a e'"
    "runNested ev st ar r eng = StageNested ccfg child r' e' \<Longrightarrow>
       slot_inv k a e' \<and> Config_Key ccfg \<noteq> k \<and> k \<in> set (ar_chain child)"
proof -
  show "runNested ev st ar r eng = StageDone r' e' \<Longrightarrow> slot_inv k a e'"
    using assms(1) by (auto simp: runNested_def split: option.splits if_splits prod.splits sum.splits
        dest: slot_claim)
  assume n: "runNested ev st ar r eng = StageNested ccfg child r' e'"
  then obtain childKey where c: "resolve (en_defs eng) (sg_Workflow st) = Some childKey"
    "childKey \<notin> set (ar_chain ar)" "ccfg = def_of (en_defs eng) childKey"
    "claim ev ccfg TriggerNested (Some ar) eng = (Inr child, e')"
    by (auto simp: runNested_def split: option.splits if_splits prod.splits sum.splits)
  obtain cf where "gm_get (en_defs eng) childKey = Some cf"
    using resolve_in_keys [OF c(1)] by (auto simp: gm_keys_get)
  then have "Config_Key ccfg = childKey"
    using assms(1) by (auto simp: c(3) def_of_def slot_inv_def defs_keyed_def)
  then show "slot_inv k a e' \<and> Config_Key ccfg \<noteq> k \<and> k \<in> set (ar_chain child)"
    using c(2) assms slot_claim [OF c(4)] claim_chain [OF c(4)] by auto
qed

lemma slot_startStage:
  assumes "slot_inv k a eng" "k \<in> set (ar_chain ar)"
  shows "startStage ev cfg st ar run i eng = StageDone r e' \<Longrightarrow> slot_inv k a e'"
    "startStage ev cfg st ar run i eng = StageNested ccfg child r e' \<Longrightarrow>
       slot_inv k a e' \<and> Config_Key ccfg \<noteq> k \<and> k \<in> set (ar_chain child)"
proof -
  let ?r = "(fresh_stage i st)\<lparr>sn_StartedAt := we_now ev (en_tick eng)\<rparr>"
  let ?e = "publish (Config_Key cfg) ar (set_stage i ?r run) (eng\<lparr>en_tick := Suc (en_tick eng)\<rparr>)"
  let ?ar = "ar\<lparr>ar_Run := set_stage i ?r run\<rparr>"
  have p: "slot_inv k a ?e" using assms(1) by simp
  have k: "k \<in> set (ar_chain ?ar)" using assms(2) by simp
  have x: "slot_inv k a e2" if "execStage ev se cfg ar run i ?r ?e = (r2, e2)" for se r2 e2
    using slot_execStage [OF p, of ev se cfg ar run i ?r] that by simp
  show "startStage ev cfg st ar run i eng = StageDone r e' \<Longrightarrow> slot_inv k a e'"
    using slot_runNested(1) [OF p k, of ev st ?r r e'] p
    by (auto simp: startStage_def Let_def split: option.splits stage_kind.splits sum.splits prod.splits dest: x)
  show "startStage ev cfg st ar run i eng = StageNested ccfg child r e' \<Longrightarrow>
       slot_inv k a e' \<and> Config_Key ccfg \<noteq> k \<and> k \<in> set (ar_chain child)"
    using slot_runNested(2) [OF p k, of ev st ?r ccfg child r e']
    by (auto simp: startStage_def Let_def split: option.splits stage_kind.splits sum.splits prod.splits)
qed

lemma slot_stageLoop:
  assumes "others_keep ev k a" "k \<in> set (ar_chain ar)"
    "\<And>ccfg child e. Config_Key ccfg \<noteq> k \<Longrightarrow> k \<in> set (ar_chain child) \<Longrightarrow> slot_inv k a e \<Longrightarrow>
      slot_inv k a (snd (nested ccfg child e))"
  shows "slot_inv k a eng \<Longrightarrow> stageLoop nested ev cfg ar run i sts eng = (run', st, err, eng') \<Longrightarrow>
    slot_inv k a eng'"
proof (induction sts arbitrary: run i eng)
  case (Cons stg sts)
  have e: "slot_inv k a (interfere ev eng)" by (rule slot_interfere [OF assms(1) Cons.prems(1)])
  obtain r e1 where r: "runStage nested ev cfg stg ar run i (interfere ev eng) = (r, e1)" by (metis prod.exhaust)
  have e1: "slot_inv k a e1"
  proof (cases "startStage ev cfg stg ar run i (interfere ev eng)")
    case (StageDone r0 e0)
    then show ?thesis using r slot_startStage(1) [OF e assms(2) StageDone] by (simp add: runStage_def)
  next
    case (StageNested ccfg child r0 e0)
    from slot_startStage(2) [OF e assms(2) StageNested] assms(3)
    have "slot_inv k a (snd (nested ccfg child e0))" by blast
    then show ?thesis using r by (auto simp: runStage_def StageNested split: prod.splits)
  qed
  then show ?case
    using Cons.IH [of "publish (Config_Key cfg) ar (set_stage i r run) e1" "set_stage i r run" "Suc i"]
      Cons.prems(2) e
    by (auto simp: r Let_def split: if_splits)
qed simp

lemma slot_executeDepth:
  assumes "others_keep ev k a"
  shows "Config_Key cfg \<noteq> k \<Longrightarrow> k \<in> set (ar_chain ar) \<Longrightarrow> slot_inv k a eng \<Longrightarrow>
    slot_inv k a (snd (executeDepth n ev cfg ar eng))"
proof (induction n arbitrary: cfg ar eng)
  case (Suc n)
  obtain run st err e1 where
    l: "stageLoop (executeDepth n ev) ev cfg ar (ar_Run ar) 0 (wc_Stages cfg) eng = (run, st, err, e1)"
    by (metis prod_cases4)
  have "slot_inv k a e1" by (rule slot_stageLoop [OF assms Suc.prems(2) Suc.IH Suc.prems(3) l])
  then show ?case using slot_finish [OF Suc.prems(1)] by (simp add: executeWith_def l)
qed simp

text \<open>When a run ends its slot is free, so the next trigger of the workflow is not refused.\<close>

lemma execute_releases:
  assumes "claim ev cfg trg parent eng0 = (Inr ar, eng)" "defs_keyed (en_defs eng0)"
    "others_keep ev (Config_Key cfg) (ar_addr ar)"
  shows "gm_get (en_inflight (snd (execute ev cfg ar eng))) (Config_Key cfg) = None"
proof -
  obtain t addr where ar: "ar = newActiveRun ev t addr cfg trg parent" using claim_fresh [OF assms(1)] by blast
  have chain: "Config_Key cfg \<in> set (ar_chain ar)" by (simp add: ar newActiveRun_def)
  have inv: "slot_inv (Config_Key cfg) (ar_addr ar) eng"
    using claim_slot(1,2) [OF assms(1)] assms(2) by (simp add: slot_inv_def held_def)
  obtain run st err e1 where
    l: "stageLoop (executeDepth MaxNestingDepth ev) ev cfg ar (ar_Run ar) 0 (wc_Stages cfg) eng = (run, st, err, e1)"
    by (metis prod_cases4)
  have "slot_inv (Config_Key cfg) (ar_addr ar) e1"
    by (rule slot_stageLoop [OF assms(3) chain slot_executeDepth [OF assms(3)] inv l])
  then have "held e1 (Config_Key cfg) (ar_addr ar)" by (simp add: slot_inv_def)
  then show ?thesis
    by (auto simp: execute_def executeWith_def l finishRun_def Let_def release_def held_def registry_simps)
qed

section \<open>Nesting\<close>

text \<open>A stage that would nest a workflow into itself, or too deep, fails without a new run.\<close>

lemma runNested_cycle:
  assumes "resolve (en_defs eng) (sg_Workflow st) = Some key" "key \<in> set (ar_chain ar)"
  shows "runNested ev st ar r eng =
    StageDone (failed (''workflow cycle: '' @ str_join '' -> '' (ar_chain ar @ [key])) r) eng"
  using assms by (simp add: runNested_def)

definition chain_ok :: "active_run \<Rightarrow> bool" where
  "chain_ok ar \<longleftrightarrow>
     distinct (ar_chain ar) \<and> rn_Depth (ar_Run ar) + 1 = length (ar_chain ar) \<and>
     length (ar_chain ar) \<le> MaxNestingDepth"

lemma chain_ok_root: "chain_ok (newActiveRun ev t addr cfg trg None)"
  by (simp add: chain_ok_def newActiveRun_def MaxNestingDepth_def)

lemma chain_ok_nested:
  assumes "chain_ok ar" "defs_keyed (en_defs eng)" "runNested ev st ar r eng = StageNested ccfg child r' e'"
  shows "chain_ok child" "rn_ParentRunID (ar_Run child) = rn_ID (ar_Run ar)"
proof -
  obtain childKey where c: "resolve (en_defs eng) (sg_Workflow st) = Some childKey"
    "childKey \<notin> set (ar_chain ar)" "\<not> MaxNestingDepth \<le> length (ar_chain ar)"
    "ccfg = def_of (en_defs eng) childKey"
    "claim ev ccfg TriggerNested (Some ar) eng = (Inr child, e')"
    using assms(3) by (auto simp: runNested_def split: option.splits if_splits prod.splits sum.splits)
  obtain cf where "gm_get (en_defs eng) childKey = Some cf"
    using resolve_in_keys [OF c(1)] by (auto simp: gm_keys_get)
  then have k: "Config_Key ccfg = childKey"
    using assms(2) by (auto simp: c(4) def_of_def defs_keyed_def)
  obtain t addr where "child = newActiveRun ev t addr ccfg TriggerNested (Some ar)"
    using claim_fresh [OF c(5)] by blast
  then show "chain_ok child" "rn_ParentRunID (ar_Run child) = rn_ID (ar_Run ar)"
    using assms(1) c(2,3) k by (simp_all add: chain_ok_def newActiveRun_def)
qed

end
