(* ===== verification/Run_Journal.thy ===== *)
theory Run_Journal
  imports Run_History
begin

text \<open>
  The two journals of \<open>runhistory.Store\<close>: day files of one record a line, opened for the day
  of the record, pruned by the date in their name and read newest first. The JSON codec of the
  records is an argument; what the properties ask of it (decoding undoes encoding, an encoded
  record is one line with no space at its ends) is stated where it is used.
\<close>

section \<open>Day files (runhistory/files.go)\<close>

definition newline :: char where
  "newline = char_of (10 :: nat)"

definition trim_space :: "string \<Rightarrow> string" where
  "trim_space s = rev (dropWhile is_space (rev (dropWhile is_space s)))"

definition jsonl :: string where
  "jsonl = ''.jsonl''"

definition dayOf :: "civil \<Rightarrow> string" where
  "dayOf c = fmt_date c @ jsonl"

text \<open>The regular expression \<open>^\d{4}-\d{2}-\d{2}\.jsonl$\<close>.\<close>

definition dayFilePattern :: "string \<Rightarrow> bool" where
  "dayFilePattern s \<longleftrightarrow>
     length s = 16 \<and> drop 10 s = jsonl \<and> s ! 4 = CHR ''-'' \<and> s ! 7 = CHR ''-'' \<and>
     list_all is_digit (take 4 s @ take 2 (drop 5 s) @ take 2 (drop 8 s))"

definition dayFiles :: "string gomap \<Rightarrow> string list" where
  "dayFiles files = rev (sort (filter dayFilePattern (gm_keys files)))"

lemma dayFilePattern_dayOf: "dayFilePattern (dayOf c)"
  using pad4_digits [of "cv_year c"] pad2_digits [of "cv_month c"] pad2_digits [of "cv_day c"]
  by (auto simp: dayFilePattern_def dayOf_def fmt_date_def jsonl_def numeral_eq_Suc)

lemma set_dayFiles: "set (dayFiles files) = {n. gm_get files n \<noteq> None \<and> dayFilePattern n}"
  by (auto simp: dayFiles_def gm_keys_get)

lemma distinct_dayFiles: "gm_ok files \<Longrightarrow> distinct (dayFiles files)"
  by (simp add: dayFiles_def distinct_gm_keys)

section \<open>Retention (runhistory/retention.go)\<close>

text \<open>\<open>AddDate(0, 0, -k)\<close> on the calendar date.\<close>

definition prev_day :: "nat \<times> nat \<times> nat \<Rightarrow> nat \<times> nat \<times> nat" where
  "prev_day ymd =
     (case ymd of (y, m, d) \<Rightarrow>
        if 1 < d then (y, m, d - 1)
        else if 1 < m then (y, m - 1, days_in y (m - 1))
        else (y - 1, 12, 31))"

definition days_before :: "nat \<Rightarrow> civil \<Rightarrow> nat \<times> nat \<times> nat" where
  "days_before k c = (prev_day ^^ k) (cv_year c, cv_month c, cv_day c)"

definition ymd_key :: "nat \<times> nat \<times> nat \<Rightarrow> nat" where
  "ymd_key ymd = (case ymd of (y, m, d) \<Rightarrow> y * 10000 + m * 100 + d)"

text \<open>
  \<open>day.Before(cutoff)\<close>: the day is a midnight and the cutoff has the clock reading of
  \<open>now\<close>, at the resolution of a second.
\<close>

definition day_before_cutoff :: "nat \<Rightarrow> civil \<Rightarrow> nat \<times> nat \<times> nat \<Rightarrow> bool" where
  "day_before_cutoff k c day \<longleftrightarrow>
     ymd_key day < ymd_key (days_before k c) \<or>
     ymd_key day = ymd_key (days_before k c) \<and> 0 < cv_hour c + cv_min c + cv_sec c"

definition prunable :: "int \<Rightarrow> civil \<Rightarrow> string \<Rightarrow> bool" where
  "prunable keepDays tm name \<longleftrightarrow>
     (case parse_date (take 10 name) of
        None \<Rightarrow> False
      | Some day \<Rightarrow> day_before_cutoff (nat keepDays) tm day)"

text \<open>
  \<open>rm\<close> says which files \<open>os.Remove\<close> can delete; the result names the first that it could
  not.
\<close>

primrec prune_files ::
  "(string \<Rightarrow> bool) \<Rightarrow> int \<Rightarrow> civil \<Rightarrow> string list \<Rightarrow> string gomap \<Rightarrow> string option \<times> string gomap" where
  "prune_files rm keepDays tm [] files = (None, files)"
| "prune_files rm keepDays tm (n # ns) files =
     (if prunable keepDays tm n then
        (if rm n then prune_files rm keepDays tm ns (gm_del n files)
         else (Some n, snd (prune_files rm keepDays tm ns files)))
      else prune_files rm keepDays tm ns files)"

definition pruneDir ::
  "(string \<Rightarrow> bool) \<Rightarrow> int \<Rightarrow> civil \<Rightarrow> string gomap \<Rightarrow> string option \<times> string gomap" where
  "pruneDir rm keepDays tm files =
     (if keepDays \<le> 0 then (None, files)
      else prune_files rm keepDays tm (dayFiles files) files)"

lemma prune_files_get:
  "gm_get (snd (prune_files rm k tm ns files)) n =
     (if n \<in> set ns \<and> prunable k tm n \<and> rm n then None else gm_get files n)"
  by (induction ns arbitrary: files) (auto simp: registry_simps)

lemma pruneDir_get:
  "gm_get (snd (pruneDir rm k tm files)) n =
     (if 0 < k \<and> dayFilePattern n \<and> prunable k tm n \<and> rm n then None else gm_get files n)"
  by (auto simp: pruneDir_def prune_files_get set_dayFiles)

lemma gm_ok_pruneDir: "gm_ok files \<Longrightarrow> gm_ok (snd (pruneDir rm k tm files))"
proof -
  have "gm_ok files \<Longrightarrow> gm_ok (snd (prune_files rm k tm ns files))" for ns
    by (induction ns arbitrary: files) auto
  then show "gm_ok files \<Longrightarrow> ?thesis" by (simp add: pruneDir_def)
qed

section \<open>Appending (runhistory/store.go)\<close>

datatype journal_error = MarshalError | JournalMkdirError | JournalOpenError | AppendError

text \<open>
  \<open>jn_open\<close> is the day file whose handle is held, \<open>jn_files\<close> the directory. Writes to
  an open file whose directory entry was removed reach no file of the directory.
\<close>

record journal =
  jn_open :: "string option"
  jn_files :: "string gomap"

definition empty_journal :: journal where
  "empty_journal = \<lparr>jn_open = None, jn_files = []\<rparr>"

record journal_env =
  je_mkdir :: bool
  je_open :: bool
  je_write :: bool
  je_remove :: "string \<Rightarrow> bool"

definition DefaultKeepDays :: int where
  "DefaultKeepDays = 30"

definition maxRecordBytes :: nat where
  "maxRecordBytes = 4 * 1024"

definition ensureDay ::
  "journal_env \<Rightarrow> civil \<Rightarrow> journal \<Rightarrow> (bool \<times> journal_error option) \<times> journal" where
  "ensureDay ev tm j =
     (let day = dayOf tm; rotated = (jn_open j \<noteq> None); closed = j\<lparr>jn_open := None\<rparr>
      in if jn_open j = Some day then ((False, None), j)
         else if \<not> je_mkdir ev then ((rotated, Some JournalMkdirError), closed)
         else if \<not> je_open ev then ((rotated, Some JournalOpenError), closed)
         else ((rotated, None),
               \<lparr>jn_open = Some day,
                jn_files = (if gm_get (jn_files j) day = None then gm_set day '''' (jn_files j)
                            else jn_files j)\<rparr>))"

definition write_open :: "string \<Rightarrow> journal \<Rightarrow> journal" where
  "write_open line j =
     (case jn_open j of
        None \<Rightarrow> j
      | Some day \<Rightarrow>
          (case gm_get (jn_files j) day of
             None \<Rightarrow> j
           | Some content \<Rightarrow> j\<lparr>jn_files := gm_set day (content @ line) (jn_files j)\<rparr>))"

definition journal_append ::
  "journal_env \<Rightarrow> civil \<Rightarrow> string option \<Rightarrow> journal \<Rightarrow> journal_error option \<times> journal" where
  "journal_append ev tm encoded j =
     (case encoded of
        None \<Rightarrow> (Some MarshalError, j)
      | Some line \<Rightarrow>
          (case ensureDay ev tm j of
             ((rotated, Some e), j1) \<Rightarrow> (Some e, j1)
           | ((rotated, None), j1) \<Rightarrow>
               if \<not> je_write ev then (Some AppendError, j1)
               else
                 (let j2 = write_open (line @ [newline]) j1
                  in (None,
                      if rotated
                      then j2\<lparr>jn_files := snd (pruneDir (je_remove ev) DefaultKeepDays tm (jn_files j2))\<rparr>
                      else j2))))"

definition truncateString :: "string \<Rightarrow> nat \<Rightarrow> string" where
  "truncateString s limit = (if length s \<le> limit then s else take limit s @ ''...'')"

definition truncateWorkflow :: "workflow_record \<Rightarrow> workflow_record" where
  "truncateWorkflow r =
     r\<lparr>wr_Params := [],
       wr_Error := truncateString (wr_Error r) 256,
       wr_Stages := map (\<lambda>st. st\<lparr>sgr_Error := truncateString (sgr_Error st) 128\<rparr>) (wr_Stages r),
       wr_Truncated := True\<rparr>"

record codec =
  cd_task :: "task_record \<Rightarrow> string option"
  cd_workflow :: "workflow_record \<Rightarrow> string option"
  cd_task_of :: "string \<Rightarrow> task_record option"
  cd_workflow_of :: "string \<Rightarrow> workflow_record option"

record store =
  st_tasks :: journal
  st_workflow :: journal

definition NewStore :: store where
  "NewStore = \<lparr>st_tasks = empty_journal, st_workflow = empty_journal\<rparr>"

text \<open>\<open>loc\<close> reads an instant on the local calendar, \<open>now\<close> is \<open>time.Now()\<close>.\<close>

definition stamp_task :: "gotime \<Rightarrow> task_record \<Rightarrow> task_record" where
  "stamp_task now r =
     r\<lparr>tr_Kind := KindTask, tr_TS := (if is_zero_time (tr_TS r) then now else tr_TS r)\<rparr>"

definition AppendTask ::
  "codec \<Rightarrow> (gotime \<Rightarrow> civil) \<Rightarrow> journal_env \<Rightarrow> gotime \<Rightarrow> task_record \<Rightarrow> store \<Rightarrow>
   journal_error option \<times> store" where
  "AppendTask cd loc ev now r s =
     (let r1 = stamp_task now r
      in case journal_append ev (loc (tr_TS r1)) (cd_task cd r1) (st_tasks s) of
           (err, j) \<Rightarrow> (err, s\<lparr>st_tasks := j\<rparr>))"

definition stamp_workflow :: "codec \<Rightarrow> gotime \<Rightarrow> workflow_record \<Rightarrow> workflow_record" where
  "stamp_workflow cd now r =
     (let r1 = r\<lparr>wr_Kind := KindWorkflow,
                 wr_FinishedAt := (if is_zero_time (wr_FinishedAt r) then now else wr_FinishedAt r)\<rparr>
      in case cd_workflow cd r1 of
           None \<Rightarrow> r1
         | Some line \<Rightarrow> if maxRecordBytes < length line + 1 then truncateWorkflow r1 else r1)"

definition AppendWorkflow ::
  "codec \<Rightarrow> (gotime \<Rightarrow> civil) \<Rightarrow> journal_env \<Rightarrow> gotime \<Rightarrow> workflow_record \<Rightarrow> store \<Rightarrow>
   journal_error option \<times> store" where
  "AppendWorkflow cd loc ev now r s =
     (let r1 = stamp_workflow cd now r
      in case journal_append ev (loc (wr_FinishedAt r1)) (cd_workflow cd r1) (st_workflow s) of
           (err, j) \<Rightarrow> (err, s\<lparr>st_workflow := j\<rparr>))"

definition Store_Close :: "store \<Rightarrow> store" where
  "Store_Close s =
     s\<lparr>st_tasks := (st_tasks s)\<lparr>jn_open := None\<rparr>,
       st_workflow := (st_workflow s)\<lparr>jn_open := None\<rparr>\<rparr>"

definition Store_Prune :: "(string \<Rightarrow> bool) \<Rightarrow> int \<Rightarrow> civil \<Rightarrow> store \<Rightarrow> string option \<times> store" where
  "Store_Prune rm keepDays now s =
     (let t = pruneDir rm keepDays now (jn_files (st_tasks s));
          w = pruneDir rm keepDays now (jn_files (st_workflow s))
      in (case fst t of Some e \<Rightarrow> Some e | None \<Rightarrow> fst w,
          \<lparr>st_tasks = (st_tasks s)\<lparr>jn_files := snd t\<rparr>,
           st_workflow = (st_workflow s)\<lparr>jn_files := snd w\<rparr>\<rparr>))"

section \<open>Reading (runhistory/query.go)\<close>

definition maxScanBytes :: nat where
  "maxScanBytes = 32 * 1024 * 1024"

definition readTail :: "nat \<Rightarrow> string \<Rightarrow> string" where
  "readTail limit data =
     (if length data \<le> limit then data
      else
        (let tail = drop (length data - limit) data
         in case str_index newline tail of None \<Rightarrow> tail | Some i \<Rightarrow> drop (i + 1) tail))"

text \<open>The lines from the last to the first, stopping at the limit.\<close>

fun scan_lines ::
  "(string \<Rightarrow> 'r option) \<Rightarrow> ('r \<Rightarrow> bool) \<Rightarrow> nat \<Rightarrow> string list \<Rightarrow> 'r list" where
  "scan_lines dec keep n [] = []"
| "scan_lines dec keep n (l # ls) =
     (if n = 0 then []
      else
        (let line = trim_space l
         in if line = [] then scan_lines dec keep n ls
            else case dec line of
                   None \<Rightarrow> scan_lines dec keep n ls
                 | Some r \<Rightarrow>
                     if keep r then r # scan_lines dec keep (n - 1) ls
                     else scan_lines dec keep n ls))"

text \<open>
  \<open>rd\<close> says which files can be read. A missing file is an empty result, an unreadable one an
  error (\<open>None\<close>).
\<close>

definition scanFile ::
  "(string \<Rightarrow> 'r option) \<Rightarrow> (string \<Rightarrow> bool) \<Rightarrow> string gomap \<Rightarrow> string \<Rightarrow> nat \<Rightarrow> ('r \<Rightarrow> bool) \<Rightarrow>
   'r list option" where
  "scanFile dec rd files n limit keep =
     (if limit = 0 then Some []
      else case gm_get files n of
             None \<Rightarrow> Some []
           | Some content \<Rightarrow>
               if \<not> rd n then None
               else Some (scan_lines dec keep limit
                            (rev (str_split newline (readTail maxScanBytes content)))))"

fun scan_files ::
  "(string \<Rightarrow> 'r option) \<Rightarrow> (string \<Rightarrow> bool) \<Rightarrow> string gomap \<Rightarrow> nat \<Rightarrow> ('r \<Rightarrow> bool) \<Rightarrow>
   string list \<Rightarrow> 'r list \<Rightarrow> 'r list \<times> bool" where
  "scan_files dec rd files limit keep [] out = (out, True)"
| "scan_files dec rd files limit keep (n # ns) out =
     (case scanFile dec rd files n (limit - length out) keep of
        None \<Rightarrow> (out, False)
      | Some recs \<Rightarrow>
          (let out1 = out @ recs
           in if limit \<le> length out1 then (out1, True)
              else scan_files dec rd files limit keep ns out1))"

definition scan ::
  "(string \<Rightarrow> 'r option) \<Rightarrow> (string \<Rightarrow> bool) \<Rightarrow> string gomap \<Rightarrow> nat \<Rightarrow> ('r \<Rightarrow> bool) \<Rightarrow> 'r list \<times> bool" where
  "scan dec rd files limit keep = scan_files dec rd files limit keep (dayFiles files) []"

definition RecentTasks :: "codec \<Rightarrow> (string \<Rightarrow> bool) \<Rightarrow> query \<Rightarrow> store \<Rightarrow> task_record list \<times> bool" where
  "RecentTasks cd rd q s =
     scan (cd_task_of cd) rd (jn_files (st_tasks s)) (Query_limit q)
       (\<lambda>r. matchName (q_Name q) (tr_Namespace r) (tr_Name r) \<and> matchStatus (q_Status q) (Some (tr_Status r)))"

definition RecentWorkflows ::
  "codec \<Rightarrow> (string \<Rightarrow> bool) \<Rightarrow> query \<Rightarrow> store \<Rightarrow> workflow_record list \<times> bool" where
  "RecentWorkflows cd rd q s =
     scan (cd_workflow_of cd) rd (jn_files (st_workflow s)) (Query_limit q)
       (\<lambda>r. matchName (q_Name q) (wr_Category r) (wr_Name r) \<and> matchStatus (q_Status q) (wr_Status r))"

text \<open>\<open>None\<close> for a read error, \<open>Some None\<close> for no such run.\<close>

definition WorkflowRun ::
  "codec \<Rightarrow> (string \<Rightarrow> bool) \<Rightarrow> string \<Rightarrow> store \<Rightarrow> workflow_record option option" where
  "WorkflowRun cd rd runID s =
     (let files = jn_files (st_workflow s); hit = (\<lambda>r. wr_RunID r = runID);
          rescan = (case scan (cd_workflow_of cd) rd files 1 hit of
                      (_, False) \<Rightarrow> None
                    | ([], True) \<Rightarrow> Some None
                    | (r # _, True) \<Rightarrow> Some (Some r))
      in case dayOfRunID runID of
           None \<Rightarrow> rescan
         | Some day \<Rightarrow>
             (case scanFile (cd_workflow_of cd) rd files (day @ jsonl) 1 hit of
                None \<Rightarrow> None
              | Some (r # _) \<Rightarrow> Some (Some r)
              | Some [] \<Rightarrow> rescan))"

section \<open>What the journal holds\<close>

definition line_record :: "(string \<Rightarrow> 'r option) \<Rightarrow> string \<Rightarrow> 'r option" where
  "line_record dec l = (let line = trim_space l in if line = [] then None else dec line)"

definition records_of :: "(string \<Rightarrow> 'r option) \<Rightarrow> string \<Rightarrow> 'r list" where
  "records_of dec content = List.map_filter (line_record dec) (rev (str_split newline content))"

definition journal_records :: "(string \<Rightarrow> 'r option) \<Rightarrow> string gomap \<Rightarrow> 'r list" where
  "journal_records dec files =
     concat (map (\<lambda>n. records_of dec (readTail maxScanBytes (the (gm_get files n)))) (dayFiles files))"

lemma scan_lines_eq:
  "scan_lines dec keep n ls = take n (filter keep (List.map_filter (line_record dec) ls))"
proof (induction dec keep n ls rule: scan_lines.induct)
  case (2 dec keep n l ls)
  then show ?case
    by (cases n) (auto simp: line_record_def Let_def List.map_filter_def split: option.splits)
qed (simp add: List.map_filter_def)

lemma scan_files_eq:
  assumes "\<forall>n\<in>set ns. rd n \<and> gm_get files n \<noteq> None" "length out \<le> limit"
  shows "scan_files dec rd files limit keep ns out =
    (out @ take (limit - length out)
       (filter keep (concat (map (\<lambda>n. records_of dec (readTail maxScanBytes (the (gm_get files n)))) ns))),
     True)"
  using assms
proof (induction ns arbitrary: out)
  case (Cons n ns)
  then obtain content where c: "gm_get files n = Some content" "rd n" by auto
  define recs where "recs = take (limit - length out) (filter keep (records_of dec (readTail maxScanBytes content)))"
  have s: "scanFile dec rd files n (limit - length out) keep = Some recs"
    by (simp add: scanFile_def c recs_def scan_lines_eq records_of_def)
  have len: "length (out @ recs) \<le> limit"
    using Cons.prems(2) by (simp add: recs_def)
  show ?case
  proof (cases "limit \<le> length (out @ recs)")
    case True
    then have "limit - length out \<le> length (filter keep (records_of dec (readTail maxScanBytes content)))"
      by (auto simp: recs_def)
    then show ?thesis using True by (simp add: s c(1)) (simp add: recs_def)
  next
    case False
    then have short: "recs = filter keep (records_of dec (readTail maxScanBytes content))"
      by (simp add: recs_def min_def split: if_splits)
    have "scan_files dec rd files limit keep (n # ns) out =
        scan_files dec rd files limit keep ns (out @ recs)"
      using False by (simp add: s)
    also have "\<dots> = ((out @ recs) @ take (limit - length (out @ recs))
       (filter keep (concat (map (\<lambda>n. records_of dec (readTail maxScanBytes (the (gm_get files n)))) ns))), True)"
      using Cons.prems(1) len by (intro Cons.IH) auto
    finally show ?thesis using False by (simp add: c(1) short)
  qed
qed simp

text \<open>A query is the limit applied to the matching records, newest first.\<close>

lemma scan_eq:
  assumes "\<forall>n\<in>set (dayFiles files). rd n"
  shows "scan dec rd files limit keep = (take limit (filter keep (journal_records dec files)), True)"
proof -
  have "\<forall>n\<in>set (dayFiles files). rd n \<and> gm_get files n \<noteq> None"
    using assms by (auto simp: set_dayFiles)
  then show ?thesis
    using scan_files_eq [of "dayFiles files" rd files "[]" limit dec keep]
    by (simp add: scan_def journal_records_def)
qed

text \<open>
  A complete line after complete lines is one new record in front of the old ones; after a torn
  line it is glued to the torn bytes.
\<close>

definition complete_lines :: "string \<Rightarrow> bool" where
  "complete_lines content \<longleftrightarrow> content = '''' \<or> last content = newline"

lemma records_of_Nil [simp]: "records_of dec '''' = []"
  by (simp add: records_of_def List.map_filter_def line_record_def trim_space_def)

lemma records_of_snoc_line:
  assumes "newline \<notin> set line"
  shows "records_of dec (x @ newline # line @ [newline]) =
    (case line_record dec line of None \<Rightarrow> [] | Some r \<Rightarrow> [r]) @ records_of dec x"
    "records_of dec (line @ [newline]) =
    (case line_record dec line of None \<Rightarrow> [] | Some r \<Rightarrow> [r])"
    "records_of dec (x @ [newline]) = records_of dec x"
proof -
  have e: "line_record dec [] = None" by (simp add: line_record_def trim_space_def)
  have l: "str_split newline (line @ [newline]) = [line, []]"
    using str_split_append [of newline line "[]"] assms by (simp add: str_split_no_sep)
  show "records_of dec (x @ newline # line @ [newline]) =
    (case line_record dec line of None \<Rightarrow> [] | Some r \<Rightarrow> [r]) @ records_of dec x"
    using str_split_append [of newline x "line @ [newline]"] l e
    by (simp add: records_of_def List.map_filter_def split: option.splits)
  show "records_of dec (line @ [newline]) =
    (case line_record dec line of None \<Rightarrow> [] | Some r \<Rightarrow> [r])"
    using l e by (simp add: records_of_def List.map_filter_def split: option.splits)
  show "records_of dec (x @ [newline]) = records_of dec x"
    using str_split_append [of newline x "[]"] e
    by (simp add: records_of_def List.map_filter_def)
qed

lemma records_of_append:
  assumes "complete_lines content" "newline \<notin> set line" "line_record dec line = Some r"
  shows "records_of dec (content @ line @ [newline]) = r # records_of dec content"
proof (cases "content = ''''")
  case False
  then obtain x where "content = x @ [newline]"
    using assms(1) by (metis append_butlast_last_id complete_lines_def)
  then show ?thesis using assms(2,3) by (simp add: records_of_snoc_line)
qed (use assms in \<open>simp add: records_of_snoc_line\<close>)

lemma records_of_torn:
  assumes "complete_lines content" "newline \<notin> set torn" "newline \<notin> set line"
    "line_record dec (torn @ line) = None"
  shows "records_of dec ((content @ torn) @ line @ [newline]) = records_of dec content"
proof (cases "content = ''''")
  case True
  then show ?thesis using assms(2-4) records_of_snoc_line(2) [of "torn @ line" dec] by simp
next
  case False
  then obtain x where x: "content = x @ [newline]"
    using assms(1) by (metis append_butlast_last_id complete_lines_def)
  show ?thesis
    using assms(2-4) records_of_snoc_line(1) [of "torn @ line" dec x] records_of_snoc_line(3) [of "[]" dec x]
    by (simp add: x)
qed

section \<open>The journal after an append\<close>

lemma ymd_key_prev_day:
  "0 < y \<Longrightarrow> 0 < m \<Longrightarrow> 0 < d \<Longrightarrow> prev_day (y, m, d) = (y', m', d') \<Longrightarrow>
   ymd_key (y', m', d') < ymd_key (y, m, d) \<and> y \<le> y' + 1 \<and> 0 < m' \<and> 0 < d'"
  by (auto simp: prev_day_def ymd_key_def days_in_def split: if_splits)

lemma ymd_key_days_back:
  assumes "k < y" "0 < m" "0 < d"
  shows "\<exists>y' m' d'. (prev_day ^^ k) (y, m, d) = (y', m', d') \<and> y \<le> y' + k \<and> 0 < m' \<and> 0 < d' \<and>
    ymd_key (y', m', d') + k \<le> ymd_key (y, m, d)"
  using assms(1)
proof (induction k)
  case 0
  then show ?case using assms by simp
next
  case (Suc k)
  then obtain y' m' d' where h: "(prev_day ^^ k) (y, m, d) = (y', m', d')" "y \<le> y' + k" "0 < m'" "0 < d'"
    "ymd_key (y', m', d') + k \<le> ymd_key (y, m, d)" by auto
  obtain y2 m2 d2 where p: "prev_day (y', m', d') = (y2, m2, d2)" by (metis prod_cases3)
  have "0 < y'" using h(2) Suc.prems by simp
  from ymd_key_prev_day [OF this h(3,4) p] h(1,2,5) show ?case
    by (auto simp: p)
qed

lemma not_prunable_today:
  assumes "valid_civil c" "30 < cv_year c"
  shows "\<not> prunable DefaultKeepDays c (dayOf c)"
proof -
  have v: "valid_date (cv_year c) (cv_month c) (cv_day c)" "0 < cv_month c" "0 < cv_day c"
    using assms(1) by (auto simp: valid_civil_def valid_date_def)
  have "parse_date (take 10 (dayOf c)) = Some (cv_year c, cv_month c, cv_day c)"
    using parse_date_fmt_date [OF v(1)] by (simp add: dayOf_def)
  moreover have "ymd_key (days_before 30 c) < ymd_key (cv_year c, cv_month c, cv_day c)"
    using ymd_key_days_back [of 30 "cv_year c" "cv_month c" "cv_day c"] assms(2) v(2,3)
    by (auto simp: days_before_def)
  ultimately show ?thesis by (simp add: prunable_def day_before_cutoff_def DefaultKeepDays_def)
qed

definition journal_ok :: "journal \<Rightarrow> bool" where
  "journal_ok j \<longleftrightarrow>
     gm_ok (jn_files j) \<and> (\<forall>d. jn_open j = Some d \<longrightarrow> gm_get (jn_files j) d \<noteq> None)"

definition quiet :: "journal_env \<Rightarrow> bool" where
  "quiet ev \<longleftrightarrow> je_mkdir ev \<and> je_open ev \<and> je_write ev"

definition day_content :: "civil \<Rightarrow> journal \<Rightarrow> string" where
  "day_content tm j = (case gm_get (jn_files j) (dayOf tm) of None \<Rightarrow> '''' | Some c \<Rightarrow> c)"

definition due_prune :: "civil \<Rightarrow> journal \<Rightarrow> bool" where
  "due_prune tm j \<longleftrightarrow> jn_open j \<noteq> None \<and> jn_open j \<noteq> Some (dayOf tm)"

lemma ensureDay_quiet:
  assumes "journal_ok j" "quiet ev"
  shows "ensureDay ev tm j = ((due_prune tm j, None),
    \<lparr>jn_open = Some (dayOf tm),
     jn_files = (if gm_get (jn_files j) (dayOf tm) = None then gm_set (dayOf tm) '''' (jn_files j)
                 else jn_files j)\<rparr>)"
  using assms by (cases j) (auto simp: ensureDay_def quiet_def due_prune_def journal_ok_def Let_def)

lemma journal_append_quiet:
  assumes "journal_ok j" "quiet ev"
  obtains files where "\<And>n. gm_get files n =
      (if n = dayOf tm then Some (day_content tm j @ line @ [newline]) else gm_get (jn_files j) n)"
    "gm_ok files"
    "journal_append ev tm (Some line) j =
      (None, \<lparr>jn_open = Some (dayOf tm),
              jn_files = (if due_prune tm j then snd (pruneDir (je_remove ev) DefaultKeepDays tm files)
                          else files)\<rparr>)"
proof -
  let ?f0 = "if gm_get (jn_files j) (dayOf tm) = None then gm_set (dayOf tm) '''' (jn_files j) else jn_files j"
  let ?files = "gm_set (dayOf tm) (day_content tm j @ line @ [newline]) ?f0"
  have w: "write_open (line @ [newline]) \<lparr>jn_open = Some (dayOf tm), jn_files = ?f0\<rparr> =
      \<lparr>jn_open = Some (dayOf tm), jn_files = ?files\<rparr>"
    by (simp add: write_open_def registry_simps day_content_def split: option.splits)
  show ?thesis
  proof
    show "gm_get ?files n =
      (if n = dayOf tm then Some (day_content tm j @ line @ [newline]) else gm_get (jn_files j) n)" for n
      by (simp add: registry_simps)
    show "gm_ok ?files" using assms(1) by (simp add: journal_ok_def)
    show "journal_append ev tm (Some line) j =
      (None, \<lparr>jn_open = Some (dayOf tm),
              jn_files = (if due_prune tm j then snd (pruneDir (je_remove ev) DefaultKeepDays tm ?files)
                          else ?files)\<rparr>)"
      using assms(2) by (simp add: journal_append_def ensureDay_quiet [OF assms] w quiet_def)
  qed
qed

text \<open>
  The directory after a successful append: the day file has one more line, the other files are
  untouched, except that the first append of a new day removes the day files out of the window.
\<close>

lemma journal_append_files:
  assumes "journal_ok j" "quiet ev" "valid_civil tm" "30 < cv_year tm"
  shows "fst (journal_append ev tm (Some line) j) = None"
    "gm_get (jn_files (snd (journal_append ev tm (Some line) j))) n =
       (if n = dayOf tm then Some (day_content tm j @ line @ [newline])
        else if due_prune tm j \<and> dayFilePattern n \<and> prunable DefaultKeepDays tm n \<and> je_remove ev n then None
        else gm_get (jn_files j) n)"
  using not_prunable_today [OF assms(3,4)]
  by (auto intro: journal_append_quiet [OF assms(1,2), of tm line]
      simp: pruneDir_get DefaultKeepDays_def split: if_splits)

lemma journal_append_open:
  assumes "journal_ok j" "quiet ev"
  shows "jn_open (snd (journal_append ev tm (Some line) j)) = Some (dayOf tm)"
  by (rule journal_append_quiet [OF assms, of tm line]) simp

lemma gm_ok_journal_append:
  "gm_ok (jn_files j) \<Longrightarrow> gm_ok (jn_files (snd (journal_append ev tm enc j)))"
proof -
  assume ok: "gm_ok (jn_files j)"
  then have e: "gm_ok (jn_files (snd (ensureDay ev tm j)))" by (simp add: ensureDay_def Let_def)
  then have w: "gm_ok (jn_files (write_open line (snd (ensureDay ev tm j))))" for line
    by (simp add: write_open_def split: option.splits)
  obtain rot err j1 where "ensureDay ev tm j = ((rot, err), j1)" by (metis prod.exhaust)
  then show ?thesis
    using ok e w by (auto simp: journal_append_def Let_def gm_ok_pruneDir split: option.splits)
qed

lemma journal_ok_append:
  assumes "journal_ok j" "quiet ev" "valid_civil tm" "30 < cv_year tm"
  shows "journal_ok (snd (journal_append ev tm (Some line) j))"
  using assms journal_append_files(2) [OF assms, of line "dayOf tm"]
  by (simp add: journal_ok_def gm_ok_journal_append journal_append_open)

lemma dayFiles_newest:
  assumes "gm_ok files" "gm_ok files'" "gm_get files' d \<noteq> None" "dayFilePattern d"
    "\<forall>n. n \<noteq> d \<longrightarrow> gm_get files' n = gm_get files n"
    "\<forall>n\<in>set (dayFiles files). n \<le> d"
  shows "dayFiles files' = d # filter (\<lambda>n. n \<noteq> d) (dayFiles files)"
proof -
  have k': "set (dayFiles files') = insert d (set (dayFiles files) - {d})"
    using assms(3-5) by (auto simp: set_dayFiles)
  have sd: "sorted (rev (dayFiles files'))" "distinct (rev (dayFiles files'))"
    using assms(2) by (simp_all add: dayFiles_def distinct_gm_keys)
  have "sorted (filter (\<lambda>n. n \<noteq> d) (rev (dayFiles files)) @ [d])"
    using assms(6) by (simp add: sorted_append) (simp add: dayFiles_def sorted_wrt_filter)
  then have r: "sorted (rev (d # filter (\<lambda>n. n \<noteq> d) (dayFiles files)))"
    by (simp add: rev_filter)
  moreover have "distinct (rev (d # filter (\<lambda>n. n \<noteq> d) (dayFiles files)))"
    using distinct_dayFiles [OF assms(1)] by simp
  ultimately have "rev (dayFiles files') = rev (d # filter (\<lambda>n. n \<noteq> d) (dayFiles files))"
    using sd k' by (intro sorted_distinct_set_unique) auto
  then show ?thesis by (simp only: rev_is_rev_conv)
qed

text \<open>A record appended on the newest day is the first record a query sees.\<close>

lemma journal_append_records:
  assumes j: "journal_ok j" "quiet ev" "valid_civil tm" "30 < cv_year tm"
    and q: "\<not> due_prune tm j" "\<forall>n\<in>set (dayFiles (jn_files j)). n \<le> dayOf tm"
    and l: "newline \<notin> set line" "line_record dec line = Some r" "complete_lines (day_content tm j)"
      "length (day_content tm j @ line @ [newline]) \<le> maxScanBytes"
  shows "journal_records dec (jn_files (snd (journal_append ev tm (Some line) j))) =
    r # journal_records dec (jn_files j)"
proof -
  define files' where "files' = jn_files (snd (journal_append ev tm (Some line) j))"
  have get: "gm_get files' n =
      (if n = dayOf tm then Some (day_content tm j @ line @ [newline]) else gm_get (jn_files j) n)" for n
    using journal_append_files(2) [OF j, of line n] q(1) by (simp add: files'_def)
  have ok: "gm_ok (jn_files j)" "gm_ok files'"
    using j(1) by (simp_all add: journal_ok_def files'_def gm_ok_journal_append)
  have df: "dayFiles files' = dayOf tm # filter (\<lambda>n. n \<noteq> dayOf tm) (dayFiles (jn_files j))"
    using ok q(2) by (intro dayFiles_newest) (simp_all add: get dayFilePattern_dayOf)
  let ?rec = "\<lambda>files n. records_of dec (readTail maxScanBytes (the (gm_get files n)))"
  have new: "?rec files' (dayOf tm) = r # records_of dec (day_content tm j)"
    using l by (simp add: get readTail_def records_of_append)
  have rest: "map (?rec files') (filter (\<lambda>n. n \<noteq> dayOf tm) (dayFiles (jn_files j))) =
      map (?rec (jn_files j)) (filter (\<lambda>n. n \<noteq> dayOf tm) (dayFiles (jn_files j)))"
    by (simp add: get)
  have old: "journal_records dec (jn_files j) = records_of dec (day_content tm j) @
      concat (map (?rec (jn_files j)) (filter (\<lambda>n. n \<noteq> dayOf tm) (dayFiles (jn_files j))))"
  proof (cases "gm_get (jn_files j) (dayOf tm)")
    case None
    then have "dayOf tm \<notin> set (dayFiles (jn_files j))" by (simp add: set_dayFiles)
    then have "filter (\<lambda>n. n \<noteq> dayOf tm) (dayFiles (jn_files j)) = dayFiles (jn_files j)"
      by (metis (mono_tags, lifting) filter_True)
    then show ?thesis by (simp add: journal_records_def day_content_def None)
  next
    case (Some c)
    then have "dayFiles (jn_files j) = dayOf tm # filter (\<lambda>n. n \<noteq> dayOf tm) (dayFiles (jn_files j))"
      using ok(1) q(2) by (intro dayFiles_newest) (simp_all add: dayFilePattern_dayOf)
    then have "journal_records dec (jn_files j) = concat (map (?rec (jn_files j))
        (dayOf tm # filter (\<lambda>n. n \<noteq> dayOf tm) (dayFiles (jn_files j))))"
      by (metis journal_records_def)
    then show ?thesis using l(4) by (simp add: day_content_def Some readTail_def)
  qed
  have "journal_records dec files' =
      concat (map (?rec files') (dayOf tm # filter (\<lambda>n. n \<noteq> dayOf tm) (dayFiles (jn_files j))))"
    by (simp add: journal_records_def df)
  also have "\<dots> = r # journal_records dec (jn_files j)"
    by (simp only: list.map concat.simps new rest old append_Cons)
  finally show ?thesis by (simp add: files'_def)
qed

end
