(* ===== verification/Log_Escape.thy ===== *)
theory Log_Escape
  imports Prelude
begin

text \<open>
  \<open>logfile/escape.go\<close>: the rendering of the bytes a child prints, one logical line at a time.
  The output is a sink with room for a number of bytes; a write past it is short and fails, as
  a write to a full file system does.
\<close>

section \<open>A fallible output\<close>

record sink =
  sk_data :: string
  sk_room :: "nat option"

text \<open>The count of a \<open>Write\<close> and whether it succeeded.\<close>

definition sink_write :: "string \<Rightarrow> sink \<Rightarrow> (nat \<times> bool) \<times> sink" where
  "sink_write bytes sk =
     (case sk_room sk of
        None \<Rightarrow> ((length bytes, True), sk\<lparr>sk_data := sk_data sk @ bytes\<rparr>)
      | Some room \<Rightarrow>
          if length bytes \<le> room
          then ((length bytes, True),
                sk\<lparr>sk_data := sk_data sk @ bytes, sk_room := Some (room - length bytes)\<rparr>)
          else ((room, False), sk\<lparr>sk_data := sk_data sk @ take room bytes, sk_room := Some 0\<rparr>))"

section \<open>Escapes\<close>

definition eol :: char where
  "eol = CHR 0x0A"

definition backslash :: char where
  "backslash = CHR 0x5C"

definition lowerHex :: string where
  "lowerHex = ''0123456789abcdef''"

definition logEscape :: "char \<Rightarrow> string option" where
  "logEscape c =
     (if c = CHR 0x07 then Some [backslash, CHR ''a'']
      else if c = CHR 0x08 then Some [backslash, CHR ''b'']
      else if c = CHR 0x09 then Some [backslash, CHR ''t'']
      else if c = eol then Some [backslash, CHR ''n'', eol]
      else if c = CHR 0x0B then Some [backslash, CHR ''v'']
      else if c = CHR 0x0C then Some [backslash, CHR ''f'']
      else if c = CHR 0x0D then Some [backslash, CHR ''r'']
      else if c = CHR 0x22 then Some [backslash, CHR 0x22]
      else if c = backslash then Some [backslash, backslash]
      else if (of_char c :: nat) < 32 \<or> (of_char c :: nat) = 127
      then Some [backslash, CHR ''x'', lowerHex ! (of_char c div 16), lowerHex ! (of_char c mod 16)]
      else None)"

text \<open>
  The loop of \<open>writeEscapedLine\<close>: \<open>plain\<close> is the run of bytes since \<open>plainStart\<close>, \<open>n\<close> the bytes
  consumed so far. The result is the count, whether a line was completed, and success.
\<close>

definition flush_plain :: "string \<Rightarrow> sink \<Rightarrow> (nat \<times> bool) \<times> sink" where
  "flush_plain plain sk = (if plain = '''' then ((0, True), sk) else sink_write plain sk)"

fun escape_loop :: "string \<Rightarrow> nat \<Rightarrow> string \<Rightarrow> sink \<Rightarrow> (nat \<times> bool \<times> bool) \<times> sink" where
  "escape_loop plain n [] sk =
     (case flush_plain plain sk of ((w, ok), sk1) \<Rightarrow> ((n + w, False, ok), sk1))"
| "escape_loop plain n (c # cs) sk =
     (case logEscape c of
        None \<Rightarrow> escape_loop (plain @ [c]) n cs sk
      | Some escaped \<Rightarrow>
          (case flush_plain plain sk of
             ((w, False), sk1) \<Rightarrow> ((n + w, False, False), sk1)
           | ((w, True), sk1) \<Rightarrow>
               (case sink_write escaped sk1 of
                  ((_, False), sk2) \<Rightarrow> ((n + w, False, False), sk2)
                | ((_, True), sk2) \<Rightarrow>
                    if c = eol then ((n + w + 1, True, True), sk2)
                    else escape_loop [] (n + w + 1) cs sk2)))"

definition writeEscapedLine :: "string \<Rightarrow> sink \<Rightarrow> (nat \<times> bool \<times> bool) \<times> sink" where
  "writeEscapedLine input sk = escape_loop [] 0 input sk"

section \<open>The rendering it implements\<close>

definition esc :: "char \<Rightarrow> string" where
  "esc c = (case logEscape c of None \<Rightarrow> [c] | Some e \<Rightarrow> e)"

definition escape :: "string \<Rightarrow> string" where
  "escape s = concat (map esc s)"

lemma escape_Nil [simp]: "escape [] = []"
  by (simp add: escape_def)

lemma escape_Cons [simp]: "escape (c # s) = esc c @ escape s"
  by (simp add: escape_def)

lemma escape_append [simp]: "escape (s @ t) = escape s @ escape t"
  by (simp add: escape_def)

lemma escape_plain: "list_all (\<lambda>c. logEscape c = None) s \<Longrightarrow> escape s = s"
  by (induction s) (simp_all add: esc_def)

text \<open>The first logical line, with its newline.\<close>

definition first_line :: "string \<Rightarrow> string" where
  "first_line s = (if eol \<in> set s then takeWhile (\<lambda>c. c \<noteq> eol) s @ [eol] else s)"

lemma first_line_Cons [simp]:
  "first_line (c # s) = (if c = eol then [eol] else c # first_line s)"
  by (auto simp: first_line_def)

lemma first_line_Nil [simp]: "first_line [] = []"
  by (simp add: first_line_def)

lemma first_line_prefix: "\<exists>t. s = first_line s @ t"
proof (induction s)
  case (Cons c s)
  then obtain t where t: "s = first_line s @ t" by blast
  show ?case
  proof (cases "c = eol")
    case False
    then show ?thesis using t by (intro exI [of _ t]) simp
  qed simp
qed simp

lemma esc_eol: "esc eol = [backslash, CHR ''n'', eol]" "logEscape eol = Some [backslash, CHR ''n'', eol]"
  by code_simp+

lemma logEscape_None_eol: "logEscape c = None \<Longrightarrow> c \<noteq> eol"
  using esc_eol by auto

definition room_for :: "sink \<Rightarrow> nat \<Rightarrow> nat" where
  "room_for sk n = (case sk_room sk of None \<Rightarrow> n | Some r \<Rightarrow> min r n)"

lemma room_for_le [simp]: "room_for sk n \<le> n"
  by (simp add: room_for_def split: option.split)

lemma sink_write_eq:
  "sink_write b sk =
     ((room_for sk (length b), room_for sk (length b) = length b),
      sk\<lparr>sk_data := sk_data sk @ take (room_for sk (length b)) b,
        sk_room := map_option (\<lambda>r. r - room_for sk (length b)) (sk_room sk)\<rparr>)"
  by (cases sk) (auto simp: sink_write_def room_for_def split: option.split)

lemma escape_take_plain:
  assumes "list_all (\<lambda>c. logEscape c = None) plain"
  shows "escape plain = plain" "escape (take j plain) = take j plain"
proof -
  show "escape plain = plain" by (rule escape_plain [OF assms])
  have "list_all (\<lambda>c. logEscape c = None) (take j plain)"
    using assms set_take_subset [of j plain] by (auto simp: list_all_iff)
  then show "escape (take j plain) = take j plain" by (rule escape_plain)
qed

lemma flush_plain_eq: "flush_plain plain sk = sink_write plain sk"
  by (cases sk) (auto simp: flush_plain_def sink_write_def split: option.split)

text \<open>
  One call renders one logical line: it writes as much of the rendering as there is room for,
  succeeds exactly if all of it fits, and never counts a byte whose rendering is not written.
\<close>

lemma escape_loop_writes:
  assumes "list_all (\<lambda>c. logEscape c = None) plain"
    "escape_loop plain n s sk = ((k, fin, ok), sk')"
  shows "sk_data sk' = sk_data sk @
      take (room_for sk (length plain + length (escape (first_line s)))) (plain @ escape (first_line s)) \<and>
    ok = (room_for sk (length plain + length (escape (first_line s))) = length plain + length (escape (first_line s))) \<and>
    sk_room sk' = map_option (\<lambda>r. r - room_for sk (length plain + length (escape (first_line s)))) (sk_room sk) \<and>
    fin = (ok \<and> eol \<in> set s) \<and>
    (ok \<longrightarrow> k = n + length plain + length (first_line s)) \<and> n \<le> k \<and>
    k \<le> n + length plain + length (first_line s) \<and>
    length (escape (take (k - n) (plain @ first_line s))) \<le>
      room_for sk (length plain + length (escape (first_line s)))"
  using assms
proof (induction s arbitrary: plain n sk)
  case Nil
  then show ?case
    using escape_take_plain [OF Nil(1)] by (cases sk) (auto simp: flush_plain_def sink_write_eq room_for_def split: if_splits option.splits)
next
  case (Cons c s)
  show ?case
  proof (cases "logEscape c")
    case None
    then show ?thesis
      using Cons.IH [of "plain @ [c]" n sk] Cons.prems logEscape_None_eol [OF None] by (simp add: esc_def)
  next
    case (Some e)
    note pl = escape_take_plain [OF Cons.prems(1)]
    have ec: "esc c = e" by (simp add: esc_def Some)
    have eeol: "c = eol \<Longrightarrow> e = [backslash, CHR ''n'', eol]" using Some esc_eol(2) by simp
    let ?m = "\<lambda>r. length plain + length e \<le> r"
    show ?thesis
    proof (cases "\<exists>r. sk_room sk = Some r \<and> \<not> ?m r")
      case True
      then obtain r where r: "sk_room sk = Some r" "\<not> ?m r" by blast
      then have f: "length plain + length (escape (first_line (c # s))) > r"
        using eeol ec by (cases "c = eol") auto
      have room: "room_for sk (length plain + length (escape (first_line (c # s)))) = r"
        using f r(1) by (simp add: room_for_def)
      obtain t where t: "escape (first_line (c # s)) = e @ t"
        using ec by (cases "c = eol") auto
      show ?thesis
      proof (cases "r < length plain")
        case True
        then have "escape_loop plain n (c # s) sk =
            ((n + r, False, False), sk\<lparr>sk_data := sk_data sk @ take r plain, sk_room := Some 0\<rparr>)"
          using r(1) by (simp add: Some flush_plain_eq sink_write_def)
        then show ?thesis using Cons.prems(2) room f r(1) pl True unfolding t by auto
      next
        case False
        then have "\<not> length e \<le> r - length plain" using r(2) by linarith
        then have "escape_loop plain n (c # s) sk = ((n + length plain, False, False),
            sk\<lparr>sk_data := sk_data sk @ plain @ take (r - length plain) e, sk_room := Some 0\<rparr>)"
          using r(1) False by (simp add: Some flush_plain_eq sink_write_def)
        then show ?thesis using Cons.prems(2) room f r pl False unfolding t by auto
      qed
    next
      case False
      define sk2 where "sk2 = sk\<lparr>sk_data := sk_data sk @ plain @ e,
          sk_room := map_option (\<lambda>r. r - (length plain + length e)) (sk_room sk)\<rparr>"
      have "sink_write plain sk = ((length plain, True),
          sk\<lparr>sk_data := sk_data sk @ plain, sk_room := map_option (\<lambda>r. r - length plain) (sk_room sk)\<rparr>)"
        using False by (auto simp: sink_write_eq room_for_def split: option.splits)
      moreover have "sink_write e (sk\<lparr>sk_data := sk_data sk @ plain,
          sk_room := map_option (\<lambda>r. r - length plain) (sk_room sk)\<rparr>) = ((length e, True), sk2)"
        using False by (cases "sk_room sk") (auto simp: sink_write_eq room_for_def sk2_def)
      ultimately have step: "escape_loop plain n (c # s) sk =
          (if c = eol then ((n + length plain + 1, True, True), sk2)
           else escape_loop [] (n + length plain + 1) s sk2)"
        by (simp add: Some flush_plain_eq)
      have room: "room_for sk (length plain + (length e + m)) = length plain + length e + room_for sk2 m" for m
        using False by (cases "sk_room sk") (auto simp: room_for_def sk2_def)
      show ?thesis
      proof (cases "c = eol")
        case True
        have q: "k = n + length plain + 1" "fin" "ok" "sk' = sk2"
          using Cons.prems(2) step True by auto
        have rf: "room_for sk (length plain + length e) = length plain + length e"
          using room [of 0] by (simp add: room_for_def [of sk2] split: option.splits)
        have fl: "first_line (c # s) = [c]" "escape (first_line (c # s)) = e" using ec True by simp_all
        show ?thesis unfolding fl using q rf pl ec True by (simp add: sk2_def)
      next
        case c: False
        have "escape_loop [] (n + length plain + 1) s sk2 = ((k, fin, ok), sk')"
          using Cons.prems(2) step c by simp
        note IH = Cons.IH [OF _ this, simplified]
        have sd: "sk_data sk2 = sk_data sk @ plain @ e"
          "sk_room sk2 = map_option (\<lambda>r. r - (length plain + length e)) (sk_room sk)"
          by (simp_all add: sk2_def)
        have "n + length plain + 1 \<le> k" using IH by simp
        then have "take (k - n) (plain @ first_line (c # s)) =
            plain @ c # take (k - (n + length plain + 1)) (first_line s)"
          using c by (simp add: take_Cons split: nat.split)
            (metis Suc_diff_le diff_Suc_Suc diff_diff_left add_leD1 diff_Suc_1' nat.distinct(1))
        then show ?thesis
          using IH c pl room [of "length (escape (first_line s))"] ec
          by (simp add: sd option.map_comp comp_def)
      qed
    qed
  qed
qed

lemma writeEscapedLine_writes:
  assumes "writeEscapedLine s sk = ((k, fin, ok), sk')"
  shows "sk_data sk' = sk_data sk @ take (room_for sk (length (escape (first_line s)))) (escape (first_line s))"
    "ok = (room_for sk (length (escape (first_line s))) = length (escape (first_line s)))"
    "sk_room sk' = map_option (\<lambda>r. r - room_for sk (length (escape (first_line s)))) (sk_room sk)"
    "fin = (ok \<and> eol \<in> set s)" "ok \<Longrightarrow> k = length (first_line s)" "k \<le> length (first_line s)"
    "length (escape (take k (first_line s))) \<le> room_for sk (length (escape (first_line s)))"
  using escape_loop_writes [of "[]" 0 s sk k fin ok sk'] assms by (simp_all add: writeEscapedLine_def)

lemma length_first_line: "s \<noteq> [] \<Longrightarrow> 0 < length (first_line s)"
  by (cases s) auto

lemma writeEscapedLine_progress:
  "writeEscapedLine s sk = ((k, fin, True), sk') \<Longrightarrow> s \<noteq> [] \<Longrightarrow> 0 < k \<and> k \<le> length s"
  using writeEscapedLine_writes(5) [of s sk k fin True sk'] length_first_line [of s] first_line_prefix [of s]
  by (metis le_add1 length_append)

section \<open>No information is lost\<close>

definition hex_value :: "char \<Rightarrow> nat" where
  "hex_value c = (if 97 \<le> (of_char c :: nat) then of_char c - 87 else of_char c - 48)"

text \<open>Reading a rendering back; it fails on what no rendering contains.\<close>

fun unescape :: "string \<Rightarrow> string option" where
  "unescape [] = Some []"
| "unescape [c] = (if c = backslash then None else Some [c])"
| "unescape (c # d # ds) =
     (if c \<noteq> backslash then map_option (Cons c) (unescape (d # ds))
      else if d = CHR ''a'' then map_option (Cons CHR 0x07) (unescape ds)
      else if d = CHR ''b'' then map_option (Cons CHR 0x08) (unescape ds)
      else if d = CHR ''t'' then map_option (Cons CHR 0x09) (unescape ds)
      else if d = CHR ''n'' then
        (case ds of e # es \<Rightarrow> if e = eol then map_option (Cons eol) (unescape es) else None | [] \<Rightarrow> None)
      else if d = CHR ''v'' then map_option (Cons CHR 0x0B) (unescape ds)
      else if d = CHR ''f'' then map_option (Cons CHR 0x0C) (unescape ds)
      else if d = CHR ''r'' then map_option (Cons CHR 0x0D) (unescape ds)
      else if d = CHR 0x22 \<or> d = backslash then map_option (Cons d) (unescape ds)
      else if d = CHR ''x'' then
        (case ds of
           h # l # es \<Rightarrow> map_option (Cons (char_of (16 * hex_value h + hex_value l))) (unescape es)
         | _ \<Rightarrow> None)
      else None)"

lemma unescape_plain: "c \<noteq> backslash \<Longrightarrow> unescape (c # s) = map_option (Cons c) (unescape s)"
  by (cases s) simp_all

lemma hex_value_lowerHex: "n < 16 \<Longrightarrow> hex_value (lowerHex ! n) = n"
proof -
  have "list_all (\<lambda>n. hex_value (lowerHex ! n) = n) [0..<16]" by code_simp
  then show "n < 16 \<Longrightarrow> hex_value (lowerHex ! n) = n" by (simp add: list_all_iff)
qed

lemma unescape_x:
  "unescape (backslash # CHR ''x'' # h # l # s) =
    map_option (Cons (char_of (16 * hex_value h + hex_value l))) (unescape s)"
  by (simp add: backslash_def)

lemma unescape_esc: "unescape (esc c @ s) = map_option (Cons c) (unescape s)"
proof (cases "logEscape c")
  case None
  then have "c \<noteq> backslash" by (auto simp: logEscape_def split: if_splits)
  then show ?thesis using None by (simp add: esc_def unescape_plain)
next
  case (Some e)
  show ?thesis
  proof (cases "c \<in> {CHR 0x07, CHR 0x08, CHR 0x09, eol, CHR 0x0B, CHR 0x0C, CHR 0x0D, CHR 0x22, backslash}")
    case True
    then show ?thesis
      by (auto simp: esc_def logEscape_def eol_def backslash_def)
  next
    case False
    with Some have e: "e = [backslash, CHR ''x'', lowerHex ! (of_char c div 16), lowerHex ! (of_char c mod 16)]"
      and n: "(of_char c :: nat) < 32 \<or> (of_char c :: nat) = 127"
      by (auto simp: logEscape_def split: if_splits)
    have "(of_char c :: nat) div 16 < 16" using n by auto
    then have "16 * hex_value (lowerHex ! (of_char c div 16)) + hex_value (lowerHex ! (of_char c mod 16)) =
        (of_char c :: nat)"
      by (simp add: hex_value_lowerHex)
    moreover have "unescape (e @ s) = map_option (Cons (char_of (16 * hex_value (lowerHex ! (of_char c div 16)) +
        hex_value (lowerHex ! (of_char c mod 16))))) (unescape s)"
      unfolding e append_Cons append_Nil by (rule unescape_x)
    ultimately show ?thesis by (simp add: esc_def Some)
  qed
qed

lemma unescape_escape: "unescape (escape s) = Some s"
  by (induction s) (simp_all add: unescape_esc)

section \<open>A rendering has no control bytes but the newline of a record\<close>

definition printable :: "char \<Rightarrow> bool" where
  "printable c \<longleftrightarrow> 32 \<le> (of_char c :: nat) \<and> (of_char c :: nat) \<noteq> 127"

lemma printable_lowerHex: "n < 16 \<Longrightarrow> printable (lowerHex ! n)"
proof -
  have "list_all (\<lambda>n. printable (lowerHex ! n)) [0..<16]" by code_simp
  then show "n < 16 \<Longrightarrow> printable (lowerHex ! n)" by (simp add: list_all_iff)
qed

lemma esc_printable: "list_all printable (if c = eol then [backslash, CHR ''n''] else esc c)"
proof -
  have b: "printable backslash" "printable CHR ''x''" "printable CHR ''n''" by code_simp+
  have m: "list_all printable [CHR ''a'', CHR ''b'', CHR ''t'', CHR ''v'', CHR ''f'', CHR ''r'', CHR 0x22]"
    by code_simp
  show ?thesis
  proof (cases "(of_char c :: nat) < 32 \<or> (of_char c :: nat) = 127")
    case True
    then have "(of_char c :: nat) div 16 < 16" by auto
    then show ?thesis using b m True by (simp add: esc_def logEscape_def printable_lowerHex)
  next
    case False
    then have "printable c" by (simp add: printable_def)
    then show ?thesis using b m by (simp add: esc_def logEscape_def printable_lowerHex)
  qed
qed

lemma printable_not_eol: "printable c \<Longrightarrow> c \<noteq> eol"
proof -
  have "\<not> printable eol" by code_simp
  then show "printable c \<Longrightarrow> c \<noteq> eol" by auto
qed

text \<open>A line without newline renders to printable bytes only.\<close>

lemma escape_printable: "eol \<notin> set s \<Longrightarrow> list_all printable (escape s)"
proof (induction s)
  case (Cons c s)
  then show ?case using esc_printable [of c] by auto
qed simp

end
