(* ===== verification/Log_Rotation.thy ===== *)
theory Log_Rotation
  imports Log_Escape Process_Types Go_Time
begin

text \<open>
  \<open>logfile/rotation.go\<close>: the previous days at the head of a log move into dated archives, all or
  nothing. Files are inodes with contents, so that a rename replaces the file a writer may still
  have open.
\<close>

section \<open>Files\<close>

record log_fs =
  lf_dir :: "nat gomap"
  lf_data :: "nat \<Rightarrow> string"
  lf_next :: nat

definition fs_read :: "string \<Rightarrow> log_fs \<Rightarrow> string option" where
  "fs_read path fs = map_option (lf_data fs) (gm_get (lf_dir fs) path)"

text \<open>\<open>O_CREATE\<close>: the inode under a path, new and empty if there is none.\<close>

definition fs_create :: "string \<Rightarrow> log_fs \<Rightarrow> nat \<times> log_fs" where
  "fs_create path fs =
     (case gm_get (lf_dir fs) path of
        Some i \<Rightarrow> (i, fs)
      | None \<Rightarrow> (lf_next fs,
          fs\<lparr>lf_dir := gm_set path (lf_next fs) (lf_dir fs), lf_data := (lf_data fs)(lf_next fs := ''''),
            lf_next := Suc (lf_next fs)\<rparr>))"

definition fs_append :: "nat \<Rightarrow> string \<Rightarrow> log_fs \<Rightarrow> log_fs" where
  "fs_append i bytes fs = fs\<lparr>lf_data := (lf_data fs)(i := lf_data fs i @ bytes)\<rparr>"

definition fs_truncate :: "string \<Rightarrow> nat \<Rightarrow> log_fs \<Rightarrow> log_fs" where
  "fs_truncate path len fs =
     (case gm_get (lf_dir fs) path of
        Some i \<Rightarrow> fs\<lparr>lf_data := (lf_data fs)(i := take len (lf_data fs i))\<rparr>
      | None \<Rightarrow> fs)"

definition fs_remove :: "string \<Rightarrow> log_fs \<Rightarrow> log_fs" where
  "fs_remove path fs = fs\<lparr>lf_dir := gm_del path (lf_dir fs)\<rparr>"

text \<open>\<open>Rename\<close> of a staged file with the given content onto a path.\<close>

definition fs_replace :: "string \<Rightarrow> string \<Rightarrow> log_fs \<Rightarrow> log_fs" where
  "fs_replace path content fs =
     fs\<lparr>lf_dir := gm_set path (lf_next fs) (lf_dir fs), lf_data := (lf_data fs)(lf_next fs := content),
       lf_next := Suc (lf_next fs)\<rparr>"

section \<open>Lines and their dates\<close>

definition ArchivePath :: "string \<Rightarrow> string \<Rightarrow> string" where
  "ArchivePath path date =
     (let ext = path_ext path; base = trim_suffix path ext in base @ ''.'' @ date @ ext)"

definition timestampDate :: "string \<Rightarrow> string option" where
  "timestampDate line =
     (let candidate =
        (if 11 \<le> length line \<and> line ! 0 = CHR ''['' then Some (take 10 (drop 1 line))
         else if 10 \<le> length line then Some (take 10 line)
         else None)
      in case candidate of
           None \<Rightarrow> None
         | Some d \<Rightarrow> if date_ok d then Some d else None)"

text \<open>What \<open>ReadBytes\<close> returns, call by call: lines with their newline, the last maybe without.\<close>

fun log_lines :: "string \<Rightarrow> string list" where
  "log_lines [] = []"
| "log_lines (c # cs) =
     (if c = eol then [c] # log_lines cs
      else (case log_lines cs of
              [] \<Rightarrow> [[c]]
            | l # ls \<Rightarrow> (c # l) # ls))"

text \<open>The loop of \<open>Rotate\<close>: the dated lines that leave, in order, and the lines that stay.\<close>

fun rotate_split :: "string \<Rightarrow> string \<Rightarrow> string list \<Rightarrow> (string \<times> string) list \<times> string list" where
  "rotate_split today active [] = ([], [])"
| "rotate_split today active (l # ls) =
     (case timestampDate l of
        Some d \<Rightarrow>
          if d \<noteq> active then
            (if d < today
             then (case rotate_split today d ls of (out, rest) \<Rightarrow> ((d, l) # out, rest))
             else ([], l # ls))
          else (case rotate_split today active ls of (out, rest) \<Rightarrow> ((active, l) # out, rest))
      | None \<Rightarrow> (case rotate_split today active ls of (out, rest) \<Rightarrow> ((active, l) # out, rest)))"

definition staged :: "(string \<times> string) list \<Rightarrow> string \<Rightarrow> string" where
  "staged out date = concat (map snd (filter (\<lambda>(d, _). d = date) out))"

section \<open>The commit\<close>

datatype log_error =
    OpenLog string
  | ReadLog string
  | CloseLog string
  | StageLog string
  | ArchiveLog string
  | ReplaceLog string

datatype append_fault = AppendDone | AppendRefused | AppendShort nat

text \<open>
  Which of the file operations of one rotation succeed: opening and examining the source, creating and writing
  the staged files, closing the source, closing the staged files, appending to each archive,
  changing the mode, renaming. \<open>re_read\<close> is the \<open>ReadBytes\<close> call that fails, if one does. The staged
  files carry temporary names no log has; they and their removal in \<open>cleanup\<close> are not in the model.
\<close>

record rotate_env =
  re_open :: bool
  re_read :: "nat option"
  re_stage :: bool
  re_close :: bool
  re_stage_close :: bool
  re_append :: "string \<Rightarrow> append_fault"
  re_chmod :: bool
  re_rename :: bool

record archive_rollback =
  ab_path :: string
  ab_size :: nat
  ab_existed :: bool

definition rollbackArchive :: "archive_rollback \<Rightarrow> log_fs \<Rightarrow> log_fs" where
  "rollbackArchive a fs =
     (if ab_existed a then fs_truncate (ab_path a) (ab_size a) fs else fs_remove (ab_path a) fs)"

definition rollbackArchives :: "archive_rollback list \<Rightarrow> log_fs \<Rightarrow> log_fs" where
  "rollbackArchives committed fs = fold rollbackArchive (rev committed) fs"

definition appendStage ::
  "rotate_env \<Rightarrow> string \<Rightarrow> string \<Rightarrow> log_fs \<Rightarrow> (bool \<times> archive_rollback) \<times> log_fs" where
  "appendStage ev target stage fs =
     (let rollback = (case gm_get (lf_dir fs) target of
            Some i \<Rightarrow> \<lparr>ab_path = target, ab_size = length (lf_data fs i), ab_existed = True\<rparr>
          | None \<Rightarrow> \<lparr>ab_path = target, ab_size = 0, ab_existed = False\<rparr>)
      in case re_append ev target of
           AppendRefused \<Rightarrow> ((False, rollback), fs)
         | AppendDone \<Rightarrow>
             (case fs_create target fs of (i, fs1) \<Rightarrow> ((True, rollback), fs_append i stage fs1))
         | AppendShort n \<Rightarrow>
             (case fs_create target fs of
                (i, fs1) \<Rightarrow> ((False, rollback), rollbackArchive rollback (fs_append i (take n stage) fs1))))"

fun commit_archives ::
  "rotate_env \<Rightarrow> string \<Rightarrow> (string \<Rightarrow> string) \<Rightarrow> string list \<Rightarrow> archive_rollback list \<Rightarrow> log_fs \<Rightarrow>
   (bool \<times> archive_rollback list) \<times> log_fs" where
  "commit_archives ev path stage [] committed fs = ((True, committed), fs)"
| "commit_archives ev path stage (date # dates) committed fs =
     (case appendStage ev (ArchivePath path date) (stage date) fs of
        ((False, _), fs1) \<Rightarrow> ((False, committed), rollbackArchives committed fs1)
      | ((True, rollback), fs1) \<Rightarrow>
          commit_archives ev path stage dates (committed @ [rollback]) fs1)"

definition commit ::
  "rotate_env \<Rightarrow> string \<Rightarrow> (string \<times> string) list \<Rightarrow> string \<Rightarrow> log_fs \<Rightarrow> log_error option \<times> log_fs" where
  "commit ev path out rest fs =
     (if \<not> re_stage_close ev then (Some (StageLog path), fs)
      else
        (case commit_archives ev path (staged out) (sort (remdups (map fst out))) [] fs of
           ((False, _), fs1) \<Rightarrow> (Some (ArchiveLog path), fs1)
         | ((True, committed), fs1) \<Rightarrow>
             if \<not> re_chmod ev \<or> \<not> re_rename ev
             then (Some (ReplaceLog path), rollbackArchives committed fs1)
             else (None, fs_replace path rest fs1)))"

text \<open>
  The \<open>ReadBytes\<close> calls after the first: one for each line, and one more that finds the end of the
  file unless the last line did.
\<close>

definition later_reads :: "string \<Rightarrow> string list \<Rightarrow> nat" where
  "later_reads content ls =
     (if ls = [] \<or> last content = eol then Suc (length ls) else length ls)"

definition read_fails :: "rotate_env \<Rightarrow> nat \<Rightarrow> nat \<Rightarrow> bool" where
  "read_fails ev first final = (case re_read ev of None \<Rightarrow> False | Some k \<Rightarrow> first \<le> k \<and> k \<le> final)"

definition Rotate :: "rotate_env \<Rightarrow> string \<Rightarrow> string \<Rightarrow> log_fs \<Rightarrow> log_error option \<times> log_fs" where
  "Rotate ev path today fs =
     (case fs_read path fs of
        None \<Rightarrow> (None, fs)
      | Some content \<Rightarrow>
          if \<not> re_open ev then (Some (OpenLog path), fs)
          else if read_fails ev 0 0 then (Some (ReadLog path), fs)
          else
            (let closed = (if re_close ev then None else Some (CloseLog path))
             in case log_lines content of
                  [] \<Rightarrow> (closed, fs)
                | firstLine # ls \<Rightarrow>
                    (case timestampDate firstLine of
                       None \<Rightarrow> (closed, fs)
                     | Some firstDate \<Rightarrow>
                         if today \<le> firstDate then (closed, fs)
                         else if \<not> re_stage ev then (Some (StageLog path), fs)
                         else if read_fails ev 1 (later_reads content ls) then (Some (ReadLog path), fs)
                         else if \<not> re_close ev then (Some (CloseLog path), fs)
                         else
                           (case rotate_split today firstDate ls of
                              (out, rest) \<Rightarrow>
                                commit ev path ((firstDate, firstLine) # out) (concat rest) fs))))"


section \<open>Rotation is all or nothing\<close>

text \<open>
  A file system whose paths name distinct, allocated inodes, and the changes no reader of an
  existing path or inode can see.
\<close>

definition fs_ok :: "log_fs \<Rightarrow> bool" where
  "fs_ok fs \<longleftrightarrow>
     (\<forall>p i. gm_get (lf_dir fs) p = Some i \<longrightarrow> i < lf_next fs) \<and>
     (\<forall>p q i. gm_get (lf_dir fs) p = Some i \<and> gm_get (lf_dir fs) q = Some i \<longrightarrow> p = q)"

definition fs_eq :: "log_fs \<Rightarrow> log_fs \<Rightarrow> bool" where
  "fs_eq fs fs' \<longleftrightarrow>
     (\<forall>p. gm_get (lf_dir fs') p = gm_get (lf_dir fs) p) \<and>
     (\<forall>i<lf_next fs. lf_data fs' i = lf_data fs i) \<and> lf_next fs \<le> lf_next fs'"

lemma fs_okD:
  "fs_ok fs \<Longrightarrow> gm_get (lf_dir fs) p = Some i \<Longrightarrow> i < lf_next fs"
  "fs_ok fs \<Longrightarrow> gm_get (lf_dir fs) p = Some i \<Longrightarrow> gm_get (lf_dir fs) q = Some i \<Longrightarrow> p = q"
  by (auto simp: fs_ok_def)

lemma fs_eq_refl [simp, intro]: "fs_eq fs fs"
  by (simp add: fs_eq_def)

lemma fs_eq_trans: "fs_eq a b \<Longrightarrow> fs_eq b c \<Longrightarrow> fs_eq a c"
  by (auto simp: fs_eq_def)

lemma fs_eq_read: "fs_ok fs \<Longrightarrow> fs_eq fs fs' \<Longrightarrow> fs_read p fs' = fs_read p fs"
  by (cases "gm_get (lf_dir fs) p") (auto simp: fs_eq_def fs_read_def dest: fs_okD)

lemma fs_ok_remove: "fs_ok fs \<Longrightarrow> fs_ok (fs_remove p fs)"
  by (auto simp: fs_ok_def fs_remove_def gm_get_del split: if_splits)

lemma fs_ok_truncate: "fs_ok fs \<Longrightarrow> fs_ok (fs_truncate p n fs)"
  by (auto simp: fs_ok_def fs_truncate_def split: option.splits)

lemma fs_ok_create: "fs_ok fs \<Longrightarrow> fs_ok (snd (fs_create p fs))"
  by (auto simp: fs_ok_def fs_create_def gm_get_set split: option.splits if_splits)
    (metis less_Suc_eq less_irrefl)+

lemma fs_ok_append: "fs_ok fs \<Longrightarrow> fs_ok (fs_append i b fs)"
  by (simp add: fs_ok_def fs_append_def)

lemma fs_ok_replace: "fs_ok fs \<Longrightarrow> fs_ok (fs_replace p b fs)"
  by (auto simp: fs_ok_def fs_replace_def gm_get_set split: if_splits) (metis less_Suc_eq less_irrefl)+

lemma fs_ok_rollback: "fs_ok fs \<Longrightarrow> fs_ok (rollbackArchive a fs)"
  by (simp add: rollbackArchive_def fs_ok_remove fs_ok_truncate)

lemma fs_eq_rollback: "fs_ok a \<Longrightarrow> fs_eq a b \<Longrightarrow> fs_eq (rollbackArchive r a) (rollbackArchive r b)"
  by (auto simp: rollbackArchive_def fs_eq_def fs_remove_def fs_truncate_def gm_get_del
      split: option.splits dest: fs_okD)

lemma rollbackArchives_simps [simp]:
  "rollbackArchives [] fs = fs"
  "rollbackArchives (rs @ [r]) fs = rollbackArchives rs (rollbackArchive r fs)"
  by (simp_all add: rollbackArchives_def)

lemma fs_eq_rollbacks:
  "fs_ok a \<Longrightarrow> fs_eq a b \<Longrightarrow> fs_eq (rollbackArchives rs a) (rollbackArchives rs b)"
  by (induction rs arbitrary: a b rule: rev_induct) (simp_all add: fs_eq_rollback fs_ok_rollback)

text \<open>An append to an archive, whole or part, is undone by its rollback record.\<close>

lemma rollback_undoes:
  assumes "fs_ok fs" "fs_create p fs = (i, fs1)"
  shows "fs_eq fs (rollbackArchive (case gm_get (lf_dir fs) p of
            Some i \<Rightarrow> \<lparr>ab_path = p, ab_size = length (lf_data fs i), ab_existed = True\<rparr>
          | None \<Rightarrow> \<lparr>ab_path = p, ab_size = 0, ab_existed = False\<rparr>) (fs_append i b fs1))"
  using assms
  by (auto simp: rollbackArchive_def fs_eq_def fs_create_def fs_append_def fs_truncate_def fs_remove_def
      gm_get_del gm_get_set split: option.splits dest: fs_okD)

lemma appendStage_undone:
  assumes "fs_ok fs" "appendStage ev target stage fs = ((ok, r), fs1)"
  shows "fs_ok fs1" "ok \<Longrightarrow> fs_eq fs (rollbackArchive r fs1)" "\<not> ok \<Longrightarrow> fs_eq fs fs1"
proof -
  obtain i fs2 where c: "fs_create target fs = (i, fs2)" by (cases "fs_create target fs")
  have k: "fs_ok (fs_append i b fs2)" for b
    using fs_ok_create [OF assms(1), of target] c by (simp add: fs_ok_append)
  show "fs_ok fs1" "ok \<Longrightarrow> fs_eq fs (rollbackArchive r fs1)" "\<not> ok \<Longrightarrow> fs_eq fs fs1"
    using assms(2) rollback_undoes [OF assms(1) c] k assms(1)
    by (auto simp: appendStage_def Let_def c fs_ok_rollback split: append_fault.splits)
qed

lemma commit_archives_undone:
  assumes "fs_ok fs" "fs_eq fs0 (rollbackArchives done fs)"
    "commit_archives ev path stage dates done fs = ((ok, done'), fs')"
  shows "fs_ok fs' \<and> (if ok then fs_eq fs0 (rollbackArchives done' fs') else fs_eq fs0 fs')"
  using assms
proof (induction dates arbitrary: "done" fs)
  case (Cons date dates)
  obtain ok1 r fs1 where a: "appendStage ev (ArchivePath path date) (stage date) fs = ((ok1, r), fs1)"
    by (metis prod.exhaust)
  note u = appendStage_undone [OF Cons.prems(1) a]
  have ro: "fs_ok (rollbackArchives rs f)" if "fs_ok f" for rs f
    using that by (induction rs arbitrary: f rule: rev_induct) (simp_all add: fs_ok_rollback)
  show ?case
  proof (cases ok1)
    case True
    have "fs_eq fs0 (rollbackArchives (done @ [r]) fs1)"
      using fs_eq_trans [OF Cons.prems(2)] fs_eq_rollbacks [OF Cons.prems(1) u(2) [OF True]] by simp
    then show ?thesis using Cons.IH [OF u(1), of "done @ [r]"] Cons.prems(3) a True by simp
  next
    case False
    then have "fs_eq fs0 (rollbackArchives done fs1)"
      using fs_eq_trans [OF Cons.prems(2)] fs_eq_rollbacks [OF Cons.prems(1) u(3) [OF False]] by simp
    then show ?thesis using Cons.prems(3) a False ro [OF u(1)] by auto
  qed
qed auto

lemma commit_atomic:
  assumes "fs_ok fs" "commit ev path out rest fs = (Some e, fs')"
  shows "fs_eq fs fs'"
  using assms commit_archives_undone [OF assms(1), of fs "[]"]
  by (auto simp: commit_def split: prod.splits if_splits bool.splits)

lemma Rotate_atomic:
  "fs_ok fs \<Longrightarrow> Rotate ev path today fs = (Some e, fs') \<Longrightarrow> fs_eq fs fs'"
  by (auto simp: Rotate_def Let_def dest: commit_atomic
      split: option.splits if_splits list.splits prod.splits)

section \<open>What leaves, what stays\<close>

text \<open>
  The date of every line: its own, or that of the last dated line above it. The rotation moves the
  longest prefix dated before today.
\<close>

fun dated :: "string option \<Rightarrow> string list \<Rightarrow> (string option \<times> string) list" where
  "dated d [] = []"
| "dated d (l # ls) =
     (let d' = (case timestampDate l of None \<Rightarrow> d | Some x \<Rightarrow> Some x) in (d', l) # dated d' ls)"

definition before_day :: "string \<Rightarrow> string option \<times> string \<Rightarrow> bool" where
  "before_day today dl = (case fst dl of None \<Rightarrow> False | Some d \<Rightarrow> d < today)"

definition leaving :: "string \<Rightarrow> string \<Rightarrow> (string option \<times> string) list" where
  "leaving today content = takeWhile (before_day today) (dated None (log_lines content))"

definition staying :: "string \<Rightarrow> string \<Rightarrow> string" where
  "staying today content =
     concat (map snd (dropWhile (before_day today) (dated None (log_lines content))))"

definition leaving_on :: "string \<Rightarrow> string \<Rightarrow> string \<Rightarrow> string" where
  "leaving_on today content date =
     concat (map snd (filter (\<lambda>dl. fst dl = Some date) (leaving today content)))"

lemma concat_log_lines [simp]: "concat (log_lines s) = s"
  by (induction s) (auto split: list.splits)

lemma log_lines_eq_Nil [simp]: "log_lines s = [] \<longleftrightarrow> s = []"
  by (cases s) (auto split: list.splits)

lemma map_snd_dated [simp]: "map snd (dated d ls) = ls"
  by (induction ls arbitrary: d) (simp_all add: Let_def)

lemma leaving_staying: "concat (map snd (leaving today content)) @ staying today content = content"
  unfolding leaving_def staying_def concat_append [symmetric] map_append [symmetric]
  by simp

lemma rotate_split_dated:
  "active < today \<Longrightarrow>
    rotate_split today active ls =
      (map (\<lambda>(d, l). (the d, l)) (takeWhile (before_day today) (dated (Some active) ls)),
       map snd (dropWhile (before_day today) (dated (Some active) ls)))"
  by (induction ls arbitrary: active)
    (auto simp: before_day_def Let_def split: option.splits prod.splits)

lemma staged_eq:
  assumes "\<forall>dl \<in> set xs. fst dl \<noteq> None"
  shows "staged (map (\<lambda>(d, l). (the d, l)) xs) date =
    concat (map snd (filter (\<lambda>dl. fst dl = Some date) xs))"
  using assms by (induction xs) (auto simp: staged_def)

lemma dates_eq:
  assumes "\<forall>dl \<in> set xs. fst dl \<noteq> None"
  shows "x \<in> fst ` set (map (\<lambda>(d, l). (the d, l)) xs) \<longleftrightarrow> Some x \<in> fst ` set xs"
  using assms by (induction xs) auto

lemma leaving_dated: "dl \<in> set (leaving today content) \<Longrightarrow> \<exists>d. fst dl = Some d \<and> d < today"
  by (auto simp: leaving_def before_day_def dest!: set_takeWhileD split: option.splits)

lemma ArchivePath_inject [simp]: "ArchivePath p d = ArchivePath p d' \<longleftrightarrow> d = d'"
  by (simp add: ArchivePath_def Let_def)

lemma ArchivePath_neq [simp]: "ArchivePath p d \<noteq> p" "p \<noteq> ArchivePath p d"
proof -
  have "length p \<le> length (trim_suffix p (path_ext p)) + length (path_ext p)"
    by (auto simp: trim_suffix_def)
  then have "length p < length (ArchivePath p d)"
    by (simp add: ArchivePath_def Let_def)
  then show "ArchivePath p d \<noteq> p" "p \<noteq> ArchivePath p d" by auto
qed

definition or_empty :: "string option \<Rightarrow> string" where
  "or_empty c = (case c of None \<Rightarrow> '''' | Some s \<Rightarrow> s)"

lemma appendStage_reads:
  assumes "fs_ok fs" "appendStage ev target stage fs = ((True, r), fs1)"
  shows "fs_read q fs1 = (if q = target then Some (or_empty (fs_read target fs) @ stage) else fs_read q fs)"
  using assms
  by (cases "gm_get (lf_dir fs) q")
    (auto simp: appendStage_def Let_def fs_create_def fs_append_def fs_read_def gm_get_set or_empty_def
      split: append_fault.splits option.splits dest: fs_okD)

lemma commit_archives_reads:
  assumes "fs_ok fs" "distinct dates"
    "commit_archives ev path stage dates done fs = ((True, done'), fs')"
  shows "(\<forall>q. (\<forall>d\<in>set dates. q \<noteq> ArchivePath path d) \<longrightarrow> fs_read q fs' = fs_read q fs) \<and>
    (\<forall>d\<in>set dates. fs_read (ArchivePath path d) fs' =
      Some (or_empty (fs_read (ArchivePath path d) fs) @ stage d))"
  using assms
proof (induction dates arbitrary: "done" fs)
  case (Cons date dates)
  obtain r fs1 where a: "appendStage ev (ArchivePath path date) (stage date) fs = ((True, r), fs1)"
    using Cons.prems(3) by (auto split: prod.splits bool.splits)
  have "commit_archives ev path stage dates (done @ [r]) fs1 = ((True, done'), fs')"
    using Cons.prems(3) a by simp
  with Cons.IH [OF appendStage_undone(1) [OF Cons.prems(1) a]] Cons.prems(2)
  have IH: "\<forall>q. (\<forall>d\<in>set dates. q \<noteq> ArchivePath path d) \<longrightarrow> fs_read q fs' = fs_read q fs1"
    "\<forall>d\<in>set dates. fs_read (ArchivePath path d) fs' =
      Some (or_empty (fs_read (ArchivePath path d) fs1) @ stage d)"
    by auto
  have "fs_read (ArchivePath path date) fs' = fs_read (ArchivePath path date) fs1"
    using Cons.prems(2) by (intro IH(1) [rule_format]) auto
  with IH Cons.prems(2) show ?case by (auto simp: appendStage_reads [OF Cons.prems(1) a])
qed auto

lemma fs_replace_reads:
  "fs_ok fs \<Longrightarrow> fs_read q (fs_replace path content fs) = (if q = path then Some content else fs_read q fs)"
  by (cases "gm_get (lf_dir fs) q") (auto simp: fs_replace_def fs_read_def gm_get_set dest: fs_okD)

lemma commit_reads:
  assumes "fs_ok fs" "commit ev path out rest fs = (None, fs')"
  shows "fs_ok fs'" "fs_read path fs' = Some rest"
    "\<And>d. d \<in> fst ` set out \<Longrightarrow>
      fs_read (ArchivePath path d) fs' = Some (or_empty (fs_read (ArchivePath path d) fs) @ staged out d)"
    "\<And>q. q \<noteq> path \<Longrightarrow> (\<forall>d \<in> fst ` set out. q \<noteq> ArchivePath path d) \<Longrightarrow> fs_read q fs' = fs_read q fs"
proof -
  obtain done' fs1 where c: "commit_archives ev path (staged out) (sort (remdups (map fst out))) [] fs =
      ((True, done'), fs1)" and f: "fs' = fs_replace path rest fs1"
    using assms(2) by (auto simp: commit_def split: prod.splits if_splits bool.splits)
  have ok: "fs_ok fs1" using commit_archives_undone [OF assms(1) _ c, of fs] by simp
  note r = commit_archives_reads [OF assms(1) _ c, simplified]
  show "fs_ok fs'" "fs_read path fs' = Some rest" using ok by (simp_all add: f fs_ok_replace fs_replace_reads)
  show "fs_read (ArchivePath path d) fs' = Some (or_empty (fs_read (ArchivePath path d) fs) @ staged out d)"
    if "d \<in> fst ` set out" for d
    using r that ok by (auto simp: f fs_replace_reads)
  show "fs_read q fs' = fs_read q fs" if "q \<noteq> path" "\<forall>d \<in> fst ` set out. q \<noteq> ArchivePath path d" for q
    using r that ok by (auto simp: f fs_replace_reads)
qed

text \<open>A rotation that reports success has moved the leading days, or had none to move.\<close>

definition rotated :: "string \<Rightarrow> string \<Rightarrow> string \<Rightarrow> log_fs \<Rightarrow> log_fs \<Rightarrow> bool" where
  "rotated path today content fs fs' \<longleftrightarrow>
     fs_read path fs' = Some (staying today content) \<and>
     (\<forall>d. fs_read (ArchivePath path d) fs' =
        (if Some d \<in> fst ` set (leaving today content)
         then Some (or_empty (fs_read (ArchivePath path d) fs) @ leaving_on today content d)
         else fs_read (ArchivePath path d) fs)) \<and>
     (\<forall>q. q \<noteq> path \<longrightarrow> (\<forall>d. q \<noteq> ArchivePath path d) \<longrightarrow> fs_read q fs' = fs_read q fs)"

lemma Rotate_moves:
  assumes "fs_ok fs" "fs_read path fs = Some content" "Rotate ev path today fs = (None, fs')"
  shows "fs_ok fs' \<and> rotated path today content fs fs'"
proof (cases "leaving today content = []")
  case True
  then have st: "staying today content = content" using leaving_staying [of today content] by simp
  have "\<not> (\<exists>l ls d. log_lines content = l # ls \<and> timestampDate l = Some d \<and> d < today)"
    using True by (auto simp: leaving_def Let_def before_day_def)
  then have "fs' = fs"
    using assms(2,3) by (auto simp: Rotate_def Let_def split: list.splits option.splits if_splits prod.splits)
  then show ?thesis using assms(1,2) True st by (simp add: rotated_def)
next
  case False
  then obtain l ls d where l: "log_lines content = l # ls" "timestampDate l = Some d" "d < today"
    by (cases "log_lines content")
      (auto simp: leaving_def Let_def before_day_def split: option.splits if_splits)
  define out where "out = (d, l) # fst (rotate_split today d ls)"
  define rest where "rest = concat (snd (rotate_split today d ls))"
  have lv: "out = map (\<lambda>(d, l). (the d, l)) (leaving today content)" "rest = staying today content"
    using l by (simp_all add: out_def rest_def leaving_def staying_def rotate_split_dated before_day_def Let_def)
  have "commit ev path out rest fs = (None, fs')"
    using assms(2,3) l by (auto simp: Rotate_def Let_def out_def rest_def split: prod.splits if_splits)
  note c = commit_reads [OF assms(1) this]
  have dates: "x \<in> fst ` set out \<longleftrightarrow> Some x \<in> fst ` set (leaving today content)" for x
    unfolding lv(1) by (rule dates_eq) (use leaving_dated in fastforce)
  have "staged out x = leaving_on today content x" for x
    unfolding lv(1) leaving_on_def by (rule staged_eq) (use leaving_dated in fastforce)
  then show ?thesis using c dates lv(2) unfolding rotated_def by (metis ArchivePath_inject ArchivePath_neq(1))
qed

section \<open>Rotating again the same day changes nothing\<close>

lemma log_lines_drop1: "log_lines (concat (drop 1 (log_lines s))) = drop 1 (log_lines s)"
  by (induction s) (auto split: list.splits)

lemma log_lines_drop: "log_lines (concat (drop n (log_lines s))) = drop n (log_lines s)"
proof (induction n)
  case (Suc n)
  have "drop (Suc n) (log_lines s) = drop 1 (log_lines (concat (drop n (log_lines s))))"
    by (simp add: Suc)
  then show ?case using log_lines_drop1 [of "concat (drop n (log_lines s))"] by simp
qed simp

lemma map_snd_dropWhile_dated: "\<exists>n. map snd (dropWhile P (dated d ls)) = drop n ls"
  by (metis drop_map dropWhile_eq_drop map_snd_dated)

lemma dropWhile_dated_head:
  "a < today \<Longrightarrow> dropWhile (before_day today) (dated (Some a) ls) = x # xs \<Longrightarrow>
    \<exists>d. timestampDate (snd x) = Some d \<and> \<not> d < today"
  by (induction ls arbitrary: a) (auto simp: before_day_def Let_def split: option.splits if_splits)

lemma leaving_Nil_iff:
  "leaving today content = [] \<longleftrightarrow>
    (case log_lines content of
       [] \<Rightarrow> True
     | l # ls \<Rightarrow> (case timestampDate l of None \<Rightarrow> True | Some d \<Rightarrow> \<not> d < today))"
  by (auto simp: leaving_def before_day_def Let_def split: list.splits option.splits)

lemma leaving_staying_Nil: "leaving today (staying today content) = []"
proof (cases "leaving today content = []")
  case True
  then show ?thesis using leaving_staying [of today content] by simp
next
  case False
  then obtain l ls d where l: "log_lines content = l # ls" "timestampDate l = Some d" "d < today"
    by (auto simp: leaving_Nil_iff split: list.splits option.splits)
  let ?k = "dropWhile (before_day today) (dated (Some d) ls)"
  have k: "dropWhile (before_day today) (dated None (log_lines content)) = ?k"
    using l by (simp add: before_day_def Let_def)
  then obtain n where "map snd ?k = drop n (log_lines content)"
    using map_snd_dropWhile_dated by metis
  then have "log_lines (staying today content) = map snd ?k"
    by (simp add: staying_def k log_lines_drop)
  then show ?thesis
    using dropWhile_dated_head [OF l(3), of ls] by (cases ?k) (auto simp: leaving_Nil_iff)
qed

lemma Rotate_quiet:
  "(case fs_read path fs of None \<Rightarrow> True | Some c \<Rightarrow> leaving today c = []) \<Longrightarrow>
    snd (Rotate ev path today fs) = fs"
  by (auto simp: Rotate_def Let_def leaving_Nil_iff split: option.splits list.splits)

lemma Rotate_twice:
  assumes "fs_ok fs" "Rotate ev path today fs = (None, fs')"
  shows "snd (Rotate ev' path today fs') = fs'"
proof (cases "fs_read path fs")
  case None
  then have "fs' = fs" using assms(2) by (simp add: Rotate_def)
  then show ?thesis using None by (simp add: Rotate_def)
next
  case (Some c)
  then have "fs_read path fs' = Some (staying today c)"
    using Rotate_moves [OF assms(1) Some assms(2)] by (simp add: rotated_def)
  then show ?thesis using leaving_staying_Nil by (intro Rotate_quiet) simp
qed

text \<open>With no fault a rotation succeeds.\<close>

definition no_rotate_fault :: rotate_env where
  "no_rotate_fault =
     \<lparr>re_open = True, re_read = None, re_stage = True, re_close = True, re_stage_close = True,
       re_append = (\<lambda>_. AppendDone), re_chmod = True, re_rename = True\<rparr>"

lemma commit_archives_no_fault:
  "\<exists>done' fs'. commit_archives no_rotate_fault path stage dates done fs = ((True, done'), fs')"
  by (induction dates arbitrary: "done" fs)
    (auto simp: appendStage_def no_rotate_fault_def Let_def split: prod.splits)

lemma Rotate_no_fault: "fst (Rotate no_rotate_fault path today fs) = None"
proof -
  have "fst (commit no_rotate_fault path out rest fs) = None" for out rest
    using commit_archives_no_fault [of path "staged out" "sort (remdups (map fst out))" "[]" fs]
    by (auto simp: commit_def) (simp_all add: no_rotate_fault_def)
  then show ?thesis
    by (auto simp: Rotate_def Let_def read_fails_def split: option.splits list.splits prod.splits)
      (simp_all add: no_rotate_fault_def)
qed

end
