(* ===== verification/Log_Writer.thy ===== *)
theory Log_Writer
  imports Log_Rotation
begin

text \<open>
  \<open>logfile/writer.go\<close>: the writer of one managed stream, which stamps every logical line, escapes
  it, and keeps the path on the current day. The mutex makes every call atomic, so a call is a
  function of the writer and of the world it finds.
\<close>

section \<open>The world of a writer\<close>

text \<open>
  The files, the room left on the disk, and how many readings of the clock have been taken.
\<close>

record log_world =
  wd_fs :: log_fs
  wd_room :: "nat option"
  wd_clock :: nat

text \<open>
  The clock by reading, and the operations that succeed: making the directory, and at the reading
  that caused them, opening the path, \<open>Stat\<close> of the path, \<open>Stat\<close> of the open file, closing the
  open file, and the \<open>Stat\<close>, open, read and close of \<open>ensureAppendBoundary\<close>.
\<close>

record log_env =
  en_clock :: "nat \<Rightarrow> civil"
  en_mkdir :: bool
  en_rotate :: "nat \<Rightarrow> rotate_env"
  en_open :: "nat \<Rightarrow> bool"
  en_stat :: "nat \<Rightarrow> bool"
  en_fstat :: "nat \<Rightarrow> bool"
  en_close :: "nat \<Rightarrow> bool"
  en_bound :: "nat \<Rightarrow> bool"

definition with_file :: "nat \<Rightarrow> (sink \<Rightarrow> 'a \<times> sink) \<Rightarrow> log_world \<Rightarrow> 'a \<times> log_world" where
  "with_file i f wd =
     (case f \<lparr>sk_data = lf_data (wd_fs wd) i, sk_room = wd_room wd\<rparr> of
        (r, sk) \<Rightarrow>
          (r, wd\<lparr>wd_fs := (wd_fs wd)\<lparr>lf_data := (lf_data (wd_fs wd))(i := sk_data sk)\<rparr>,
                wd_room := sk_room sk\<rparr>))"

section \<open>The writer\<close>

text \<open>
  The open file: none (\<open>nil\<close>), an inode, or one whose \<open>Close\<close> reported an error, after which every
  operation on it fails.
\<close>

datatype log_handle = NoFile | OpenFile nat | ShutFile

record log_writer =
  lw_path :: string
  lw_file :: log_handle
  lw_start :: bool
  lw_date :: string
  lw_closed :: bool

datatype writer_error =
    CreateDirFailed
  | RotateFailed log_error
  | OpenFailed
  | BoundaryFailed
  | StatPathFailed
  | StatFileFailed
  | CloseFailed
  | StampFailed
  | WriteFailed
  | ClosedWriter

definition openAppendFile ::
  "log_env \<Rightarrow> nat \<Rightarrow> string \<Rightarrow> log_world \<Rightarrow> (writer_error + nat) \<times> log_world" where
  "openAppendFile en k path wd =
     (if \<not> en_open en k then (Inl OpenFailed, wd)
      else (case fs_create path (wd_fs wd) of (i, fs) \<Rightarrow> (Inr i, wd\<lparr>wd_fs := fs\<rparr>)))"

text \<open>The last byte is read from the file now at the path, at the offset the open file has.\<close>

definition ensureAppendBoundary ::
  "log_env \<Rightarrow> nat \<Rightarrow> string \<Rightarrow> nat \<Rightarrow> log_world \<Rightarrow> writer_error option \<times> log_world" where
  "ensureAppendBoundary en k path i wd =
     (let len = length (lf_data (wd_fs wd) i) in
      if len = 0 then (None, wd)
      else if \<not> en_bound en k then (Some BoundaryFailed, wd)
      else (case fs_read path (wd_fs wd) of
              None \<Rightarrow> (Some BoundaryFailed, wd)
            | Some c \<Rightarrow>
                if length c < len then (Some BoundaryFailed, wd)
                else if c ! (len - 1) = eol then (None, wd)
                else (case with_file i (sink_write [eol]) wd of
                        ((_, ok), wd1) \<Rightarrow> (if ok then None else Some BoundaryFailed, wd1))))"

definition openWithClock :: "log_env \<Rightarrow> string \<Rightarrow> log_world \<Rightarrow> (writer_error + log_writer) \<times> log_world" where
  "openWithClock en path wd =
     (if \<not> en_mkdir en then (Inl CreateDirFailed, wd)
      else
        (let k = wd_clock wd; today = fmt_date (en_clock en k) in
         case Rotate (en_rotate en k) path today (wd_fs wd) of
           (Some e, fs) \<Rightarrow> (Inl (RotateFailed e), wd\<lparr>wd_fs := fs, wd_clock := Suc k\<rparr>)
         | (None, fs) \<Rightarrow>
             (case openAppendFile en k path (wd\<lparr>wd_fs := fs, wd_clock := Suc k\<rparr>) of
                (Inl e, wd1) \<Rightarrow> (Inl e, wd1)
              | (Inr i, wd1) \<Rightarrow>
                  (case ensureAppendBoundary en k path i wd1 of
                     (Some e, wd2) \<Rightarrow> (Inl e, wd2)
                   | (None, wd2) \<Rightarrow>
                       (Inr \<lparr>lw_path = path, lw_file = OpenFile i, lw_start = True, lw_date = today,
                          lw_closed = False\<rparr>, wd2)))))"

definition closeBeforeReopen :: "log_env \<Rightarrow> nat \<Rightarrow> log_writer \<Rightarrow> bool \<times> log_writer" where
  "closeBeforeReopen en k w =
     (case lw_file w of
        NoFile \<Rightarrow> (True, w)
      | OpenFile i \<Rightarrow>
          if en_close en k then (True, w\<lparr>lw_file := NoFile\<rparr>) else (False, w\<lparr>lw_file := ShutFile\<rparr>)
      | ShutFile \<Rightarrow> (False, w))"

definition reopen ::
  "log_env \<Rightarrow> nat \<Rightarrow> bool \<Rightarrow> log_writer \<Rightarrow> log_world \<Rightarrow> writer_error option \<times> log_writer \<times> log_world" where
  "reopen en k rotating w wd =
     (case closeBeforeReopen en k w of
        (False, w1) \<Rightarrow> (Some CloseFailed, w1, wd)
      | (True, w1) \<Rightarrow>
        (let today = fmt_date (en_clock en k) in
         case (if rotating then Rotate (en_rotate en k) (lw_path w) today (wd_fs wd) else (None, wd_fs wd)) of
           (Some e, fs) \<Rightarrow> (Some (RotateFailed e), w1, wd\<lparr>wd_fs := fs\<rparr>)
         | (None, fs) \<Rightarrow>
             (case openAppendFile en k (lw_path w) (wd\<lparr>wd_fs := fs\<rparr>) of
                (Inl e, wd1) \<Rightarrow> (Some e, w1, wd1)
              | (Inr i, wd1) \<Rightarrow>
                  (case ensureAppendBoundary en k (lw_path w) i wd1 of
                     (Some e, wd2) \<Rightarrow> (Some e, w1, wd2)
                   | (None, wd2) \<Rightarrow> (None, w1\<lparr>lw_file := OpenFile i, lw_date := today\<rparr>, wd2)))))"

text \<open>\<open>Stat\<close> of a writer left without an open file is an error.\<close>

definition ensureCurrent ::
  "log_env \<Rightarrow> nat \<Rightarrow> log_writer \<Rightarrow> log_world \<Rightarrow> writer_error option \<times> log_writer \<times> log_world" where
  "ensureCurrent en k w wd =
     (if fmt_date (en_clock en k) \<noteq> lw_date w then reopen en k True w wd
      else (case gm_get (lf_dir (wd_fs wd)) (lw_path w) of
              None \<Rightarrow> reopen en k False w wd
            | Some target \<Rightarrow>
                if \<not> en_stat en k then (Some StatPathFailed, w, wd)
                else (case lw_file w of
                        OpenFile current \<Rightarrow>
                          if \<not> en_fstat en k then (Some StatFileFailed, w, wd)
                          else if current \<noteq> target then reopen en k False w wd
                          else (None, w, wd)
                      | _ \<Rightarrow> (Some StatFileFailed, w, wd))))"

definition file_write :: "log_writer \<Rightarrow> string \<Rightarrow> log_world \<Rightarrow> (nat \<times> bool) \<times> log_world" where
  "file_write w bytes wd =
     (case lw_file w of OpenFile i \<Rightarrow> with_file i (sink_write bytes) wd | _ \<Rightarrow> ((0, False), wd))"

definition stamp :: "civil \<Rightarrow> string" where
  "stamp t = ''['' @ fmt_timestamp t @ ''] ''"

text \<open>The part of \<open>Write\<close> that runs at the start of a line.\<close>

definition beginLine :: "log_env \<Rightarrow> log_writer \<Rightarrow> log_world \<Rightarrow> writer_error option \<times> log_writer \<times> log_world" where
  "beginLine en w wd =
     (if \<not> lw_start w then (None, w, wd)
      else
        (let k = wd_clock wd in
         case ensureCurrent en k w (wd\<lparr>wd_clock := Suc k\<rparr>) of
           (Some e, w1, wd1) \<Rightarrow> (Some e, w1, wd1)
         | (None, w1, wd1) \<Rightarrow>
             (case file_write w1 (stamp (en_clock en k)) wd1 of
                ((_, ok), wd2) \<Rightarrow>
                  if ok then (None, w1\<lparr>lw_start := False\<rparr>, wd2) else (Some StampFailed, w1, wd2))))"

definition writeLine :: "log_writer \<Rightarrow> string \<Rightarrow> log_world \<Rightarrow> (nat \<times> bool \<times> bool) \<times> log_world" where
  "writeLine w p wd =
     (case lw_file w of
        OpenFile i \<Rightarrow> with_file i (writeEscapedLine p) wd
      | _ \<Rightarrow> (case writeEscapedLine p \<lparr>sk_data = '''', sk_room = Some 0\<rparr> of (r, _) \<Rightarrow> (r, wd)))"

lemma writeLine_progress:
  assumes "writeLine w p wd = ((k, fin, True), wd')" "p \<noteq> []"
  shows "0 < k \<and> k \<le> length p"
  using assms
  by (auto simp: writeLine_def with_file_def split: log_handle.splits prod.splits dest: writeEscapedLine_progress)

function write_loop ::
  "log_env \<Rightarrow> string \<Rightarrow> nat \<Rightarrow> log_writer \<Rightarrow> log_world \<Rightarrow> (nat \<times> writer_error option) \<times> log_writer \<times> log_world" where
  "write_loop en p consumed w wd =
     (if p = [] then ((consumed, None), w, wd)
      else (case beginLine en w wd of
              (Some e, w1, wd1) \<Rightarrow> ((consumed, Some e), w1, wd1)
            | (None, w1, wd1) \<Rightarrow>
                (case writeLine w1 p wd1 of
                   ((n, fin, ok), wd2) \<Rightarrow>
                     if ok
                     then write_loop en (drop n p) (consumed + n) (if fin then w1\<lparr>lw_start := True\<rparr> else w1) wd2
                     else ((consumed + n, Some WriteFailed), w1, wd2))))"
  by pat_completeness auto
termination
  by (relation "measure (\<lambda>(en, p, consumed, w, wd). length p)")
    (auto dest!: writeLine_progress [OF sym])

declare write_loop.simps [simp del]

definition Write ::
  "log_env \<Rightarrow> string \<Rightarrow> log_writer \<Rightarrow> log_world \<Rightarrow> (nat \<times> writer_error option) \<times> log_writer \<times> log_world" where
  "Write en p w wd =
     (if lw_closed w then ((0, Some ClosedWriter), w, wd) else write_loop en p 0 w wd)"

definition CloseWriter :: "bool \<Rightarrow> log_writer \<Rightarrow> writer_error option \<times> log_writer" where
  "CloseWriter close_ok w =
     (if lw_closed w then (None, w)
      else (case lw_file w of
              NoFile \<Rightarrow> (None, w\<lparr>lw_closed := True\<rparr>)
            | OpenFile i \<Rightarrow>
                (if close_ok then None else Some CloseFailed, w\<lparr>lw_closed := True, lw_file := NoFile\<rparr>)
            | ShutFile \<Rightarrow> (Some CloseFailed, w\<lparr>lw_closed := True, lw_file := NoFile\<rparr>)))"

section \<open>What a writer writes\<close>

text \<open>
  The rendering of a stream from clock reading \<open>k\<close>, byte by byte: the text, the next reading, and
  whether the next byte starts a line.
\<close>

fun render :: "(nat \<Rightarrow> civil) \<Rightarrow> nat \<Rightarrow> bool \<Rightarrow> string \<Rightarrow> string \<times> nat \<times> bool" where
  "render clk k start [] = ('''', k, start)"
| "render clk k start (c # cs) =
     (case render clk (if start then Suc k else k) (c = eol) cs of
        (out, k', start') \<Rightarrow> ((if start then stamp (clk k) else '''') @ esc c @ out, k', start'))"

lemma render_append:
  "render clk k start (p @ q) =
     (case render clk k start p of
        (out, k', start') \<Rightarrow>
          (case render clk k' start' q of (out', k'', start'') \<Rightarrow> (out @ out', k'', start'')))"
  by (induction p arbitrary: k start) (auto split: prod.splits)

lemma render_start:
  "p \<noteq> [] \<Longrightarrow> render clk k True p =
    (case render clk (Suc k) False p of (out, k', s') \<Rightarrow> (stamp (clk k) @ out, k', s'))"
  by (cases p) (auto split: prod.splits)

lemma render_line:
  "p \<noteq> [] \<Longrightarrow> render clk k False p =
    (case render clk k (eol \<in> set p) (drop (length (first_line p)) p) of
       (out, k', s') \<Rightarrow> (escape (first_line p) @ out, k', s'))"
proof (induction p)
  case (Cons c p)
  then show ?case by (cases p) (auto split: prod.splits)
qed simp

text \<open>
  A writer with its file in place, on an undisturbed day, with room: what every call of \<open>Write\<close>
  finds unless the day turns or the file is replaced.
\<close>

definition settled :: "log_env \<Rightarrow> log_writer \<Rightarrow> nat \<Rightarrow> log_world \<Rightarrow> bool" where
  "settled en w i wd \<longleftrightarrow>
     lw_file w = OpenFile i \<and> \<not> lw_closed w \<and> gm_get (lf_dir (wd_fs wd)) (lw_path w) = Some i \<and>
     wd_room wd = None \<and>
     (\<forall>k\<ge>wd_clock wd. en_stat en k \<and> en_fstat en k \<and> fmt_date (en_clock en k) = lw_date w)"

definition grow :: "nat \<Rightarrow> string \<Rightarrow> nat \<Rightarrow> log_world \<Rightarrow> log_world" where
  "grow i b k wd = wd\<lparr>wd_fs := fs_append i b (wd_fs wd), wd_clock := k\<rparr>"

lemma grow_simps [simp]:
  "grow i b k (grow i a j wd) = grow i (a @ b) k wd" "wd_clock (grow i b k wd) = k"
  "wd_room (grow i b k wd) = wd_room wd" "lf_dir (wd_fs (grow i b k wd)) = lf_dir (wd_fs wd)"
  by (simp_all add: grow_def fs_append_def)

lemma grow_Nil [simp]: "grow i [] (wd_clock wd) wd = wd"
  by (simp add: grow_def fs_append_def)

lemma settled_grow:
  "settled en w i wd \<Longrightarrow> wd_clock wd \<le> k \<Longrightarrow> settled en (w\<lparr>lw_start := s\<rparr>) i (grow i b k wd)"
  by (auto simp: settled_def)

lemma with_file_write:
  "wd_room wd = None \<Longrightarrow> with_file i (sink_write b) wd = ((length b, True), grow i b (wd_clock wd) wd)"
  by (simp add: with_file_def sink_write_def grow_def fs_append_def)

lemma with_file_escape:
  assumes "wd_room wd = None"
  shows "with_file i (writeEscapedLine p) wd =
    ((length (first_line p), eol \<in> set p, True), grow i (escape (first_line p)) (wd_clock wd) wd)"
proof -
  define sk where "sk = \<lparr>sk_data = lf_data (wd_fs wd) i, sk_room = None\<rparr>"
  obtain k fin ok sk' where r: "writeEscapedLine p sk = ((k, fin, ok), sk')" by (metis prod.exhaust)
  have room: "room_for sk n = n" for n by (simp add: room_for_def sk_def)
  have "sk' = sk\<lparr>sk_data := sk_data sk @ escape (first_line p)\<rparr>" "ok" "fin = (eol \<in> set p)"
      "k = length (first_line p)"
    using writeEscapedLine_writes [OF r] room by (cases sk', simp_all add: sk_def)
  then show ?thesis
    using r assms by (simp add: with_file_def sk_def grow_def fs_append_def)
qed

lemma beginLine_settled:
  assumes "settled en w i wd"
  shows "beginLine en w wd =
    (None, w\<lparr>lw_start := False\<rparr>,
     if lw_start w then grow i (stamp (en_clock en (wd_clock wd))) (Suc (wd_clock wd)) wd else wd)"
proof (cases "lw_start w")
  case True
  have "ensureCurrent en (wd_clock wd) w (wd\<lparr>wd_clock := Suc (wd_clock wd)\<rparr>) =
      (None, w, wd\<lparr>wd_clock := Suc (wd_clock wd)\<rparr>)"
    using assms by (simp add: ensureCurrent_def settled_def)
  moreover have "file_write w b (wd\<lparr>wd_clock := k\<rparr>) = ((length b, True), grow i b k wd)" for b k
    using assms with_file_write [of "wd\<lparr>wd_clock := k\<rparr>" i b]
    by (simp add: file_write_def settled_def grow_def)
  ultimately show ?thesis using True by (simp add: beginLine_def Let_def)
next
  case False
  then have "w\<lparr>lw_start := False\<rparr> = w" by (cases w) simp
  then show ?thesis using False by (simp add: beginLine_def)
qed

lemma render_clock: "fst (snd (render clk k start p)) \<ge> k"
  by (induction p arbitrary: k start) (auto split: prod.splits, metis Suc_leD fst_conv snd_conv, metis fst_conv snd_conv)

lemma write_loop_settled:
  assumes "settled en w i wd"
  shows "write_loop en p n w wd =
    (case render (en_clock en) (wd_clock wd) (lw_start w) p of
       (out, k, start) \<Rightarrow> ((n + length p, None), w\<lparr>lw_start := start\<rparr>, grow i out k wd))"
  using assms
proof (induction "length p" arbitrary: p n w wd rule: less_induct)
  case less
  show ?case
  proof (cases "p = []")
    case True
    then show ?thesis by (simp add: write_loop.simps)
  next
    case False
    let ?k = "if lw_start w then Suc (wd_clock wd) else wd_clock wd"
    let ?pre = "if lw_start w then stamp (en_clock en (wd_clock wd)) else []"
    let ?w = "w\<lparr>lw_start := eol \<in> set p\<rparr>" and ?wd = "grow i (?pre @ escape (first_line p)) ?k wd"
    have opn: "lw_file w = OpenFile i" "wd_room wd = None" using less.prems by (auto simp: settled_def)
    have fl: "length (first_line p) \<le> length p" using first_line_prefix [of p] by (metis le_add1 length_append)
    have step: "write_loop en p n w wd =
        write_loop en (drop (length (first_line p)) p) (n + length (first_line p)) ?w ?wd"
      using False opn
      by (subst write_loop.simps)
        (auto simp: beginLine_settled [OF less.prems] writeLine_def with_file_escape)
    have "settled en ?w i ?wd" by (rule settled_grow [OF less.prems]) simp
    note IH = less.hyps [OF _ this, of "drop (length (first_line p)) p"]
    have "length (drop (length (first_line p)) p) < length p"
      using False length_first_line [OF False] by simp
    from IH [OF this] show ?thesis
      using step fl False render_start [OF False, of "en_clock en" "wd_clock wd"]
        render_line [OF False, of "en_clock en" ?k]
      by (auto split: prod.splits)
  qed
qed

lemma Write_settled:
  assumes "settled en w i wd"
  shows "Write en p w wd =
    (case render (en_clock en) (wd_clock wd) (lw_start w) p of
       (out, k, start) \<Rightarrow> ((length p, None), w\<lparr>lw_start := start\<rparr>, grow i out k wd))"
  using write_loop_settled [OF assms, of p 0] assms by (simp add: Write_def settled_def)

text \<open>How the child's output is cut into calls of \<open>Write\<close> does not matter.\<close>

lemma Write_chunks:
  assumes "settled en w i wd" "Write en p w wd = (r, w1, wd1)"
  shows "settled en w1 i wd1" "snd (Write en q w1 wd1) = snd (Write en (p @ q) w wd)"
proof -
  obtain out k s where r: "render (en_clock en) (wd_clock wd) (lw_start w) p = (out, k, s)"
    by (metis prod.exhaust)
  have e: "w1 = w\<lparr>lw_start := s\<rparr>" "wd1 = grow i out k wd"
    using assms(2) by (simp_all add: Write_settled [OF assms(1)] r)
  show st: "settled en w1 i wd1"
    unfolding e using render_clock [of "wd_clock wd" "en_clock en" "lw_start w" p] r
    by (intro settled_grow [OF assms(1)]) simp
  show "snd (Write en q w1 wd1) = snd (Write en (p @ q) w wd)"
    by (simp add: Write_settled [OF st] Write_settled [OF assms(1)] render_append r split: prod.splits)
      (simp add: e)
qed

section \<open>Every line starts in the file at the path, on its own day\<close>

lemma ensureAppendBoundary_dir:
  "lf_dir (wd_fs (snd (ensureAppendBoundary en k path i wd))) = lf_dir (wd_fs wd)"
  by (auto simp: ensureAppendBoundary_def with_file_def Let_def split: option.splits prod.splits)

lemma openAppendFile_dir:
  "openAppendFile en k path wd = (Inr i, wd') \<Longrightarrow> gm_get (lf_dir (wd_fs wd')) path = Some i"
  by (auto simp: openAppendFile_def fs_create_def gm_get_set split: option.splits if_splits)

lemma reopen_in_place:
  assumes "reopen en k rotating w wd = (None, w', wd')"
  shows "\<exists>i. lw_file w' = OpenFile i \<and> gm_get (lf_dir (wd_fs wd')) (lw_path w) = Some i \<and>
    lw_date w' = fmt_date (en_clock en k) \<and> lw_path w' = lw_path w"
proof -
  obtain w1 wd1 wd2 i where o: "openAppendFile en k (lw_path w) wd1 = (Inr i, wd2)"
    and b: "ensureAppendBoundary en k (lw_path w) i wd2 = (None, wd')"
    and c: "closeBeforeReopen en k w = (True, w1)"
    and w': "w' = w1\<lparr>lw_file := OpenFile i, lw_date := fmt_date (en_clock en k)\<rparr>"
    using assms
    by (auto simp: reopen_def Let_def split: prod.splits bool.splits option.splits sum.splits)
  have "lw_path w1 = lw_path w"
    using c by (auto simp: closeBeforeReopen_def split: log_handle.splits if_splits)
  moreover have "lf_dir (wd_fs wd') = lf_dir (wd_fs wd2)"
    using ensureAppendBoundary_dir [of en k "lw_path w" i wd2] b by simp
  ultimately show ?thesis using openAppendFile_dir [OF o] w' by simp
qed

lemma ensureCurrent_in_place:
  assumes "ensureCurrent en k w wd = (None, w', wd')"
  shows "\<exists>i. lw_file w' = OpenFile i \<and> gm_get (lf_dir (wd_fs wd')) (lw_path w) = Some i \<and>
    lw_date w' = fmt_date (en_clock en k) \<and> lw_path w' = lw_path w"
  using assms
  by (auto simp: ensureCurrent_def dest: reopen_in_place split: if_splits option.splits log_handle.splits)

section \<open>The output of a day, and the rotation that follows\<close>

lemma log_lines_line: "eol \<notin> set a \<Longrightarrow> log_lines (a @ eol # s) = (a @ [eol]) # log_lines s"
  by (induction a) auto

lemma log_lines_no_eol: "eol \<notin> set a \<Longrightarrow> log_lines a = (if a = [] then [] else [a])"
  by (induction a) auto

lemma eol_escape: "eol \<notin> set s \<Longrightarrow> eol \<notin> set (escape s)"
  using escape_printable [of s] printable_not_eol by (auto simp: list_all_iff)

lemma escape_line:
  "eol \<in> set p \<Longrightarrow> \<exists>a. escape (first_line p) = a @ [eol] \<and> eol \<notin> set a"
  "eol \<notin> set p \<Longrightarrow> eol \<notin> set (escape (first_line p))"
proof -
  assume p: "eol \<in> set p"
  let ?t = "takeWhile (\<lambda>c. c \<noteq> eol) p"
  have "eol \<notin> set ?t" by (auto dest: set_takeWhileD)
  then have "eol \<notin> set (escape ?t)" by (rule eol_escape)
  moreover have "backslash \<noteq> eol" "CHR ''n'' \<noteq> eol" by code_simp+
  ultimately show "\<exists>a. escape (first_line p) = a @ [eol] \<and> eol \<notin> set a"
    using p by (intro exI [of _ "escape ?t @ [backslash, CHR ''n'']"]) (auto simp: first_line_def esc_eol)
qed (simp add: first_line_def eol_escape)

lemma eol_fmt_timestamp: "eol \<notin> set (stamp t)"
proof -
  have d: "digit_char n \<noteq> eol" if "n < 10" for n
  proof -
    have "list_all (\<lambda>n. digit_char n \<noteq> eol) [0..<10]" by code_simp
    then show ?thesis using that by (simp add: list_all_iff)
  qed
  then have "eol \<notin> set (pad2 n)" for n by (simp add: pad2_def not_sym)
  moreover have "eol \<notin> set ''[ ]-:''" by code_simp
  ultimately show ?thesis
    by (auto simp: stamp_def fmt_timestamp_def fmt_date_def fmt_clock_def pad4_def)
qed

lemma timestampDate_stamp:
  assumes "valid_civil t"
  shows "timestampDate (stamp t @ s) = Some (fmt_date t)"
proof -
  have "date_ok (fmt_date t)"
    using assms by (simp add: date_ok_def parse_date_fmt_date valid_civil_def)
  moreover have "take 10 (drop 1 (stamp t @ s)) = fmt_date t"
    by (simp add: stamp_def fmt_timestamp_def)
  moreover have "11 \<le> length (stamp t @ s)" "(stamp t @ s) ! 0 = CHR ''[''"
    by (simp_all add: stamp_def)
  ultimately show ?thesis by (simp add: timestampDate_def)
qed

lemma render_dated:
  assumes "\<forall>j\<ge>k. valid_civil (clk j) \<and> fmt_date (clk j) = day" "render clk k True p = (out, k', start)"
  shows "list_all (\<lambda>l. timestampDate l = Some day) (log_lines out)"
  using assms
proof (induction "length p" arbitrary: p k out rule: less_induct)
  case less
  show ?case
  proof (cases "p = []")
    case False
    let ?rest = "drop (length (first_line p)) p"
    obtain out' where out: "out = stamp (clk k) @ escape (first_line p) @ out'"
      and r: "render clk (Suc k) (eol \<in> set p) ?rest = (out', k', start)"
      using less.prems(2) by (auto simp: render_start [OF False] render_line [OF False] split: prod.splits)
    have date: "timestampDate (stamp (clk k) @ s) = Some day" for s
      using less.prems(1) timestampDate_stamp by force
    show ?thesis
    proof (cases "eol \<in> set p")
      case True
      then obtain a where a: "escape (first_line p) = a @ [eol]" "eol \<notin> set a"
        using escape_line(1) by blast
      have "list_all (\<lambda>l. timestampDate l = Some day) (log_lines out')"
        using r True False length_first_line [OF False] less.prems(1)
        by (intro less.hyps [of ?rest "Suc k"]) auto
      then show ?thesis
        using log_lines_line [of "stamp (clk k) @ a" out'] a eol_fmt_timestamp date
        by (simp add: out)
    next
      case no: False
      then have "?rest = []" by (simp add: first_line_def)
      then have "out' = []" using r by simp
      then show ?thesis
        using escape_line(2) [OF no] eol_fmt_timestamp [of "clk k"] date
        by (simp add: out log_lines_no_eol)
    qed
  qed (use less.prems in simp)
qed

text \<open>A file all of whose lines are dated the same earlier day leaves whole.\<close>

lemma dated_same:
  "list_all (\<lambda>l. timestampDate l = Some day) ls \<Longrightarrow> dated d ls = map (\<lambda>l. (Some day, l)) ls"
  by (induction ls arbitrary: d) (simp_all add: Let_def)

lemma one_day_leaves:
  assumes "list_all (\<lambda>l. timestampDate l = Some day) (log_lines content)" "day < today"
  shows "staying today content = ''''" "leaving_on today content day = content"
    "fst ` set (leaving today content) = (if content = '''' then {} else {Some day})"
proof -
  have d: "dated None (log_lines content) = map (\<lambda>l. (Some day, l)) (log_lines content)"
    by (rule dated_same [OF assms(1)])
  have tw: "takeWhile (before_day today) (map (\<lambda>l. (Some day, l)) ls) = map (\<lambda>l. (Some day, l)) ls"
    "dropWhile (before_day today) (map (\<lambda>l. (Some day, l)) ls) = []" for ls
    using assms(2) by (auto simp: before_day_def takeWhile_eq_all_conv dropWhile_eq_Nil_conv)
  show "staying today content = ''''" by (simp add: staying_def d tw)
  show "leaving_on today content day = content"
    by (simp add: leaving_on_def leaving_def d tw filter_map o_def)
  show "fst ` set (leaving today content) = (if content = '''' then {} else {Some day})"
    by (simp add: leaving_def d tw image_image image_constant_conv)
qed

section \<open>A failed reopening\<close>

text \<open>A writer without an open file whose path exists cannot write until the day turns.\<close>

lemma Write_without_file:
  assumes "lw_file w = NoFile" "\<not> lw_closed w" "lw_start w" "q \<noteq> []"
    "gm_get (lf_dir (wd_fs wd)) (lw_path w) \<noteq> None"
    "fmt_date (en_clock en (wd_clock wd)) = lw_date w" "en_stat en (wd_clock wd)"
  shows "Write en q w wd = ((0, Some StatFileFailed), w, wd\<lparr>wd_clock := Suc (wd_clock wd)\<rparr>)"
  using assms
  by (auto simp: Write_def write_loop.simps beginLine_def Let_def ensureCurrent_def split: option.splits)

lemma Write_reopen_fails:
  assumes "lw_file w = OpenFile i" "\<not> lw_closed w" "lw_start w" "p \<noteq> []"
    "gm_get (lf_dir (wd_fs wd)) (lw_path w) = Some j" "j \<noteq> i"
    "fmt_date (en_clock en (wd_clock wd)) = lw_date w" "en_stat en (wd_clock wd)"
    "en_fstat en (wd_clock wd)" "en_close en (wd_clock wd)" "\<not> en_open en (wd_clock wd)"
  shows "Write en p w wd =
    ((0, Some OpenFailed), w\<lparr>lw_file := NoFile\<rparr>, wd\<lparr>wd_clock := Suc (wd_clock wd)\<rparr>)"
  using assms
  by (simp add: Write_def write_loop.simps beginLine_def Let_def ensureCurrent_def reopen_def
      closeBeforeReopen_def openAppendFile_def)

section \<open>The contract of \<open>io.Writer\<close>\<close>

lemma writeEscapedLine_short:
  assumes "writeEscapedLine p sk = ((k, fin, False), sk')"
  shows "k < length (first_line p)"
proof (rule ccontr)
  assume "\<not> k < length (first_line p)"
  then have "take k (first_line p) = first_line p" by simp
  then show False
    using writeEscapedLine_writes(2,7) [OF assms] room_for_le [of sk "length (escape (first_line p))"] by simp
qed

lemma length_first_line_le: "length (first_line p) \<le> length p"
  using first_line_prefix [of p] by (metis le_add1 length_append)

lemma writeLine_short:
  "writeLine w p wd = ((k, fin, False), wd') \<Longrightarrow> k < length p"
  using length_first_line_le [of p]
  by (auto simp: writeLine_def with_file_def split: log_handle.splits prod.splits
      dest!: writeEscapedLine_short)

lemma write_loop_count:
  "write_loop en p c w wd = ((n, e), w', wd') \<Longrightarrow>
    c \<le> n \<and> n \<le> c + length p \<and> (e = None) = (n = c + length p)"
proof (induction "length p" arbitrary: p c w wd rule: less_induct)
  case less
  show ?case
  proof (cases "p = []")
    case True
    then show ?thesis using less.prems by (simp add: write_loop.simps)
  next
    case False
    obtain e1 w1 wd1 where b: "beginLine en w wd = (e1, w1, wd1)" by (metis prod.exhaust)
    obtain k fin ok wd2 where l: "writeLine w1 p wd1 = ((k, fin, ok), wd2)" by (metis prod.exhaust)
    consider "e1 \<noteq> None" | "e1 = None" "\<not> ok" | "e1 = None" "ok" by blast
    then show ?thesis
    proof cases
      case 1
      then show ?thesis using less.prems False b by (auto simp: write_loop.simps [of en p])
    next
      case 2
      then show ?thesis
        using less.prems False b l writeLine_short [of w1 p wd1 k fin wd2] by (auto simp: write_loop.simps [of en p])
    next
      case 3
      have "0 < k \<and> k \<le> length p" using writeLine_progress [of w1 p wd1 k fin wd2] l 3 False by simp
      moreover have "write_loop en (drop k p) (c + k) (if fin then w1\<lparr>lw_start := True\<rparr> else w1) wd2 = ((n, e), w', wd')"
        using less.prems False b l 3 by (simp add: write_loop.simps [of en p])
      ultimately show ?thesis using less.hyps [of "drop k p" "c + k"] False by fastforce
    qed
  qed
qed

end
