(* ===== verification/Log_Follow.thy ===== *)
theory Log_Follow
  imports Log_Writer
begin

text \<open>
  \<open>logfile/entry.go\<close> and \<open>logfile/follow.go\<close>: a follower polls the log files of the tasks and emits
  the complete lines appended since the last poll, with the time their stamp carries.
\<close>

section \<open>Entries\<close>

datatype log_stream = StreamStdout | StreamStderr

record log_source =
  so_app :: string
  so_path :: string
  so_stream :: log_stream

record log_entry =
  le_time :: civil
  le_app :: string
  le_stream :: log_stream
  le_message :: string

definition entry_string :: "log_entry \<Rightarrow> string" where
  "entry_string e =
     ''['' @ fmt_timestamp (le_time e) @ ''] '' @ le_app e @ '' | '' @ le_message e"

definition newEntry :: "log_source \<Rightarrow> string \<Rightarrow> civil \<Rightarrow> log_entry" where
  "newEntry src line observedAt =
     (let entry = \<lparr>le_time = observedAt, le_app = so_app src, le_stream = so_stream src,
            le_message = line\<rparr>
      in if length line < 22 \<or> line ! 0 \<noteq> CHR ''['' \<or> take 2 (drop 20 line) \<noteq> ''] '' then entry
         else (case parse_timestamp (take 19 (drop 1 line)) of
                 None \<Rightarrow> entry
               | Some t \<Rightarrow>
                   entry\<lparr>le_time := t, le_message := trim_suffix (drop 22 line) [CHR 0x0D]\<rparr>))"

section \<open>One source\<close>

text \<open>\<open>fo_info\<close> is the identity of the file last seen, an inode.\<close>

record follow_state =
  fo_source :: log_source
  fo_info :: "nat option"
  fo_offset :: nat
  fo_pending :: string

datatype follow_error = StatSource string | ReadSource string

text \<open>The loop over the combined bytes: the lines completed, and what follows the last newline.\<close>

fun line_loop :: "string \<Rightarrow> string \<Rightarrow> string list \<times> string" where
  "line_loop line [] = ([], line)"
| "line_loop line (c # cs) =
     (if c = eol then (case line_loop '''' cs of (ls, r) \<Rightarrow> (line # ls, r))
      else line_loop (line @ [c]) cs)"

definition completeEntries :: "follow_state \<Rightarrow> string \<Rightarrow> civil \<Rightarrow> log_entry list \<times> follow_state" where
  "completeEntries st data observedAt =
     (case line_loop '''' (fo_pending st @ data) of
        (ls, rest) \<Rightarrow>
          (map (\<lambda>l. newEntry (fo_source st) l observedAt) ls, st\<lparr>fo_pending := rest\<rparr>))"

text \<open>
  The bytes of a section of the file at a path: those the file has when it is read, which may be
  fewer than its size promised. \<open>ok\<close> is false if opening, reading or closing it fails.
\<close>

definition readFollowBytes :: "bool \<Rightarrow> string \<Rightarrow> nat \<Rightarrow> nat \<Rightarrow> log_fs \<Rightarrow> string option" where
  "readFollowBytes ok path offset len fs =
     (if \<not> ok then None else map_option (\<lambda>c. take len (drop offset c)) (fs_read path fs))"

text \<open>\<open>fs0\<close> is the file system at the \<open>Stat\<close>, \<open>fs1\<close> the one the bytes are read from.\<close>

definition pollFollowState ::
  "bool \<Rightarrow> bool \<Rightarrow> log_fs \<Rightarrow> log_fs \<Rightarrow> follow_state \<Rightarrow> civil \<Rightarrow>
   (follow_error + log_entry list) \<times> follow_state" where
  "pollFollowState stat_ok read_ok fs0 fs1 st observedAt =
     (let path = so_path (fo_source st) in
      case gm_get (lf_dir fs0) path of
        None \<Rightarrow> (Inr [], st\<lparr>fo_info := None, fo_offset := 0, fo_pending := ''''\<rparr>)
      | Some i \<Rightarrow>
          if \<not> stat_ok then (Inl (StatSource path), st)
          else
            (let len = length (lf_data fs0 i);
                 st1 = (if fo_info st \<noteq> Some i \<or> len < fo_offset st
                        then st\<lparr>fo_offset := 0, fo_pending := ''''\<rparr> else st);
                 st2 = st1\<lparr>fo_info := Some i\<rparr>
             in if len = fo_offset st2 then (Inr [], st2)
                else (case readFollowBytes read_ok path (fo_offset st2) (len - fo_offset st2) fs1 of
                        None \<Rightarrow> (Inl (ReadSource path), st2)
                      | Some data \<Rightarrow>
                          (case completeEntries (st2\<lparr>fo_offset := fo_offset st2 + length data\<rparr>) data observedAt of
                             (entries, st3) \<Rightarrow> (Inr entries, st3)))))"

section \<open>All sources\<close>

text \<open>
  A follower: the states, and the error channel, whose buffer drops what it has no room for. Nobody
  is assumed to read it.
\<close>

record follower =
  fl_states :: "follow_state list"
  fl_errors :: "follow_error list"

definition sendFollowError :: "nat \<Rightarrow> follow_error \<Rightarrow> follower \<Rightarrow> follower" where
  "sendFollowError cap e fl =
     (if length (fl_errors fl) < cap then fl\<lparr>fl_errors := fl_errors fl @ [e]\<rparr> else fl)"

definition startState :: "(string \<Rightarrow> bool) \<Rightarrow> log_fs \<Rightarrow> log_source \<Rightarrow> follow_error option \<times> follow_state" where
  "startState stat_ok fs src =
     (let st = \<lparr>fo_source = src, fo_info = None, fo_offset = 0, fo_pending = ''''\<rparr> in
      case gm_get (lf_dir fs) (so_path src) of
        None \<Rightarrow> (None, st)
      | Some i \<Rightarrow>
          if stat_ok (so_path src)
          then (None, st\<lparr>fo_info := Some i, fo_offset := length (lf_data fs i)\<rparr>)
          else (Some (StatSource (so_path src)), st))"

definition error_room :: "log_source list \<Rightarrow> nat" where
  "error_room sources = max 1 (length sources)"

definition follow_start :: "(string \<Rightarrow> bool) \<Rightarrow> log_fs \<Rightarrow> log_source list \<Rightarrow> follower" where
  "follow_start stat_ok fs sources =
     (let started = map (startState stat_ok fs) sources in
      fold (sendFollowError (error_room sources)) (List.map_filter fst started)
        \<lparr>fl_states = map snd started, fl_errors = []\<rparr>)"

text \<open>
  One tick of the poll loop, over the states in order; each poll sees the file systems, the clock
  and the faults of its own moment.
\<close>

record poll_view =
  pv_stat :: bool
  pv_read :: bool
  pv_fs0 :: log_fs
  pv_fs1 :: log_fs
  pv_now :: civil

fun follow_tick ::
  "nat \<Rightarrow> (poll_view \<times> follow_state) list \<Rightarrow> follower \<Rightarrow> log_entry list \<times> follower" where
  "follow_tick cap [] fl = ([], fl)"
| "follow_tick cap ((v, st) # rest) fl =
     (case pollFollowState (pv_stat v) (pv_read v) (pv_fs0 v) (pv_fs1 v) st (pv_now v) of
        (r, st1) \<Rightarrow>
          (let fl1 = fl\<lparr>fl_states := fl_states fl @ [st1]\<rparr> in
           case r of
             Inl e \<Rightarrow> follow_tick cap rest (sendFollowError cap e fl1)
           | Inr es \<Rightarrow> (case follow_tick cap rest fl1 of (es', fl2) \<Rightarrow> (es @ es', fl2))))"

definition follow_poll :: "log_source list \<Rightarrow> poll_view list \<Rightarrow> follower \<Rightarrow> log_entry list \<times> follower" where
  "follow_poll sources views fl =
     follow_tick (error_room sources) (zip views (fl_states fl)) (fl\<lparr>fl_states := []\<rparr>)"

section \<open>Lines are delivered whole, once, in order\<close>

lemma line_loop_append:
  "line_loop a (s @ t) =
     (case line_loop a s of (ls, r) \<Rightarrow> (case line_loop r t of (ls', r') \<Rightarrow> (ls @ ls', r')))"
  by (induction a s rule: line_loop.induct) (auto split: prod.splits)

lemma line_loop_no_eol: "eol \<notin> set s \<Longrightarrow> line_loop a s = ([], a @ s)"
  by (induction s arbitrary: a) auto

lemma line_loop_line: "eol \<notin> set l \<Longrightarrow>
    line_loop a (l @ eol # s) = (case line_loop [] s of (ls, r) \<Rightarrow> ((a @ l) # ls, r))"
  by (simp add: line_loop_append line_loop_no_eol split: prod.splits)

lemma line_loop_content:
  "line_loop a s = (ls, r) \<Longrightarrow> eol \<notin> set a \<Longrightarrow>
    a @ s = concat (map (\<lambda>l. l @ [eol]) ls) @ r \<and> eol \<notin> set r \<and> (\<forall>l\<in>set ls. eol \<notin> set l)"
  by (induction a s arbitrary: ls r rule: line_loop.induct) (auto split: prod.splits if_splits)

lemma completeEntries_chunks:
  "completeEntries st (d @ e) t =
     (case completeEntries st d t of
        (es, st1) \<Rightarrow> (case completeEntries st1 e t of (es', st2) \<Rightarrow> (es @ es', st2)))"
proof (cases "line_loop [] (fo_pending st @ d)")
  case (Pair ls r)
  then show ?thesis
    using line_loop_append [of "[]" "fo_pending st @ d" e] line_loop_append [of "[]" r e]
      line_loop_content [OF Pair] line_loop_no_eol [of r "[]"]
    by (simp add: completeEntries_def split: prod.splits)
qed

text \<open>A poll of a file that has only grown reads exactly the bytes appended.\<close>

definition following :: "follow_state \<Rightarrow> nat \<Rightarrow> log_fs \<Rightarrow> bool" where
  "following st i fs \<longleftrightarrow>
     gm_get (lf_dir fs) (so_path (fo_source st)) = Some i \<and> fo_info st = Some i \<and>
     fo_offset st \<le> length (lf_data fs i) \<and> eol \<notin> set (fo_pending st)"

lemma poll_following:
  assumes "following st i fs"
  shows "pollFollowState True True fs fs st t =
    (case completeEntries (st\<lparr>fo_offset := length (lf_data fs i)\<rparr>) (drop (fo_offset st) (lf_data fs i)) t of
       (es, st1) \<Rightarrow> (Inr es, st1))"
proof (cases "fo_offset st = length (lf_data fs i)")
  case True
  then have "st\<lparr>fo_offset := length (lf_data fs i), fo_pending := fo_pending st\<rparr> = st"
    "st\<lparr>fo_info := Some i\<rparr> = st"
    using assms by (cases st; simp add: following_def)+
  then show ?thesis
    using assms True
    by (simp add: following_def pollFollowState_def Let_def completeEntries_def line_loop_no_eol)
next
  case False
  then show ?thesis
    using assms
    by (cases st) (simp add: following_def pollFollowState_def Let_def readFollowBytes_def fs_read_def not_less)
qed

lemma poll_following_keeps:
  assumes "following st i fs" "pollFollowState True True fs fs st t = (Inr es, st1)"
  shows "following st1 i fs" "fo_source st1 = fo_source st" "fo_offset st1 = length (lf_data fs i)"
  using assms poll_following [OF assms(1), of t]
  by (auto simp: following_def completeEntries_def split: prod.splits
      dest!: line_loop_content [of "[]"])

lemma following_append:
  "following st i fs \<Longrightarrow> following st i (fs_append i b fs)"
  by (simp add: following_def fs_append_def)

text \<open>Polling between two appends or after both delivers the same lines and ends in the same state.\<close>

lemma poll_chunks:
  assumes "following st i fs" "fo_offset st = length (lf_data fs i)"
    "pollFollowState True True (fs_append i a fs) (fs_append i a fs) st t = (Inr es, st1)"
    "pollFollowState True True (fs_append i (a @ b) fs) (fs_append i (a @ b) fs) st1 t = (Inr es', st2)"
  shows "pollFollowState True True (fs_append i (a @ b) fs) (fs_append i (a @ b) fs) st t =
    (Inr (es @ es'), st2)"
proof -
  let ?c = "lf_data fs i"
  have f1: "following st i (fs_append i a fs)" and f2: "following st i (fs_append i (a @ b) fs)"
    using assms(1) by (simp_all add: following_append)
  have ff: "fs_append i (a @ b) fs = fs_append i b (fs_append i a fs)"
    by (simp add: fs_append_def)
  note k = poll_following_keeps [OF f1 assms(3)]
  have f3: "following st1 i (fs_append i (a @ b) fs)"
    unfolding ff by (rule following_append [OF k(1)])
  have d: "lf_data (fs_append i x fs) i = ?c @ x" for x by (simp add: fs_append_def)
  have up: "completeEntries (s\<lparr>fo_offset := n\<rparr>) x t =
      (fst (completeEntries s x t), (snd (completeEntries s x t))\<lparr>fo_offset := n\<rparr>)" for s n x
    by (simp add: completeEntries_def split: prod.splits)
  have 1: "(es, st1) = completeEntries (st\<lparr>fo_offset := length (?c @ a)\<rparr>) a t"
    using poll_following [OF f1, of t] assms(2,3) by (simp add: d split: prod.splits)
  have 2: "(es', st2) = completeEntries (st1\<lparr>fo_offset := length (?c @ a @ b)\<rparr>) b t"
    using poll_following [OF f3, of t] k(3) assms(4) by (simp add: d split: prod.splits)
  show ?thesis
    using poll_following [OF f2, of t] assms(2) 1 2
    by (simp add: d completeEntries_chunks up split: prod.splits)
qed

section \<open>From the writer to the follower\<close>

text \<open>The entries of complete lines written from clock reading \<open>k\<close> on.\<close>

fun written_entries :: "log_source \<Rightarrow> (nat \<Rightarrow> civil) \<Rightarrow> nat \<Rightarrow> string list \<Rightarrow> log_entry list" where
  "written_entries src clk k [] = []"
| "written_entries src clk k (l # ls) =
     \<lparr>le_time = clk k, le_app = so_app src, le_stream = so_stream src,
       le_message = escape l @ [backslash, CHR ''n'']\<rparr> # written_entries src clk (Suc k) ls"

lemma newEntry_stamped:
  assumes "valid_civil t"
  shows "newEntry src (stamp t @ x) now =
    \<lparr>le_time = t, le_app = so_app src, le_stream = so_stream src, le_message = trim_suffix x [CHR 0x0D]\<rparr>"
proof -
  have "stamp t @ x = CHR ''['' # fmt_timestamp t @ '']'' @ '' '' @ x" by (simp add: stamp_def)
  moreover have "drop 20 (stamp t @ x) = CHR '']'' # CHR '' '' # x" "drop 22 (stamp t @ x) = x"
    by (simp_all add: stamp_def)
  moreover have "take 19 (drop 1 (stamp t @ x)) = fmt_timestamp t" by (simp add: stamp_def)
  ultimately show ?thesis
    by (simp add: newEntry_def parse_timestamp_fmt [OF assms])
qed

lemma trim_no_suffix: "last x \<noteq> c \<Longrightarrow> trim_suffix x [c] = x"
  by (auto simp: trim_suffix_def suffix_def)

lemma render_whole_line:
  assumes "eol \<notin> set l"
  shows "render clk k True (l @ eol # p) =
    (case render clk (Suc k) True p of
       (out, k', s) \<Rightarrow> (stamp (clk k) @ escape l @ backslash # CHR ''n'' # eol # out, k', s))"
proof -
  have "first_line (l @ eol # p) = l @ [eol]" "drop (length (first_line (l @ eol # p))) (l @ eol # p) = p"
    using assms by (induction l) auto
  then show ?thesis
    by (simp add: render_start render_line esc_eol split: prod.splits)
qed

lemma render_last_line:
  "eol \<notin> set p \<Longrightarrow> fst (render clk k True p) = (if p = [] then [] else stamp (clk k) @ escape p)"
  using render_line [of p clk "Suc k"] by (simp add: render_start first_line_def split: prod.splits)

lemma line_loop_render:
  assumes "\<forall>j\<ge>k. valid_civil (clk j)" "\<forall>l\<in>set ls. eol \<notin> set l" "eol \<notin> set r"
    "line_loop [] (fst (render clk k True (concat (map (\<lambda>l. l @ [eol]) ls) @ r))) = (lines, tail)"
  shows "map (\<lambda>l. newEntry src l now) lines = written_entries src clk k ls \<and>
    tail = (if r = [] then [] else stamp (clk (k + length ls)) @ escape r)"
  using assms
proof (induction ls arbitrary: k lines)
  case Nil
  then have "eol \<notin> set (fst (render clk k True r))"
    using eol_escape eol_fmt_timestamp by (simp add: render_last_line)
  then show ?case
    using Nil line_loop_no_eol [of "fst (render clk k True r)" "[]"] render_last_line [of r clk k] by simp
next
  case (Cons l ls)
  let ?p = "concat (map (\<lambda>l. l @ [eol]) ls) @ r"
  let ?x = "escape l @ [backslash, CHR ''n'']"
  have l: "eol \<notin> set l" using Cons.prems(2) by simp
  have "backslash \<noteq> eol" "CHR ''n'' \<noteq> eol" by code_simp+
  then have "eol \<notin> set (stamp (clk k) @ ?x)" using eol_escape [OF l] eol_fmt_timestamp by simp
  then obtain lines' where lines: "lines = (stamp (clk k) @ ?x) # lines'"
    and IH: "line_loop [] (fst (render clk (Suc k) True ?p)) = (lines', tail)"
    using Cons.prems(4) line_loop_line [of "stamp (clk k) @ ?x" "[]" "fst (render clk (Suc k) True ?p)"]
    by (auto simp: render_whole_line [OF l] split: prod.splits)
  have "CHR ''n'' \<noteq> CHR 0x0D" by simp
  then have "newEntry src (stamp (clk k) @ ?x) now =
      \<lparr>le_time = clk k, le_app = so_app src, le_stream = so_stream src, le_message = ?x\<rparr>"
    using Cons.prems(1) trim_no_suffix [of ?x "CHR 0x0D"] by (subst newEntry_stamped) simp_all
  then show ?case
    using Cons.IH [of "Suc k" lines'] Cons.prems(1-3) IH by (simp add: lines)
qed

text \<open>
  A follower that is up to date sees, after a \<open>Write\<close> of complete lines and a rest, one entry for
  each line, with the time of its stamp, and keeps the rest.
\<close>

lemma follow_sees_writes:
  assumes "settled en w i wd" "lw_start w" "\<forall>j\<ge>wd_clock wd. valid_civil (en_clock en j)"
    "so_path (fo_source st) = lw_path w" "fo_info st = Some i"
    "fo_offset st = length (lf_data (wd_fs wd) i)" "fo_pending st = []"
    "\<forall>l\<in>set ls. eol \<notin> set l" "eol \<notin> set r"
    "Write en (concat (map (\<lambda>l. l @ [eol]) ls) @ r) w wd = (res, w1, wd1)"
  shows "pollFollowState True True (wd_fs wd1) (wd_fs wd1) st now =
    (Inr (written_entries (fo_source st) (en_clock en) (wd_clock wd) ls),
     st\<lparr>fo_offset := length (lf_data (wd_fs wd1) i),
       fo_pending := (if r = [] then [] else stamp (en_clock en (wd_clock wd + length ls)) @ escape r)\<rparr>)"
proof -
  let ?p = "concat (map (\<lambda>l. l @ [eol]) ls) @ r"
  obtain out k s where rd: "render (en_clock en) (wd_clock wd) True ?p = (out, k, s)"
    by (metis prod.exhaust)
  have wd1: "wd1 = grow i out k wd"
    using assms(2,10) by (simp add: Write_settled [OF assms(1)] rd)
  obtain lines tail where ll: "line_loop [] out = (lines, tail)" by (metis prod.exhaust)
  have fs1: "wd_fs wd1 = fs_append i out (wd_fs wd)" by (simp add: wd1 grow_def)
  have fol: "following st i (wd_fs wd1)"
    using assms(1,4-7) by (simp add: fs1 following_def settled_def fs_append_def)
  have "drop (fo_offset st) (lf_data (wd_fs wd1) i) = out"
    using assms(6) by (simp add: fs1 fs_append_def)
  then show ?thesis
    using line_loop_render [OF assms(3,8,9), of lines tail "fo_source st" now] ll rd assms(7)
    by (simp add: poll_following [OF fol] completeEntries_def)
qed

end
