(* ===== verification/Log_Files.thy ===== *)
theory Log_Files
  imports Log_Rotation "HOL-Library.Multiset"
begin

text \<open>
  \<open>logfile/files.go\<close>: the log directory read as one group of files per task, current files first,
  then archives from the newest day on.
\<close>

record file_info =
  fi_path :: string
  fi_name :: string
  fi_size :: int
  fi_mtime :: gotime
  fi_current :: bool

record task_logs =
  tl_task :: string
  tl_files :: "file_info list"

text \<open>A directory entry; its \<open>Info\<close> may fail.\<close>

record dir_entry =
  de_name :: string
  de_isdir :: bool
  de_info :: "(int \<times> gotime) option"

definition trailingDate :: "string \<Rightarrow> string" where
  "trailingDate stem =
     (if length stem \<le> 10 then ''''
      else let candidate = drop (length stem - 10) stem in
           if stem ! (length stem - 11) \<noteq> CHR ''.'' then ''''
           else if \<not> date_ok candidate then '''' else candidate)"

definition archiveDate :: "string \<Rightarrow> string" where
  "archiveDate name =
     (let date = trailingDate (trim_suffix name (path_ext name)) in
      if date \<noteq> '''' then date else trailingDate name)"

definition taskStem :: "string \<Rightarrow> string" where
  "taskStem name =
     (let stem = trim_suffix name (path_ext name); date = trailingDate stem in
      if date \<noteq> '''' then take (length stem - length date - 1) stem else stem)"

definition listEntries :: "string \<Rightarrow> dir_entry list \<Rightarrow> file_info list" where
  "listEntries dir entries =
     List.map_filter
       (\<lambda>e. if de_isdir e then None
            else (case de_info e of
                    None \<Rightarrow> None
                  | Some (len, mtime) \<Rightarrow>
                      Some \<lparr>fi_path = path_join [dir, de_name e], fi_name = de_name e, fi_size = len,
                        fi_mtime = mtime, fi_current = (archiveDate (de_name e) = '''')\<rparr>))
       entries"

definition file_before :: "file_info \<Rightarrow> file_info \<Rightarrow> bool" where
  "file_before l r =
     (if fi_current l \<noteq> fi_current r then fi_current l
      else if archiveDate (fi_name l) \<noteq> archiveDate (fi_name r)
      then archiveDate (fi_name r) < archiveDate (fi_name l)
      else fi_name l < fi_name r)"

text \<open>\<open>sort.Slice\<close> with that order, which is total on files of different names.\<close>

fun insert_file :: "file_info \<Rightarrow> file_info list \<Rightarrow> file_info list" where
  "insert_file f [] = [f]"
| "insert_file f (g # gs) = (if file_before g f then g # insert_file f gs else f # g # gs)"

definition sortFiles :: "file_info list \<Rightarrow> file_info list" where
  "sortFiles files = foldr insert_file files []"

definition group_files :: "file_info list \<Rightarrow> file_info list gomap" where
  "group_files files =
     fold (\<lambda>f grouped.
             gm_set (taskStem (fi_name f))
               ((case gm_get grouped (taskStem (fi_name f)) of None \<Rightarrow> [] | Some fs \<Rightarrow> fs) @ [f]) grouped)
       files []"

text \<open>What \<open>ReadDir\<close> returns: the entries, that there is no directory, or an error.\<close>

datatype read_dir = DirEntries "dir_entry list" | NoDir | DirError

definition ListTasks :: "string \<Rightarrow> read_dir \<Rightarrow> task_logs list option" where
  "ListTasks dir rd =
     (case rd of
        NoDir \<Rightarrow> Some []
      | DirError \<Rightarrow> None
      | DirEntries entries \<Rightarrow>
          (let grouped = group_files (listEntries dir entries) in
           Some (map (\<lambda>name. \<lparr>tl_task = name,
                        tl_files = sortFiles (case gm_get grouped name of None \<Rightarrow> [] | Some fs \<Rightarrow> fs)\<rparr>)
                  (sorted_keys grouped))))"

definition TotalSize :: "task_logs \<Rightarrow> int" where
  "TotalSize a = fold (\<lambda>f total. total + fi_size f) (tl_files a) 0"

section \<open>The order of the files\<close>

lemma file_before_trans: "file_before a b \<Longrightarrow> file_before b c \<Longrightarrow> file_before a c"
  by (auto simp: file_before_def split: if_splits)

lemma file_before_total: "fi_name a \<noteq> fi_name b \<Longrightarrow> file_before a b \<or> file_before b a"
  by (auto simp: file_before_def)

lemma file_before_irrefl [simp]: "\<not> file_before a a"
  by (simp add: file_before_def)

lemma mset_insert_file [simp]: "mset (insert_file f gs) = add_mset f (mset gs)"
  by (induction gs) auto

lemma mset_sortFiles [simp]: "mset (sortFiles fs) = mset fs"
  by (induction fs) (simp_all add: sortFiles_def)

lemma set_insert_file [simp]: "set (insert_file f gs) = insert f (set gs)"
  by (induction gs) auto

lemma sorted_insert_file:
  assumes "sorted_wrt file_before gs" "\<forall>g\<in>set gs. fi_name g \<noteq> fi_name f"
  shows "sorted_wrt file_before (insert_file f gs)"
  using assms
proof (induction gs)
  case (Cons g gs)
  then show ?case
    using file_before_total [of g f] file_before_trans [of f g] by (cases "file_before g f") auto
qed simp

lemma sorted_sortFiles:
  assumes "distinct (map fi_name fs)"
  shows "sorted_wrt file_before (sortFiles fs)"
  using assms
proof (induction fs)
  case (Cons f fs)
  have "set (sortFiles fs) = set fs" by (rule mset_eq_setD) simp
  then show ?case
    using Cons by (auto simp: sortFiles_def image_iff intro!: sorted_insert_file) metis
qed (simp add: sortFiles_def)

section \<open>Every file is listed under one task\<close>

definition stem_of :: "file_info \<Rightarrow> string" where
  "stem_of f = taskStem (fi_name f)"

lemma gm_ok_group: "gm_ok g \<Longrightarrow> gm_ok (fold (\<lambda>f g. gm_set (k f) (v f g) g) files g)"
  by (induction files arbitrary: g) simp_all

lemma group_files_get:
  "gm_get (group_files files) t =
    (let fs = filter (\<lambda>f. stem_of f = t) files in if fs = [] then None else Some fs)"
proof (induction files rule: rev_induct)
  case (snoc f files)
  have "group_files (files @ [f]) =
      gm_set (stem_of f) ((case gm_get (group_files files) (stem_of f) of None \<Rightarrow> [] | Some fs \<Rightarrow> fs) @ [f])
        (group_files files)"
    by (simp add: group_files_def stem_of_def)
  then show ?case
    using snoc by (auto simp: gm_get_set Let_def)
qed (simp add: group_files_def)

lemma ListTasks_entries:
  assumes "ListTasks dir (DirEntries entries) = Some tasks"
  shows "sorted (map tl_task tasks) \<and> distinct (map tl_task tasks)"
    "t \<in> set tasks \<Longrightarrow>
      tl_files t = sortFiles (filter (\<lambda>f. stem_of f = tl_task t) (listEntries dir entries))"
    "set (map tl_task tasks) = set (map stem_of (listEntries dir entries))"
proof -
  define g where "g = group_files (listEntries dir entries)"
  have "gm_ok g"
    unfolding g_def group_files_def by (rule gm_ok_group) simp
  moreover have t: "tasks = map (\<lambda>name. \<lparr>tl_task = name,
      tl_files = sortFiles (case gm_get g name of None \<Rightarrow> [] | Some fs \<Rightarrow> fs)\<rparr>) (sorted_keys g)"
    using assms by (simp add: ListTasks_def g_def Let_def)
  ultimately show "sorted (map tl_task tasks) \<and> distinct (map tl_task tasks)"
    by (simp add: o_def) (simp add: sorted_keys_def)
  show "tl_files t = sortFiles (filter (\<lambda>f. stem_of f = tl_task t) (listEntries dir entries))"
    if "t \<in> set tasks"
    using that by (auto simp: t g_def group_files_get Let_def)
  show "set (map tl_task tasks) = set (map stem_of (listEntries dir entries))"
    by (auto simp: t o_def gm_keys_get g_def group_files_get Let_def filter_empty_conv split: if_splits)
qed

section \<open>Names and dates\<close>

lemma path_ext_append:
  assumes "CHR ''.'' \<notin> set e" "CHR ''/'' \<notin> set e"
  shows "path_ext (t @ CHR ''.'' # e) = CHR ''.'' # e"
proof -
  have "takeWhile (\<lambda>c. c \<noteq> CHR ''/'') (rev e @ CHR ''.'' # rev t) =
      rev e @ CHR ''.'' # takeWhile (\<lambda>c. c \<noteq> CHR ''/'') (rev t)"
    using assms(2) by (subst takeWhile_append2) auto
  then obtain u where "rev (takeWhile (\<lambda>c. c \<noteq> CHR ''/'') (rev (t @ CHR ''.'' # e))) = u @ CHR ''.'' # e"
    by simp
  then show ?thesis
    using str_last_index_append [OF assms(1), of u] by (simp add: path_ext_def)
qed

lemma date_ok_length: "date_ok d \<Longrightarrow> length d = 10"
  unfolding date_ok_def by (cases d rule: parse_date.cases) auto

lemma trailingDate_dot [simp]: "date_ok d \<Longrightarrow> trailingDate (t @ CHR ''.'' # d) = d"
  using date_ok_length [of d] by (auto simp: trailingDate_def Let_def)

lemma ArchivePath_name:
  assumes "CHR ''.'' \<notin> set e" "CHR ''/'' \<notin> set e"
  shows "ArchivePath (t @ CHR ''.'' # e) d = (t @ CHR ''.'' # d) @ CHR ''.'' # e"
  by (simp add: ArchivePath_def path_ext_append [OF assms])

text \<open>The archives of a task are recognised, and counted to it.\<close>

lemma taskStem_archive:
  assumes "CHR ''.'' \<notin> set e" "CHR ''/'' \<notin> set e" "date_ok d"
  shows "taskStem (ArchivePath (t @ CHR ''.'' # e) d) = t" "archiveDate (ArchivePath (t @ CHR ''.'' # e) d) = d"
proof -
  note p = ArchivePath_name [OF assms(1,2)] path_ext_append [OF assms(1,2)]
  have "d \<noteq> ''''" "length d = 10" using date_ok_length [OF assms(3)] by auto
  then show "taskStem (ArchivePath (t @ CHR ''.'' # e) d) = t"
    "archiveDate (ArchivePath (t @ CHR ''.'' # e) d) = d"
    unfolding p(1) taskStem_def archiveDate_def p(2) trim_suffix_append Let_def
      trailingDate_dot [OF assms(3)] by simp_all
qed

lemma taskStem_current:
  assumes "CHR ''.'' \<notin> set e" "CHR ''/'' \<notin> set e"
  shows "taskStem (t @ CHR ''.'' # e) =
    (if trailingDate t = '''' then t else take (length t - length (trailingDate t) - 1) t)"
  by (simp add: taskStem_def path_ext_append [OF assms] Let_def)

end
