(* ===== verification/Daemon_RPC.thy ===== *)
theory Daemon_RPC
  imports Daemon_Steps Engine_Results
begin

text \<open>
  \<open>model/protocol.go\<close>, \<open>model/workflow.go\<close>, \<open>daemon/network/handler.go\<close>: the requests of the CLI and
  what the daemon does with each. JSON is abstract: a request that decodes is a value, and a
  payload is the value it encodes.
\<close>

section \<open>Messages\<close>

text \<open>The strings of \<open>CommandType\<close>.\<close>

definition CmdStart :: string where "CmdStart = ''start''"
definition CmdStop :: string where "CmdStop = ''stop''"
definition CmdRestart :: string where "CmdRestart = ''restart''"
definition CmdPause :: string where "CmdPause = ''pause''"
definition CmdResume :: string where "CmdResume = ''resume''"
definition CmdDelete :: string where "CmdDelete = ''delete''"
definition CmdList :: string where "CmdList = ''list''"
definition CmdSave :: string where "CmdSave = ''save''"
definition CmdResurrect :: string where "CmdResurrect = ''resurrect''"
definition CmdKill :: string where "CmdKill = ''kill''"
definition CmdPing :: string where "CmdPing = ''ping''"
definition CmdStatus :: string where "CmdStatus = ''status''"
definition CmdWorkflowRegister :: string where "CmdWorkflowRegister = ''workflow_register''"
definition CmdWorkflowList :: string where "CmdWorkflowList = ''workflow_list''"
definition CmdWorkflowRun :: string where "CmdWorkflowRun = ''workflow_run''"
definition CmdWorkflowDelete :: string where "CmdWorkflowDelete = ''workflow_delete''"
definition CmdWorkflowStop :: string where "CmdWorkflowStop = ''workflow_stop''"

definition PM2Version :: string where "PM2Version = ''1.0.0''"

lemmas cmd_defs =
  CmdStart_def CmdStop_def CmdRestart_def CmdPause_def CmdResume_def CmdDelete_def CmdList_def
  CmdSave_def CmdResurrect_def CmdKill_def CmdPing_def CmdStatus_def CmdWorkflowRegister_def
  CmdWorkflowList_def CmdWorkflowRun_def CmdWorkflowDelete_def CmdWorkflowStop_def

record workflow_req =
  wq_Configs :: "wf_config list"
  wq_Ref :: string
  wq_RunID :: string
  wq_Wait :: bool

text \<open>A request from the socket is always a manual trigger.\<close>

definition WorkflowReq_Trigger :: "workflow_req \<Rightarrow> trigger" where
  "WorkflowReq_Trigger r = TriggerManual"

record rpc_request =
  rr_Command :: string
  rr_Name :: string
  rr_ID :: int
  rr_App :: "app_start_req option"
  rr_Workflow :: "workflow_req option"

definition command_req :: "string \<Rightarrow> rpc_request" where
  "command_req cmd =
     \<lparr>rr_Command = cmd, rr_Name = '''', rr_ID = 0, rr_App = None, rr_Workflow = None\<rparr>"

datatype payload =
    PayloadInfos "process_info list"
  | PayloadStatus daemon_info
  | PayloadRegister "string list" "warning list"
  | PayloadWorkflows "wf_status list"
  | PayloadRun wf_run

datatype rpc_error =
    DecodeFailed
  | MissingApp
  | MissingWorkflow
  | UnknownCommand string
  | ManagerError pm_error
  | EngineError engine_error

record rpc_response =
  rp_OK :: bool
  rp_Error :: "rpc_error option"
  rp_Payload :: "payload option"

definition resp_ok :: rpc_response where
  "resp_ok = \<lparr>rp_OK = True, rp_Error = None, rp_Payload = None\<rparr>"

definition resp_payload :: "payload \<Rightarrow> rpc_response" where
  "resp_payload p = \<lparr>rp_OK = True, rp_Error = None, rp_Payload = Some p\<rparr>"

definition resp_error :: "rpc_error \<Rightarrow> rpc_response" where
  "resp_error e = \<lparr>rp_OK = False, rp_Error = Some e, rp_Payload = None\<rparr>"

section \<open>Dispatch\<close>

record daemon =
  dm_pm :: pm
  dm_engine :: engine

record daemon_env =
  de_pm :: pm_env
  de_engine :: engine_env
  de_pid :: int

text \<open>
  What a request leaves to happen after its response: nothing, the run of a claimed workflow, the
  cancellation of a run, the end of the process.
\<close>

datatype rpc_effect = NoEffect | StartsRun wf_config active_run | CancelsRun active_run | Exits

definition pm_reply :: "pm_error option \<times> pm \<Rightarrow> daemon \<Rightarrow> (rpc_response \<times> rpc_effect) \<times> daemon" where
  "pm_reply r d =
     (case r of (err, pm1) \<Rightarrow>
        ((case err of Some e \<Rightarrow> resp_error (ManagerError e) | None \<Rightarrow> resp_ok, NoEffect), d\<lparr>dm_pm := pm1\<rparr>))"

definition with_workflow ::
  "rpc_request \<Rightarrow> (workflow_req \<Rightarrow> (rpc_response \<times> rpc_effect) \<times> daemon) \<Rightarrow> daemon \<Rightarrow>
   (rpc_response \<times> rpc_effect) \<times> daemon" where
  "with_workflow req k d =
     (case rr_Workflow req of None \<Rightarrow> ((resp_error MissingWorkflow, NoEffect), d) | Some wq \<Rightarrow> k wq)"

text \<open>
  A run that is not waited for is claimed here and executed later; a run that is waited for ends
  before the response is sent.
\<close>

definition RunWorkflow ::
  "engine_env \<Rightarrow> string \<Rightarrow> trigger \<Rightarrow> bool \<Rightarrow> engine \<Rightarrow>
   ((engine_error + wf_run) \<times> rpc_effect) \<times> engine" where
  "RunWorkflow ev ref trg wait eng =
     (if wait then (case Run_wait ev ref trg eng of (r, eng1) \<Rightarrow> ((r, NoEffect), eng1))
      else (case Run_claim ev ref trg eng of
              (Inl e, eng1) \<Rightarrow> ((Inl e, NoEffect), eng1)
            | (Inr (cfg, ar), eng1) \<Rightarrow> ((Inr (ar_Run ar), StartsRun cfg ar), eng1)))"

type_synonym rpc_reply = "(rpc_response \<times> rpc_effect) \<times> daemon"

definition rpc_start :: "daemon_env \<Rightarrow> rpc_request \<Rightarrow> daemon \<Rightarrow> rpc_reply" where
  "rpc_start en req d =
     (case rr_App req of
        None \<Rightarrow> ((resp_error MissingApp, NoEffect), d)
      | Some app \<Rightarrow>
          (case StartApp (de_pm en) app (dm_pm d) of
             ((infos, Some e), pm1) \<Rightarrow> ((resp_error (ManagerError e), NoEffect), d\<lparr>dm_pm := pm1\<rparr>)
           | ((infos, None), pm1) \<Rightarrow> ((resp_payload (PayloadInfos infos), NoEffect), d\<lparr>dm_pm := pm1\<rparr>)))"

definition rpc_register :: "daemon_env \<Rightarrow> daemon \<Rightarrow> workflow_req \<Rightarrow> rpc_reply" where
  "rpc_register en d wq =
     (case Engine_Register (de_engine en) (wq_Configs wq) (dm_engine d) of
        (Inl e, eng1) \<Rightarrow> ((resp_error (EngineError e), NoEffect), d\<lparr>dm_engine := eng1\<rparr>)
      | (Inr (keys, ws), eng1) \<Rightarrow>
          ((resp_payload (PayloadRegister keys ws), NoEffect), d\<lparr>dm_engine := eng1\<rparr>))"

definition rpc_run :: "daemon_env \<Rightarrow> daemon \<Rightarrow> workflow_req \<Rightarrow> rpc_reply" where
  "rpc_run en d wq =
     (case RunWorkflow (de_engine en) (wq_Ref wq) (WorkflowReq_Trigger wq) (wq_Wait wq) (dm_engine d) of
        ((Inl e, eff), eng1) \<Rightarrow> ((resp_error (EngineError e), eff), d\<lparr>dm_engine := eng1\<rparr>)
      | ((Inr run, eff), eng1) \<Rightarrow> ((resp_payload (PayloadRun run), eff), d\<lparr>dm_engine := eng1\<rparr>))"

definition rpc_delete :: "daemon_env \<Rightarrow> daemon \<Rightarrow> workflow_req \<Rightarrow> rpc_reply" where
  "rpc_delete en d wq =
     (case Engine_Delete (de_engine en) (wq_Ref wq) (dm_engine d) of
        (Some e, eng1) \<Rightarrow> ((resp_error (EngineError e), NoEffect), d\<lparr>dm_engine := eng1\<rparr>)
      | (None, eng1) \<Rightarrow> ((resp_ok, NoEffect), d\<lparr>dm_engine := eng1\<rparr>))"

definition rpc_stop :: "daemon \<Rightarrow> workflow_req \<Rightarrow> rpc_reply" where
  "rpc_stop d wq =
     (case StopRun_target (wq_RunID wq) (dm_engine d) of
        Inl e \<Rightarrow> ((resp_error (EngineError e), NoEffect), d)
      | Inr ar \<Rightarrow> ((resp_ok, CancelsRun ar), d))"

definition dispatch :: "daemon_env \<Rightarrow> rpc_request \<Rightarrow> daemon \<Rightarrow> rpc_reply" where
  "dispatch en req d =
     (let ev = de_pm en; pm = dm_pm d; cmd = rr_Command req in
      if cmd = CmdPing then ((resp_ok, NoEffect), d)
      else if cmd = CmdStatus then
        ((resp_payload (PayloadStatus (PM_Status (de_pid en) PM2Version pm)), NoEffect), d)
      else if cmd = CmdStart then rpc_start en req d
      else if cmd = CmdStop then pm_reply (StopByName ev (rr_Name req) pm) d
      else if cmd = CmdRestart then pm_reply (RestartByName ev (rr_Name req) pm) d
      else if cmd = CmdPause then pm_reply (PauseByName ev (rr_Name req) pm) d
      else if cmd = CmdResume then pm_reply (ResumeByName ev (rr_Name req) pm) d
      else if cmd = CmdDelete then pm_reply (DeleteByName ev (rr_Name req) pm) d
      else if cmd = CmdList then ((resp_payload (PayloadInfos (ListAll pm)), NoEffect), d)
      else if cmd = CmdSave then pm_reply (Save ev pm) d
      else if cmd = CmdResurrect then pm_reply (Resurrect ev pm) d
      else if cmd = CmdKill then ((resp_ok, NoEffect), d\<lparr>dm_pm := KillAll ev pm\<rparr>)
      else if cmd = CmdWorkflowRegister then with_workflow req (rpc_register en d) d
      else if cmd = CmdWorkflowList then
        ((resp_payload (PayloadWorkflows (Engine_List (dm_engine d))), NoEffect), d)
      else if cmd = CmdWorkflowRun then with_workflow req (rpc_run en d) d
      else if cmd = CmdWorkflowDelete then with_workflow req (rpc_delete en d) d
      else if cmd = CmdWorkflowStop then with_workflow req (rpc_stop d) d
      else ((resp_error (UnknownCommand cmd), NoEffect), d))"

text \<open>One connection: the request as decoded, or nothing if it does not decode.\<close>

definition Handle ::
  "daemon_env \<Rightarrow> rpc_request option \<Rightarrow> daemon \<Rightarrow> (rpc_response \<times> rpc_effect) \<times> daemon" where
  "Handle en msg d =
     (case msg of
        None \<Rightarrow> ((resp_error DecodeFailed, NoEffect), d)
      | Some req \<Rightarrow>
          (case dispatch en req d of
             ((resp, eff), d1) \<Rightarrow> ((resp, if rr_Command req = CmdKill then Exits else eff), d1)))"

section \<open>Responses\<close>

definition resp_wellformed :: "rpc_response \<Rightarrow> bool" where
  "resp_wellformed r \<longleftrightarrow> rp_OK r = (rp_Error r = None) \<and> (rp_Error r = None \<or> rp_Payload r = None)"

lemma resp_wellformed_simps [simp]:
  "resp_wellformed resp_ok" "resp_wellformed (resp_payload p)" "resp_wellformed (resp_error e)"
  by (simp_all add: resp_wellformed_def resp_ok_def resp_payload_def resp_error_def)

lemma pm_reply_simps [simp]:
  "resp_wellformed (fst (fst (pm_reply r d)))" "snd (fst (pm_reply r d)) = NoEffect"
  "dm_pm (snd (pm_reply r d)) = snd r" "dm_engine (snd (pm_reply r d)) = dm_engine d"
  by (simp_all add: pm_reply_def split: prod.split option.split)

text \<open>A property of replies that holds of every branch holds of the dispatcher.\<close>

lemma with_workflow_intro:
  "P ((resp_error MissingWorkflow, NoEffect), d) \<Longrightarrow> (\<And>wq. P (k wq)) \<Longrightarrow> P (with_workflow req k d)"
  by (simp add: with_workflow_def split: option.split)

lemma dispatch_cases:
  assumes "\<And>resp. resp_wellformed resp \<Longrightarrow> P ((resp, NoEffect), d)" "P (rpc_start en req d)"
    "\<And>t. P (pm_reply (StopByName (de_pm en) t (dm_pm d)) d)"
    "\<And>t. P (pm_reply (RestartByName (de_pm en) t (dm_pm d)) d)"
    "\<And>t. P (pm_reply (PauseByName (de_pm en) t (dm_pm d)) d)"
    "\<And>t. P (pm_reply (ResumeByName (de_pm en) t (dm_pm d)) d)"
    "\<And>t. P (pm_reply (DeleteByName (de_pm en) t (dm_pm d)) d)"
    "P (pm_reply (Save (de_pm en) (dm_pm d)) d)" "P (pm_reply (Resurrect (de_pm en) (dm_pm d)) d)"
    "P ((resp_ok, NoEffect), d\<lparr>dm_pm := KillAll (de_pm en) (dm_pm d)\<rparr>)"
    "\<And>wq. P (rpc_register en d wq)" "\<And>wq. P (rpc_run en d wq)" "\<And>wq. P (rpc_delete en d wq)"
    "\<And>wq. P (rpc_stop d wq)"
  shows "P (dispatch en req d)"
  using assms by (simp add: dispatch_def Let_def with_workflow_intro)

lemma dispatch_wellformed: "resp_wellformed (fst (fst (dispatch en req d)))"
  by (rule dispatch_cases)
    (simp_all add: rpc_start_def rpc_register_def rpc_run_def rpc_delete_def rpc_stop_def
      split: option.split prod.split sum.split)

section \<open>Every request is at most one step of the manager\<close>

definition serves :: "pm_env \<Rightarrow> pm \<Rightarrow> pm \<Rightarrow> bool" where
  "serves ev pm pm' \<longleftrightarrow> pm' = pm \<or> (\<exists>q. pm' = serve ev q pm)"

lemma serves_intros [simp]:
  "serves ev pm pm" "serves ev pm (snd (StartApp ev app pm))" "serves ev pm (snd (StopByName ev t pm))"
  "serves ev pm (snd (RestartByName ev t pm))" "serves ev pm (snd (PauseByName ev t pm))"
  "serves ev pm (snd (ResumeByName ev t pm))" "serves ev pm (snd (DeleteByName ev t pm))"
  "serves ev pm (snd (Save ev pm))" "serves ev pm (snd (Resurrect ev pm))" "serves ev pm (KillAll ev pm)"
  unfolding serves_def serve_def
  by (metis request.simps)+

lemma serves_step: "serves ev pm pm' \<Longrightarrow> pm' = pm \<or> daemon_step pm pm'"
  by (auto simp: serves_def intro: step_request)

lemma engine_branches_pm [simp]:
  "dm_pm (snd (rpc_register en d wq)) = dm_pm d" "dm_pm (snd (rpc_run en d wq)) = dm_pm d"
  "dm_pm (snd (rpc_delete en d wq)) = dm_pm d" "dm_pm (snd (rpc_stop d wq)) = dm_pm d"
  by (simp_all add: rpc_register_def rpc_run_def rpc_delete_def rpc_stop_def
      split: option.split prod.split sum.split)

lemma rpc_start_pm:
  "dm_pm (snd (rpc_start en req d)) =
    (case rr_App req of None \<Rightarrow> dm_pm d | Some app \<Rightarrow> snd (StartApp (de_pm en) app (dm_pm d)))"
  "dm_engine (snd (rpc_start en req d)) = dm_engine d"
  by (simp_all add: rpc_start_def split: option.split prod.split)

lemma dispatch_serves: "serves (de_pm en) (dm_pm d) (dm_pm (snd (dispatch en req d)))"
  by (rule dispatch_cases) (simp_all add: rpc_start_pm split: option.split)

lemma dispatch_step:
  "dm_pm (snd (dispatch en req d)) = dm_pm d \<or> daemon_step (dm_pm d) (dm_pm (snd (dispatch en req d)))"
  by (rule serves_step [OF dispatch_serves])

lemma Handle_daemon:
  "snd (Handle en msg d) = (case msg of None \<Rightarrow> d | Some req \<Rightarrow> snd (dispatch en req d))"
  by (simp add: Handle_def split: option.split prod.split)

lemma Handle_reachable:
  assumes "reachable home now (dm_pm d)"
  shows "reachable home now (dm_pm (snd (Handle en msg d)))"
proof (cases msg)
  case (Some req)
  then show ?thesis
    using dispatch_step [of en req d] assms reach_step [OF assms] by (auto simp: Handle_daemon)
qed (use assms in \<open>simp add: Handle_daemon\<close>)

text \<open>Requests on tasks leave the workflow engine alone, and every request keeps its invariant.\<close>

lemma engine_ok_Run_claim: "engine_ok eng \<Longrightarrow> engine_ok (snd (Run_claim ev ref trg eng))"
  using engine_ok_claim [of eng ev _ trg None]
  by (auto simp: Run_claim_def split: option.split prod.split sum.split) (metis snd_conv)+

lemma engine_ok_rpc:
  assumes "engine_ok (dm_engine d)"
  shows "engine_ok (dm_engine (snd (rpc_register en d wq)))"
    "engine_ok (dm_engine (snd (rpc_delete en d wq)))" "dm_engine (snd (rpc_stop d wq)) = dm_engine d"
    "\<not> wq_Wait wq \<Longrightarrow> engine_ok (dm_engine (snd (rpc_run en d wq)))"
proof -
  show "engine_ok (dm_engine (snd (rpc_register en d wq)))"
    using engine_ok_Register [OF assms, of "de_engine en" "wq_Configs wq"]
    by (auto simp: rpc_register_def split: prod.split sum.split)
  show "engine_ok (dm_engine (snd (rpc_delete en d wq)))"
    using engine_ok_Delete [OF assms, of "de_engine en" "wq_Ref wq"]
    by (auto simp: rpc_delete_def split: prod.split option.split)
  show "dm_engine (snd (rpc_stop d wq)) = dm_engine d"
    by (simp add: rpc_stop_def split: sum.split)
  show "engine_ok (dm_engine (snd (rpc_run en d wq)))" if "\<not> wq_Wait wq"
    using engine_ok_Run_claim [OF assms, of "de_engine en" "wq_Ref wq" TriggerManual] that
    by (auto simp: rpc_run_def RunWorkflow_def WorkflowReq_Trigger_def split: prod.split sum.split)
qed

lemma Handle_engine_ok:
  assumes "engine_ok (dm_engine d)" "\<forall>req wq. msg = Some req \<longrightarrow> rr_Workflow req = Some wq \<longrightarrow> \<not> wq_Wait wq"
  shows "engine_ok (dm_engine (snd (Handle en msg d)))"
proof (cases msg)
  case (Some req)
  have run: "engine_ok (dm_engine (snd (with_workflow req (rpc_run en d) d)))"
    using assms Some engine_ok_rpc(4) [OF assms(1)] by (simp add: with_workflow_def split: option.split)
  have "engine_ok (dm_engine (snd (with_workflow req (rpc_register en d) d)))"
    "engine_ok (dm_engine (snd (with_workflow req (rpc_delete en d) d)))"
    "engine_ok (dm_engine (snd (with_workflow req (rpc_stop d) d)))"
    using assms(1) engine_ok_rpc(1-3) [OF assms(1)] by (simp_all add: with_workflow_def split: option.split)
  then show ?thesis
    using assms(1) run by (simp add: Handle_daemon Some dispatch_def Let_def rpc_start_pm)
qed (use assms in \<open>simp add: Handle_def\<close>)

section \<open>Requests that change nothing\<close>

definition read_only :: "string \<Rightarrow> bool" where
  "read_only cmd \<longleftrightarrow> cmd \<in> {CmdPing, CmdStatus, CmdList, CmdWorkflowList}"

definition known_command :: "string \<Rightarrow> bool" where
  "known_command cmd \<longleftrightarrow>
     cmd \<in> {CmdStart, CmdStop, CmdRestart, CmdPause, CmdResume, CmdDelete, CmdList, CmdSave,
       CmdResurrect, CmdKill, CmdPing, CmdStatus, CmdWorkflowRegister, CmdWorkflowList,
       CmdWorkflowRun, CmdWorkflowDelete, CmdWorkflowStop}"

lemma dispatch_read_only:
  "read_only (rr_Command req) \<Longrightarrow>
    snd (dispatch en req d) = d \<and> snd (fst (dispatch en req d)) = NoEffect \<and> rp_OK (fst (fst (dispatch en req d)))"
  by (auto simp: read_only_def dispatch_def cmd_defs resp_ok_def resp_payload_def)

lemma dispatch_unknown:
  "\<not> known_command (rr_Command req) \<Longrightarrow>
    dispatch en req d = ((resp_error (UnknownCommand (rr_Command req)), NoEffect), d)"
  by (simp add: known_command_def dispatch_def)

lemma dispatch_incomplete:
  "rr_Command req = CmdStart \<Longrightarrow> rr_App req = None \<Longrightarrow>
    dispatch en req d = ((resp_error MissingApp, NoEffect), d)"
  "rr_Command req \<in> {CmdWorkflowRegister, CmdWorkflowRun, CmdWorkflowDelete, CmdWorkflowStop} \<Longrightarrow>
    rr_Workflow req = None \<Longrightarrow> dispatch en req d = ((resp_error MissingWorkflow, NoEffect), d)"
  by (auto simp: dispatch_def rpc_start_def with_workflow_def cmd_defs)

lemma Handle_exits:
  "snd (fst (Handle en msg d)) = Exits \<longleftrightarrow> (\<exists>req. msg = Some req \<and> rr_Command req = CmdKill)"
proof -
  have "snd (fst (dispatch en req d)) \<noteq> Exits" for req
    by (rule dispatch_cases)
      (simp_all add: rpc_start_def rpc_register_def rpc_run_def rpc_delete_def rpc_stop_def RunWorkflow_def
        split: option.split prod.split sum.split)
  then show ?thesis by (auto simp: Handle_def split: option.split prod.split) (metis fst_conv snd_conv)+
qed

end
