(* ===== verification/Daemon_Socket.thy ===== *)
theory Daemon_Socket
  imports Daemon_RPC
begin

text \<open>
  \<open>daemon/network/listener.go\<close>: claiming the socket. \<open>Bind\<close> is a sequence of system calls, given
  here once as a function of their answers and once as the steps of processes that start at the
  same time.
\<close>

section \<open>One start\<close>

datatype stat_answer = StatMissing | StatPresent | StatFailed

datatype remove_answer = RemoveDone | RemoveMissing | RemoveFailed

record bind_env =
  be_stat :: stat_answer
  be_dial :: bool
  be_deadline :: bool
  be_write :: bool
  be_read :: "rpc_response option"
  be_remove :: remove_answer
  be_listen :: bool

datatype bind_error = StatSocketError | AlreadyRunning | RemoveStaleError | ListenError

definition daemonAnswers :: "bind_env \<Rightarrow> bool" where
  "daemonAnswers be \<longleftrightarrow>
     be_dial be \<and> be_deadline be \<and> be_write be \<and>
     (case be_read be of None \<Rightarrow> False | Some resp \<Rightarrow> rp_OK resp)"

text \<open>The error, and whether the file at the path was removed.\<close>

definition clearSocket :: "bind_env \<Rightarrow> bind_error option \<times> bool" where
  "clearSocket be =
     (case be_stat be of
        StatMissing \<Rightarrow> (None, False)
      | StatFailed \<Rightarrow> (Some StatSocketError, False)
      | StatPresent \<Rightarrow>
          if daemonAnswers be then (Some AlreadyRunning, False)
          else (case be_remove be of
                  RemoveDone \<Rightarrow> (None, True)
                | RemoveMissing \<Rightarrow> (None, False)
                | RemoveFailed \<Rightarrow> (Some RemoveStaleError, False)))"

definition Bind :: "bind_env \<Rightarrow> bind_error option \<times> bool" where
  "Bind be =
     (case clearSocket be of
        (Some e, removed) \<Rightarrow> (Some e, removed)
      | (None, removed) \<Rightarrow> (if be_listen be then None else Some ListenError, removed))"

text \<open>\<open>pm2 daemon start --foreground\<close> reports success when another daemon runs.\<close>

definition foreground_start :: "bind_env \<Rightarrow> bind_error option" where
  "foreground_start be =
     (case fst (Bind be) of Some AlreadyRunning \<Rightarrow> None | r \<Rightarrow> r)"

lemma Bind_already_running: "fst (Bind be) = Some AlreadyRunning \<longleftrightarrow> be_stat be = StatPresent \<and> daemonAnswers be"
  by (auto simp: Bind_def clearSocket_def split: stat_answer.splits remove_answer.splits if_splits)

lemma Bind_removes_only_stale: "snd (Bind be) \<Longrightarrow> \<not> daemonAnswers be"
  by (auto simp: Bind_def clearSocket_def split: stat_answer.splits remove_answer.splits if_splits)

text \<open>A daemon that serves answers the probe.\<close>

lemma ping_answered: "rp_OK (fst (fst (Handle en (Some (command_req CmdPing)) d)))"
  by (simp add: Handle_def dispatch_def command_req_def cmd_defs resp_ok_def)

section \<open>Starts at the same time\<close>

text \<open>
  Sockets are inodes: listening creates one at the path, removing the path leaves the listener of
  the old one alive. \<open>ss_owner\<close> is the live process that listens on an inode.
\<close>

datatype phase = Idle | Found | Stale | Cleared | Serving | Refused | BindFailed | Ended

record sockets =
  ss_path :: "nat option"
  ss_owner :: "nat \<Rightarrow> nat option"
  ss_next :: nat
  ss_phase :: "nat \<Rightarrow> phase"

datatype sock_call = CallStat | CallProbe | CallRemove | CallListen | CallExit

definition set_phase :: "nat \<Rightarrow> phase \<Rightarrow> sockets \<Rightarrow> sockets" where
  "set_phase p ph s = s\<lparr>ss_phase := (ss_phase s)(p := ph)\<rparr>"

text \<open>One system call of process \<open>p\<close>, where its code allows it; a live daemon answers a probe.\<close>

definition sock_act :: "nat \<Rightarrow> sock_call \<Rightarrow> sockets \<Rightarrow> sockets option" where
  "sock_act p call s =
     (case (ss_phase s p, call) of
        (Idle, CallStat) \<Rightarrow>
          Some (set_phase p (if ss_path s = None then Cleared else Found) s)
      | (Found, CallProbe) \<Rightarrow>
          Some (set_phase p
                  (case ss_path s of
                     None \<Rightarrow> Stale
                   | Some i \<Rightarrow> if ss_owner s i = None then Stale else Refused) s)
      | (Stale, CallRemove) \<Rightarrow> Some (set_phase p Cleared (s\<lparr>ss_path := None\<rparr>))
      | (Cleared, CallListen) \<Rightarrow>
          Some (if ss_path s = None
                then set_phase p Serving
                       (s\<lparr>ss_path := Some (ss_next s), ss_owner := (ss_owner s)(ss_next s := Some p),
                          ss_next := Suc (ss_next s)\<rparr>)
                else set_phase p BindFailed s)
      | (Serving, CallExit) \<Rightarrow>
          Some (set_phase p Ended
                  (s\<lparr>ss_owner := (\<lambda>i. if ss_owner s i = Some p then None else ss_owner s i)\<rparr>))
      | _ \<Rightarrow> None)"

fun sock_run :: "(nat \<times> sock_call) list \<Rightarrow> sockets \<Rightarrow> sockets option" where
  "sock_run [] s = Some s"
| "sock_run ((p, c) # calls) s = (case sock_act p c s of None \<Rightarrow> None | Some s1 \<Rightarrow> sock_run calls s1)"

text \<open>A whole start of one process, with nothing in between: the calls of \<open>Bind\<close>.\<close>

definition bind_calls :: "nat \<Rightarrow> sockets \<Rightarrow> (nat \<times> sock_call) list" where
  "bind_calls p s =
     map (Pair p)
       (case ss_path s of
          None \<Rightarrow> [CallStat, CallListen]
        | Some i \<Rightarrow>
            if ss_owner s i = None then [CallStat, CallProbe, CallRemove, CallListen]
            else [CallStat, CallProbe])"

text \<open>The path a crashed daemon leaves behind.\<close>

definition stale_socket :: sockets where
  "stale_socket =
     \<lparr>ss_path = Some 0, ss_owner = (\<lambda>_. None), ss_next = 1, ss_phase = (\<lambda>_. Idle)\<rparr>"

definition serving :: "sockets \<Rightarrow> nat set" where
  "serving s = {p. ss_phase s p = Serving}"

inductive one_at_a_time :: "sockets \<Rightarrow> bool" where
  alone_start: "one_at_a_time stale_socket"
| alone_bind: "one_at_a_time s \<Longrightarrow> ss_phase s p = Idle \<Longrightarrow> sock_run (bind_calls p s) s = Some s' \<Longrightarrow>
    one_at_a_time s'"
| alone_exit: "one_at_a_time s \<Longrightarrow> sock_act p CallExit s = Some s' \<Longrightarrow> one_at_a_time s'"

definition sockets_ok :: "sockets \<Rightarrow> bool" where
  "sockets_ok s \<longleftrightarrow>
     (\<forall>i p. ss_owner s i = Some p \<longrightarrow> i < ss_next s \<and> ss_phase s p = Serving \<and> ss_path s = Some i) \<and>
     (\<forall>p. ss_phase s p = Serving \<longrightarrow> (\<exists>i. ss_owner s i = Some p)) \<and>
     (\<forall>i. ss_path s = Some i \<longrightarrow> i < ss_next s)"

lemma sockets_ok_bind:
  assumes "sockets_ok s" "ss_phase s p = Idle" "sock_run (bind_calls p s) s = Some s'"
  shows "sockets_ok s'"
proof (cases "ss_path s")
  case None
  then have "s' = set_phase p Serving
      (s\<lparr>ss_path := Some (ss_next s), ss_owner := (ss_owner s)(ss_next s := Some p),
         ss_next := Suc (ss_next s), ss_phase := (ss_phase s)(p := Cleared)\<rparr>)"
    using assms(2,3) by (simp add: bind_calls_def sock_act_def set_phase_def)
  then show ?thesis using assms(1,2) None by (auto simp: sockets_ok_def set_phase_def)
next
  case (Some i)
  show ?thesis
  proof (cases "ss_owner s i")
    case None
    then have "s' = s\<lparr>ss_path := Some (ss_next s), ss_owner := (ss_owner s)(ss_next s := Some p),
         ss_next := Suc (ss_next s), ss_phase := (ss_phase s)(p := Serving)\<rparr>"
      using assms(2,3) Some by (simp add: bind_calls_def sock_act_def set_phase_def)
    moreover have "ss_owner s j = None" for j
      using assms(1) Some None by (cases "ss_owner s j") (auto simp: sockets_ok_def)
    ultimately show ?thesis using assms(1,2) by (auto simp: sockets_ok_def)
  next
    case (Some q)
    then have "s' = s\<lparr>ss_phase := (ss_phase s)(p := Refused)\<rparr>"
      using assms(2,3) \<open>ss_path s = Some i\<close> by (simp add: bind_calls_def sock_act_def set_phase_def)
    then show ?thesis using assms(1,2) by (auto simp: sockets_ok_def)
  qed
qed

lemma sockets_ok_exit:
  assumes "sockets_ok s" "sock_act p CallExit s = Some s'"
  shows "sockets_ok s'"
proof -
  have p: "ss_phase s p = Serving" and s': "s' = set_phase p Ended
      (s\<lparr>ss_owner := (\<lambda>i. if ss_owner s i = Some p then None else ss_owner s i)\<rparr>)"
    using assms(2) by (cases "ss_phase s p"; simp add: sock_act_def)+
  have "\<exists>i. ss_owner s' i = Some q" if "ss_phase s' q = Serving" for q
  proof -
    have q: "q \<noteq> p" "ss_phase s q = Serving" using that by (auto simp: s' set_phase_def split: if_splits)
    then obtain i where "ss_owner s i = Some q" using assms(1) by (auto simp: sockets_ok_def)
    then have "ss_owner s' i = Some q" using q(1) by (simp add: s' set_phase_def)
    then show ?thesis by blast
  qed
  then show ?thesis using assms(1) by (auto simp: sockets_ok_def s' set_phase_def split: if_splits)
qed

lemma one_at_a_time_ok: "one_at_a_time s \<Longrightarrow> sockets_ok s"
proof (induction rule: one_at_a_time.induct)
  case alone_start
  then show ?case by (simp add: sockets_ok_def stale_socket_def)
qed (auto intro: sockets_ok_bind sockets_ok_exit)

lemma sockets_ok_single: "sockets_ok s \<Longrightarrow> p \<in> serving s \<Longrightarrow> q \<in> serving s \<Longrightarrow> p = q"
proof -
  assume ok: "sockets_ok s" and "p \<in> serving s" "q \<in> serving s"
  then have "\<exists>i. ss_owner s i = Some p" "\<exists>j. ss_owner s j = Some q"
    unfolding sockets_ok_def serving_def by blast+
  then obtain i j where o: "ss_owner s i = Some p" "ss_owner s j = Some q" by blast
  have "ss_owner s k = Some r \<Longrightarrow> ss_path s = Some k" for k r
    using ok unfolding sockets_ok_def by blast
  then have "ss_path s = Some i" "ss_path s = Some j" using o by blast+
  then show "p = q" using o by simp
qed

text \<open>
  Two starts that both find the socket of a crashed daemon: the second removes the socket the
  first has just bound.
\<close>

definition racing_calls :: "(nat \<times> sock_call) list" where
  "racing_calls =
     [(1, CallStat), (2, CallStat), (1, CallProbe), (2, CallProbe), (1, CallRemove), (1, CallListen),
      (2, CallRemove), (2, CallListen)]"

lemma racing_starts:
  "\<exists>s. sock_run racing_calls stale_socket = Some s \<and> {1, 2} \<subseteq> serving s \<and> ss_owner s 1 = Some 1 \<and>
    ss_owner s 2 = Some 2 \<and> ss_path s = Some 2"
  by (simp add: racing_calls_def stale_socket_def sock_act_def set_phase_def serving_def)

end
