(* ===== verification/Cli_Client.thy ===== *)
theory Cli_Client
  imports Daemon_Socket
begin

text \<open>
  The client side: \<open>model/protocol.go\<close> (\<open>SendRequest\<close>), \<open>model/list.go\<close>, \<open>cmd/runtime/\<close> (the client that
  starts a daemon on demand) and the lifecycle commands of \<open>cmd/daemon/\<close>.
\<close>

section \<open>The world of a command\<close>

text \<open>
  The daemon that answers on the socket, if one does; the stop marker; how many requests have been
  tried; and the requests a daemon has handled, in order.
\<close>

record cli_world =
  cw_daemon :: "daemon option"
  cw_marker :: bool
  cw_tries :: nat
  cw_handled :: "rpc_request list"

datatype transport = TransportOk | NotSent | ReplyLost

text \<open>
  The fate of each request on the wire, and what starting a daemon finds: whether the executable
  is known and can be spawned, and at which try a spawned daemon has come up, and with what state.
\<close>

record cli_env =
  ce_daemon :: daemon_env
  ce_transport :: "nat \<Rightarrow> transport"
  ce_executable :: bool
  ce_spawn :: bool
  ce_boot :: "nat \<Rightarrow> daemon option"
  ce_marker_write :: bool
  ce_marker_remove :: bool
  ce_logs_open :: bool

text \<open>\<open>None\<close> for an error of the dial, the write or the read. A killed daemon is gone.\<close>

definition SendRequest :: "cli_env \<Rightarrow> rpc_request \<Rightarrow> cli_world \<Rightarrow> rpc_response option \<times> cli_world" where
  "SendRequest en req w =
     (let t = ce_transport en (cw_tries w); w1 = w\<lparr>cw_tries := Suc (cw_tries w)\<rparr> in
      case cw_daemon w of
        None \<Rightarrow> (None, w1)
      | Some d \<Rightarrow>
          if t = NotSent then (None, w1)
          else (case Handle (ce_daemon en) (Some req) d of
                  ((resp, eff), d1) \<Rightarrow>
                    (if t = ReplyLost then None else Some resp,
                     w1\<lparr>cw_daemon := (if eff = Exits then None else Some d1),
                        cw_handled := cw_handled w @ [req]\<rparr>)))"

datatype cli_error =
    NoDaemon
  | AutoStartSuppressed
  | NoExecutable
  | SpawnFailed
  | NotInTime
  | LogsUnavailable
  | DaemonSays rpc_error
  | EmptyResponse

text \<open>\<open>ListProcesses\<close> never starts a daemon.\<close>

definition ListProcesses :: "cli_env \<Rightarrow> cli_world \<Rightarrow> (cli_error + process_info list) \<times> cli_world" where
  "ListProcesses en w =
     (case SendRequest en (command_req CmdList) w of
        (None, w1) \<Rightarrow> (Inl NoDaemon, w1)
      | (Some resp, w1) \<Rightarrow>
          (case (rp_OK resp, rp_Error resp, rp_Payload resp) of
             (True, _, Some (PayloadInfos infos)) \<Rightarrow> (Inr infos, w1)
           | (_, Some e, _) \<Rightarrow> (Inl (DaemonSays e), w1)
           | _ \<Rightarrow> (Inl EmptyResponse, w1)))"

section \<open>Starting a daemon on demand\<close>

definition boot :: "cli_env \<Rightarrow> cli_world \<Rightarrow> cli_world" where
  "boot en w = (if cw_daemon w = None then w\<lparr>cw_daemon := ce_boot en (cw_tries w)\<rparr> else w)"

text \<open>The rounds of the wait for the spawned daemon.\<close>

fun await_daemon :: "cli_env \<Rightarrow> nat \<Rightarrow> cli_world \<Rightarrow> cli_error option \<times> cli_world" where
  "await_daemon en 0 w = (Some NotInTime, w)"
| "await_daemon en (Suc n) w =
     (case SendRequest en (command_req CmdPing) (boot en w) of
        (Some resp, w1) \<Rightarrow> if rp_OK resp then (None, w1) else await_daemon en n w1
      | (None, w1) \<Rightarrow> await_daemon en n w1)"

definition autoStartDaemon :: "cli_env \<Rightarrow> cli_world \<Rightarrow> cli_error option \<times> cli_world" where
  "autoStartDaemon en w =
     (if cw_marker w then (Some AutoStartSuppressed, w)
      else if \<not> ce_executable en then (Some NoExecutable, w)
      else if \<not> ce_spawn en then (Some SpawnFailed, w)
      else await_daemon en 30 w)"

definition CLIClient_Send ::
  "cli_env \<Rightarrow> rpc_request \<Rightarrow> cli_world \<Rightarrow> (cli_error + rpc_response) \<times> cli_world" where
  "CLIClient_Send en req w =
     (case SendRequest en req w of
        (Some resp, w1) \<Rightarrow> (Inr resp, w1)
      | (None, w1) \<Rightarrow>
          (case autoStartDaemon en w1 of
             (Some e, w2) \<Rightarrow> (Inl e, w2)
           | (None, w2) \<Rightarrow>
               (case SendRequest en req w2 of
                  (Some resp, w3) \<Rightarrow> (Inr resp, w3)
                | (None, w3) \<Rightarrow> (Inl NoDaemon, w3))))"

definition resp_cli_error :: "rpc_response \<Rightarrow> cli_error option" where
  "resp_cli_error resp =
     (if rp_OK resp then None
      else (case rp_Error resp of Some e \<Rightarrow> Some (DaemonSays e) | None \<Rightarrow> Some EmptyResponse))"

definition SendOK :: "cli_env \<Rightarrow> rpc_request \<Rightarrow> cli_world \<Rightarrow> cli_error option \<times> cli_world" where
  "SendOK en req w =
     (case CLIClient_Send en req w of
        (Inl e, w1) \<Rightarrow> (Some e, w1)
      | (Inr resp, w1) \<Rightarrow> (resp_cli_error resp, w1))"

section \<open>The lifecycle commands\<close>

datatype daemon_report = AlreadyRunningReport | StartedReport | NotRunningReport | StoppedReport

text \<open>\<open>pm2 daemon start\<close>: a daemon that answers is left alone; otherwise one is spawned and not awaited.\<close>

definition removeStopMarker :: "cli_env \<Rightarrow> cli_world \<Rightarrow> cli_world" where
  "removeStopMarker en w = (if ce_marker_remove en then w\<lparr>cw_marker := False\<rparr> else w)"

definition startAsBackground :: "cli_env \<Rightarrow> cli_world \<Rightarrow> (cli_error + daemon_report) \<times> cli_world" where
  "startAsBackground en w =
     (case SendRequest en (command_req CmdPing) w of
        (r, w1) \<Rightarrow>
          if (case r of Some resp \<Rightarrow> rp_OK resp | None \<Rightarrow> False) then (Inr AlreadyRunningReport, w1)
          else
            (let w2 = removeStopMarker en w1 in
             if \<not> ce_executable en then (Inl NoExecutable, w2)
             else if \<not> ce_logs_open en then (Inl LogsUnavailable, w2)
             else if \<not> ce_spawn en then (Inl SpawnFailed, w2)
             else (Inr StartedReport, boot en w2)))"

text \<open>\<open>pm2 daemon stop\<close>: the marker first, a failure to write it only a warning, then the kill.\<close>

definition writeStopMarker :: "cli_env \<Rightarrow> cli_world \<Rightarrow> cli_world" where
  "writeStopMarker en w = (if ce_marker_write en then w\<lparr>cw_marker := True\<rparr> else w)"

definition runKill :: "cli_env \<Rightarrow> cli_world \<Rightarrow> (cli_error + daemon_report) \<times> cli_world" where
  "runKill en w =
     (case SendRequest en (command_req CmdKill) w of
        (None, w1) \<Rightarrow> (Inr NotRunningReport, w1)
      | (Some resp, w1) \<Rightarrow>
          (case resp_cli_error resp of Some e \<Rightarrow> (Inl e, w1) | None \<Rightarrow> (Inr StoppedReport, w1)))"

definition runStop :: "cli_env \<Rightarrow> cli_world \<Rightarrow> (cli_error + daemon_report) \<times> cli_world" where
  "runStop en w = runKill en (writeStopMarker en w)"

text \<open>\<open>pm2 task stop\<close> and its siblings \<open>restart\<close>, \<open>pause\<close>, \<open>resume\<close>, \<open>delete\<close>, and \<open>save\<close>, \<open>resurrect\<close>.\<close>

definition simple_command :: "cli_env \<Rightarrow> string \<Rightarrow> string \<Rightarrow> cli_world \<Rightarrow> cli_error option \<times> cli_world" where
  "simple_command en cmd target w =
     (case SendRequest en ((command_req cmd)\<lparr>rr_Name := target\<rparr>) w of
        (None, w1) \<Rightarrow> (Some NoDaemon, w1)
      | (Some resp, w1) \<Rightarrow> (resp_cli_error resp, w1))"

section \<open>What the client does to the daemon\<close>

lemma SendRequest_simps [simp]:
  "cw_marker (snd (SendRequest en req w)) = cw_marker w"
  "cw_tries (snd (SendRequest en req w)) = Suc (cw_tries w)"
  by (simp_all add: SendRequest_def Let_def split: option.split prod.split)

lemma SendRequest_no_daemon:
  "cw_daemon w = None \<Longrightarrow> SendRequest en req w = (None, w\<lparr>cw_tries := Suc (cw_tries w)\<rparr>)"
  by (simp add: SendRequest_def Let_def)

lemma SendRequest_ok:
  "cw_daemon w = Some d \<Longrightarrow> ce_transport en (cw_tries w) = TransportOk \<Longrightarrow> rr_Command req \<noteq> CmdKill \<Longrightarrow>
    SendRequest en req w =
      (Some (fst (fst (Handle (ce_daemon en) (Some req) d))),
       w\<lparr>cw_tries := Suc (cw_tries w), cw_daemon := Some (snd (Handle (ce_daemon en) (Some req) d)),
         cw_handled := cw_handled w @ [req]\<rparr>)"
  using Handle_exits [of "ce_daemon en" "Some req" d]
  by (auto simp: SendRequest_def Let_def split: prod.split)

text \<open>Once the marker is set and the daemon gone, no command brings one back but \<open>daemon start\<close>.\<close>

lemma stopped_stays_stopped:
  assumes "cw_marker w" "cw_daemon w = None"
  shows "CLIClient_Send en req w = (Inl AutoStartSuppressed, w\<lparr>cw_tries := Suc (cw_tries w)\<rparr>)"
    "simple_command en cmd target w = (Some NoDaemon, w\<lparr>cw_tries := Suc (cw_tries w)\<rparr>)"
    "fst (ListProcesses en w) = Inl NoDaemon"
  using assms
  by (simp_all add: CLIClient_Send_def SendRequest_no_daemon autoStartDaemon_def simple_command_def
      ListProcesses_def)

lemma runStop_stops:
  assumes "ce_marker_write en" "ce_transport en (cw_tries w) \<noteq> NotSent"
  shows "cw_marker (snd (runStop en w))" "cw_daemon (snd (runStop en w)) = None"
proof -
  let ?w = "w\<lparr>cw_marker := True\<rparr>"
  have eff: "snd (fst (Handle (ce_daemon en) (Some (command_req CmdKill)) d)) = Exits" for d
    by (subst Handle_exits) (simp add: command_req_def)
  have r: "snd (runStop en w) = snd (SendRequest en (command_req CmdKill) ?w)"
    using assms(1) by (auto simp: runStop_def runKill_def writeStopMarker_def split: prod.split option.split)
  show "cw_marker (snd (runStop en w))" by (simp add: r)
  show "cw_daemon (snd (runStop en w)) = None"
    using assms(2) eff unfolding r
    by (cases "cw_daemon w") (auto simp: SendRequest_def Let_def split: prod.split, metis fst_conv snd_conv)
qed

text \<open>
  A lost reply makes \<open>Send\<close> start a daemon although one is running; that daemon answers the ping,
  and the request is handled a second time.
\<close>

lemma await_daemon_running:
  assumes "cw_daemon w = Some d" "ce_transport en (cw_tries w) = TransportOk" "0 < n"
  shows "await_daemon en n w =
    (None, w\<lparr>cw_tries := Suc (cw_tries w), cw_handled := cw_handled w @ [command_req CmdPing]\<rparr>)"
proof -
  have k: "rr_Command (command_req CmdPing) \<noteq> CmdKill" by (simp add: command_req_def cmd_defs)
  have h: "Handle (ce_daemon en) (Some (command_req CmdPing)) d = ((resp_ok, NoEffect), d)"
    by (simp add: Handle_def dispatch_def command_req_def cmd_defs)
  obtain m where n: "n = Suc m" using assms(3) by (cases n) auto
  show ?thesis
    using assms(1,2) SendRequest_ok [OF assms(1,2) k]
    by (simp add: n boot_def h resp_ok_def)
qed

lemma lost_reply_resends:
  assumes "cw_daemon w = Some d" "\<not> cw_marker w" "ce_executable en" "ce_spawn en"
    "rr_Command req \<noteq> CmdKill" "ce_transport en (cw_tries w) = ReplyLost"
    "ce_transport en (Suc (cw_tries w)) = TransportOk" "ce_transport en (Suc (Suc (cw_tries w))) = TransportOk"
  shows "cw_handled (snd (CLIClient_Send en req w)) = cw_handled w @ [req, command_req CmdPing, req]"
    "cw_daemon (snd (CLIClient_Send en req w)) =
      Some (snd (Handle (ce_daemon en) (Some req) (snd (Handle (ce_daemon en) (Some req) d))))"
proof -
  let ?d = "snd (Handle (ce_daemon en) (Some req) d)"
  let ?w1 = "w\<lparr>cw_tries := Suc (cw_tries w), cw_daemon := Some ?d, cw_handled := cw_handled w @ [req]\<rparr>"
  have 1: "SendRequest en req w = (None, ?w1)"
    using assms(1,5,6) Handle_exits [of "ce_daemon en" "Some req" d]
    by (auto simp: SendRequest_def Let_def split: prod.split)
  have 2: "autoStartDaemon en ?w1 = (None, ?w1\<lparr>cw_tries := Suc (Suc (cw_tries w)),
      cw_handled := cw_handled w @ [req, command_req CmdPing]\<rparr>)"
    using assms(2-4,7) await_daemon_running [of ?w1 ?d en 30] by (simp add: autoStartDaemon_def)
  let ?w2 = "?w1\<lparr>cw_tries := Suc (Suc (cw_tries w)), cw_handled := cw_handled w @ [req, command_req CmdPing]\<rparr>"
  have 3: "SendRequest en req ?w2 = (Some (fst (fst (Handle (ce_daemon en) (Some req) ?d))),
      ?w2\<lparr>cw_tries := Suc (Suc (Suc (cw_tries w))), cw_daemon := Some (snd (Handle (ce_daemon en) (Some req) ?d)),
        cw_handled := (cw_handled w @ [req, command_req CmdPing]) @ [req]\<rparr>)"
    using SendRequest_ok [of ?w2 ?d en req] assms(5,8) by simp
  show "cw_handled (snd (CLIClient_Send en req w)) = cw_handled w @ [req, command_req CmdPing, req]"
    "cw_daemon (snd (CLIClient_Send en req w)) = Some (snd (Handle (ce_daemon en) (Some req) ?d))"
    using 3 by (simp_all add: CLIClient_Send_def 1 2)
qed

text \<open>The daemon of a reachable state stays reachable whatever the client sends.\<close>

lemma SendRequest_reachable:
  assumes "\<forall>d. cw_daemon w = Some d \<longrightarrow> reachable home now (dm_pm d)"
    "cw_daemon (snd (SendRequest en req w)) = Some d'"
  shows "reachable home now (dm_pm d')"
  using assms Handle_reachable [of home now _ "ce_daemon en" "Some req"]
  by (auto simp: SendRequest_def Let_def split: option.splits prod.splits if_splits)
    (metis snd_conv)+

end
