(* ===== verification/Task_Apply.thy ===== *)
theory Task_Apply
  imports Cli_Client Run_Journal
begin

text \<open>
  \<open>config/ecosystem.go\<close> and \<open>cmd/task/\<close>: an ecosystem file is loaded, apps are selected from it, and
  each is sent to the daemon; or all of them are deleted.
\<close>

section \<open>The ecosystem file\<close>

record ecosystem =
  ec_Apps :: "app_config list"
  ec_Workflows :: "wf_config list"

text \<open>What a script leaves: an error, no \<open>module.exports\<close>, or the JSON of its value.\<close>

datatype js_result = JsError | JsNoExports | JsUnserializable | JsExports string

record load_env =
  le_os :: os_env
  le_read :: "string \<Rightarrow> string option"
  le_json :: "string \<Rightarrow> ecosystem option"
  le_js :: "string \<Rightarrow> js_result"

datatype load_error =
    UnsupportedFormat string
  | ReadConfig
  | ParseJson
  | ExecuteJs
  | NoExports
  | SerializeExports
  | ParseExports
  | InvalidWorkflows string wf_error

definition postProcess :: "os_env \<Rightarrow> string \<Rightarrow> ecosystem \<Rightarrow> load_error + ecosystem" where
  "postProcess env path c =
     (let dir = path_dir path;
          c1 = \<lparr>ec_Apps = map (\<lambda>a. (AppConfig_Normalize env dir a)\<lparr>ac_ConfigFile := path\<rparr>) (ec_Apps c),
                ec_Workflows =
                  map (\<lambda>w. (Config_Normalize env dir w)\<lparr>wc_ConfigFile := path\<rparr>) (ec_Workflows c)\<rparr>
      in case ValidateAll (ec_Workflows c1) of
           Inl e \<Rightarrow> Inl (InvalidWorkflows (path_base path) e)
         | Inr _ \<Rightarrow> Inr c1)"

definition loadJSON :: "load_env \<Rightarrow> string \<Rightarrow> load_error + ecosystem" where
  "loadJSON en path =
     (case le_read en path of
        None \<Rightarrow> Inl ReadConfig
      | Some data \<Rightarrow>
          (case le_json en data of
             None \<Rightarrow> Inl ParseJson
           | Some cfg \<Rightarrow> postProcess (le_os en) path cfg))"

definition loadJS :: "load_env \<Rightarrow> string \<Rightarrow> load_error + ecosystem" where
  "loadJS en path =
     (case le_read en path of
        None \<Rightarrow> Inl ReadConfig
      | Some data \<Rightarrow>
          (case le_js en data of
             JsError \<Rightarrow> Inl ExecuteJs
           | JsNoExports \<Rightarrow> Inl NoExports
           | JsUnserializable \<Rightarrow> Inl SerializeExports
           | JsExports json \<Rightarrow>
               (case le_json en json of
                  None \<Rightarrow> Inl ParseExports
                | Some cfg \<Rightarrow> postProcess (le_os en) path cfg)))"

definition Load :: "load_env \<Rightarrow> string \<Rightarrow> load_error + ecosystem" where
  "Load en path0 =
     (let path = (case path_abs (le_os en) path0 of None \<Rightarrow> path0 | Some p \<Rightarrow> p);
          ext = to_lower (path_ext path)
      in if ext = ''.json'' then loadJSON en path
         else if ext = ''.js'' then loadJS en path
         else Inl (UnsupportedFormat ext))"

section \<open>Selection\<close>

definition appSelectionKey :: "app_config \<Rightarrow> string" where
  "appSelectionKey app =
     (if ac_Namespace app = '''' then ac_Name app else ac_Namespace app @ '':'' @ ac_Name app)"

text \<open>The keys of \<open>wanted\<close>, none matched yet.\<close>

definition wanted_init :: "string list \<Rightarrow> bool gomap" where
  "wanted_init withs =
     fold (\<lambda>w m. let t = trim_space w in if t \<noteq> '''' then gm_set t False m else m) withs []"

definition mark_wanted :: "app_config \<Rightarrow> bool gomap \<Rightarrow> bool \<times> bool gomap" where
  "mark_wanted app wanted =
     fold (\<lambda>key (named, m). if gm_get m key \<noteq> None then (True, gm_set key True m) else (named, m))
       [ac_Name app, appSelectionKey app] (False, wanted)"

fun select_loop ::
  "bool \<Rightarrow> app_config list \<Rightarrow> bool gomap \<Rightarrow> (app_config list \<times> app_config list) \<times> bool gomap" where
  "select_loop all [] wanted = (([], []), wanted)"
| "select_loop all (app # apps) wanted =
     (case mark_wanted app wanted of
        (named, wanted1) \<Rightarrow>
          (let app1 = (if ac_Optional app then app\<lparr>ac_Paused := \<not> all \<and> \<not> named\<rparr> else app) in
           case select_loop all apps wanted1 of
             ((sel, pau), wanted2) \<Rightarrow>
               ((app1 # sel, (if ac_Optional app \<and> ac_Paused app1 then [app1] else []) @ pau), wanted2)))"

definition selectApps ::
  "app_config list \<Rightarrow> bool \<Rightarrow> string list \<Rightarrow> string list + (app_config list \<times> app_config list)" where
  "selectApps apps all withs =
     (case select_loop all apps (wanted_init withs) of
        (r, wanted) \<Rightarrow>
          (let unknown = filter (\<lambda>w. w \<noteq> '''' \<and> gm_get wanted w \<noteq> Some True) (map trim_space withs) in
           if unknown \<noteq> [] then Inl unknown else Inr r))"

datatype choice_error =
    NoApps
  | EmptyChoice
  | ChoiceOutOfRange string nat
  | ChoiceUnknown string
  | ChoiceAmbiguous string
  | ReadChoice

definition selectSingleApp :: "app_config list \<Rightarrow> string \<Rightarrow> choice_error + app_config" where
  "selectSingleApp apps choice0 =
     (if apps = [] then Inl NoApps
      else
        (let choice = trim_space choice0 in
         if choice = '''' then Inl EmptyChoice
         else
           (case atoi choice of
              Some number \<Rightarrow>
                if number < 1 \<or> int (length apps) < number
                then Inl (ChoiceOutOfRange choice (length apps))
                else Inr ((apps ! nat (number - 1))\<lparr>ac_Paused := False\<rparr>)
            | None \<Rightarrow>
                (case filter (\<lambda>app. if CHR '':'' \<in> set choice then appSelectionKey app = choice
                                    else ac_Name app = choice) apps of
                   [] \<Rightarrow> Inl (ChoiceUnknown choice)
                 | [app] \<Rightarrow> Inr (app\<lparr>ac_Paused := False\<rparr>)
                 | _ \<Rightarrow> Inl (ChoiceAmbiguous choice)))))"

text \<open>\<open>answer\<close> is the line read from the terminal, if reading it works.\<close>

definition chooseSingleApp :: "app_config list \<Rightarrow> string option \<Rightarrow> choice_error + app_config" where
  "chooseSingleApp apps answer =
     (if apps = [] then selectSingleApp apps ''''
      else if length apps = 1 then selectSingleApp apps ''1''
      else (case answer of None \<Rightarrow> Inl ReadChoice | Some choice \<Rightarrow> selectSingleApp apps choice))"

section \<open>Applying\<close>

record task_flags =
  tf_delete :: bool
  tf_all :: bool
  tf_with :: "string list"
  tf_single :: bool

datatype apply_error =
    LoadFailed load_error
  | DeleteWithSelection
  | SingleWithSelection
  | ChoiceFailed choice_error
  | UnknownWith "string list"
  | ClientFailed cli_error
  | NothingToDelete
  | NoneRegistered "string list"

definition validateDeleteFlags :: "task_flags \<Rightarrow> apply_error option" where
  "validateDeleteFlags f =
     (if tf_delete f \<and> (tf_single f \<or> tf_all f \<or> tf_with f \<noteq> []) then Some DeleteWithSelection else None)"

definition validateSelectionFlags :: "task_flags \<Rightarrow> apply_error option" where
  "validateSelectionFlags f =
     (if tf_single f \<and> (tf_all f \<or> tf_with f \<noteq> []) then Some SingleWithSelection else None)"

definition start_request :: "string list \<Rightarrow> app_config \<Rightarrow> rpc_request" where
  "start_request environ app =
     (command_req CmdStart)
       \<lparr>rr_App := Some \<lparr>rq_App = app\<lparr>ac_BaseEnv := environ\<rparr>, rq_CronTriggered = False\<rparr>\<rparr>"

text \<open>The body of the loop over the selected apps: the request is sent once, and once more.\<close>

definition apply_app :: "cli_env \<Rightarrow> string list \<Rightarrow> app_config \<Rightarrow> cli_world \<Rightarrow> cli_error option \<times> cli_world" where
  "apply_app en environ app w =
     (case SendOK en (start_request environ app) w of
        (Some e, w1) \<Rightarrow> (Some e, w1)
      | (None, w1) \<Rightarrow>
          (case CLIClient_Send en (start_request environ app) w1 of
             (Inl e, w2) \<Rightarrow> (Some e, w2)
           | (Inr resp, w2) \<Rightarrow> (resp_cli_error resp, w2)))"

fun apply_apps ::
  "cli_env \<Rightarrow> string list \<Rightarrow> app_config list \<Rightarrow> cli_world \<Rightarrow> cli_error option \<times> cli_world" where
  "apply_apps en environ [] w = (None, w)"
| "apply_apps en environ (app # apps) w =
     (case apply_app en environ app w of
        (Some e, w1) \<Rightarrow> (Some e, w1)
      | (None, w1) \<Rightarrow> apply_apps en environ apps w1)"

definition registerWorkflows ::
  "cli_env \<Rightarrow> string list \<Rightarrow> wf_config list \<Rightarrow> cli_world \<Rightarrow> cli_error option \<times> cli_world" where
  "registerWorkflows en environ workflows w =
     (if workflows = [] then (None, w)
      else (case CLIClient_Send en
                   ((command_req CmdWorkflowRegister)
                      \<lparr>rr_Workflow := Some \<lparr>wq_Configs = map (\<lambda>c. c\<lparr>wc_BaseEnv := environ\<rparr>) workflows,
                         wq_Ref = '''', wq_RunID = '''', wq_Wait = False\<rparr>\<rparr>) w of
              (Inl e, w1) \<Rightarrow> (Some e, w1)
            | (Inr resp, w1) \<Rightarrow> (resp_cli_error resp, w1)))"

section \<open>Deleting\<close>

text \<open>The keys deleted and the keys the daemon does not know; a transport error ends the sweep.\<close>

fun delete_apps ::
  "cli_env \<Rightarrow> app_config list \<Rightarrow> cli_world \<Rightarrow> (cli_error + (string list \<times> string list)) \<times> cli_world" where
  "delete_apps en [] w = (Inr ([], []), w)"
| "delete_apps en (app # apps) w =
     (let key = appSelectionKey app in
      case SendRequest en ((command_req CmdDelete)\<lparr>rr_Name := key\<rparr>) w of
        (None, w1) \<Rightarrow> (Inl NoDaemon, w1)
      | (Some resp, w1) \<Rightarrow>
          (case delete_apps en apps w1 of
             (Inl e, w2) \<Rightarrow> (Inl e, w2)
           | (Inr (deleted, missing), w2) \<Rightarrow>
               (Inr (if rp_OK resp then (key # deleted, missing) else (deleted, key # missing)), w2)))"

definition deleteEcosystemApps :: "cli_env \<Rightarrow> app_config list \<Rightarrow> cli_world \<Rightarrow> apply_error option \<times> cli_world" where
  "deleteEcosystemApps en apps w =
     (if apps = [] then (Some NothingToDelete, w)
      else (case delete_apps en apps w of
              (Inl e, w1) \<Rightarrow> (Some (ClientFailed e), w1)
            | (Inr (deleted, missing), w1) \<Rightarrow>
                (if deleted = [] then Some (NoneRegistered missing) else None, w1)))"

definition deleteEcosystemWorkflows :: "cli_env \<Rightarrow> wf_config list \<Rightarrow> cli_world \<Rightarrow> cli_world" where
  "deleteEcosystemWorkflows en workflows w =
     fold (\<lambda>c w. snd (SendRequest en
             ((command_req CmdWorkflowDelete)
                \<lparr>rr_Workflow := Some \<lparr>wq_Configs = [], wq_Ref = Config_Key c, wq_RunID = '''', wq_Wait = False\<rparr>\<rparr>) w))
       workflows w"

section \<open>The command\<close>

definition apply_selected ::
  "cli_env \<Rightarrow> string list \<Rightarrow> task_flags \<Rightarrow> ecosystem \<Rightarrow> app_config list \<Rightarrow> cli_world \<Rightarrow>
   apply_error option \<times> cli_world" where
  "apply_selected en environ f cfg selected w =
     (case apply_apps en environ selected w of
        (Some e, w1) \<Rightarrow> (Some (ClientFailed e), w1)
      | (None, w1) \<Rightarrow>
          if tf_single f then (None, w1)
          else (case registerWorkflows en environ (ec_Workflows cfg) w1 of
                  (e, w2) \<Rightarrow> (map_option ClientFailed e, w2)))"

definition RunTasks ::
  "cli_env \<Rightarrow> string list \<Rightarrow> task_flags \<Rightarrow> load_error + ecosystem \<Rightarrow> string option \<Rightarrow> cli_world \<Rightarrow>
   apply_error option \<times> cli_world" where
  "RunTasks en environ f loaded answer w =
     (case loaded of
        Inl e \<Rightarrow> (Some (LoadFailed e), w)
      | Inr cfg \<Rightarrow>
          (case validateDeleteFlags f of
             Some e \<Rightarrow> (Some e, w)
           | None \<Rightarrow>
               if tf_delete f
               then deleteEcosystemApps en (ec_Apps cfg) (deleteEcosystemWorkflows en (ec_Workflows cfg) w)
               else
                 (case validateSelectionFlags f of
                    Some e \<Rightarrow> (Some e, w)
                  | None \<Rightarrow>
                      if tf_single f then
                        (case chooseSingleApp (ec_Apps cfg) answer of
                           Inl e \<Rightarrow> (Some (ChoiceFailed e), w)
                         | Inr app \<Rightarrow> apply_selected en environ f cfg [app] w)
                      else
                        (case selectApps (ec_Apps cfg) (tf_all f) (tf_with f) of
                           Inl unknown \<Rightarrow> (Some (UnknownWith unknown), w)
                         | Inr (selected, paused) \<Rightarrow> apply_selected en environ f cfg selected w))))"

section \<open>The selection policy\<close>

text \<open>What \<open>--with\<close> names, and the policy for one app.\<close>

definition with_names :: "string list \<Rightarrow> string set" where
  "with_names withs = set (map trim_space withs) - {''''}"

definition app_named :: "string list \<Rightarrow> app_config \<Rightarrow> bool" where
  "app_named withs app \<longleftrightarrow> ac_Name app \<in> with_names withs \<or> appSelectionKey app \<in> with_names withs"

definition install_policy :: "bool \<Rightarrow> string list \<Rightarrow> app_config \<Rightarrow> app_config" where
  "install_policy all withs app =
     (if ac_Optional app then app\<lparr>ac_Paused := \<not> all \<and> \<not> app_named withs app\<rparr> else app)"

lemma wanted_init_get:
  "gm_get (wanted_init withs) k = (if k \<in> with_names withs then Some False else None)"
proof -
  have "gm_get (fold (\<lambda>w m. let t = trim_space w in if t \<noteq> '''' then gm_set t False m else m) withs m) k =
      (if k \<in> with_names withs then Some False else gm_get m k)" for m
    by (induction withs arbitrary: m) (auto simp: with_names_def Let_def gm_get_set)
  then show ?thesis by (simp add: wanted_init_def)
qed

lemma mark_wanted_eq:
  "fst (mark_wanted app m) = (gm_get m (ac_Name app) \<noteq> None \<or> gm_get m (appSelectionKey app) \<noteq> None)"
  "gm_get (snd (mark_wanted app m)) k =
    (if gm_get m k \<noteq> None \<and> k \<in> {ac_Name app, appSelectionKey app} then Some True else gm_get m k)"
  by (auto simp: mark_wanted_def gm_get_set)

lemma select_loop_eq:
  assumes "\<And>k. (gm_get m k \<noteq> None) = (k \<in> with_names withs)"
  shows "fst (select_loop all apps m) =
      (map (install_policy all withs) apps,
       filter ac_Paused (map (install_policy all withs) (filter ac_Optional apps))) \<and>
    (\<forall>k. gm_get (snd (select_loop all apps m)) k =
      (if k \<in> with_names withs \<and> (\<exists>app\<in>set apps. k \<in> {ac_Name app, appSelectionKey app})
       then Some True else gm_get m k))"
  using assms
proof (induction apps arbitrary: m)
  case (Cons app apps)
  obtain named m1 where m1: "mark_wanted app m = (named, m1)" by fastforce
  have named: "named = app_named withs app"
    using mark_wanted_eq(1) [of app m] Cons.prems by (simp add: m1 app_named_def)
  have g: "gm_get m1 k =
      (if k \<in> with_names withs \<and> k \<in> {ac_Name app, appSelectionKey app} then Some True else gm_get m k)" for k
    using mark_wanted_eq(2) [of app m k] Cons.prems by (simp add: m1)
  have "(gm_get m1 k \<noteq> None) = (k \<in> with_names withs)" for k
    using g [of k] Cons.prems [of k] by auto
  note IH = Cons.IH [OF this]
  obtain sel pau m2 where r: "select_loop all apps m1 = ((sel, pau), m2)" by (metis prod.exhaust)
  have 1: "fst (select_loop all (app # apps) m) =
      (map (install_policy all withs) (app # apps),
       filter ac_Paused (map (install_policy all withs) (filter ac_Optional (app # apps))))"
  proof -
    have sel: "sel = map (install_policy all withs) apps"
      "pau = filter ac_Paused (map (install_policy all withs) (filter ac_Optional apps))"
      using conjunct1 [OF IH] by (simp_all only: r fst_conv prod.inject)
    have "ac_Paused (install_policy all withs app) = (\<not> all \<and> \<not> named)" if "ac_Optional app"
      using that by (simp add: install_policy_def named)
    moreover have "install_policy all withs app =
        (if ac_Optional app then app\<lparr>ac_Paused := \<not> all \<and> \<not> named\<rparr> else app)"
      by (simp add: install_policy_def named)
    ultimately show ?thesis by (cases "ac_Optional app") (simp_all add: m1 r sel Let_def)
  qed
  have "snd (select_loop all (app # apps) m) = m2" by (simp add: m1 r Let_def)
  moreover have "gm_get m2 k =
      (if k \<in> with_names withs \<and> (\<exists>a\<in>set (app # apps). k \<in> {ac_Name a, appSelectionKey a})
       then Some True else gm_get m k)" for k
    using conjunct2 [OF IH, THEN spec, of k] unfolding r snd_conv g [of k] by auto
  ultimately show ?case using 1 by simp
qed simp

lemma selectApps_eq:
  "selectApps apps all withs =
    (let unknown = filter (\<lambda>w. w \<noteq> '''' \<and>
           (\<forall>app\<in>set apps. w \<noteq> ac_Name app \<and> w \<noteq> appSelectionKey app)) (map trim_space withs)
     in if unknown \<noteq> [] then Inl unknown
        else Inr (map (install_policy all withs) apps,
                  filter ac_Paused (map (install_policy all withs) (filter ac_Optional apps))))"
proof -
  obtain r m where s: "select_loop all apps (wanted_init withs) = (r, m)" by fastforce
  have "(gm_get (wanted_init withs) k \<noteq> None) = (k \<in> with_names withs)" for k
    by (auto simp: wanted_init_get)
  note e = select_loop_eq [OF this, of all apps]
  have "gm_get m w \<noteq> Some True \<longleftrightarrow> (\<forall>app\<in>set apps. w \<noteq> ac_Name app \<and> w \<noteq> appSelectionKey app)"
    if "w \<in> set (map trim_space withs)" "w \<noteq> ''''" for w
    using e that by (auto simp: s wanted_init_get with_names_def)
  then have "filter (\<lambda>w. w \<noteq> '''' \<and> gm_get m w \<noteq> Some True) (map trim_space withs) =
      filter (\<lambda>w. w \<noteq> '''' \<and> (\<forall>app\<in>set apps. w \<noteq> ac_Name app \<and> w \<noteq> appSelectionKey app)) (map trim_space withs)"
    by (intro filter_cong) auto
  then show ?thesis using e by (simp add: selectApps_def s Let_def)
qed

text \<open>A single choice is one of the apps, made to run.\<close>

lemma selectSingleApp_member:
  assumes "selectSingleApp apps choice = Inr app"
  shows "\<exists>a \<in> set apps. app = a\<lparr>ac_Paused := False\<rparr>"
proof -
  let ?c = "trim_space choice"
  have ne: "apps \<noteq> []" "?c \<noteq> ''''" using assms by (auto simp: selectSingleApp_def Let_def split: if_splits)
  show ?thesis
  proof (cases "atoi ?c")
    case (Some n)
    then have "1 \<le> n" "n \<le> int (length apps)" "app = (apps ! nat (n - 1))\<lparr>ac_Paused := False\<rparr>"
      using assms ne by (auto simp: selectSingleApp_def Let_def split: if_splits)
    then show ?thesis by (intro bexI [of _ "apps ! nat (n - 1)"]) auto
  next
    case None
    let ?m = "filter (\<lambda>app. if CHR '':'' \<in> set ?c then appSelectionKey app = ?c else ac_Name app = ?c) apps"
    obtain a where m: "?m = [a]" "app = a\<lparr>ac_Paused := False\<rparr>"
    proof (cases ?m)
      case Nil
      then show ?thesis using assms ne None by (simp add: selectSingleApp_def Let_def)
    next
      case (Cons b bs)
      then show ?thesis using assms ne None that by (cases bs) (auto simp: selectSingleApp_def Let_def)
    qed
    then have "a \<in> set ?m" by simp
    then show ?thesis using m(2) by auto
  qed
qed

section \<open>Every start is sent twice\<close>

definition channel_ok :: "cli_env \<Rightarrow> bool" where
  "channel_ok en \<longleftrightarrow> (\<forall>k. ce_transport en k = TransportOk)"

lemma Send_ok:
  assumes "channel_ok en" "cw_daemon w = Some d" "rr_Command req \<noteq> CmdKill"
  shows "CLIClient_Send en req w =
    (Inr (fst (fst (dispatch (ce_daemon en) req d))),
     w\<lparr>cw_tries := Suc (cw_tries w), cw_daemon := Some (snd (dispatch (ce_daemon en) req d)),
       cw_handled := cw_handled w @ [req]\<rparr>)"
  using SendRequest_ok [of w d en req] assms
  by (simp add: CLIClient_Send_def channel_ok_def Handle_def split: prod.split)

lemma dispatch_start:
  "dispatch en (start_request environ app) d =
    (case StartApp (de_pm en) \<lparr>rq_App = app\<lparr>ac_BaseEnv := environ\<rparr>, rq_CronTriggered = False\<rparr> (dm_pm d) of
       ((infos, Some e), pm1) \<Rightarrow> ((resp_error (ManagerError e), NoEffect), d\<lparr>dm_pm := pm1\<rparr>)
     | ((infos, None), pm1) \<Rightarrow> ((resp_payload (PayloadInfos infos), NoEffect), d\<lparr>dm_pm := pm1\<rparr>))"
  by (simp add: dispatch_def start_request_def command_req_def cmd_defs rpc_start_def)

lemma apply_app_twice:
  assumes "channel_ok en" "cw_daemon w = Some d"
    "StartApp (de_pm (ce_daemon en)) \<lparr>rq_App = app\<lparr>ac_BaseEnv := environ\<rparr>, rq_CronTriggered = False\<rparr> (dm_pm d) =
      ((infos, None), pm1)"
  shows "cw_handled (snd (apply_app en environ app w)) =
      cw_handled w @ [start_request environ app, start_request environ app]"
    "cw_daemon (snd (apply_app en environ app w)) =
      Some (d\<lparr>dm_pm := snd (StartApp (de_pm (ce_daemon en))
        \<lparr>rq_App = app\<lparr>ac_BaseEnv := environ\<rparr>, rq_CronTriggered = False\<rparr> pm1)\<rparr>)"
proof -
  let ?req = "start_request environ app"
  let ?w1 = "w\<lparr>cw_tries := Suc (cw_tries w), cw_daemon := Some (d\<lparr>dm_pm := pm1\<rparr>), cw_handled := cw_handled w @ [?req]\<rparr>"
  have k: "rr_Command ?req \<noteq> CmdKill" by (simp add: start_request_def command_req_def cmd_defs)
  have 1: "SendOK en ?req w = (None, ?w1)"
    by (simp add: SendOK_def Send_ok [OF assms(1,2) k] dispatch_start assms(3) resp_cli_error_def resp_payload_def)
  have 2: "CLIClient_Send en ?req ?w1 =
      (Inr (fst (fst (dispatch (ce_daemon en) ?req (d\<lparr>dm_pm := pm1\<rparr>)))),
       ?w1\<lparr>cw_tries := Suc (Suc (cw_tries w)), cw_daemon := Some (snd (dispatch (ce_daemon en) ?req (d\<lparr>dm_pm := pm1\<rparr>))),
         cw_handled := (cw_handled w @ [?req]) @ [?req]\<rparr>)"
    using Send_ok [OF assms(1) _ k, of ?w1 "d\<lparr>dm_pm := pm1\<rparr>"] by simp
  have 3: "apply_app en environ app w = (resp_cli_error (fst (fst (dispatch (ce_daemon en) ?req (d\<lparr>dm_pm := pm1\<rparr>)))),
       ?w1\<lparr>cw_tries := Suc (Suc (cw_tries w)), cw_daemon := Some (snd (dispatch (ce_daemon en) ?req (d\<lparr>dm_pm := pm1\<rparr>))),
         cw_handled := (cw_handled w @ [?req]) @ [?req]\<rparr>)"
    using 2 by (simp add: apply_app_def 1)
  show "cw_handled (snd (apply_app en environ app w)) = cw_handled w @ [?req, ?req]"
    by (simp add: 3)
  show "cw_daemon (snd (apply_app en environ app w)) =
      Some (d\<lparr>dm_pm := snd (StartApp (de_pm (ce_daemon en))
        \<lparr>rq_App = app\<lparr>ac_BaseEnv := environ\<rparr>, rq_CronTriggered = False\<rparr> pm1)\<rparr>)"
    by (simp add: 3 dispatch_start split: prod.split option.split)
qed

end
