(* ===== verification/Remote_Ref.thy ===== *)
theory Remote_Ref
  imports Task_Apply
begin

text \<open>
  \<open>config/remote.go\<close>: references to GitHub repositories, the cache they resolve into, and the
  download of their configuration file. URL parsing, HTTP and the archive decoder are arguments.
\<close>

section \<open>References\<close>

definition is_alnum :: "char \<Rightarrow> bool" where
  "is_alnum c \<longleftrightarrow>
     (let n = of_char c :: nat in 48 \<le> n \<and> n \<le> 57 \<or> 65 \<le> n \<and> n \<le> 90 \<or> 97 \<le> n \<and> n \<le> 122)"

definition is_ref_char :: "char \<Rightarrow> bool" where
  "is_ref_char c \<longleftrightarrow> is_alnum c \<or> c = CHR ''.'' \<or> c = CHR ''_'' \<or> c = CHR ''-''"

text \<open>\<open>githubRepoRE\<close>; no character of its classes is a slash.\<close>

definition githubRepoRE :: "string \<Rightarrow> bool" where
  "githubRepoRE s \<longleftrightarrow>
     (case str_split CHR ''/'' s of
        [owner, repo] \<Rightarrow>
          owner \<noteq> '''' \<and> is_alnum (hd owner) \<and> is_alnum (last owner) \<and> list_all is_ref_char owner \<and>
          repo \<noteq> '''' \<and> list_all is_ref_char repo
      | _ \<Rightarrow> False)"

definition has_prefix :: "string \<Rightarrow> string \<Rightarrow> bool" where
  "has_prefix p s \<longleftrightarrow> take (length p) s = p"

definition IsRemoteRef :: "string \<Rightarrow> bool" where
  "IsRemoteRef path =
     (let ext = to_lower (path_ext path) in
      if ext = ''.js'' \<or> ext = ''.json'' then False
      else if has_prefix ''https://github.com/'' path \<or> has_prefix ''http://github.com/'' path then True
      else githubRepoRE path)"

datatype remote_error =
    InvalidURL
  | UnsupportedHost string
  | InvalidGitHubURL string
  | NotGitHubRef string
  | CacheDirFailed
  | DownloadFailed bool string
  | ConfigNotFound

definition trim_slashes :: "string \<Rightarrow> string" where
  "trim_slashes s =
     rev (dropWhile (\<lambda>c. c = CHR ''/'') (rev (dropWhile (\<lambda>c. c = CHR ''/'') s)))"

text \<open>\<open>url\<close> is \<open>url.Parse\<close>: the host and the decoded path of a URL.\<close>

definition parseGitHubRef ::
  "(string \<Rightarrow> (string \<times> string) option) \<Rightarrow> string \<Rightarrow> remote_error + string \<times> string" where
  "parseGitHubRef url ref =
     (if has_prefix ''https://'' ref \<or> has_prefix ''http://'' ref then
        (case url ref of
           None \<Rightarrow> Inl InvalidURL
         | Some (host, path) \<Rightarrow>
             if host \<noteq> ''github.com'' then Inl (UnsupportedHost host)
             else (case str_split CHR ''/'' (trim_slashes path) of
                     owner # part # _ \<Rightarrow>
                       (let repo = trim_suffix part ''.git'' in
                        if owner = '''' \<or> repo = '''' then Inl (InvalidGitHubURL ref) else Inr (owner, repo))
                   | _ \<Rightarrow> Inl (InvalidGitHubURL ref)))
      else if githubRepoRE ref then
        (case str_split CHR ''/'' ref of
           owner # rest \<Rightarrow> Inr (owner, str_join ''/'' rest)
         | [] \<Rightarrow> Inl (NotGitHubRef ref))
      else Inl (NotGitHubRef ref))"

section \<open>The archive\<close>

definition configFileName :: string where
  "configFileName = ''ecosystem.config.js''"

record tar_entry =
  te_name :: string
  te_regular :: bool

definition trim_prefix :: "string \<Rightarrow> string \<Rightarrow> string" where
  "trim_prefix p s = (if has_prefix p s then drop (length p) s else s)"

text \<open>
  The scan of the archive: the entry to extract, if there is one before the first broken header.
  \<open>None\<close> in the list is a header that cannot be read.
\<close>

datatype tar_scan = TarFound tar_entry | TarEnd | TarBroken

fun scan_archive :: "string \<Rightarrow> tar_entry option list \<Rightarrow> tar_scan" where
  "scan_archive topPrefix [] = TarEnd"
| "scan_archive topPrefix (None # _) = TarBroken"
| "scan_archive topPrefix (Some h # es) =
     (let name = trim_prefix ''./'' (te_name h);
          top = (if topPrefix = '''' then
                   (case str_index CHR ''/'' name of Some i \<Rightarrow> take (Suc i) name | None \<Rightarrow> '''')
                 else topPrefix);
          rel = trim_prefix top name
      in if rel \<noteq> configFileName \<or> \<not> te_regular h then scan_archive top es else TarFound h)"

text \<open>One download: what the server and the disk answered.\<close>

record download =
  dl_request :: bool
  dl_connect :: bool
  dl_status :: nat
  dl_gzip :: bool
  dl_entries :: "tar_entry option list"
  dl_write :: bool
  dl_copy :: bool

definition downloadAndExtractConfig :: "download \<Rightarrow> string \<Rightarrow> remote_error + string" where
  "downloadAndExtractConfig dl dest =
     (if \<not> dl_request dl then Inl (DownloadFailed False ''build request'')
      else if \<not> dl_connect dl then Inl (DownloadFailed True ''download'')
      else if 500 \<le> dl_status dl then Inl (DownloadFailed True ''HTTP'')
      else if dl_status dl \<noteq> 200 then Inl (DownloadFailed False ''HTTP'')
      else if \<not> dl_gzip dl then Inl (DownloadFailed True ''gzip'')
      else (case scan_archive '''' (dl_entries dl) of
              TarBroken \<Rightarrow> Inl (DownloadFailed True ''tar'')
            | TarEnd \<Rightarrow> Inl ConfigNotFound
            | TarFound h \<Rightarrow>
                if \<not> dl_write dl then Inl (DownloadFailed False ''write'')
                else if \<not> dl_copy dl then Inl (DownloadFailed False ''copy'')
                else Inr (path_join [dest, configFileName])))"

definition isRetryable :: "remote_error \<Rightarrow> bool" where
  "isRetryable e = (case e of DownloadFailed retry _ \<Rightarrow> retry | _ \<Rightarrow> False)"

text \<open>The attempts, from \<open>attempt\<close> to the fifth; the result carries how many were made.\<close>

fun attempts :: "(nat \<Rightarrow> download) \<Rightarrow> string \<Rightarrow> nat \<Rightarrow> nat \<Rightarrow> (remote_error + string) \<times> nat" where
  "attempts dls dest attempt 0 = (Inl ConfigNotFound, attempt - 1)"
| "attempts dls dest attempt (Suc n) =
     (case downloadAndExtractConfig (dls attempt) dest of
        Inr found \<Rightarrow> (Inr found, attempt)
      | Inl e \<Rightarrow>
          if \<not> isRetryable e \<or> attempt = 5 then (Inl e, attempt)
          else attempts dls dest (Suc attempt) n)"

record remote_env =
  rv_url :: "string \<Rightarrow> (string \<times> string) option"
  rv_cached :: "string \<Rightarrow> bool"
  rv_mkdir :: bool
  rv_download :: "nat \<Rightarrow> download"

definition cache_dir :: "string \<Rightarrow> string \<Rightarrow> string \<Rightarrow> string" where
  "cache_dir cacheDir owner repo = path_join [cacheDir, owner, repo]"

definition ResolveRemote :: "remote_env \<Rightarrow> string \<Rightarrow> string \<Rightarrow> (remote_error + string) \<times> nat" where
  "ResolveRemote en remoteRef cacheDir =
     (case parseGitHubRef (rv_url en) remoteRef of
        Inl e \<Rightarrow> (Inl e, 0)
      | Inr (owner, repo) \<Rightarrow>
          (let dir = cache_dir cacheDir owner repo; cached = path_join [dir, configFileName] in
           if rv_cached en cached then (Inr cached, 0)
           else if \<not> rv_mkdir en then (Inl CacheDirFailed, 0)
           else attempts (rv_download en) dir 1 5))"

section \<open>Retries\<close>

lemma attempts_bound:
  "attempt + n = 6 \<Longrightarrow> 0 < attempt \<Longrightarrow> snd (attempts dls dest attempt n) \<le> 5"
  by (induction n arbitrary: attempt) (auto split: sum.split)

lemma ResolveRemote_attempts: "snd (ResolveRemote en ref dir) \<le> 5"
  using attempts_bound [of 1 5 "rv_download en"]
  by (auto simp: ResolveRemote_def Let_def split: sum.split prod.split)

text \<open>It gives up early only on an answer that a retry cannot change.\<close>

lemma attempts_give_up:
  "attempt + n = 6 \<Longrightarrow> 0 < attempt \<Longrightarrow> attempts dls dest attempt n = (Inl e, k) \<Longrightarrow> k < 5 \<Longrightarrow> \<not> isRetryable e"
proof (induction n arbitrary: attempt)
  case (Suc n)
  then show ?case using Suc.IH [of "Suc attempt"] by (auto split: sum.splits if_splits)
qed auto

lemma attempts_found:
  "attempts dls dest attempt n = (Inr found, k) \<Longrightarrow> found = path_join [dest, configFileName]"
  by (induction n arbitrary: attempt)
    (auto simp: downloadAndExtractConfig_def split: sum.splits if_splits tar_scan.splits)

section \<open>The cache\<close>

lemma ResolveRemote_file:
  assumes "ResolveRemote en ref cacheDir = (Inr found, k)"
  shows "\<exists>owner repo. parseGitHubRef (rv_url en) ref = Inr (owner, repo) \<and>
    found = path_join [cache_dir cacheDir owner repo, configFileName]"
  using assms attempts_found
  by (auto simp: ResolveRemote_def Let_def split: sum.splits prod.splits if_splits)

text \<open>A repository that is named by a plain component resolves inside the cache.\<close>

lemma cache_contained:
  assumes "canonical_dir cache" "proper_comp owner" "proper_comp repo"
  shows "path_join [cache_dir cache owner repo, configFileName] =
    cache @ ''/'' @ owner @ ''/'' @ repo @ ''/ecosystem.config.js''"
proof -
  have p: "list_all proper_comp [owner, repo]" using assms by simp
  have d: "cache_dir cache owner repo = cache @ ''/'' @ owner @ ''/'' @ repo"
    unfolding cache_dir_def using path_join_canonical [OF assms(1) p] by (simp add: str_join_def)
  have "canonical_dir (cache_dir cache owner repo)"
    unfolding cache_dir_def by (rule canonical_path_join [OF assms(1) p]) simp
  moreover have "proper_comp configFileName" by code_simp
  ultimately have "path_join [cache_dir cache owner repo, configFileName] =
      cache_dir cache owner repo @ ''/'' @ configFileName"
    using path_join_canonical [of "cache_dir cache owner repo" "[configFileName]"] by (simp add: str_join_def)
  then show ?thesis by (simp add: d configFileName_def)
qed

lemma githubRepoRE_parts:
  assumes "githubRepoRE ref"
  obtains owner repo where "str_split CHR ''/'' ref = [owner, repo]" "proper_comp owner"
    "repo \<noteq> ''''" "CHR ''/'' \<notin> set repo" "ref = owner @ ''/'' @ repo"
proof -
  from assms obtain owner repo where s: "str_split CHR ''/'' ref = [owner, repo]"
    and o: "owner \<noteq> ''''" "is_alnum (hd owner)" and r: "repo \<noteq> ''''"
    by (auto simp: githubRepoRE_def split: list.splits)
  have n: "CHR ''/'' \<notin> set owner" "CHR ''/'' \<notin> set repo"
    using str_split_members [of _ "CHR ''/''" ref] s by auto
  have "\<not> is_alnum CHR ''.''" by code_simp
  then have "proper_comp owner" using o n by (auto simp: proper_comp_def)
  moreover have "ref = owner @ ''/'' @ repo"
    using str_join_split [of "CHR ''/''" ref] by (simp add: s str_join_def)
  ultimately show ?thesis using that s r n by blast
qed

lemma shorthand_contained:
  assumes "githubRepoRE ref" "\<not> has_prefix ''https://'' ref" "\<not> has_prefix ''http://'' ref" "canonical_dir cache"
    "\<not> (\<exists>owner. ref = owner @ ''/.'' \<or> ref = owner @ ''/..'')"
    "ResolveRemote en ref cache = (Inr found, k)"
  shows "found = cache @ ''/'' @ ref @ ''/ecosystem.config.js''"
proof -
  obtain owner repo where p: "str_split CHR ''/'' ref = [owner, repo]" "proper_comp owner"
    "repo \<noteq> ''''" "CHR ''/'' \<notin> set repo" "ref = owner @ ''/'' @ repo"
    using githubRepoRE_parts [OF assms(1)] by blast
  have "repo \<noteq> ''.''" "repo \<noteq> ''..''" using assms(5) p(5) by auto
  then have "proper_comp repo" using p(3,4) by (simp add: proper_comp_def)
  moreover have "parseGitHubRef (rv_url en) ref = Inr (owner, repo)"
    using assms(1-3) p(1) by (simp add: parseGitHubRef_def)
  ultimately show ?thesis
    using ResolveRemote_file [OF assms(6)] cache_contained [OF assms(4) p(2)] p(5) by auto
qed

text \<open>A repository called \<open>..\<close> is accepted and resolves to the cache directory itself.\<close>

lemma dotdot_escapes:
  "IsRemoteRef ''foo/..''"
  "parseGitHubRef url ''foo/..'' = Inr (''foo'', ''..'')"
  "path_join [cache_dir ''/h/repos'' ''foo'' ''..'', configFileName] = ''/h/repos/ecosystem.config.js''"
proof -
  show "IsRemoteRef ''foo/..''"
    "path_join [cache_dir ''/h/repos'' ''foo'' ''..'', configFileName] = ''/h/repos/ecosystem.config.js''"
    by code_simp+
  have "\<not> has_prefix ''https://'' ''foo/..''" "\<not> has_prefix ''http://'' ''foo/..''" "githubRepoRE ''foo/..''"
    "str_split CHR ''/'' ''foo/..'' = [''foo'', ''..'']"
    by code_simp+
  then show "parseGitHubRef url ''foo/..'' = Inr (''foo'', ''..'')"
    by (simp add: parseGitHubRef_def str_join_def)
qed

end
