(* ===== verification/Web_Server.thy ===== *)
theory Web_Server
  imports Daemon_RPC Run_Journal
begin

text \<open>
  \<open>daemon/web/\<close> and \<open>daemon/webbackend.go\<close>: the views the HTTP server shows, its rate limiter, the
  same-origin guard, the webhook and the stage logs. HTTP and JSON decoding are arguments.
\<close>

section \<open>Views\<close>

record task_view =
  tv_ID :: int
  tv_Namespace :: string
  tv_Name :: string
  tv_Script :: string
  tv_Args :: "string list"
  tv_CWD :: string
  tv_Status :: status
  tv_PID :: int
  tv_CPU :: rat
  tv_Memory :: "64 word"
  tv_Restarts :: int
  tv_MaxRestarts :: int
  tv_StartedAt :: gotime
  tv_Version :: string
  tv_Watch :: bool
  tv_Paused :: bool
  tv_Optional :: bool
  tv_Cron :: string
  tv_CronRestart :: string
  tv_LastCronAt :: gotime
  tv_LastCronStatus :: string
  tv_LogFile :: string
  tv_ErrorFile :: string

definition newTaskView :: "process_info \<Rightarrow> task_view" where
  "newTaskView info =
     (let a = pi_App info in
      \<lparr>tv_ID = pi_ID info, tv_Namespace = ac_Namespace a, tv_Name = ac_Name a, tv_Script = ac_Script a,
       tv_Args = ac_Args a, tv_CWD = ac_CWD a, tv_Status = pi_Status info, tv_PID = pi_PID info,
       tv_CPU = pi_CPU info, tv_Memory = pi_Memory info, tv_Restarts = pi_Restarts info,
       tv_MaxRestarts = ac_MaxRestarts a, tv_StartedAt = pi_StartedAt info, tv_Version = ac_Version a,
       tv_Watch = ac_Watch a, tv_Paused = ac_Paused a, tv_Optional = ac_Optional a, tv_Cron = ac_Cron a,
       tv_CronRestart = ac_CronRestart a, tv_LastCronAt = pi_LastCronAt info,
       tv_LastCronStatus = pi_LastCronStatus info, tv_LogFile = pi_LogFile info,
       tv_ErrorFile = pi_ErrorFile info\<rparr>)"

definition newTaskViews :: "process_info list \<Rightarrow> task_view list" where
  "newTaskViews infos = map newTaskView infos"

text \<open>\<open>handleTasks\<close>, up to the JSON and its ETag.\<close>

definition handleTasks :: "daemon \<Rightarrow> task_view list" where
  "handleTasks d = newTaskViews (ListAll (dm_pm d))"

record workflow_summary =
  wsum_Key :: string
  wsum_Category :: string
  wsum_Name :: string
  wsum_Cron :: string
  wsum_Stages :: "string list"
  wsum_Running :: bool
  wsum_RunID :: string
  wsum_LastStatus :: "run_status option"
  wsum_LastRunAt :: gotime

definition WebWorkflows :: "engine \<Rightarrow> workflow_summary list" where
  "WebWorkflows eng =
     map (\<lambda>st. let c = ws_Config st in
            \<lparr>wsum_Key = Config_Key c, wsum_Category = wc_Category c, wsum_Name = wc_Name c,
             wsum_Cron = wc_Cron c, wsum_Stages = map sg_Name (wc_Stages c),
             wsum_Running = ws_Running st, wsum_RunID = ws_RunID st, wsum_LastStatus = ws_LastStatus st,
             wsum_LastRunAt = ws_LastRunAt st\<rparr>)
       (Engine_List eng)"

record run_summary =
  rsum_RunID :: string
  rsum_Workflow :: string
  rsum_Trigger :: trigger
  rsum_Stage :: string
  rsum_StartedAt :: gotime
  rsum_Running :: bool

definition WebActiveRuns :: "engine \<Rightarrow> run_summary list" where
  "WebActiveRuns eng =
     map (\<lambda>run. \<lparr>rsum_RunID = rn_ID run, rsum_Workflow = Run_Key run, rsum_Trigger = rn_Trigger run,
            rsum_Stage = CurrentStage run, rsum_StartedAt = rn_StartedAt run, rsum_Running = True\<rparr>)
       (LiveRuns eng)"

text \<open>\<open>handleWorkflowRuns\<close>: the runs in flight with the queried key, then the finished ones.\<close>

definition active_rows :: "string \<Rightarrow> engine \<Rightarrow> run_summary list" where
  "active_rows name eng = filter (\<lambda>r. name = '''' \<or> rsum_Workflow r = name) (WebActiveRuns eng)"

definition handleWorkflowRuns ::
  "codec \<Rightarrow> (string \<Rightarrow> bool) \<Rightarrow> query \<Rightarrow> store \<Rightarrow> engine \<Rightarrow>
   (run_summary list \<times> workflow_record list) option" where
  "handleWorkflowRuns cd rd q s eng =
     (case RecentWorkflows cd rd q s of
        (_, False) \<Rightarrow> None
      | (recs, True) \<Rightarrow> Some (active_rows (q_Name q) eng, recs))"

definition maxQueryLimit :: int where "maxQueryLimit = 500"

text \<open>The name, the status and the raw limit of a URL.\<close>

definition queryFrom :: "string \<Rightarrow> run_status option \<Rightarrow> string \<Rightarrow> query" where
  "queryFrom name st raw =
     \<lparr>q_Name = name, q_Status = st,
      q_Limit =
        (case atoi raw of None \<Rightarrow> 0 | Some n \<Rightarrow> if 0 < n then min n maxQueryLimit else 0)\<rparr>"

section \<open>The rate limiter\<close>

definition rateWindow :: int where "rateWindow = 60 * 1000000000"

definition rateBurst :: nat where "rateBurst = 10"

type_synonym rate_limiter = "gotime list gomap"

definition hits_of :: "rate_limiter \<Rightarrow> string \<Rightarrow> gotime list" where
  "hits_of l key = (case gm_get l key of None \<Rightarrow> [] | Some hs \<Rightarrow> hs)"

text \<open>\<open>allow\<close> reads the clock for the cutoff, and again for the hit it records.\<close>

definition rate_allow :: "gotime \<Rightarrow> gotime \<Rightarrow> string \<Rightarrow> rate_limiter \<Rightarrow> bool \<times> rate_limiter" where
  "rate_allow now1 now2 key l =
     (let cutoff = GoTime (nanos now1 - rateWindow);
          kept = filter (\<lambda>t. cutoff < t) (hits_of l key)
      in if rateBurst \<le> length kept then (False, gm_set key kept l)
         else (True, gm_set key (kept @ [now2]) l))"

section \<open>The guard\<close>

text \<open>\<open>url\<close> is the host of a URL, nothing if it does not parse.\<close>

definition sameOrigin :: "(string \<Rightarrow> string option) \<Rightarrow> string \<Rightarrow> string \<Rightarrow> bool" where
  "sameOrigin url origin host =
     (if origin = '''' then True
      else (case url origin of
              None \<Rightarrow> False
            | Some h \<Rightarrow> h \<noteq> '''' \<and> to_lower h = to_lower host))"

definition guard :: "(string \<Rightarrow> string option) \<Rightarrow> string \<Rightarrow> string \<Rightarrow> 'r \<Rightarrow> 'r \<Rightarrow> 'r" where
  "guard url origin host forbidden next_reply =
     (if \<not> sameOrigin url origin host then forbidden else next_reply)"

section \<open>The webhook\<close>

definition isParamName :: "string \<Rightarrow> bool" where
  "isParamName s \<longleftrightarrow>
     s \<noteq> '''' \<and>
     (\<forall>i<length s.
        (let n = of_char (s ! i) :: nat in
         97 \<le> n \<and> n \<le> 122 \<or> 65 \<le> n \<and> n \<le> 90 \<or> s ! i = CHR ''_'' \<or> 0 < i \<and> 48 \<le> n \<and> n \<le> 57))"

datatype param_error = TooManyParams | InvalidParamName string | ParamTooLong string

text \<open>The first offending parameter in the order the map is ranged over, which is the list's here.\<close>

fun param_fault :: "(string \<times> string) list \<Rightarrow> param_error option" where
  "param_fault [] = None"
| "param_fault ((k, v) # ps) =
     (if \<not> isParamName k then Some (InvalidParamName k)
      else if 4096 < length v then Some (ParamTooLong k)
      else param_fault ps)"

definition validateParams :: "string gomap \<Rightarrow> param_error option" where
  "validateParams params = (if 32 < length params then Some TooManyParams else param_fault params)"

datatype hook_error =
    ForbiddenOrigin
  | UnsupportedMedia
  | BodyUnreadable
  | InvalidBody
  | BadParams param_error
  | RateLimited
  | Engine engine_error
  | UnknownName string

datatype hook_reply = HookAccepted string string | HookError nat hook_error

text \<open>
  A webhook request: the name in the path, the content type, the body unless it is too large or
  unreadable, and the clock readings of the limiter. \<open>decode\<close> is the strict JSON decoder.
\<close>

record hook_request =
  hk_workflow :: string
  hk_ctype :: string
  hk_body :: "string option"
  hk_now1 :: gotime
  hk_now2 :: gotime

definition hook_status :: "engine_error \<Rightarrow> string \<Rightarrow> hook_reply" where
  "hook_status e name =
     (case e of
        RunInProgress _ _ \<Rightarrow> HookError 409 (Engine e)
      | UnknownWorkflow _ \<Rightarrow> HookError 404 (UnknownName name)
      | TooManyRuns _ \<Rightarrow> HookError 503 (Engine e)
      | _ \<Rightarrow> HookError 400 (Engine e))"

definition hook_body_error :: "(string \<Rightarrow> string gomap option) \<Rightarrow> string \<Rightarrow> hook_error option" where
  "hook_body_error decode body =
     (if trim_space body = '''' then None
      else (case decode body of
              None \<Rightarrow> Some InvalidBody
            | Some params \<Rightarrow> map_option BadParams (validateParams params)))"

definition handleWebhook ::
  "engine_env \<Rightarrow> (string \<Rightarrow> string gomap option) \<Rightarrow> hook_request \<Rightarrow> rate_limiter \<times> engine \<Rightarrow>
   (hook_reply \<times> rpc_effect) \<times> rate_limiter \<times> engine" where
  "handleWebhook ev decode req s =
     (case s of (l, eng) \<Rightarrow>
        if hk_ctype req \<noteq> '''' \<and> take 16 (hk_ctype req) \<noteq> ''application/json''
        then ((HookError 415 UnsupportedMedia, NoEffect), l, eng)
        else
          (case hk_body req of
             None \<Rightarrow> ((HookError 400 BodyUnreadable, NoEffect), l, eng)
           | Some body \<Rightarrow>
               (case hook_body_error decode body of
                  Some e \<Rightarrow> ((HookError 400 e, NoEffect), l, eng)
                | None \<Rightarrow>
                    (case rate_allow (hk_now1 req) (hk_now2 req) (hk_workflow req) l of
                       (False, l1) \<Rightarrow> ((HookError 429 RateLimited, NoEffect), l1, eng)
                     | (True, l1) \<Rightarrow>
                         (case RunWorkflow ev (hk_workflow req) TriggerWebhook False eng of
                            ((Inr run, eff), eng1) \<Rightarrow> ((HookAccepted (rn_ID run) (Run_Key run), eff), l1, eng1)
                          | ((Inl e, eff), eng1) \<Rightarrow> ((hook_status e (hk_workflow req), eff), l1, eng1))))))"

section \<open>Stage logs\<close>

definition defaultLogTail :: nat where "defaultLogTail = 500"

definition logTailFrom :: "string \<Rightarrow> nat" where
  "logTailFrom raw =
     (case atoi raw of
        Some n \<Rightarrow> if 0 < n then min (nat n) 5000 else defaultLogTail
      | None \<Rightarrow> defaultLogTail)"

definition logReadLimit :: nat where "logReadLimit = 4 * 1024 * 1024"

definition trim_newlines :: "string \<Rightarrow> string" where
  "trim_newlines s = rev (dropWhile (\<lambda>c. c = newline) (rev s))"

text \<open>\<open>readTail\<close> of the web package, on the content of the file.\<close>

definition log_tail :: "string \<Rightarrow> nat \<Rightarrow> string" where
  "log_tail content n =
     (let ls = str_split newline (trim_newlines (take logReadLimit content));
          shown = (if n < length ls then drop (length ls - n) ls else ls)
      in str_join [newline] shown @ [newline])"

datatype log_reply = LogBytes string | LogNotFound | LogReadError

definition handleStageLog ::
  "codec \<Rightarrow> (string \<Rightarrow> bool) \<Rightarrow> (string \<Rightarrow> string option) \<Rightarrow> string \<Rightarrow> store \<Rightarrow> string \<Rightarrow> string \<Rightarrow> string \<Rightarrow>
   log_reply" where
  "handleStageLog cd rd file home s runID stage tail =
     (case WorkflowRun cd rd runID s of
        None \<Rightarrow> LogReadError
      | Some None \<Rightarrow> LogNotFound
      | Some (Some r) \<Rightarrow>
          if stage \<notin> sgr_Name ` set (wr_Stages r) then LogNotFound
          else (case file (StageLogPath home (wr_Workflow r) (wr_RunID r) stage) of
                  None \<Rightarrow> LogNotFound
                | Some content \<Rightarrow> LogBytes (log_tail content (logTailFrom tail))))"

section \<open>No secret leaves through the task view\<close>

lemma newTaskView_env:
  "newTaskView (info\<lparr>pi_App := (pi_App info)\<lparr>ac_Env := e, ac_BaseEnv := b\<rparr>\<rparr>) = newTaskView info"
  by (simp add: newTaskView_def Let_def)

section \<open>The budget of the limiter\<close>

text \<open>A sequence of attempts for one key, each with its two clock readings; the hits allowed.\<close>

fun rate_run :: "string \<Rightarrow> (gotime \<times> gotime) list \<Rightarrow> rate_limiter \<Rightarrow> gotime list" where
  "rate_run key [] l = []"
| "rate_run key ((n1, n2) # calls) l =
     (case rate_allow n1 n2 key l of
        (ok, l1) \<Rightarrow> (if ok then [n2] else []) @ rate_run key calls l1)"

fun clock_forward :: "gotime \<Rightarrow> (gotime \<times> gotime) list \<Rightarrow> bool" where
  "clock_forward t [] = True"
| "clock_forward t ((n1, n2) # calls) = (t \<le> n1 \<and> n1 \<le> n2 \<and> clock_forward n2 calls)"

definition in_window :: "gotime \<Rightarrow> gotime list \<Rightarrow> nat" where
  "in_window s xs = length (filter (\<lambda>t. s < t \<and> nanos t \<le> nanos s + rateWindow) xs)"

definition limiter_ok :: "string \<Rightarrow> rate_limiter \<Rightarrow> gotime list \<Rightarrow> gotime \<Rightarrow> bool" where
  "limiter_ok key l done now \<longleftrightarrow>
     (\<exists>c. c \<le> nanos now - rateWindow \<and> hits_of l key = filter (\<lambda>t. GoTime c < t) done) \<and>
     (\<forall>t\<in>set done. t \<le> now) \<and> (\<forall>s. in_window s done \<le> rateBurst)"

lemma limiter_step:
  assumes "limiter_ok key l done now" "now \<le> n1" "n1 \<le> n2" "rate_allow n1 n2 key l = (ok, l1)"
  shows "limiter_ok key l1 (done @ (if ok then [n2] else [])) n2"
proof -
  obtain c where c: "c \<le> nanos now - rateWindow" "hits_of l key = filter (\<lambda>t. GoTime c < t) done"
    using assms(1) by (auto simp: limiter_ok_def)
  define cut where "cut = nanos n1 - rateWindow"
  have lt: "GoTime x < t \<longleftrightarrow> x < nanos t" for x t by (cases t) (simp add: less_gotime_def)
  have n: "nanos now \<le> nanos n1" "nanos n1 \<le> nanos n2" using assms(2,3) by (simp_all add: less_eq_gotime_def)
  have kept: "filter (\<lambda>t. GoTime cut < t) (hits_of l key) = filter (\<lambda>t. GoTime cut < t) done"
    unfolding c(2) filter_filter using c(1) n by (intro filter_cong) (auto simp: lt cut_def)
  have w: "0 \<le> rateWindow" "0 < rateWindow" by (simp_all add: rateWindow_def)
  have old: "\<forall>t\<in>set done. nanos t \<le> nanos n2"
    using assms(1) n by (auto simp: limiter_ok_def less_eq_gotime_def)
  show ?thesis
  proof (cases "rateBurst \<le> length (filter (\<lambda>t. GoTime cut < t) done)")
    case True
    then have r: "\<not> ok" "hits_of l1 key = filter (\<lambda>t. GoTime cut < t) done"
      using assms(4) kept by (auto simp: rate_allow_def Let_def cut_def hits_of_def gm_get_set)
    have "cut \<le> nanos n2 - rateWindow" using n by (simp add: cut_def)
    then show ?thesis
      using r old assms(1) by (auto simp: limiter_ok_def less_eq_gotime_def)
  next
    case False
    then have ok: "ok" "hits_of l1 key = filter (\<lambda>t. GoTime cut < t) done @ [n2]"
      using assms(4) kept by (auto simp: rate_allow_def Let_def cut_def hits_of_def gm_get_set)
    have h: "cut \<le> nanos n2 - rateWindow" "cut < nanos n2" using n w by (simp_all add: cut_def)
    have "in_window s (done @ [n2]) \<le> rateBurst" for s
    proof (cases "s < n2 \<and> nanos n2 \<le> nanos s + rateWindow")
      case True
      then have "cut \<le> nanos s" using n by (simp add: cut_def)
      then have "filter (\<lambda>t. s < t \<and> nanos t \<le> nanos s + rateWindow) done =
          filter (\<lambda>t. s < t \<and> nanos t \<le> nanos s + rateWindow) (filter (\<lambda>t. GoTime cut < t) done)"
        unfolding filter_filter by (intro filter_cong) (auto simp: lt less_gotime_def)
      then have "in_window s done \<le> length (filter (\<lambda>t. GoTime cut < t) done)"
        unfolding in_window_def by (metis length_filter_le)
      then show ?thesis using False True by (simp add: in_window_def)
    next
      case False
      then have "in_window s (done @ [n2]) = in_window s done" by (simp add: in_window_def)
      then show ?thesis using assms(1) by (simp add: limiter_ok_def)
    qed
    then show ?thesis
      using ok(1) h old unfolding limiter_ok_def ok(2)
      by (auto simp: less_eq_gotime_def lt intro!: exI [of _ cut])
  qed
qed

lemma rate_run_bound:
  assumes "limiter_ok key l done now" "clock_forward now calls"
  shows "in_window s (done @ rate_run key calls l) \<le> rateBurst"
  using assms
proof (induction calls arbitrary: l "done" now)
  case Nil
  then show ?case by (simp add: limiter_ok_def)
next
  case (Cons call calls)
  obtain n1 n2 where call: "call = (n1, n2)" by fastforce
  obtain ok l1 where r: "rate_allow n1 n2 key l = (ok, l1)" by fastforce
  have "limiter_ok key l1 (done @ (if ok then [n2] else [])) n2"
    using limiter_step [OF Cons.prems(1) _ _ r] Cons.prems(2) by (simp add: call)
  from Cons.IH [OF this] show ?case using Cons.prems(2) by (simp add: call r)
qed

text \<open>From an empty limiter, no minute sees more than ten attempts for one key pass.\<close>

lemma rate_bound:
  assumes "clock_forward now calls"
  shows "in_window s (rate_run key calls []) \<le> rateBurst"
proof -
  have "limiter_ok key [] [] now"
    by (auto simp: limiter_ok_def hits_of_def in_window_def)
  from rate_run_bound [OF this assms] show ?thesis by simp
qed

text \<open>Keys do not share a budget: two names of one workflow have two.\<close>

lemma rate_keys_separate:
  "k \<noteq> key \<Longrightarrow> hits_of (snd (rate_allow n1 n2 key l)) k = hits_of l k"
  by (auto simp: rate_allow_def Let_def hits_of_def gm_get_set)

section \<open>What a webhook can do\<close>

lemma hook_rejected_unchanged:
  assumes "handleWebhook ev decode req (l, eng) = ((HookError code e, eff), l1, eng1)"
    "code \<in> {415, 429} \<or> e \<in> {BodyUnreadable, InvalidBody} \<or> (\<exists>p. e = BadParams p)"
  shows "eng1 = eng \<and> eff = NoEffect"
  using assms
  by (auto simp: handleWebhook_def hook_status_def
      split: if_splits option.splits prod.splits bool.splits sum.splits engine_error.splits)

text \<open>A run starts only by an accepted request, with trigger \<open>webhook\<close>, and never twice at once.\<close>

lemma hook_accepted:
  assumes "handleWebhook ev decode req (l, eng) = ((HookAccepted rid key, eff), l1, eng1)"
  shows "\<exists>cfg ar. Run_claim ev (hk_workflow req) TriggerWebhook eng = (Inr (cfg, ar), eng1) \<and>
    eff = StartsRun cfg ar \<and> rid = rn_ID (ar_Run ar)"
  using assms
  by (auto simp: handleWebhook_def RunWorkflow_def hook_status_def
      split: if_splits option.splits prod.splits bool.splits sum.splits engine_error.splits)

text \<open>The reply to an ambiguous name carries the names it could stand for.\<close>

lemma hook_ambiguous:
  assumes "hk_ctype req = ''''" "hk_body req = Some ''''" "rate_allow (hk_now1 req) (hk_now2 req) (hk_workflow req) l = (True, l1)"
    "resolve (en_defs eng) (hk_workflow req) = None" "1 < length (AmbiguousRef (en_defs eng) (hk_workflow req))"
  shows "handleWebhook ev decode req (l, eng) =
    ((HookError 400 (Engine (AmbiguousWorkflow (hk_workflow req) (AmbiguousRef (en_defs eng) (hk_workflow req)))),
      NoEffect), l1, eng)"
  using assms
  by (simp add: handleWebhook_def hook_body_error_def trim_space_def RunWorkflow_def Run_claim_def hook_status_def)

text \<open>
  Webhook requests in the order they arrive, each followed by what else happens to the engine
  before the next; the times at which a run of the named workflow was started.
\<close>

fun hook_run ::
  "engine_env \<Rightarrow> (string \<Rightarrow> string gomap option) \<Rightarrow> string \<Rightarrow> (hook_request \<times> (engine \<Rightarrow> engine)) list \<Rightarrow>
   rate_limiter \<times> engine \<Rightarrow> gotime list" where
  "hook_run ev decode name [] s = []"
| "hook_run ev decode name ((req, others) # reqs) s =
     (case handleWebhook ev decode req s of
        ((reply, eff), l1, eng1) \<Rightarrow>
          (if eff \<noteq> NoEffect \<and> hk_workflow req = name then [hk_now2 req] else []) @
          hook_run ev decode name reqs (l1, others eng1))"

fun hooks_forward :: "gotime \<Rightarrow> (hook_request \<times> (engine \<Rightarrow> engine)) list \<Rightarrow> bool" where
  "hooks_forward t [] = True"
| "hooks_forward t ((req, others) # reqs) =
     (t \<le> hk_now1 req \<and> hk_now1 req \<le> hk_now2 req \<and> hooks_forward (hk_now2 req) reqs)"

lemma limiter_later: "limiter_ok key l done now \<Longrightarrow> now \<le> t \<Longrightarrow> limiter_ok key l done t"
proof -
  assume ok: "limiter_ok key l done now" and t: "now \<le> t"
  obtain c where c: "c \<le> nanos now - rateWindow" "hits_of l key = filter (\<lambda>t. GoTime c < t) done"
    using ok by (auto simp: limiter_ok_def)
  have "c \<le> nanos t - rateWindow" using c(1) t by (simp add: less_eq_gotime_def)
  moreover have "\<forall>x\<in>set done. x \<le> t" using ok t by (auto simp: limiter_ok_def intro: order_trans)
  ultimately show ?thesis using ok c(2) unfolding limiter_ok_def by blast
qed

lemma limiter_hits: "hits_of l1 key = hits_of l key \<Longrightarrow> limiter_ok key l done now \<Longrightarrow> limiter_ok key l1 done now"
  by (simp add: limiter_ok_def)

text \<open>A request leaves the limiter alone or asks it once; only an allowed one starts a run.\<close>

lemma handleWebhook_limiter:
  assumes "handleWebhook ev decode req (l, eng) = ((reply, eff), l1, eng1)"
  shows "(l1 = l \<and> eff = NoEffect) \<or>
    (\<exists>ok. rate_allow (hk_now1 req) (hk_now2 req) (hk_workflow req) l = (ok, l1) \<and> (ok \<or> eff = NoEffect))"
  using assms by (auto simp: handleWebhook_def split: if_splits option.splits prod.splits bool.splits sum.splits)

lemma in_window_append: "in_window s (xs @ ys) = in_window s xs + in_window s ys" "in_window s [] = 0"
  by (simp_all add: in_window_def)

lemma hook_run_bound_from:
  assumes "limiter_ok name l done now" "hooks_forward now reqs" "\<And>s. in_window s acc \<le> in_window s done"
  shows "in_window s (acc @ hook_run ev decode name reqs (l, eng)) \<le> rateBurst"
  using assms
proof (induction reqs arbitrary: l "done" now acc eng)
  case Nil
  then show ?case using le_trans [OF Nil(3) [of s]] by (auto simp: limiter_ok_def)
next
  case (Cons r reqs)
  obtain req others where r: "r = (req, others)" by fastforce
  obtain reply eff l1 eng1 where h: "handleWebhook ev decode req (l, eng) = ((reply, eff), l1, eng1)"
    by (metis prod.exhaust)
  let ?hit = "if eff \<noteq> NoEffect \<and> hk_workflow req = name then [hk_now2 req] else []"
  have t: "now \<le> hk_now1 req" "hk_now1 req \<le> hk_now2 req" "hooks_forward (hk_now2 req) reqs"
    using Cons.prems(2) by (simp_all add: r)
  have later: "limiter_ok name l done (hk_now2 req)"
    using limiter_later [OF Cons.prems(1)] t by (meson order_trans)
  obtain done1 where d: "limiter_ok name l1 done1 (hk_now2 req)"
    "\<And>s. in_window s (acc @ ?hit) \<le> in_window s done1"
  proof (cases "l1 = l \<and> eff = NoEffect")
    case True
    then show ?thesis using that [of "done"] later Cons.prems(3) by simp
  next
    case False
    then obtain ok where ok: "rate_allow (hk_now1 req) (hk_now2 req) (hk_workflow req) l = (ok, l1)"
      "ok \<or> eff = NoEffect"
      using handleWebhook_limiter [OF h] by blast
    show ?thesis
    proof (cases "hk_workflow req = name")
      case True
      then have "limiter_ok name l1 (done @ (if ok then [hk_now2 req] else [])) (hk_now2 req)"
        using limiter_step [OF Cons.prems(1) t(1,2)] ok(1) by simp
      moreover have "in_window s (acc @ ?hit) \<le> in_window s (done @ (if ok then [hk_now2 req] else []))" for s
        using Cons.prems(3) [of s] ok(2) by (auto simp: in_window_append)
      ultimately show ?thesis using that by blast
    next
      case False
      then have "hits_of l1 name = hits_of l name"
        using rate_keys_separate [of name "hk_workflow req" "hk_now1 req" "hk_now2 req" l] ok(1) by simp
      then show ?thesis using that [of "done"] limiter_hits [OF _ later] Cons.prems(3) False by simp
    qed
  qed
  from Cons.IH [OF d(1) t(3) d(2)] show ?case by (simp add: r h)
qed

lemma hook_run_bound:
  assumes "hooks_forward now reqs"
  shows "in_window s (hook_run ev decode name reqs ([], eng)) \<le> rateBurst"
proof -
  have "limiter_ok name [] [] now" by (auto simp: limiter_ok_def hits_of_def in_window_def)
  from hook_run_bound_from [OF this assms, of "[]"] show ?thesis by simp
qed

section \<open>The tail of a stage log\<close>

text \<open>Up to four MiB it is the end of the file; beyond, the end of the first four MiB.\<close>

lemma log_tail_small:
  "length content \<le> logReadLimit \<Longrightarrow>
    log_tail content n =
      (let ls = str_split newline (trim_newlines content)
       in str_join [newline] (drop (length ls - n) ls) @ [newline])"
  by (simp add: log_tail_def Let_def)

lemma log_tail_large:
  "logReadLimit \<le> length content \<Longrightarrow> log_tail (content @ rest) n = log_tail content n"
  by (simp add: log_tail_def)

lemma stage_log_path:
  assumes "handleStageLog cd rd file home s runID stage tail = LogBytes b"
  shows "\<exists>r content. WorkflowRun cd rd runID s = Some (Some r) \<and> stage \<in> sgr_Name ` set (wr_Stages r) \<and>
    file (StageLogPath home (wr_Workflow r) (wr_RunID r) stage) = Some content"
  using assms by (auto simp: handleStageLog_def split: option.splits if_splits)

text \<open>A bare name finds finished runs but no run in flight, whose key has a category.\<close>

lemma active_rows_bare:
  assumes "name \<noteq> ''''" "\<forall>r\<in>set (LiveRuns eng). Run_Key r \<noteq> name"
  shows "active_rows name eng = []"
  using assms by (auto simp: active_rows_def WebActiveRuns_def filter_empty_conv)

end
