(* ===== verification/Sys_Process.thy ===== *)
theory Sys_Process
  imports Run_Journal "HOL-Library.Product_Lexorder"
begin

text \<open>
  The process half of \<open>sysmon/\<close>: \<open>proctable.go\<close> (the table of \<open>ps\<close> and the tree below a process),
  \<open>ports.go\<close> (the listeners printed by \<open>ss\<close> and \<open>lsof\<close>) and \<open>inspect.go\<close> (the join with the managed
  tasks). The outputs of the tools are arguments.
\<close>

section \<open>Parsing words\<close>

text \<open>\<open>strings.Fields\<close>.\<close>

definition str_fields :: "string \<Rightarrow> string list" where
  "str_fields s =
     filter (\<lambda>w. w \<noteq> '''') (str_split CHR '' '' (map (\<lambda>c. if is_space c then CHR '' '' else c) s))"

text \<open>\<open>strconv.ParseUint(s, 10, 64)\<close>: the value and no error; out of range it is the largest value.\<close>

definition parse_uint :: "string \<Rightarrow> 64 word \<times> bool" where
  "parse_uint s =
     (if s = '''' \<or> \<not> list_all is_digit s then (0, False)
      else if 2 ^ 64 \<le> digits_val s then (- 1, False)
      else (of_nat (digits_val s), True))"

text \<open>
  \<open>strconv.ParseFloat\<close> on decimal numbers with an optional exponent, without the rounding to 53
  bits; hexadecimal numbers, underscores, infinities and NaN, which none of the tools prints, count
  as errors.
\<close>

definition cut_sign :: "string \<Rightarrow> bool \<times> string" where
  "cut_sign s =
     (case s of [] \<Rightarrow> (False, [])
      | c # cs \<Rightarrow> if c = CHR ''-'' then (True, cs) else if c = CHR ''+'' then (False, cs) else (False, s))"

definition parse_exponent :: "string \<Rightarrow> int option" where
  "parse_exponent s =
     (case s of [] \<Rightarrow> Some 0
      | c # cs \<Rightarrow>
          if c \<noteq> CHR ''e'' \<and> c \<noteq> CHR ''E'' then None
          else (case cut_sign cs of
                  (neg, ds) \<Rightarrow>
                    if ds = '''' \<or> \<not> list_all is_digit ds then None
                    else Some (if neg then - int (digits_val ds) else int (digits_val ds))))"

definition parse_float :: "string \<Rightarrow> rat option" where
  "parse_float s =
     (case cut_sign s of
        (neg, t) \<Rightarrow>
          (let whole = takeWhile is_digit t; r1 = dropWhile is_digit t;
               dotted = (r1 \<noteq> '''' \<and> hd r1 = CHR ''.'');
               frac = (if dotted then takeWhile is_digit (tl r1) else '''');
               r2 = (if dotted then dropWhile is_digit (tl r1) else r1)
           in if whole @ frac = '''' then None
              else (case parse_exponent r2 of
                      None \<Rightarrow> None
                    | Some e \<Rightarrow>
                        (let v = of_nat (digits_val (whole @ frac)) *
                               (if 0 \<le> e - int (length frac) then 10 ^ nat (e - int (length frac))
                                else 1 / 10 ^ nat (int (length frac) - e))
                         in Some (if neg then - v else v)))))"

definition float_or_zero :: "string \<Rightarrow> rat" where
  "float_or_zero s = (case parse_float s of Some v \<Rightarrow> v | None \<Rightarrow> 0)"

section \<open>The process table (proctable.go)\<close>

record proc =
  pr_PID :: int
  pr_PPID :: int
  pr_CPU :: rat
  pr_Memory :: "64 word"
  pr_State :: string
  pr_Command :: string
  pr_GPU :: rat

definition processTableArgs :: "string \<Rightarrow> string list" where
  "processTableArgs goos =
     (if goos = ''linux'' then [''-eo'', ''pid=,ppid=,pcpu=,rss=,stat=,args='']
      else [''-axo'', ''pid=,ppid=,pcpu=,rss=,stat=,command=''])"

definition parse_proc :: "string \<Rightarrow> proc option" where
  "parse_proc line =
     (let fs = str_fields line in
      if length fs < 6 then None
      else (case (atoi (fs ! 0), atoi (fs ! 1)) of
              (Some pid, Some ppid) \<Rightarrow>
                Some \<lparr>pr_PID = pid, pr_PPID = ppid, pr_CPU = float_or_zero (fs ! 2),
                      pr_Memory = fst (parse_uint (fs ! 3)) * 1024, pr_State = fs ! 4,
                      pr_Command = str_join '' '' (drop 5 fs), pr_GPU = 0\<rparr>
            | _ \<Rightarrow> None))"

definition parseProcessTable :: "string \<Rightarrow> proc list" where
  "parseProcessTable output = List.map_filter parse_proc (str_split newline output)"

definition Executable :: "proc \<Rightarrow> string" where
  "Executable p =
     (let command = trim_space (pr_Command p)
      in if command = '''' then '''' else path_base (takeWhile (\<lambda>c. c \<noteq> CHR '' '') command))"

definition Proc_Running :: "proc \<Rightarrow> bool" where
  "Proc_Running p \<longleftrightarrow> take 1 (pr_State p) = ''R''"

record proc_counts =
  pn_Total :: int
  pn_Running :: int

definition countProcesses :: "proc list \<Rightarrow> proc_counts" where
  "countProcesses procs =
     fold (\<lambda>p c. if Proc_Running p then c\<lparr>pn_Running := pn_Running c + 1\<rparr> else c) procs
       \<lparr>pn_Total = int (length procs), pn_Running = 0\<rparr>"

text \<open>A Go map from a PID to a slice; a missing key reads as the empty slice.\<close>

type_synonym 'a by_pid = "(int \<times> 'a list) list"

definition bp_get :: "'a by_pid \<Rightarrow> int \<Rightarrow> 'a list" where
  "bp_get m k = (case map_of m k of None \<Rightarrow> [] | Some xs \<Rightarrow> xs)"

definition bp_add :: "int \<Rightarrow> 'a \<Rightarrow> 'a by_pid \<Rightarrow> 'a by_pid" where
  "bp_add k x m = AList.update k (bp_get m k @ [x]) m"

definition indexByParent :: "proc list \<Rightarrow> proc by_pid" where
  "indexByParent procs = fold (\<lambda>p m. bp_add (pr_PPID p) p m) procs []"

text \<open>The walk keeps what it found, the visited PIDs and the queue.\<close>

fun children_loop :: "proc list \<Rightarrow> proc list \<times> int list \<times> int list \<Rightarrow> proc list \<times> int list \<times> int list" where
  "children_loop [] s = s"
| "children_loop (c # cs) (found, visited, queue) =
     (if pr_PID c \<in> set visited then children_loop cs (found, visited, queue)
      else children_loop cs (found @ [c], pr_PID c # visited, queue @ [pr_PID c]))"

definition bp_pids :: "proc by_pid \<Rightarrow> int set" where
  "bp_pids m = pr_PID ` \<Union> (set ` snd ` set m)"

lemma bp_get_pids: "pr_PID ` set (bp_get m k) \<subseteq> bp_pids m"
proof (cases "map_of m k")
  case (Some xs)
  then have "(k, xs) \<in> set m" by (rule map_of_SomeD)
  then have "set xs \<subseteq> \<Union> (set ` snd ` set m)" by force
  then show ?thesis using Some by (auto simp: bp_get_def bp_pids_def)
qed (simp add: bp_get_def)

lemma finite_bp_pids [simp]: "finite (bp_pids m)"
  by (simp add: bp_pids_def)

lemma children_loop_measure:
  assumes "children_loop cs (found, visited, queue) = (found', visited', queue')"
    "finite P" "pr_PID ` set cs \<subseteq> P"
  shows "2 * card (P - set visited') + length queue' \<le> 2 * card (P - set visited) + length queue"
  using assms
proof (induction cs arbitrary: found visited queue)
  case (Cons c cs)
  show ?case
  proof (cases "pr_PID c \<in> set visited")
    case False
    have "P - set (pr_PID c # visited) = (P - set visited) - {pr_PID c}" by auto
    moreover have "pr_PID c \<in> P - set visited" "finite (P - set visited)"
      using False Cons.prems(2,3) by simp_all
    ultimately have "Suc (card (P - set (pr_PID c # visited))) = card (P - set visited)"
      by (metis card_Suc_Diff1)
    moreover have "children_loop cs (found @ [c], pr_PID c # visited, queue @ [pr_PID c]) = (found', visited', queue')"
      "pr_PID ` set cs \<subseteq> P"
      using Cons.prems(1,3) False by simp_all
    from Cons.IH [OF this(1) Cons.prems(2) this(2)]
    have "2 * card (P - set visited') + length queue' \<le>
        2 * card (P - set (pr_PID c # visited)) + (length queue + 1)" by simp
    ultimately show ?thesis by linarith
  next
    case True
    then have "children_loop cs (found, visited, queue) = (found', visited', queue')" "pr_PID ` set cs \<subseteq> P"
      using Cons.prems(1,3) by simp_all
    from Cons.IH [OF this(1) Cons.prems(2) this(2)] show ?thesis .
  qed
qed simp

function walk_down :: "proc by_pid \<Rightarrow> proc list \<times> int list \<times> int list \<Rightarrow> proc list" where
  "walk_down m (found, visited, []) = found"
| "walk_down m (found, visited, parent # queue) =
     walk_down m (children_loop (bp_get m parent) (found, visited, queue))"
  by pat_completeness auto

termination
proof (relation "measure (\<lambda>(m, found, visited, queue). 2 * card (bp_pids m - set visited) + length queue)")
  fix m found visited parent queue
  obtain f v q where l: "children_loop (bp_get m parent) (found, visited, queue) = (f, v, q)"
    by (metis prod.exhaust)
  from children_loop_measure [OF l finite_bp_pids bp_get_pids]
  show "((m, children_loop (bp_get m parent) (found, visited, queue)), m, found, visited, parent # queue) \<in>
    measure (\<lambda>(m, found, visited, queue). 2 * card (bp_pids m - set visited) + length queue)"
    by (simp add: l)
qed simp

definition descendants :: "proc by_pid \<Rightarrow> int \<Rightarrow> proc list" where
  "descendants m rootPID = (if rootPID \<le> 0 then [] else walk_down m ([], [rootPID], [rootPID]))"

definition findProc :: "proc list \<Rightarrow> int \<Rightarrow> proc option" where
  "findProc procs pid = find (\<lambda>p. pr_PID p = pid) procs"

definition Descendants :: "proc list \<Rightarrow> int \<Rightarrow> proc list" where
  "Descendants procs pid = descendants (indexByParent procs) pid"

section \<open>The tree below a process\<close>

lemma bp_get_add: "bp_get (bp_add k x m) j = (if j = k then bp_get m j @ [x] else bp_get m j)"
  by (simp add: bp_get_def bp_add_def update_conv')

lemma indexByParent_get: "bp_get (indexByParent procs) k = filter (\<lambda>p. pr_PPID p = k) procs"
proof -
  have "bp_get (fold (\<lambda>p m. bp_add (pr_PPID p) p m) procs m) k =
      bp_get m k @ filter (\<lambda>p. pr_PPID p = k) procs" for m
    by (induction procs arbitrary: m) (auto simp: bp_get_add)
  then show ?thesis by (simp add: indexByParent_def bp_get_def)
qed

definition child_of :: "proc list \<Rightarrow> (int \<times> int) set" where
  "child_of procs = (\<lambda>p. (pr_PPID p, pr_PID p)) ` set procs"

text \<open>What the walk has established when it takes the next parent from the queue.\<close>

definition walk_ok :: "proc list \<Rightarrow> int \<Rightarrow> proc list \<times> int list \<times> int list \<Rightarrow> bool" where
  "walk_ok procs rootPID s \<longleftrightarrow>
     (case s of (found, visited, queue) \<Rightarrow>
        set found \<subseteq> set procs \<and> distinct (map pr_PID found) \<and> rootPID \<notin> pr_PID ` set found \<and>
        set visited = insert rootPID (pr_PID ` set found) \<and> set queue \<subseteq> set visited \<and>
        (\<forall>x\<in>set visited - set queue. child_of procs `` {x} \<subseteq> set visited) \<and>
        set visited \<subseteq> (child_of procs)\<^sup>* `` {rootPID})"

lemma children_loop_visits:
  "\<exists>new. children_loop cs (found, visited, queue) =
      (found @ new, rev (map pr_PID new) @ visited, queue @ map pr_PID new) \<and>
    set new \<subseteq> set cs \<and> distinct (map pr_PID new) \<and> pr_PID ` set new \<inter> set visited = {} \<and>
    pr_PID ` set cs \<subseteq> set visited \<union> pr_PID ` set new"
proof (induction cs arbitrary: found visited queue)
  case (Cons c cs)
  show ?case
  proof (cases "pr_PID c \<in> set visited")
    case True
    then show ?thesis using Cons.IH [of found visited queue] by auto
  next
    case False
    obtain new where new: "children_loop cs (found @ [c], pr_PID c # visited, queue @ [pr_PID c]) =
        ((found @ [c]) @ new, rev (map pr_PID new) @ pr_PID c # visited, (queue @ [pr_PID c]) @ map pr_PID new)"
      "set new \<subseteq> set cs" "distinct (map pr_PID new)" "pr_PID ` set new \<inter> set (pr_PID c # visited) = {}"
      "pr_PID ` set cs \<subseteq> set (pr_PID c # visited) \<union> pr_PID ` set new"
      using Cons.IH [of "found @ [c]" "pr_PID c # visited" "queue @ [pr_PID c]"] by blast
    show ?thesis
    proof (intro exI [of _ "c # new"] conjI)
      show "children_loop (c # cs) (found, visited, queue) =
          (found @ c # new, rev (map pr_PID (c # new)) @ visited, queue @ map pr_PID (c # new))"
        using False new(1) by simp
    qed (use False new(2-5) in auto)
  qed
qed simp

lemma walk_ok_step:
  assumes "walk_ok procs r (found, visited, parent # queue)"
    "set kids = {p \<in> set procs. pr_PPID p = parent}"
  shows "walk_ok procs r (children_loop kids (found, visited, queue))"
proof -
  obtain new where new: "children_loop kids (found, visited, queue) =
      (found @ new, rev (map pr_PID new) @ visited, queue @ map pr_PID new)"
    "set new \<subseteq> set kids" "distinct (map pr_PID new)" "pr_PID ` set new \<inter> set visited = {}"
    "pr_PID ` set kids \<subseteq> set visited \<union> pr_PID ` set new"
    using children_loop_visits by blast
  have ok: "set found \<subseteq> set procs" "distinct (map pr_PID found)" "r \<notin> pr_PID ` set found"
    "set visited = insert r (pr_PID ` set found)" "set (parent # queue) \<subseteq> set visited"
    "\<And>x. x \<in> set visited \<Longrightarrow> x \<notin> set (parent # queue) \<Longrightarrow> child_of procs `` {x} \<subseteq> set visited"
    "set visited \<subseteq> (child_of procs)\<^sup>* `` {r}"
    using assms(1) unfolding walk_ok_def prod.case by blast+
  have kids: "pr_PID ` set kids = child_of procs `` {parent}"
    by (auto simp: assms(2) child_of_def)
  let ?v = "set visited \<union> pr_PID ` set new"
  have "child_of procs `` {x} \<subseteq> ?v" if "x \<in> ?v" "x \<notin> set queue \<union> pr_PID ` set new" for x
    using that ok(6) [of x] new(5) kids by (cases "x = parent") auto
  moreover have "pr_PID ` set new \<subseteq> (child_of procs)\<^sup>* `` {r}"
  proof -
    have "parent \<in> (child_of procs)\<^sup>* `` {r}" using ok(5,7) by auto
    moreover have "pr_PID ` set new \<subseteq> child_of procs `` {parent}" using new(2) kids by blast
    ultimately show ?thesis by (blast intro: rtrancl_into_rtrancl)
  qed
  ultimately show ?thesis
    using ok(1-5,7) new(2-4) unfolding new(1) walk_ok_def assms(2) by auto
qed

lemma walk_spec:
  assumes "walk_ok procs r s" "\<And>k. set (bp_get m k) = {p \<in> set procs. pr_PPID p = k}"
  shows "set (walk_down m s) \<subseteq> set procs \<and> distinct (map pr_PID (walk_down m s)) \<and>
    pr_PID ` set (walk_down m s) = (child_of procs)\<^sup>* `` {r} - {r}"
  using assms
proof (induction m s rule: walk_down.induct)
  case (1 m found visited)
  then have closed: "child_of procs `` set visited \<subseteq> set visited" "r \<in> set visited"
    unfolding walk_ok_def prod.case by (simp_all add: Image_def) blast+
  have "(child_of procs)\<^sup>* `` set visited = set visited" by (rule Image_closed_trancl [OF closed(1)])
  then have "(child_of procs)\<^sup>* `` {r} \<subseteq> set visited" using closed(2) by blast
  then have "(child_of procs)\<^sup>* `` {r} = set visited" using 1 by (auto simp: walk_ok_def)
  then show ?case using 1 by (auto simp: walk_ok_def)
next
  case (2 m found visited parent queue)
  from "2.IH" [OF walk_ok_step [OF "2.prems"(1,2)] "2.prems"(2)] show ?case by simp
qed

text \<open>
  The processes below a root are exactly those the parent links lead to, each PID once, however
  the table loops.
\<close>

theorem descendants_exact:
  assumes "0 < r"
  shows "set (Descendants procs r) \<subseteq> set procs \<and> distinct (map pr_PID (Descendants procs r)) \<and>
    pr_PID ` set (Descendants procs r) = (child_of procs)\<^sup>+ `` {r} - {r}"
proof -
  have "walk_ok procs r ([], [r], [r])" by (auto simp: walk_ok_def)
  from walk_spec [OF this, of "indexByParent procs"] show ?thesis
    using assms by (auto simp: Descendants_def descendants_def indexByParent_get rtrancl_eq_or_trancl)
qed

lemma descendants_nonpos: "r \<le> 0 \<Longrightarrow> descendants m r = []"
  by (simp add: descendants_def)

text \<open>The children of the root come first.\<close>

lemma walk_prefix: "\<exists>more. walk_down m (found, visited, queue) = found @ more"
proof (induction m "(found, visited, queue)" arbitrary: found visited queue rule: walk_down.induct)
  case (2 m found visited parent queue)
  obtain new where new: "children_loop (bp_get m parent) (found, visited, queue) =
      (found @ new, rev (map pr_PID new) @ visited, queue @ map pr_PID new)"
    using children_loop_visits by blast
  from "2.hyps" [OF new] show ?case by (auto simp: new)
qed simp

lemma descendants_children_first:
  assumes "0 < r"
  shows "\<exists>kids more. descendants m r = kids @ more \<and> set kids \<subseteq> set (bp_get m r) \<and>
    pr_PID ` set kids = pr_PID ` set (bp_get m r) - {r}"
proof -
  obtain new where new: "children_loop (bp_get m r) ([], [r], []) =
      ([] @ new, rev (map pr_PID new) @ [r], [] @ map pr_PID new)" "set new \<subseteq> set (bp_get m r)"
    "pr_PID ` set new \<inter> set [r] = {}" "pr_PID ` set (bp_get m r) \<subseteq> set [r] \<union> pr_PID ` set new"
    using children_loop_visits by blast
  obtain more where "walk_down m ([] @ new, rev (map pr_PID new) @ [r], [] @ map pr_PID new) = ([] @ new) @ more"
    using walk_prefix by blast
  then show ?thesis using assms new by (intro exI [of _ new] exI [of _ more]) (auto simp: descendants_def)
qed

end
