(* ===== verification/Sys_Counters.thy ===== *)
theory Sys_Counters
  imports Sys_Process
begin

text \<open>
  \<open>sysmon/rate.go\<close>, \<open>network.go\<close>, \<open>filesystem.go\<close> and \<open>linux.go\<close>: counters of the operating system and
  what is made of them. A \<open>float64\<close> is a rational number, without its rounding; a \<open>uint64\<close> is a
  \<open>64 word\<close>, so that every wrap-around of the code is in the model. The files of \<open>/proc\<close> are arguments.
\<close>

section \<open>Rates (rate.go)\<close>

text \<open>The conversion \<open>float64(x)\<close> of a \<open>uint64\<close>.\<close>

definition to_float :: "64 word \<Rightarrow> rat" where
  "to_float w = of_nat (unat w)"

lemma to_float_nonneg [simp]: "0 \<le> to_float w"
  unfolding to_float_def by (rule of_nat_0_le_iff)

lemma to_float_less: "to_float a < to_float b \<longleftrightarrow> unat a < unat b"
  unfolding to_float_def by (rule of_nat_less_iff)

lemma to_float_le: "to_float a \<le> to_float b \<longleftrightarrow> unat a \<le> unat b"
  unfolding to_float_def by (rule of_nat_le_iff)

lemma to_float_pos: "0 < to_float a \<longleftrightarrow> a \<noteq> 0"
  unfolding to_float_def by (metis of_nat_0_less_iff unat_gt_0)

lemma to_float_minus: "b \<le> a \<Longrightarrow> to_float (a - b) = to_float a - to_float b"
  unfolding to_float_def by (simp only: unat_sub word_le_nat_alt of_nat_diff)

type_synonym rate_tracker = "(64 word \<times> gotime) gomap"

definition seconds_between :: "gotime \<Rightarrow> gotime \<Rightarrow> rat" where
  "seconds_between a b = of_int (nanos b - nanos a) / 1000000000"

definition rate :: "string \<Rightarrow> 64 word \<Rightarrow> gotime \<Rightarrow> rate_tracker \<Rightarrow> rat \<times> rate_tracker" where
  "rate key v now t =
     ((case gm_get t key of
         None \<Rightarrow> 0
       | Some (v0, at0) \<Rightarrow>
           if v < v0 then 0
           else if seconds_between at0 now \<le> 0 then 0
           else to_float (v - v0) / seconds_between at0 now),
      gm_set key (v, now) t)"

section \<open>Networks and devices (network.go, linux.go)\<close>

record interface_counters =
  if_name :: string
  if_rx :: "64 word"
  if_tx :: "64 word"

record network =
  nw_Interface :: string
  nw_Rx :: rat
  nw_Tx :: rat
  nw_RxTotal :: "64 word"
  nw_TxTotal :: "64 word"

definition no_network :: network where
  "no_network = \<lparr>nw_Interface = '''', nw_Rx = 0, nw_Tx = 0, nw_RxTotal = 0, nw_TxTotal = 0\<rparr>"

definition add_interface ::
  "gotime \<Rightarrow> interface_counters \<Rightarrow> (network \<times> 64 word) \<times> rate_tracker \<Rightarrow> (network \<times> 64 word) \<times> rate_tracker" where
  "add_interface now c s =
     (case s of ((nw, busiest), t) \<Rightarrow>
        (case rate (if_name c @ ''/rx'') (if_rx c) now t of (rx, t1) \<Rightarrow>
          (case rate (if_name c @ ''/tx'') (if_tx c) now t1 of (tx, t2) \<Rightarrow>
            (let nw1 = nw\<lparr>nw_RxTotal := nw_RxTotal nw + if_rx c, nw_TxTotal := nw_TxTotal nw + if_tx c,
                          nw_Rx := nw_Rx nw + rx, nw_Tx := nw_Tx nw + tx\<rparr>
             in ((if busiest < if_rx c + if_tx c then (nw1\<lparr>nw_Interface := if_name c\<rparr>, if_rx c + if_tx c)
                  else (nw1, busiest)), t2)))))"

definition networkFrom :: "gotime \<Rightarrow> interface_counters list \<Rightarrow> rate_tracker \<Rightarrow> network \<times> rate_tracker" where
  "networkFrom now cs t =
     (case fold (add_interface now) cs ((no_network, 0), t) of ((nw, _), t1) \<Rightarrow> (nw, t1))"

record disk_counters =
  dc_name :: string
  dc_read :: "64 word"
  dc_write :: "64 word"
  dc_transfers :: "64 word"

record disk_io =
  io_Bytes :: rat
  io_Read :: rat
  io_Write :: rat
  io_Transfers :: rat
  io_Split :: bool

definition add_device :: "gotime \<Rightarrow> disk_counters \<Rightarrow> disk_io \<times> rate_tracker \<Rightarrow> disk_io \<times> rate_tracker" where
  "add_device now d s =
     (case s of (io, t) \<Rightarrow>
        (case rate (dc_name d @ ''/read'') (dc_read d) now t of (r, t1) \<Rightarrow>
          (case rate (dc_name d @ ''/write'') (dc_write d) now t1 of (w, t2) \<Rightarrow>
            (case rate (dc_name d @ ''/transfers'') (dc_transfers d) now t2 of (x, t3) \<Rightarrow>
              (io\<lparr>io_Read := io_Read io + r, io_Write := io_Write io + w, io_Transfers := io_Transfers io + x\<rparr>, t3)))))"

definition diskIOFrom :: "gotime \<Rightarrow> disk_counters list \<Rightarrow> rate_tracker \<Rightarrow> disk_io \<times> rate_tracker" where
  "diskIOFrom now ds t =
     (case fold (add_device now) ds
             (\<lparr>io_Bytes = 0, io_Read = 0, io_Write = 0, io_Transfers = 0, io_Split = True\<rparr>, t) of
        (io, t1) \<Rightarrow> (io\<lparr>io_Bytes := io_Read io + io_Write io\<rparr>, t1))"

section \<open>Parsing /proc (linux.go)\<close>

definition has_prefix_of :: "string \<Rightarrow> string \<Rightarrow> bool" where
  "has_prefix_of s p \<longleftrightarrow> take (length p) s = p"

text \<open>The aggregate line of \<open>/proc/stat\<close>: the sum of all fields, and of the fourth and the fifth.\<close>

fun stat_sum :: "nat \<Rightarrow> string list \<Rightarrow> 64 word \<times> 64 word \<Rightarrow> 64 word \<times> 64 word" where
  "stat_sum i [] s = s"
| "stat_sum i (f # fs) (tot, idle) =
     (case parse_uint f of
        (v, False) \<Rightarrow> stat_sum (Suc i) fs (tot, idle)
      | (v, True) \<Rightarrow> stat_sum (Suc i) fs (tot + v, if i = 3 \<or> i = 4 then idle + v else idle))"

definition parseProcStat :: "string \<Rightarrow> (64 word \<times> 64 word) option" where
  "parseProcStat data =
     (case find (\<lambda>l. has_prefix_of l ''cpu '') (str_split newline data) of
        None \<Rightarrow> None
      | Some line \<Rightarrow>
          (let fs = str_fields line in if length fs < 5 then None else Some (stat_sum 0 (tl fs) (0, 0))))"

record cpu =
  cp_Cores :: int
  cp_Used :: rat
  cp_User :: rat
  cp_Sys :: rat
  cp_Idle :: rat

definition no_cpu :: cpu where "no_cpu = \<lparr>cp_Cores = 0, cp_Used = 0, cp_User = 0, cp_Sys = 0, cp_Idle = 0\<rparr>"

definition cpuFromDelta :: "64 word \<Rightarrow> 64 word \<Rightarrow> 64 word \<Rightarrow> 64 word \<Rightarrow> bool \<Rightarrow> cpu" where
  "cpuFromDelta tot idle previousTotal previousIdle warmed =
     (if \<not> warmed \<or> tot \<le> previousTotal then no_cpu
      else (let p = 100 * to_float (idle - previousIdle) / to_float (tot - previousTotal)
            in no_cpu\<lparr>cp_Used := 100 - p, cp_Idle := p\<rparr>))"

record memory =
  me_Total :: "64 word"
  me_Used :: "64 word"
  me_UsedPercent :: rat
  me_Available :: "64 word"
  me_SwapTotal :: "64 word"
  me_SwapUsed :: "64 word"

definition percent :: "64 word \<Rightarrow> 64 word \<Rightarrow> rat" where
  "percent part whole = (if whole = 0 then 0 else 100 * to_float part / to_float whole)"

text \<open>\<open>strings.Cut(line, ":")\<close>: the label and what follows.\<close>

definition cut_colon :: "string \<Rightarrow> (string \<times> string) option" where
  "cut_colon line =
     (case str_index CHR '':'' line of None \<Rightarrow> None | Some i \<Rightarrow> Some (take i line, drop (Suc i) line))"

definition meminfo_line :: "string \<Rightarrow> 64 word gomap \<Rightarrow> 64 word gomap" where
  "meminfo_line line vs =
     (case cut_colon line of
        None \<Rightarrow> vs
      | Some (label, v) \<Rightarrow>
          (case str_fields v of
             [] \<Rightarrow> vs
           | f # _ \<Rightarrow> (case parse_uint f of (kib, True) \<Rightarrow> gm_set label (kib * 1024) vs | (_, False) \<Rightarrow> vs)))"

definition word_at :: "64 word gomap \<Rightarrow> string \<Rightarrow> 64 word" where
  "word_at vs k = (case gm_get vs k of None \<Rightarrow> 0 | Some v \<Rightarrow> v)"

definition readProcMemory :: "string option \<Rightarrow> memory option" where
  "readProcMemory src =
     (case src of
        None \<Rightarrow> None
      | Some data \<Rightarrow>
          (let vs = fold meminfo_line (str_split newline data) [];
               tot = word_at vs ''MemTotal''; avail = min (word_at vs ''MemAvailable'') tot;
               swap = word_at vs ''SwapTotal''
           in if tot = 0 then None
              else Some \<lparr>me_Total = tot, me_Used = tot - avail, me_UsedPercent = percent (tot - avail) tot,
                         me_Available = avail, me_SwapTotal = swap,
                         me_SwapUsed = swap - min (word_at vs ''SwapFree'') swap\<rparr>))"

definition readProcLoad :: "string option \<Rightarrow> (rat \<times> rat \<times> rat) option" where
  "readProcLoad src =
     (case src of
        None \<Rightarrow> None
      | Some data \<Rightarrow>
          (let fs = str_fields data in
           if length fs < 3 then None
           else Some (float_or_zero (fs ! 0), float_or_zero (fs ! 1), float_or_zero (fs ! 2))))"

definition net_line :: "string \<Rightarrow> interface_counters option" where
  "net_line line =
     (case cut_colon line of
        None \<Rightarrow> None
      | Some (name0, values) \<Rightarrow>
          (let name = trim_space name0; fs = str_fields values in
           if name = '''' \<or> has_prefix_of name ''lo'' \<or> length fs < 9 then None
           else (case (parse_uint (fs ! 0), parse_uint (fs ! 8)) of
                   ((rx, True), (tx, True)) \<Rightarrow> Some \<lparr>if_name = name, if_rx = rx, if_tx = tx\<rparr>
                 | _ \<Rightarrow> None)))"

definition parseProcNetDev :: "string \<Rightarrow> interface_counters list" where
  "parseProcNetDev data = List.map_filter net_line (str_split newline data)"

text \<open>The loop of \<open>isPartition\<close>, downwards from the last position.\<close>

fun partition_from :: "string \<Rightarrow> string list \<Rightarrow> nat \<Rightarrow> bool" where
  "partition_from name names 0 = False"
| "partition_from name names (Suc n) =
     (if \<not> is_digit (name ! Suc n) then False
      else
        (let parent = take (Suc n) name in
         if suffix ''p'' parent \<and> butlast parent \<in> set names then True
         else if parent \<in> set names then True
         else partition_from name names n))"

definition isPartition :: "string \<Rightarrow> string list \<Rightarrow> bool" where
  "isPartition name names = partition_from name names (length name - 1)"

definition linuxSectorBytes :: "64 word" where "linuxSectorBytes = 512"

definition disk_row :: "string \<Rightarrow> disk_counters option" where
  "disk_row line =
     (let fs = str_fields line in
      if length fs < 10 \<or> has_prefix_of (fs ! 2) ''loop'' \<or> has_prefix_of (fs ! 2) ''ram'' \<or> has_prefix_of (fs ! 2) ''zram''
      then None
      else (case (parse_uint (fs ! 3), parse_uint (fs ! 5), parse_uint (fs ! 7), parse_uint (fs ! 9)) of
              ((reads, True), (sectorsR, True), (writes, True), (sectorsW, True)) \<Rightarrow>
                Some \<lparr>dc_name = fs ! 2, dc_read = sectorsR * linuxSectorBytes,
                      dc_write = sectorsW * linuxSectorBytes, dc_transfers = reads + writes\<rparr>
            | _ \<Rightarrow> None))"

definition whole_devices :: "disk_counters list \<Rightarrow> disk_counters list" where
  "whole_devices rows = filter (\<lambda>d. \<not> isPartition (dc_name d) (map dc_name rows)) rows"

definition parseDiskStats :: "string \<Rightarrow> disk_counters list" where
  "parseDiskStats data = whole_devices (List.map_filter disk_row (str_split newline data))"

section \<open>File systems (filesystem.go)\<close>

record disk =
  dk_Device :: string
  dk_Mount :: string
  dk_Total :: "64 word"
  dk_Used :: "64 word"
  dk_UsedPercent :: rat

definition isPlumbingMount :: "string \<Rightarrow> bool" where
  "isPlumbingMount m \<longleftrightarrow> has_prefix_of m ''/System/Volumes/'' \<and> m \<noteq> ''/System/Volumes/Data''"

definition df_row :: "string \<Rightarrow> disk option" where
  "df_row line =
     (let fs = str_fields line; mount = str_join '' '' (drop 5 fs) in
      if length fs < 6 \<or> \<not> has_prefix_of (fs ! 0) ''/dev/'' \<or> isPlumbingMount mount then None
      else (case (parse_uint (fs ! 1), parse_uint (fs ! 2)) of
              ((blocks, True), (used, True)) \<Rightarrow>
                if blocks = 0 then None
                else Some \<lparr>dk_Device = fs ! 0, dk_Mount = mount, dk_Total = blocks * 1024, dk_Used = used * 1024,
                           dk_UsedPercent = percent (used * 1024) (blocks * 1024)\<rparr>
            | _ \<Rightarrow> None))"

text \<open>\<open>sort.SliceStable\<close>: the root first, then from the largest on.\<close>

definition parseDiskUsage :: "string \<Rightarrow> disk list" where
  "parseDiskUsage output =
     sort_key (\<lambda>d. (dk_Mount d \<noteq> ''/'', - uint (dk_Total d))) (List.map_filter df_row (str_split newline output))"

section \<open>The Linux sampler (linux.go)\<close>

record linux_sampler =
  lx_network :: rate_tracker
  lx_disk :: rate_tracker
  lx_previousIdle :: "64 word"
  lx_previousTotal :: "64 word"
  lx_warmed :: bool

definition newLinuxSampler :: linux_sampler where
  "newLinuxSampler = \<lparr>lx_network = [], lx_disk = [], lx_previousIdle = 0, lx_previousTotal = 0, lx_warmed = False\<rparr>"

text \<open>What the files and \<open>df\<close> hold at one sample; \<open>None\<close> for a failed read.\<close>

record proc_files =
  pf_now :: gotime
  pf_stat :: "string option"
  pf_meminfo :: "string option"
  pf_loadavg :: "string option"
  pf_netdev :: "string option"
  pf_diskstats :: "string option"
  pf_df :: "string option"
  pf_cores :: int

record system =
  sy_CPU :: cpu
  sy_Memory :: memory
  sy_Load :: "rat \<times> rat \<times> rat"
  sy_Network :: network
  sy_DiskIO :: disk_io
  sy_Disks :: "disk list"

definition no_memory :: memory where
  "no_memory = \<lparr>me_Total = 0, me_Used = 0, me_UsedPercent = 0, me_Available = 0, me_SwapTotal = 0, me_SwapUsed = 0\<rparr>"

definition no_disk_io :: disk_io where
  "no_disk_io = \<lparr>io_Bytes = 0, io_Read = 0, io_Write = 0, io_Transfers = 0, io_Split = False\<rparr>"

datatype sample_failure = CpuFailed | MemoryFailed | LoadFailed | NetworkFailed | DiskIOFailed | DisksFailed

definition readCPU :: "string option \<Rightarrow> linux_sampler \<Rightarrow> cpu option \<times> linux_sampler" where
  "readCPU src l =
     (case src of
        None \<Rightarrow> (None, l)
      | Some data \<Rightarrow>
          (case parseProcStat data of
             None \<Rightarrow> (None, l)
           | Some (tot, idle) \<Rightarrow>
               (Some (cpuFromDelta tot idle (lx_previousTotal l) (lx_previousIdle l) (lx_warmed l)),
                l\<lparr>lx_previousTotal := tot, lx_previousIdle := idle, lx_warmed := True\<rparr>)))"

definition readNetwork :: "gotime \<Rightarrow> string option \<Rightarrow> linux_sampler \<Rightarrow> network option \<times> linux_sampler" where
  "readNetwork now src l =
     (case src of
        None \<Rightarrow> (None, l)
      | Some data \<Rightarrow>
          (case networkFrom now (parseProcNetDev data) (lx_network l) of
             (nw, t) \<Rightarrow> (Some nw, l\<lparr>lx_network := t\<rparr>)))"

definition readDiskIO :: "gotime \<Rightarrow> string option \<Rightarrow> linux_sampler \<Rightarrow> disk_io option \<times> linux_sampler" where
  "readDiskIO now src l =
     (case src of
        None \<Rightarrow> (None, l)
      | Some data \<Rightarrow>
          (case diskIOFrom now (parseDiskStats data) (lx_disk l) of (io, t) \<Rightarrow> (Some io, l\<lparr>lx_disk := t\<rparr>)))"

definition or_failed :: "sample_failure \<Rightarrow> 'a option \<Rightarrow> sample_failure list" where
  "or_failed e r = (case r of None \<Rightarrow> [e] | Some _ \<Rightarrow> [])"

definition linux_sample :: "proc_files \<Rightarrow> linux_sampler \<Rightarrow> (system \<times> sample_failure list) \<times> linux_sampler" where
  "linux_sample pf l =
     (case readCPU (pf_stat pf) l of (c, l1) \<Rightarrow>
       (case readNetwork (pf_now pf) (pf_netdev pf) l1 of (nw, l2) \<Rightarrow>
         (case readDiskIO (pf_now pf) (pf_diskstats pf) l2 of (io, l3) \<Rightarrow>
           (let me = readProcMemory (pf_meminfo pf); ld = readProcLoad (pf_loadavg pf);
                ds = map_option parseDiskUsage (pf_df pf)
            in ((\<lparr>sy_CPU = (case c of None \<Rightarrow> no_cpu | Some x \<Rightarrow> x)\<lparr>cp_Cores := pf_cores pf\<rparr>,
                  sy_Memory = (case me of None \<Rightarrow> no_memory | Some x \<Rightarrow> x),
                  sy_Load = (case ld of None \<Rightarrow> (0, 0, 0) | Some x \<Rightarrow> x),
                  sy_Network = (case nw of None \<Rightarrow> no_network | Some x \<Rightarrow> x),
                  sy_DiskIO = (case io of None \<Rightarrow> no_disk_io | Some x \<Rightarrow> x),
                  sy_Disks = (case ds of None \<Rightarrow> [] | Some x \<Rightarrow> x)\<rparr>,
                 or_failed CpuFailed c @ or_failed MemoryFailed me @ or_failed LoadFailed ld @
                 or_failed NetworkFailed nw @ or_failed DiskIOFailed io @ or_failed DisksFailed ds), l3)))))"

definition linux_host_uptime :: "string option \<Rightarrow> int option" where
  "linux_host_uptime src =
     (case src of
        None \<Rightarrow> None
      | Some data \<Rightarrow>
          (case str_fields data of
             [] \<Rightarrow> None
           | f # _ \<Rightarrow> map_option (\<lambda>v. if v < 0 then \<lceil>v\<rceil> else \<lfloor>v\<rfloor>) (parse_float f)))"

section \<open>What the rates account for\<close>

lemma rate_get: "gm_get (snd (rate key v now t)) k = (if k = key then Some (v, now) else gm_get t k)"
  by (simp add: rate_def gm_get_set)

lemma rate_nonneg: "0 \<le> fst (rate key v now t)"
  by (auto simp: rate_def split: option.split)

lemma rate_first: "gm_get t key = None \<Longrightarrow> fst (rate key v now t) = 0"
  by (simp add: rate_def)

lemma rate_backwards: "gm_get t key = Some (v0, at0) \<Longrightarrow> v < v0 \<Longrightarrow> fst (rate key v now t) = 0"
  by (simp add: rate_def)

lemma rate_delta:
  assumes "gm_get t key = Some (v0, at0)" "v0 \<le> v" "at0 < now"
  shows "fst (rate key v now t) * seconds_between at0 now = to_float v - to_float v0"
proof -
  have s: "0 < seconds_between at0 now" using assms(3) by (simp add: seconds_between_def less_gotime_def)
  have "to_float (v - v0) = to_float v - to_float v0" by (rule to_float_minus [OF assms(2)])
  then show ?thesis using s assms(1,2) by (simp add: rate_def not_less [symmetric])
qed

text \<open>The readings of one counter, each with its time; the traffic its rates stand for.\<close>

fun traffic :: "string \<Rightarrow> (64 word \<times> gotime) list \<Rightarrow> 64 word \<times> gotime \<Rightarrow> rate_tracker \<Rightarrow> rat" where
  "traffic key [] prev t = 0"
| "traffic key ((v, now) # rs) (v0, at0) t =
     (case rate key v now t of (r, t1) \<Rightarrow> r * seconds_between at0 now + traffic key rs (v, now) t1)"

fun counter_advances :: "(64 word \<times> gotime) list \<Rightarrow> 64 word \<times> gotime \<Rightarrow> bool" where
  "counter_advances [] prev = True"
| "counter_advances ((v, now) # rs) (v0, at0) = (v0 \<le> v \<and> at0 < now \<and> counter_advances rs (v, now))"

text \<open>As long as a counter does not go back, its rates add up to exactly what it counted.\<close>

lemma rates_account:
  assumes "counter_advances rs (v0, at0)" "gm_get t key = Some (v0, at0)"
  shows "traffic key rs (v0, at0) t = to_float (fst (last ((v0, at0) # rs))) - to_float v0"
  using assms
proof (induction rs arbitrary: v0 at0 t)
  case (Cons r rs)
  obtain v now where r: "r = (v, now)" by fastforce
  obtain x t1 where x: "rate key v now t = (x, t1)" by fastforce
  have adv: "v0 \<le> v" "at0 < now" "counter_advances rs (v, now)" using Cons.prems(1) by (simp_all add: r)
  have "gm_get t1 key = Some (v, now)" using rate_get [of key v now t key] by (simp add: x)
  from Cons.IH [OF adv(3) this] rate_delta [OF Cons.prems(2) adv(1,2)] show ?case
    by (cases rs) (simp_all add: r x)
qed simp

text \<open>An interface that goes away or comes back does not disturb the baseline of another.\<close>

lemma add_interface_others:
  "k \<noteq> if_name c @ ''/rx'' \<Longrightarrow> k \<noteq> if_name c @ ''/tx'' \<Longrightarrow>
    gm_get (snd (add_interface now c s)) k = gm_get (snd s) k"
  by (cases s) (auto simp: add_interface_def Let_def rate_def gm_get_set split: prod.split)

lemma networkFrom_others:
  assumes "\<And>c. c \<in> set cs \<Longrightarrow> k \<noteq> if_name c @ ''/rx'' \<and> k \<noteq> if_name c @ ''/tx''"
  shows "gm_get (snd (networkFrom now cs t)) k = gm_get t k"
proof -
  have "gm_get (snd (fold (add_interface now) cs s)) k = gm_get (snd s) k" for s
    using assms by (induction cs arbitrary: s) (simp_all add: add_interface_others)
  from this [of "((no_network, 0), t)"] show ?thesis
    by (cases "fold (add_interface now) cs ((no_network, 0), t)") (auto simp: networkFrom_def split: prod.split)
qed

section \<open>Utilisation\<close>

lemma cpu_first: "cpuFromDelta tot idle pt pd False = no_cpu"
  by (simp add: cpuFromDelta_def)

lemma cpu_in_range:
  assumes "pt < tot" "pd \<le> idle" "unat idle - unat pd \<le> unat tot - unat pt"
  shows "0 \<le> cp_Idle (cpuFromDelta tot idle pt pd True) \<and> cp_Idle (cpuFromDelta tot idle pt pd True) \<le> 100 \<and>
    0 \<le> cp_Used (cpuFromDelta tot idle pt pd True) \<and> cp_Used (cpuFromDelta tot idle pt pd True) \<le> 100 \<and>
    cp_Used (cpuFromDelta tot idle pt pd True) + cp_Idle (cpuFromDelta tot idle pt pd True) = 100"
proof -
  let ?d = "to_float (idle - pd)" and ?t = "to_float (tot - pt)"
  have "unat (idle - pd) = unat idle - unat pd" "unat (tot - pt) = unat tot - unat pt" "unat pt < unat tot"
    using assms(1,2) by (simp_all add: unat_sub word_le_nat_alt word_less_nat_alt less_imp_le)
  then have "?d \<le> ?t" "0 < ?t" using assms(1,3) by (auto simp add: to_float_le to_float_pos)
  then have "0 \<le> 100 * ?d / ?t" "100 * ?d / ?t \<le> 100" by (simp_all add: field_simps)
  then show ?thesis using assms(1) by (simp add: cpuFromDelta_def Let_def not_le no_cpu_def)
qed

text \<open>
  Idle time that went back while the sum advanced (\<open>iowait\<close> does that) wraps around: the usage is
  far below zero.
\<close>

lemma cpu_backward_idle:
  assumes "pt < tot" "idle < pd" "unat tot - unat pt + (unat pd - unat idle) < 2 ^ 64"
  shows "cp_Used (cpuFromDelta tot idle pt pd True) < 0"
proof -
  let ?d = "to_float (idle - pd)" and ?t = "to_float (tot - pt)"
  have t: "unat (tot - pt) = unat tot - unat pt" "unat pt < unat tot"
    using assms(1) by (simp_all add: unat_sub word_less_nat_alt less_imp_le)
  have lt: "unat idle < unat pd" "unat pd < 2 ^ 64"
    using assms(2) unsigned_less [of pd] by (simp_all add: word_less_nat_alt)
  have "unat (idle - pd) = 2 ^ 64 - (unat pd - unat idle)"
    using lt by (simp add: unat_sub_if')
  then have "unat (tot - pt) < unat (idle - pd)" using assms(3) t lt by linarith
  then have "?t < ?d" by (simp only: to_float_less)
  moreover have "0 < ?t" using assms(1) by (auto simp add: to_float_pos)
  ultimately have "100 < 100 * ?d / ?t" by (simp add: field_simps)
  then show ?thesis using assms(1) by (simp add: cpuFromDelta_def Let_def not_le no_cpu_def)
qed

lemma percent_range:
  assumes "part \<le> whole"
  shows "0 \<le> percent part whole" "percent part whole \<le> 100"
proof -
  have "unat part \<le> unat whole" using assms by (simp add: word_le_nat_alt)
  then have "to_float part \<le> to_float whole" by (simp only: to_float_le)
  moreover have "whole \<noteq> 0 \<Longrightarrow> 0 < to_float whole" by (simp add: to_float_pos)
  ultimately show "0 \<le> percent part whole" "percent part whole \<le> 100"
    by (auto simp: percent_def field_simps)
qed

text \<open>Memory: used and available make up the whole, and nothing exceeds its total, whatever the file says.\<close>

lemma memory_consistent:
  assumes "readProcMemory src = Some m"
  shows "me_Total m \<noteq> 0 \<and> unat (me_Used m) + unat (me_Available m) = unat (me_Total m) \<and>
    me_SwapUsed m \<le> me_SwapTotal m \<and> 0 \<le> me_UsedPercent m \<and> me_UsedPercent m \<le> 100"
proof -
  obtain data where f: "src = Some data" using assms by (cases src) (simp_all add: readProcMemory_def)
  define vs where "vs = fold meminfo_line (str_split newline data) []"
  define avail where "avail = min (word_at vs ''MemAvailable'') (word_at vs ''MemTotal'')"
  define free where "free = min (word_at vs ''SwapFree'') (word_at vs ''SwapTotal'')"
  have m: "word_at vs ''MemTotal'' \<noteq> 0" "me_Total m = word_at vs ''MemTotal''" "me_Available m = avail"
    "me_Used m = me_Total m - avail" "me_UsedPercent m = percent (me_Used m) (me_Total m)"
    "me_SwapUsed m = me_SwapTotal m - free" "me_SwapTotal m = word_at vs ''SwapTotal''"
    using assms by (auto simp: f readProcMemory_def Let_def vs_def avail_def free_def split: if_splits)
  have le: "avail \<le> me_Total m" "free \<le> me_SwapTotal m" by (simp_all add: avail_def free_def m(2,7))
  have u: "unat (me_Used m) = unat (me_Total m) - unat avail" "unat avail \<le> unat (me_Total m)"
    using le(1) by (simp_all add: m(4) unat_sub word_le_nat_alt)
  then have "me_Used m \<le> me_Total m" by (simp add: word_le_nat_alt)
  moreover have "me_SwapUsed m \<le> me_SwapTotal m"
    using le(2) by (simp add: m(6) word_le_nat_alt unat_sub)
  ultimately show ?thesis using u m(1,2,3,5) percent_range by simp
qed

section \<open>Devices\<close>

lemma partition_from_parent:
  "partition_from name names n \<Longrightarrow> n < length name \<Longrightarrow>
    \<exists>k>0. k \<le> n \<and> list_all is_digit (take (Suc n - k) (drop k name)) \<and>
      (take k name \<in> set names \<or> (suffix ''p'' (take k name) \<and> take (k - 1) name \<in> set names))"
proof (induction name names n rule: partition_from.induct)
  case (2 name names n)
  have d: "is_digit (name ! Suc n)" using "2.prems"(1) by (simp split: if_splits)
  let ?parent = "take (Suc n) name"
  show ?case
  proof (cases "?parent \<in> set names \<or> suffix ''p'' ?parent \<and> butlast ?parent \<in> set names")
    case True
    have "butlast ?parent = take (Suc n - 1) name" using "2.prems"(2) by (simp add: butlast_take)
    moreover have "take (Suc (Suc n) - Suc n) (drop (Suc n) name) = [name ! Suc n]"
      using "2.prems"(2) by (simp add: take_Suc_conv_app_nth [of 0] hd_drop_conv_nth take_Suc Cons_nth_drop_Suc [symmetric])
    ultimately show ?thesis using True d by (intro exI [of _ "Suc n"]) auto
  next
    case False
    then have p: "partition_from name names n" using "2.prems"(1) d by (auto simp: Let_def split: if_splits)
    have "n < length name" using "2.prems"(2) by simp
    with "2.IH" [OF _ refl _ _] d False p obtain k where k: "0 < k" "k \<le> n"
      "list_all is_digit (take (Suc n - k) (drop k name))"
      "take k name \<in> set names \<or> suffix ''p'' (take k name) \<and> take (k - 1) name \<in> set names"
      by blast
    have "take (Suc (Suc n) - k) (drop k name) = take (Suc n - k) (drop k name) @ [name ! Suc n]"
      using k(2) "2.prems"(2) by (simp add: Suc_diff_le take_Suc_conv_app_nth)
    then show ?thesis using k d by (intro exI [of _ k]) auto
  qed
qed simp

text \<open>
  A device is left out only if it is another listed device followed by digits, or by a \<open>p\<close> and digits.
  The converse is the trouble: \<open>dm-10\<close> is a whole device, but it is left out when \<open>dm-1\<close> is listed.
\<close>

lemma isPartition_parent:
  assumes "isPartition name names"
  shows "\<exists>k>0. k < length name \<and> list_all is_digit (drop k name) \<and>
    (take k name \<in> set names \<or> (suffix ''p'' (take k name) \<and> take (k - 1) name \<in> set names))"
proof -
  have "name \<noteq> []" using assms by (auto simp: isPartition_def)
  then have len: "length name - 1 < length name" by simp
  from partition_from_parent [OF assms [unfolded isPartition_def] len] obtain k where k: "0 < k" "k \<le> length name - 1"
    "list_all is_digit (take (Suc (length name - 1) - k) (drop k name))"
    "take k name \<in> set names \<or> (suffix ''p'' (take k name) \<and> take (k - 1) name \<in> set names)"
    by blast
  have "take (Suc (length name - 1) - k) (drop k name) = drop k name" using \<open>name \<noteq> []\<close> by simp
  then show ?thesis using k len by (intro exI [of _ k]) auto
qed

lemma device_mapper_dropped:
  "isPartition ''dm-10'' [''dm-1'', ''dm-10'']" "isPartition ''sda1'' [''sda'', ''sda1'']"
  "isPartition ''nvme0n1p3'' [''nvme0n1'', ''nvme0n1p3'']" "\<not> isPartition ''nvme0n1'' [''nvme0n1'', ''nvme0n1p3'']"
  by code_simp+

section \<open>Partial samples\<close>

text \<open>A source that fails costs its own part only, and is named.\<close>

lemma linux_sample_failures:
  "snd (fst (linux_sample pf l)) =
    or_failed CpuFailed (fst (readCPU (pf_stat pf) l)) @
    or_failed MemoryFailed (readProcMemory (pf_meminfo pf)) @
    or_failed LoadFailed (readProcLoad (pf_loadavg pf)) @
    or_failed NetworkFailed (pf_netdev pf) @ or_failed DiskIOFailed (pf_diskstats pf) @
    or_failed DisksFailed (pf_df pf)"
  by (auto simp: linux_sample_def Let_def readNetwork_def readDiskIO_def or_failed_def split: prod.split option.split)

lemma linux_sample_first_cpu:
  "\<not> lx_warmed l \<Longrightarrow> sy_CPU (fst (fst (linux_sample pf l))) = no_cpu\<lparr>cp_Cores := pf_cores pf\<rparr>"
  by (auto simp: linux_sample_def Let_def readCPU_def cpuFromDelta_def split: prod.split option.split)

end
