(* ===== verification/Sys_Inspect.thy ===== *)
theory Sys_Inspect
  imports Sys_Process
begin

text \<open>
  \<open>sysmon/ports.go\<close>, \<open>sysmon/inspect.go\<close> and the process part of \<open>sysmon/gpu.go\<close>: the listeners printed
  by \<open>ss\<close> and \<open>lsof\<close>, and the join of the managed tasks with the process table, the listeners and the
  GPU readings.
\<close>

section \<open>Listeners (ports.go)\<close>

record port =
  po_PID :: int
  po_Protocol :: string
  po_Address :: string
  po_Port :: int
  po_State :: string

definition zero_port :: port where
  "zero_port = \<lparr>po_PID = 0, po_Protocol = '''', po_Address = '''', po_Port = 0, po_State = ''''\<rparr>"

definition splitHostPort :: "string \<Rightarrow> string \<times> int" where
  "splitHostPort v =
     (case str_last_index CHR '':'' v of
        None \<Rightarrow> ('''', 0)
      | Some i \<Rightarrow>
          (if take i v = '''' then ''*'' else take i v,
           case atoi (drop (Suc i) v) of Some n \<Rightarrow> n | None \<Rightarrow> 0))"

text \<open>The text after the first occurrence of \<open>sep\<close>: \<open>strings.Cut\<close>.\<close>

fun cut_after :: "string \<Rightarrow> string \<Rightarrow> string option" where
  "cut_after sep [] = (if sep = [] then Some [] else None)"
| "cut_after sep (c # cs) =
     (if prefix sep (c # cs) then Some (drop (length sep) (c # cs)) else cut_after sep cs)"

lemma cut_after_length: "cut_after sep s = Some r \<Longrightarrow> sep \<noteq> [] \<Longrightarrow> length r < length s"
proof (induction s)
  case (Cons c cs)
  show ?case
  proof (cases "prefix sep (c # cs)")
    case True
    then have "r = drop (length sep) (c # cs)" using Cons.prems(1) by simp
    then show ?thesis using Cons.prems(2) by simp
  next
    case False
    then have "cut_after sep cs = Some r" using Cons.prems(1) by simp
    from Cons.IH [OF this Cons.prems(2)] show ?thesis by simp
  qed
qed simp

function parseSSPIDs :: "string \<Rightarrow> int list" where
  "parseSSPIDs line =
     (case cut_after ''pid='' line of
        None \<Rightarrow> []
      | Some rest \<Rightarrow>
          (case atoi (takeWhile is_digit rest) of Some pid \<Rightarrow> [pid] | None \<Rightarrow> []) @ parseSSPIDs rest)"
  by pat_completeness auto

termination
  by (relation "measure length") (auto dest: cut_after_length)

declare parseSSPIDs.simps [simp del]

definition ss_line :: "string \<Rightarrow> port by_pid \<Rightarrow> port by_pid" where
  "ss_line line ports =
     (let fs = str_fields line in
      if length fs < 4 then ports
      else (case splitHostPort (fs ! 3) of
              (address, port) \<Rightarrow>
                if address = '''' then ports
                else fold (\<lambda>pid m. bp_add pid \<lparr>po_PID = pid, po_Protocol = ''tcp'', po_Address = address,
                                     po_Port = port, po_State = ''LISTEN''\<rparr> m) (parseSSPIDs line) ports))"

definition parseSSPorts :: "string \<Rightarrow> port by_pid" where
  "parseSSPorts output = fold ss_line (str_split newline output) []"

record lsof_state =
  ls_pid :: int
  ls_current :: port
  ls_ports :: "port by_pid"
  ls_seen :: "string list"

definition port_key :: "int \<Rightarrow> port \<Rightarrow> string" where
  "port_key pid p =
     itoa pid @ ''/'' @ po_Protocol p @ ''/'' @ po_Address p @ ''/'' @ itoa (po_Port p)"

definition lsof_flush :: "lsof_state \<Rightarrow> lsof_state" where
  "lsof_flush s =
     (if ls_pid s = 0 \<or> po_Address (ls_current s) = '''' \<or> po_State (ls_current s) \<noteq> ''LISTEN'' then s
      else
        (let cur = (ls_current s)\<lparr>po_PID := ls_pid s\<rparr>; key = port_key (ls_pid s) cur;
             s1 = s\<lparr>ls_current := cur\<rparr>
         in if key \<in> set (ls_seen s) then s1
            else s1\<lparr>ls_seen := key # ls_seen s, ls_ports := bp_add (ls_pid s) cur (ls_ports s)\<rparr>))"

definition lsof_line :: "string \<Rightarrow> lsof_state \<Rightarrow> lsof_state" where
  "lsof_line line s =
     (case line of
        [] \<Rightarrow> s
      | c # v \<Rightarrow>
          if c = CHR ''p'' then
            (lsof_flush s)\<lparr>ls_current := zero_port, ls_pid := (case atoi v of Some n \<Rightarrow> n | None \<Rightarrow> 0)\<rparr>
          else if c = CHR ''f'' then (lsof_flush s)\<lparr>ls_current := zero_port\<rparr>
          else if c = CHR ''P'' then s\<lparr>ls_current := (ls_current s)\<lparr>po_Protocol := to_lower v\<rparr>\<rparr>
          else if c = CHR ''n'' then
            s\<lparr>ls_current := (ls_current s)\<lparr>po_Address := fst (splitHostPort v), po_Port := snd (splitHostPort v)\<rparr>\<rparr>
          else if c = CHR ''T'' \<and> prefix ''ST='' v then
            s\<lparr>ls_current := (ls_current s)\<lparr>po_State := drop 3 v\<rparr>\<rparr>
          else s)"

definition lsof_start :: lsof_state where
  "lsof_start = \<lparr>ls_pid = 0, ls_current = zero_port, ls_ports = [], ls_seen = []\<rparr>"

definition parseLsofPorts :: "string \<Rightarrow> port by_pid" where
  "parseLsofPorts output = ls_ports (lsof_flush (fold lsof_line (str_split newline output) lsof_start))"

text \<open>
  What the two tools leave: \<open>ss\<close> its output or an error, \<open>lsof\<close> its output, whether it failed, and
  whether the program is missing.
\<close>

record port_tools =
  pt_ss :: "string option"
  pt_lsof :: string
  pt_lsof_failed :: bool
  pt_lsof_missing :: bool

definition readLsofPorts :: "port_tools \<Rightarrow> (port by_pid) option" where
  "readLsofPorts t =
     (if pt_lsof_failed t \<and> pt_lsof t = '''' \<and> pt_lsof_missing t then None
      else Some (parseLsofPorts (pt_lsof t)))"

definition readListeningPorts :: "string \<Rightarrow> port_tools \<Rightarrow> (port by_pid) option" where
  "readListeningPorts goos t =
     (if goos = ''linux''
      then (case pt_ss t of Some out \<Rightarrow> Some (parseSSPorts out) | None \<Rightarrow> readLsofPorts t)
      else readLsofPorts t)"

section \<open>GPU readings per process (gpu.go)\<close>

definition GPUPercent :: "rat \<Rightarrow> rat" where
  "GPUPercent ms = ms / 10"

text \<open>The published pairs of PID and milliseconds per second; \<open>None\<close> without a reading.\<close>

definition mergeProcessGPU :: "(int \<times> rat) list option \<Rightarrow> proc list \<Rightarrow> proc list" where
  "mergeProcessGPU gpu procs =
     (case gpu of
        None \<Rightarrow> procs
      | Some entries \<Rightarrow>
          if entries = [] then procs
          else
            (let byPID = fold (\<lambda>(pid, ms) m. AList.update pid (GPUPercent ms) m) entries [] in
             map (\<lambda>p. p\<lparr>pr_GPU := (case map_of byPID (pr_PID p) of Some v \<Rightarrow> v | None \<Rightarrow> 0)\<rparr>) procs))"

section \<open>Tasks (inspect.go)\<close>

fun status_word :: "status \<Rightarrow> string" where
  "status_word StatusUnset = ''''"
| "status_word StatusOnline = ''online''"
| "status_word StatusStopped = ''stopped''"
| "status_word StatusStopping = ''stopping''"
| "status_word StatusErrored = ''errored''"
| "status_word StatusLaunching = ''launching''"
| "status_word StatusPaused = ''paused''"

record sys_task =
  sk_ID :: int
  sk_Namespace :: string
  sk_Name :: string
  sk_Status :: string
  sk_PID :: int
  sk_Restarts :: int
  sk_CPU :: rat
  sk_Memory :: "64 word"
  sk_GPU :: rat
  sk_TreeCPU :: rat
  sk_TreeMemory :: "64 word"
  sk_TreeGPU :: rat
  sk_Command :: string
  sk_Children :: "proc list"
  sk_Ports :: "port list"
  sk_StartedAt :: gotime

definition collectPorts :: "port by_pid \<Rightarrow> int \<Rightarrow> proc list \<Rightarrow> port list" where
  "collectPorts ports rootPID children =
     (if ports = [] then []
      else sort_key (\<lambda>p. (po_Port p, po_Address p))
             (bp_get ports rootPID @ concat (map (\<lambda>c. bp_get ports (pr_PID c)) children)))"

definition task_base :: "process_info \<Rightarrow> sys_task" where
  "task_base info =
     \<lparr>sk_ID = pi_ID info, sk_Namespace = NamespaceOrDefault (ac_Namespace (pi_App info)),
      sk_Name = ac_Name (pi_App info), sk_Status = status_word (pi_Status info), sk_PID = pi_PID info,
      sk_Restarts = pi_Restarts info, sk_CPU = pi_CPU info, sk_Memory = pi_Memory info, sk_GPU = 0,
      sk_TreeCPU = 0, sk_TreeMemory = 0, sk_TreeGPU = 0, sk_Command = ac_Script (pi_App info),
      sk_Children = [], sk_Ports = [], sk_StartedAt = pi_StartedAt info\<rparr>"

definition fill_from :: "proc option \<Rightarrow> sys_task \<Rightarrow> sys_task" where
  "fill_from self t =
     (case self of
        None \<Rightarrow> t
      | Some p \<Rightarrow>
          t\<lparr>sk_GPU := pr_GPU p,
            sk_CPU := (if sk_CPU t = 0 then pr_CPU p else sk_CPU t),
            sk_Memory := (if sk_Memory t = 0 then pr_Memory p else sk_Memory t),
            sk_Command := (if sk_Command t = '''' then pr_Command p else sk_Command t)\<rparr>)"

definition add_child :: "proc \<Rightarrow> sys_task \<Rightarrow> sys_task" where
  "add_child c t =
     t\<lparr>sk_TreeCPU := sk_TreeCPU t + pr_CPU c, sk_TreeMemory := sk_TreeMemory t + pr_Memory c,
       sk_TreeGPU := sk_TreeGPU t + pr_GPU c\<rparr>"

definition build_task :: "proc list \<Rightarrow> proc by_pid \<Rightarrow> port by_pid \<Rightarrow> process_info \<Rightarrow> sys_task" where
  "build_task procs byParent ports info =
     (let t1 = fill_from (findProc procs (pi_PID info)) (task_base info);
          t2 = t1\<lparr>sk_Children := descendants byParent (pi_PID info)\<rparr>;
          t3 = fold add_child (sk_Children t2)
                 (t2\<lparr>sk_TreeCPU := sk_CPU t2, sk_TreeMemory := sk_Memory t2, sk_TreeGPU := sk_GPU t2\<rparr>)
      in t3\<lparr>sk_Ports := collectPorts ports (pi_PID info) (sk_Children t3)\<rparr>)"

definition BuildTasks :: "process_info list \<Rightarrow> proc list \<Rightarrow> port by_pid \<Rightarrow> sys_task list" where
  "BuildTasks managed procs ports = map (build_task procs (indexByParent procs) ports) managed"

text \<open>
  One observation: each source gives a value and perhaps an error, and a failing source costs its
  own part only. \<open>'h\<close> and \<open>'s\<close> are the host and the system readings.
\<close>

record ('h, 's) snapshot =
  sp_Host :: 'h
  sp_System :: 's
  sp_Processes :: proc_counts
  sp_Tasks :: "sys_task list"
  sp_Errors :: "string list"

definition Observe ::
  "'h \<times> string option \<Rightarrow> 's \<times> string option \<Rightarrow> (int \<times> rat) list option \<Rightarrow> proc list \<times> string option \<Rightarrow>
   port by_pid \<times> string option \<Rightarrow> process_info list \<Rightarrow> ('h, 's) snapshot \<times> proc list" where
  "Observe host system gpu procs ports managed =
     (let table = mergeProcessGPU gpu (fst procs) in
      (\<lparr>sp_Host = fst host, sp_System = fst system, sp_Processes = countProcesses (fst procs),
        sp_Tasks = BuildTasks managed table (fst ports),
        sp_Errors = List.map_filter id [snd host, snd system, snd procs, snd ports]\<rparr>, table))"

section \<open>What the listings hold\<close>

lemma cut_after_append: "cut_after sep (sep @ r) = Some r"
  by (cases sep) (auto simp: prefix_def, cases r, auto)

text \<open>The rows of \<open>lsof\<close> are collapsed: no key is listed twice, and every row is a listener.\<close>

definition lsof_ok :: "lsof_state \<Rightarrow> bool" where
  "lsof_ok s \<longleftrightarrow>
     (\<forall>pid. set (map (port_key pid) (bp_get (ls_ports s) pid)) \<subseteq> set (ls_seen s) \<and>
            distinct (map (port_key pid) (bp_get (ls_ports s) pid)) \<and>
            (\<forall>p\<in>set (bp_get (ls_ports s) pid). po_PID p = pid \<and> po_State p = ''LISTEN'' \<and> po_Address p \<noteq> ''''))"

lemma lsof_ok_other [simp]:
  "lsof_ok (s\<lparr>ls_current := c\<rparr>) = lsof_ok s" "lsof_ok (s\<lparr>ls_pid := n\<rparr>) = lsof_ok s"
  "lsof_ok (s\<lparr>ls_pid := n, ls_current := c\<rparr>) = lsof_ok s"
  by (simp_all add: lsof_ok_def)

lemma lsof_ok_flush:
  assumes "lsof_ok s"
  shows "lsof_ok (lsof_flush s)"
proof (cases "ls_pid s = 0 \<or> po_Address (ls_current s) = '''' \<or> po_State (ls_current s) \<noteq> ''LISTEN''")
  case False
  let ?cur = "(ls_current s)\<lparr>po_PID := ls_pid s\<rparr>" and ?key = "port_key (ls_pid s) ((ls_current s)\<lparr>po_PID := ls_pid s\<rparr>)"
  show ?thesis
  proof (cases "?key \<in> set (ls_seen s)")
    case True
    then have "lsof_flush s = s\<lparr>ls_current := ?cur\<rparr>" using False by (simp add: lsof_flush_def Let_def)
    then show ?thesis using assms by simp
  next
    case new: False
    have f: "ls_seen (lsof_flush s) = ?key # ls_seen s"
      "ls_ports (lsof_flush s) = bp_add (ls_pid s) ?cur (ls_ports s)"
      using False new by (simp_all add: lsof_flush_def Let_def)
    have "?key \<notin> port_key (ls_pid s) ` set (bp_get (ls_ports s) (ls_pid s))"
      using assms new by (auto simp: lsof_ok_def)
    moreover have "\<And>pid p. p \<in> set (bp_get (ls_ports s) pid) \<Longrightarrow> port_key pid p \<in> set (ls_seen s)"
      using assms unfolding lsof_ok_def set_map by blast
    ultimately show ?thesis
      using assms False unfolding lsof_ok_def f bp_get_add by auto
  qed
qed (use assms in \<open>simp add: lsof_flush_def\<close>)

lemma lsof_ok_line: "lsof_ok s \<Longrightarrow> lsof_ok (lsof_line line s)"
  using lsof_ok_flush [of s] by (cases line) (simp_all add: lsof_line_def)

lemma lsof_rows:
  "distinct (map (port_key pid) (bp_get (parseLsofPorts output) pid)) \<and>
   (\<forall>p\<in>set (bp_get (parseLsofPorts output) pid). po_PID p = pid \<and> po_State p = ''LISTEN'')"
proof -
  have "lsof_ok (fold lsof_line ls s)" if "lsof_ok s" for ls s
    using that by (induction ls arbitrary: s) (simp_all add: lsof_ok_line)
  moreover have "lsof_ok lsof_start" by (simp add: lsof_ok_def lsof_start_def bp_get_def)
  ultimately have "lsof_ok (lsof_flush (fold lsof_line (str_split newline output) lsof_start))"
    by (simp add: lsof_ok_flush)
  then show ?thesis by (simp add: lsof_ok_def parseLsofPorts_def)
qed

section \<open>What a task holds\<close>

lemma fold_add_child:
  "sk_TreeMemory (fold add_child cs t) = sk_TreeMemory t + sum_list (map pr_Memory cs)"
  "sk_TreeCPU (fold add_child cs t) = sk_TreeCPU t + sum_list (map pr_CPU cs)"
  "sk_TreeGPU (fold add_child cs t) = sk_TreeGPU t + sum_list (map pr_GPU cs)"
  "sk_Children (fold add_child cs t) = sk_Children t" "sk_PID (fold add_child cs t) = sk_PID t"
  "sk_CPU (fold add_child cs t) = sk_CPU t" "sk_Memory (fold add_child cs t) = sk_Memory t"
  "sk_GPU (fold add_child cs t) = sk_GPU t"
  by (induction cs arbitrary: t) (simp_all add: add_child_def)

lemma build_task_tree:
  "sk_Children (build_task procs m ports info) = descendants m (pi_PID info)"
  "sk_TreeMemory (build_task procs m ports info) =
    sk_Memory (build_task procs m ports info) + sum_list (map pr_Memory (descendants m (pi_PID info)))"
  "sk_TreeCPU (build_task procs m ports info) =
    sk_CPU (build_task procs m ports info) + sum_list (map pr_CPU (descendants m (pi_PID info)))"
  "sk_TreeGPU (build_task procs m ports info) =
    sk_GPU (build_task procs m ports info) + sum_list (map pr_GPU (descendants m (pi_PID info)))"
  "sk_Ports (build_task procs m ports info) = collectPorts ports (pi_PID info) (descendants m (pi_PID info))"
  by (simp_all add: build_task_def Let_def fold_add_child)

lemma collectPorts_props:
  "sorted (map (\<lambda>p. (po_Port p, po_Address p)) (collectPorts ports r cs))"
  "set (collectPorts ports r cs) = set (bp_get ports r) \<union> (\<Union>c\<in>set cs. set (bp_get ports (pr_PID c)))"
  by (auto simp: collectPorts_def bp_get_def)

lemma collectPorts_length:
  "length (collectPorts ports r cs) = length (bp_get ports r) + sum_list (map (\<lambda>c. length (bp_get ports (pr_PID c))) cs)"
proof -
  have "length (concat (map (\<lambda>c. bp_get ports (pr_PID c)) cs)) = sum_list (map (\<lambda>c. length (bp_get ports (pr_PID c))) cs)"
    by (simp add: length_concat o_def)
  then show ?thesis by (cases "ports = []") (simp_all add: collectPorts_def bp_get_def)
qed

lemma mergeProcessGPU_frame:
  "map (\<lambda>p. p\<lparr>pr_GPU := 0\<rparr>) (mergeProcessGPU gpu procs) = map (\<lambda>p. p\<lparr>pr_GPU := 0\<rparr>) procs"
  by (simp add: mergeProcessGPU_def Let_def split: option.split)

lemma Observe_partial: "sp_Errors (fst (Observe host system gpu procs ports managed)) = [] \<longleftrightarrow>
    snd host = None \<and> snd system = None \<and> snd procs = None \<and> snd ports = None"
  by (cases "snd host"; cases "snd system"; cases "snd procs"; cases "snd ports";
      simp add: Observe_def Let_def map_filter_simps)

end
