(* ===== verification/Sys_Darwin.thy ===== *)
theory Sys_Darwin
  imports Sys_Counters Sys_Inspect
begin

text \<open>
  \<open>sysmon/darwin.go\<close>, the outputs of \<open>iostat\<close>, \<open>vm_stat\<close>, \<open>sysctl\<close> and \<open>netstat\<close>, and the loop of
  \<open>sysmon/emit.go\<close>. A Go function that may index an empty slice returns \<open>None\<close> where it would panic.
\<close>

section \<open>iostat\<close>

definition iostat_row :: "string \<Rightarrow> (string list) option" where
  "iostat_row line =
     (let fs = str_fields line in
      if length fs < 6 then None else if parse_float (hd fs) = None then None else Some fs)"

definition float_at :: "string list \<Rightarrow> nat \<Rightarrow> rat" where
  "float_at fs i = float_or_zero (fs ! i)"

text \<open>The devices of the last row, three columns each: transfers and megabytes.\<close>

definition iostat_disks :: "string list \<Rightarrow> nat \<Rightarrow> disk_io" where
  "iostat_disks lst devices =
     fold (\<lambda>d io. io\<lparr>io_Transfers := io_Transfers io + float_at lst (d * 3 + 1),
                     io_Bytes := io_Bytes io + float_at lst (d * 3 + 2) * 1024 * 1024\<rparr>)
       [0..<devices] no_disk_io"

definition parseIOStat :: "string \<Rightarrow> (cpu \<times> (rat \<times> rat \<times> rat) \<times> disk_io) option" where
  "parseIOStat output =
     (let rows = List.map_filter iostat_row (str_split newline output) in
      if rows = [] then None
      else
        (let lst = last rows; devices = (length lst - 6) div 3; k = devices * 3 in
         if (length lst - 6) mod 3 \<noteq> 0 then None
         else Some (no_cpu\<lparr>cp_Used := float_at lst k + float_at lst (k + 1), cp_User := float_at lst k,
                           cp_Sys := float_at lst (k + 1), cp_Idle := float_at lst (k + 2)\<rparr>,
                    (float_at lst (k + 3), float_at lst (k + 4), float_at lst (k + 5)),
                    iostat_disks lst devices)))"

section \<open>Memory\<close>

definition trim_dots :: "string \<Rightarrow> string" where
  "trim_dots s = rev (dropWhile (\<lambda>c. c = CHR ''.'') (rev (dropWhile (\<lambda>c. c = CHR ''.'') s)))"

definition vm_line :: "string \<Rightarrow> 64 word gomap \<Rightarrow> 64 word gomap" where
  "vm_line line pages =
     (case cut_colon line of
        None \<Rightarrow> pages
      | Some (label, v) \<Rightarrow>
          (case parse_uint (trim_dots (trim_space v)) of
             (n, True) \<Rightarrow> gm_set (trim_space label) n pages
           | (_, False) \<Rightarrow> pages))"

definition vm_page_size :: "string \<Rightarrow> (64 word) option" where
  "vm_page_size output =
     (case cut_after ''page size of '' output of
        None \<Rightarrow> Some 4096
      | Some rest \<Rightarrow>
          (case str_fields rest of
             [] \<Rightarrow> None
           | f # _ \<Rightarrow> (case parse_uint f of (n, ok) \<Rightarrow> Some (if ok \<and> 0 < n then n else 4096))))"

definition parseVMStat :: "string \<Rightarrow> 64 word \<Rightarrow> memory option" where
  "parseVMStat output tot =
     (case vm_page_size output of
        None \<Rightarrow> None
      | Some pageSize \<Rightarrow>
          (let pages = fold vm_line (str_split newline output) [];
               free = (word_at pages ''Pages free'' + word_at pages ''Pages speculative'') * pageSize;
               reclaimable = (word_at pages ''Pages inactive'' + word_at pages ''Pages purgeable'') * pageSize;
               used = tot - min free tot
           in Some (no_memory\<lparr>me_Total := tot, me_Used := used, me_UsedPercent := percent used tot,
                              me_Available := min (free + reclaimable) tot\<rparr>)))"

definition byte_multiplier :: "char \<Rightarrow> nat" where
  "byte_multiplier c =
     (if c = CHR ''K'' \<or> c = CHR ''k'' then 2 ^ 10
      else if c = CHR ''M'' \<or> c = CHR ''m'' then 2 ^ 20
      else if c = CHR ''G'' \<or> c = CHR ''g'' then 2 ^ 30
      else if c = CHR ''T'' \<or> c = CHR ''t'' then 2 ^ 40 else 1)"

text \<open>The conversion of a float beyond \<open>uint64\<close> is left to the implementation; here it wraps.\<close>

definition parseByteSize :: "string \<Rightarrow> 64 word" where
  "parseByteSize v =
     (if v = '''' then 0
      else
        (let m = byte_multiplier (last v) in
         case parse_float (if 1 < m then butlast v else v) of
           None \<Rightarrow> 0
         | Some x \<Rightarrow> if x < 0 then 0 else of_int \<lfloor>x * of_nat m\<rfloor>))"

fun swap_fields :: "string list \<Rightarrow> 64 word \<times> 64 word \<Rightarrow> 64 word \<times> 64 word" where
  "swap_fields (f # e # v # fs) (tot, used) =
     swap_fields (e # v # fs)
       (if e \<noteq> ''='' then (tot, used)
        else if f = ''total'' then (parseByteSize v, used)
        else if f = ''used'' then (tot, parseByteSize v) else (tot, used))"
| "swap_fields _ s = s"

definition parseSwapUsage :: "string \<Rightarrow> 64 word \<times> 64 word" where
  "parseSwapUsage v = swap_fields (str_fields v) (0, 0)"

definition sysctl_line :: "string \<Rightarrow> string gomap \<Rightarrow> string gomap" where
  "sysctl_line line vs = (case cut_colon line of None \<Rightarrow> vs | Some (k, v) \<Rightarrow> gm_set k (trim_space v) vs)"

text \<open>The output, and whether the command failed.\<close>

definition readSysctl :: "string \<times> bool \<Rightarrow> string gomap option" where
  "readSysctl answer =
     (case answer of (output, failed) \<Rightarrow>
        if failed \<and> output = '''' then None else Some (fold sysctl_line (str_split newline output) []))"

definition string_at :: "string gomap \<Rightarrow> string \<Rightarrow> string" where
  "string_at vs k = (case gm_get vs k of None \<Rightarrow> '''' | Some v \<Rightarrow> v)"

datatype 'a outcome = Panicked | Failed | Value 'a

definition darwin_memory :: "string option \<Rightarrow> string \<times> bool \<Rightarrow> memory outcome" where
  "darwin_memory vm_stat sysctl =
     (case vm_stat of
        None \<Rightarrow> Failed
      | Some pages \<Rightarrow>
          (case readSysctl sysctl of
             None \<Rightarrow> Failed
           | Some vs \<Rightarrow>
               (case parse_uint (trim_space (string_at vs ''hw.memsize'')) of
                  (_, False) \<Rightarrow> Failed
                | (tot, True) \<Rightarrow>
                    (case parseVMStat pages tot of
                       None \<Rightarrow> Panicked
                     | Some m \<Rightarrow>
                         (case parseSwapUsage (string_at vs ''vm.swapusage'') of
                            (st, su) \<Rightarrow> Value (m\<lparr>me_SwapTotal := st, me_SwapUsed := su\<rparr>))))))"

section \<open>Network and host\<close>

definition netstat_row :: "string \<Rightarrow> interface_counters option" where
  "netstat_row line =
     (let fs = str_fields line in
      if length fs < 10 \<or> \<not> has_prefix_of (fs ! 2) ''<Link#'' then None
      else
        (let name = trim_suffix (fs ! 0) ''*''; tail = drop (length fs - 7) fs in
         if has_prefix_of name ''lo'' then None
         else (case (parse_uint (tail ! 2), parse_uint (tail ! 5)) of
                 ((rx, True), (tx, True)) \<Rightarrow> Some \<lparr>if_name = name, if_rx = rx, if_tx = tx\<rparr>
               | _ \<Rightarrow> None)))"

definition parseNetstatInterfaces :: "string \<Rightarrow> interface_counters list" where
  "parseNetstatInterfaces output = List.map_filter netstat_row (str_split newline output)"

definition trim_non_digits :: "string \<Rightarrow> string" where
  "trim_non_digits s =
     rev (dropWhile (\<lambda>c. \<not> is_digit c) (rev (dropWhile (\<lambda>c. \<not> is_digit c) s)))"

text \<open>The seconds since the epoch.\<close>

definition parseBootTime :: "string \<Rightarrow> int outcome" where
  "parseBootTime v =
     (case cut_after ''sec = '' v of
        None \<Rightarrow> Failed
      | Some rest \<Rightarrow>
          (case str_fields rest of
             [] \<Rightarrow> Panicked
           | f # _ \<Rightarrow>
               (case atoi (trim_non_digits f) of
                  None \<Rightarrow> Failed
                | Some n \<Rightarrow> if n \<le> 0 then Failed else Value n)))"

definition darwin_network ::
  "gotime \<Rightarrow> string option \<Rightarrow> rate_tracker \<Rightarrow> network option \<times> rate_tracker" where
  "darwin_network now output t =
     (case output of
        None \<Rightarrow> (None, t)
      | Some out \<Rightarrow> (case networkFrom now (parseNetstatInterfaces out) t of (nw, t1) \<Rightarrow> (Some nw, t1)))"

section \<open>The emitter (emit.go)\<close>

datatype emit_event = Tick | Cancelled

datatype emit_end = EmitDone | EmitFailed | EmitWaiting

text \<open>
  \<open>Run\<close>: \<open>encode_ok\<close> answers for each snapshot, the events are what the \<open>select\<close> receives; with no event
  left the loop waits. The number is that of the snapshots written.
\<close>

fun emitter_run :: "int \<Rightarrow> (nat \<Rightarrow> bool) \<Rightarrow> nat \<Rightarrow> emit_event list \<Rightarrow> emit_end \<times> nat" where
  "emitter_run count encode_ok written events =
     (if 0 < count \<and> count \<le> int written then (EmitDone, written)
      else if \<not> encode_ok written then (EmitFailed, written)
      else if 0 < count \<and> count \<le> int written + 1 then (EmitDone, Suc written)
      else (case events of
              [] \<Rightarrow> (EmitWaiting, Suc written)
            | Cancelled # _ \<Rightarrow> (EmitDone, Suc written)
            | Tick # rest \<Rightarrow> emitter_run count encode_ok (Suc written) rest))"

declare emitter_run.simps [simp del]

section \<open>What holds of them\<close>

lemma vm_stat_consistent:
  assumes "parseVMStat output tot = Some m"
  shows "me_Total m = tot \<and> me_Used m \<le> tot \<and> me_Available m \<le> tot \<and>
    0 \<le> me_UsedPercent m \<and> me_UsedPercent m \<le> 100"
proof -
  obtain used avail where m: "m = no_memory\<lparr>me_Total := tot, me_Used := tot - min used tot,
      me_UsedPercent := percent (tot - min used tot) tot, me_Available := min avail tot\<rparr>"
    using assms by (auto simp: parseVMStat_def Let_def split: option.splits)
  have "unat (tot - min used tot) = unat tot - unat (min used tot)" by (rule unat_sub) simp
  then have le: "tot - min used tot \<le> tot" by (simp add: word_le_nat_alt)
  show ?thesis using le percent_range [OF le] by (simp add: m)
qed

text \<open>Both readers index the first word of what follows a label, and panic if nothing follows.\<close>

lemma vm_stat_panics: "parseVMStat ''page size of '' tot = None"
  by (simp add: parseVMStat_def vm_page_size_def str_fields_def prefix_def)

lemma boot_time_panics: "parseBootTime ''{ sec = '' = Panicked"
  by code_simp

lemma boot_time_example:
  "parseBootTime ''{ sec = 12, usec = 7 } Thu Jan'' = Value 12"
  by code_simp

lemma emitter_bounded: "0 < count \<Longrightarrow> int written \<le> count \<Longrightarrow>
    int (snd (emitter_run count ok written events)) \<le> count"
proof (induction events arbitrary: written)
  case Nil
  then show ?case by (subst emitter_run.simps) auto
next
  case (Cons e events)
  show ?case
  proof (cases "0 < count \<and> count \<le> int written + 1")
    case True
    then show ?thesis using Cons.prems by (subst emitter_run.simps) auto
  next
    case False
    then have "int (snd (emitter_run count ok (Suc written) events)) \<le> count" using Cons by simp
    then show ?thesis using Cons.prems by (subst emitter_run.simps) (cases e; simp)
  qed
qed

text \<open>With a count and no failure, that many ticks less one end the loop with exactly that many snapshots.\<close>

lemma emitter_counts:
  assumes "0 < count" "int written < count" "\<And>k. ok k"
  shows "emitter_run count ok written (replicate (nat count - Suc written) Tick) = (EmitDone, nat count)"
  using assms(2)
proof (induction "nat count - Suc written" arbitrary: written)
  case 0
  then show ?case using assms(1,3) by (subst emitter_run.simps) (auto simp: nat_eq_iff)
next
  case (Suc n)
  then have r: "replicate (nat count - Suc written) Tick = Tick # replicate (nat count - Suc (Suc written)) Tick"
    by (metis Suc_diff_Suc diff_Suc_Suc replicate_Suc zero_less_Suc zero_less_diff)
  have "int (Suc written) < count" using Suc(2) assms(1) by linarith
  moreover have "n = nat count - Suc (Suc written)" using Suc(2) by linarith
  ultimately have "emitter_run count ok (Suc written) (replicate (nat count - Suc (Suc written)) Tick) = (EmitDone, nat count)"
    using Suc(1) by blast
  then show ?case using Suc(2,3) assms(3) unfolding r by (subst emitter_run.simps) auto
qed

end
