(* ===== verification/Sys_GPU.thy ===== *)
theory Sys_GPU
  imports Sys_Darwin
begin

text \<open>
  \<open>sysmon/gpu.go\<close> (reading what the agent publishes) and \<open>sysmon/gpuagent/\<close> (the agent: the parser of
  \<open>powermetrics\<close>, the table of tasks, the publication by rename, the run). JSON is a parameter; a
  \<open>float64\<close> is a rational number.
\<close>

section \<open>Reading (gpu.go)\<close>

record gpu_reading =
  gp_Source :: string
  gp_Utilization :: rat
  gp_Frequency :: rat
  gp_Power :: rat
  gp_SampledAt :: gotime
  gp_Interval :: rat
  gp_Supported :: bool
  gp_Processes :: "(int \<times> rat) list"

definition gpuStaleFloor :: duration where "gpuStaleFloor = 10 * second"

text \<open>The conversion to an \<open>int64\<close> truncates; out of range the result is the machine's, \<open>wild\<close>.\<close>

definition to_int64 :: "(rat \<Rightarrow> int) \<Rightarrow> rat \<Rightarrow> int" where
  "to_int64 wild x =
     (let n = (if 0 \<le> x then \<lfloor>x\<rfloor> else \<lceil>x\<rceil>) in if - two63 \<le> n \<and> n < two63 then n else wild x)"

definition staleAfter :: "(rat \<Rightarrow> int) \<Rightarrow> gpu_reading \<Rightarrow> duration" where
  "staleAfter wild g =
     (let window = to_int64 wild (gp_Interval g * of_int second * 3)
      in if window < gpuStaleFloor then gpuStaleFloor else window)"

datatype gpu_error = GpuUnreadable | GpuUnparsed | GpuNoTime | GpuStale

definition ReadGPU ::
  "(string \<Rightarrow> gpu_reading option) \<Rightarrow> (rat \<Rightarrow> int) \<Rightarrow> gotime \<Rightarrow> string option \<Rightarrow> gpu_error + gpu_reading" where
  "ReadGPU decode wild now src =
     (case src of
        None \<Rightarrow> Inl GpuUnreadable
      | Some raw \<Rightarrow>
          (case decode raw of
             None \<Rightarrow> Inl GpuUnparsed
           | Some g \<Rightarrow>
               if is_zero_time (gp_SampledAt g) then Inl GpuNoTime
               else if nanos now - nanos (gp_SampledAt g) > staleAfter wild g then Inl GpuStale
               else Inr g))"

section \<open>The table of tasks (tasktable.go)\<close>

definition columnGapSpaces :: nat where "columnGapSpaces = 2"

record column =
  cl_name :: string
  cl_start :: nat
  cl_end :: nat

definition cell_of :: "string \<Rightarrow> nat \<Rightarrow> nat \<Rightarrow> column" where
  "cell_of line s e = \<lparr>cl_name = trim_space (drop s (take e line)), cl_start = s, cl_end = e\<rparr>"

text \<open>The loop over the characters: the index, the start of the open cell, the run of spaces.\<close>

fun split_cells :: "string \<Rightarrow> string \<Rightarrow> nat \<Rightarrow> nat option \<Rightarrow> nat \<Rightarrow> column list" where
  "split_cells line [] i start spaces =
     (case start of None \<Rightarrow> [] | Some s \<Rightarrow> [cell_of line s (length line)])"
| "split_cells line (c # cs) i start spaces =
     (if c = CHR '' ''
      then (case start of
              Some s \<Rightarrow>
                if columnGapSpaces \<le> spaces + 1
                then cell_of line s (i + 1 - (spaces + 1)) # split_cells line cs (i + 1) None (spaces + 1)
                else split_cells line cs (i + 1) start (spaces + 1)
            | None \<Rightarrow> split_cells line cs (i + 1) start (spaces + 1))
      else split_cells line cs (i + 1) (case start of None \<Rightarrow> Some i | Some s \<Rightarrow> Some s) 0)"

definition splitColumns :: "string \<Rightarrow> column list" where
  "splitColumns line = split_cells line line 0 None 0"

definition findColumn :: "column list \<Rightarrow> string \<Rightarrow> column option" where
  "findColumn cols name = find (\<lambda>c. cl_name c = name) cols"

definition findPrefixColumn :: "column list \<Rightarrow> string \<Rightarrow> column option" where
  "findPrefixColumn cols pre = find (\<lambda>c. has_prefix_of (cl_name c) pre) cols"

definition valueUnder :: "string \<Rightarrow> column \<Rightarrow> string" where
  "valueUnder row header =
     (case find (\<lambda>cell. cl_start cell < cl_end header \<and> cl_start header < cl_end cell) (splitColumns row) of
        Some cell \<Rightarrow> cl_name cell
      | None \<Rightarrow> '''')"

record task_table =
  tt_idColumn :: "column option"
  tt_gpuColumn :: "column option"
  tt_supported :: bool
  tt_rows :: "(int \<times> rat) list"

definition readHeader :: "column list \<Rightarrow> task_table \<Rightarrow> task_table" where
  "readHeader cols t =
     (let gpu = findPrefixColumn cols ''GPU''
      in t\<lparr>tt_idColumn := findColumn cols ''ID'', tt_gpuColumn := gpu,
           tt_supported := (if gpu = None then tt_supported t else True)\<rparr>)"

definition appendRow :: "string \<Rightarrow> task_table \<Rightarrow> task_table" where
  "appendRow line t =
     (case (tt_idColumn t, tt_gpuColumn t) of
        (Some idc, Some gpuc) \<Rightarrow>
          (case atoi (valueUnder line idc) of
             None \<Rightarrow> t
           | Some pid \<Rightarrow>
               if pid \<le> 0 then t
               else (case parse_float (valueUnder line gpuc) of
                       None \<Rightarrow> t
                     | Some ms \<Rightarrow> if ms \<le> 0 then t else t\<lparr>tt_rows := tt_rows t @ [(pid, ms)]\<rparr>))
      | _ \<Rightarrow> t)"

definition table_apply :: "string \<Rightarrow> task_table \<Rightarrow> task_table" where
  "table_apply line t =
     (let cols = splitColumns line in
      if findColumn cols ''ID'' \<noteq> None then readHeader cols t else appendRow line t)"

section \<open>The samples (powermetrics.go)\<close>

definition sampleBoundary :: string where
  "sampleBoundary = ''*** Sampled system activity''"

record sample_block =
  sb_utilization :: rat
  sb_frequency :: rat
  sb_power :: rat
  sb_hasActive :: bool
  sb_hasIdle :: bool
  sb_hasAny :: bool

definition empty_block :: sample_block where
  "empty_block =
     \<lparr>sb_utilization = 0, sb_frequency = 0, sb_power = 0, sb_hasActive = False, sb_hasIdle = False, sb_hasAny = False\<rparr>"

definition numeric_char :: "char \<Rightarrow> bool" where
  "numeric_char c \<longleftrightarrow> is_digit c \<or> c = CHR ''.'' \<or> c = CHR ''-''"

definition firstFloat :: "string \<Rightarrow> rat option" where
  "firstFloat v =
     (let s = dropWhile (\<lambda>c. \<not> numeric_char c) v in if s = '''' then None else parse_float (takeWhile numeric_char s))"

text \<open>The first result says whether the line was a machine-wide reading.\<close>

definition block_apply :: "string \<Rightarrow> sample_block \<Rightarrow> bool \<times> sample_block" where
  "block_apply line b =
     (case cut_colon line of
        None \<Rightarrow> (False, b)
      | Some (label, v) \<Rightarrow>
          (let name = trim_space label in
           if name = ''GPU HW active residency''
           then (True, case firstFloat v of
                         None \<Rightarrow> b
                       | Some x \<Rightarrow> b\<lparr>sb_utilization := x, sb_hasActive := True, sb_hasAny := True\<rparr>)
           else if name = ''GPU idle residency''
           then (True, case firstFloat v of
                         None \<Rightarrow> b
                       | Some x \<Rightarrow>
                           b\<lparr>sb_hasIdle := True, sb_hasAny := True,
                             sb_utilization := (if sb_hasActive b then sb_utilization b else 100 - x)\<rparr>)
           else if name = ''GPU HW active frequency''
           then (True, case firstFloat v of None \<Rightarrow> b | Some x \<Rightarrow> b\<lparr>sb_frequency := x, sb_hasAny := True\<rparr>)
           else if name = ''GPU Power''
           then (True, case firstFloat v of None \<Rightarrow> b | Some x \<Rightarrow> b\<lparr>sb_power := x, sb_hasAny := True\<rparr>)
           else (False, b)))"

definition clampPercent :: "rat \<Rightarrow> rat" where
  "clampPercent p = (if p < 0 then 0 else if 100 < p then 100 else p)"

definition block_result :: "gotime \<Rightarrow> task_table \<Rightarrow> sample_block \<Rightarrow> gpu_reading option" where
  "block_result now t b =
     (if \<not> sb_hasAny b then None
      else Some \<lparr>gp_Source = ''powermetrics'',
                 gp_Utilization =
                   (if sb_hasActive b \<or> sb_hasIdle b then clampPercent (sb_utilization b) else sb_utilization b),
                 gp_Frequency = sb_frequency b, gp_Power = sb_power b, gp_SampledAt = now, gp_Interval = 0,
                 gp_Supported = tt_supported t, gp_Processes = tt_rows t\<rparr>)"

definition empty_table :: task_table where
  "empty_table = \<lparr>tt_idColumn = None, tt_gpuColumn = None, tt_supported = False, tt_rows = []\<rparr>"

definition emit_block :: "(nat \<Rightarrow> gotime) \<Rightarrow> task_table \<Rightarrow> sample_block \<Rightarrow> gpu_reading list \<Rightarrow> gpu_reading list" where
  "emit_block clock t b out =
     (case block_result (clock (length out)) t b of None \<Rightarrow> out | Some g \<Rightarrow> out @ [g])"

text \<open>One line; \<open>clock\<close> is the time at each emission.\<close>

definition stream_line ::
  "(nat \<Rightarrow> gotime) \<Rightarrow> string \<Rightarrow> task_table \<times> sample_block \<times> gpu_reading list \<Rightarrow>
   task_table \<times> sample_block \<times> gpu_reading list" where
  "stream_line clock line s =
     (case s of (t, b, out) \<Rightarrow>
        if has_prefix_of line sampleBoundary then (t\<lparr>tt_rows := []\<rparr>, empty_block, emit_block clock t b out)
        else (case block_apply line b of
                (True, b1) \<Rightarrow> (t, b1, out)
              | (False, b1) \<Rightarrow> (table_apply line t, b1, out)))"

definition scanBufferBytes :: nat where "scanBufferBytes = 1024 * 1024"

text \<open>A line that does not fit the buffer ends the scan with an error; the open block is still emitted.\<close>

definition parseStream :: "(nat \<Rightarrow> gotime) \<Rightarrow> string list \<Rightarrow> gpu_reading list \<times> bool" where
  "parseStream clock input =
     (case fold (stream_line clock) (takeWhile (\<lambda>l. length l < scanBufferBytes) input) (empty_table, empty_block, []) of
        (t, b, out) \<Rightarrow> (emit_block clock t b out, list_all (\<lambda>l. length l < scanBufferBytes) input))"

section \<open>Publication (publish.go)\<close>

text \<open>The file readers open and the temporary file beside it.\<close>

record export_dir =
  xd_target :: "string option"
  xd_temp :: "string option"

text \<open>Which system calls succeed, and how much a failing write has written.\<close>

record publish_env =
  pe_create :: bool
  pe_write :: bool
  pe_written :: nat
  pe_close :: bool
  pe_chmod :: bool
  pe_rename :: bool
  pe_remove :: bool

definition remove_temp :: "publish_env \<Rightarrow> export_dir \<Rightarrow> export_dir" where
  "remove_temp pe d = (if pe_remove pe then d\<lparr>xd_temp := None\<rparr> else d)"

text \<open>The directory after each system call, the last state at the end; and whether all went well.\<close>

definition publish_reading :: "publish_env \<Rightarrow> string option \<Rightarrow> export_dir \<Rightarrow> bool \<times> export_dir list" where
  "publish_reading pe encoded d =
     (case encoded of
        None \<Rightarrow> (False, [d])
      | Some content \<Rightarrow>
          if \<not> pe_create pe then (False, [d])
          else
            (let d1 = d\<lparr>xd_temp := Some ''''\<rparr>;
                 d2 = d1\<lparr>xd_temp := Some (if pe_write pe then content else take (pe_written pe) content)\<rparr>;
                 d3 = d2\<lparr>xd_target := xd_temp d2, xd_temp := None\<rparr>
             in if \<not> pe_write pe \<or> \<not> pe_close pe \<or> \<not> pe_chmod pe \<or> \<not> pe_rename pe
                then (False, [d, d1, d2, remove_temp pe d2])
                else (True, [d, d1, d2, d3])))"

section \<open>The run (agent.go)\<close>

definition minInterval :: duration where "minInterval = 200 * 1000000"

definition agentInterval :: "duration \<Rightarrow> duration" where
  "agentInterval d = (if d < minInterval then 30 * second else d)"

record head_buffer =
  hb_limit :: int
  hb_data :: string

definition hb_Write :: "string \<Rightarrow> head_buffer \<Rightarrow> head_buffer" where
  "hb_Write chunk h =
     (let room = hb_limit h - int (length (hb_data h)) in
      if 0 < room then h\<lparr>hb_data := hb_data h @ take (nat (min room (int (length chunk)))) chunk\<rparr> else h)"

datatype agent_end =
    NotDarwin
  | NotRoot
  | PowermetricsNotStarted
  | AgentStopped
  | PowermetricsFailed string
  | OutputUnreadable
  | ExitedAlone nat string

text \<open>
  The readings are published one by one; \<open>encode\<close> is JSON, \<open>envs\<close> the fate of each publication. The
  number is that of the publications that went well. The export is removed when the run ends.
\<close>

definition publish_all ::
  "(gpu_reading \<Rightarrow> string option) \<Rightarrow> (nat \<Rightarrow> publish_env) \<Rightarrow> duration \<Rightarrow> gpu_reading list \<Rightarrow> export_dir \<Rightarrow>
   nat \<times> export_dir" where
  "publish_all encode envs interval readings d =
     fold (\<lambda>(k, g) (n, d1).
             (case publish_reading (envs k) (encode (g\<lparr>gp_Interval := of_int interval / of_int second\<rparr>)) d1 of
                (ok, ds) \<Rightarrow> (if ok then Suc n else n, last ds)))
       (zip [0..<length readings] readings) (0, d)"

record agent_world =
  aw_goos :: string
  aw_euid :: int
  aw_start :: bool
  aw_output :: "string list"
  aw_stderr :: "string list"
  aw_cancelled :: bool
  aw_wait_ok :: bool
  aw_remove :: bool

definition Agent_Run ::
  "(nat \<Rightarrow> gotime) \<Rightarrow> (gpu_reading \<Rightarrow> string option) \<Rightarrow> (nat \<Rightarrow> publish_env) \<Rightarrow> duration \<Rightarrow> agent_world \<Rightarrow>
   export_dir \<Rightarrow> agent_end \<times> export_dir" where
  "Agent_Run clock encode envs d aw dir =
     (if aw_goos aw \<noteq> ''darwin'' then (NotDarwin, dir)
      else if aw_euid aw \<noteq> 0 then (NotRoot, dir)
      else if \<not> aw_start aw then (PowermetricsNotStarted, dir)
      else
        (case parseStream clock (aw_output aw) of
           (readings, read_ok) \<Rightarrow>
             (case publish_all encode envs (agentInterval d) readings dir of
                (published, dir1) \<Rightarrow>
                  (let tail = hb_data (fold hb_Write (aw_stderr aw) \<lparr>hb_limit = 4096, hb_data = ''''\<rparr>);
                       dir2 = (if aw_remove aw then dir1\<lparr>xd_target := None\<rparr> else dir1)
                   in (if aw_cancelled aw then AgentStopped
                       else if \<not> aw_wait_ok aw then PowermetricsFailed tail
                       else if \<not> read_ok then OutputUnreadable
                       else ExitedAlone published tail, dir2)))))"

section \<open>What a reader sees\<close>

text \<open>A reading that is served is younger than three of its own intervals, or than ten seconds.\<close>

lemma ReadGPU_fresh:
  assumes "ReadGPU decode wild now src = Inr g"
  shows "\<exists>raw. src = Some raw \<and> decode raw = Some g"
    and "nanos now - nanos (gp_SampledAt g) \<le> staleAfter wild g"
  using assms by (auto simp: ReadGPU_def split: option.splits if_splits)

lemma staleAfter_floor: "gpuStaleFloor \<le> staleAfter wild g"
  by (simp add: staleAfter_def Let_def)

text \<open>
  Publication is atomic: whatever fails, a reader sees the old file or the new one, the new one if
  and only if the publication succeeds.
\<close>

theorem publish_atomic:
  assumes "publish_reading pe (Some content) d = (ok, ds)"
  shows "ds \<noteq> []" "s \<in> set ds \<Longrightarrow> xd_target s = xd_target d \<or> xd_target s = Some content"
    and "ok \<Longrightarrow> xd_target (last ds) = Some content \<and> xd_temp (last ds) = None"
    and "\<not> ok \<Longrightarrow> xd_target (last ds) = xd_target d"
    and "\<not> ok \<Longrightarrow> pe_remove pe \<Longrightarrow> xd_temp d = None \<Longrightarrow> xd_temp (last ds) = None"
  using assms by (auto simp: publish_reading_def Let_def remove_temp_def split: if_splits)

lemma hb_keeps_head:
  "0 \<le> hb_limit h \<Longrightarrow> hb_data h = take (nat (hb_limit h)) s \<Longrightarrow>
   hb_data (fold hb_Write chunks h) = take (nat (hb_limit h)) (s @ concat chunks)"
proof (induction chunks arbitrary: h s)
  case (Cons c cs)
  let ?L = "nat (hb_limit h)"
  have "hb_data (hb_Write c h) = take ?L (s @ c)"
  proof (cases "length s < ?L")
    case True
    then have "hb_data h = s" using Cons.prems(2) by simp
    moreover have "nat (min (hb_limit h - int (length s)) (int (length c))) = min (?L - length s) (length c)"
      using True by (simp add: min_def nat_diff_distrib' nat_le_eq_zle)
    ultimately show ?thesis using True by (simp add: hb_Write_def Let_def) (simp add: min_def)
  next
    case False
    then have "length (hb_data h) = ?L" using Cons.prems(2) by simp
    then show ?thesis using False Cons.prems by (simp add: hb_Write_def Let_def)
  qed
  moreover have "hb_limit (hb_Write c h) = hb_limit h" by (simp add: hb_Write_def Let_def)
  ultimately show ?case using Cons.IH [of "hb_Write c h" "s @ c"] Cons.prems(1) by simp
qed simp

section \<open>What the parser emits\<close>

text \<open>The cells of a line are in order, apart and inside the line.\<close>

lemma split_cells_bounds:
  assumes "i + length cs = length line" "\<forall>s. start = Some s \<longrightarrow> s < i - spaces \<and> spaces \<le> 1" "spaces \<le> i"
  shows "sorted_wrt (\<lambda>a b. cl_end a < cl_start b) (split_cells line cs i start spaces) \<and>
    (\<forall>c\<in>set (split_cells line cs i start spaces).
       (case start of Some s \<Rightarrow> s | None \<Rightarrow> i) \<le> cl_start c \<and> cl_start c < cl_end c \<and> cl_end c \<le> length line)"
  using assms
proof (induction line cs i start spaces rule: split_cells.induct)
  case (1 line i start spaces)
  then show ?case by (cases start) (auto simp: cell_of_def)
next
  case (2 line c cs i start spaces)
  show ?case
  proof (cases "c = CHR '' ''")
    case False
    let ?start = "case start of None \<Rightarrow> Some i | Some s \<Rightarrow> Some s"
    have "\<forall>s. ?start = Some s \<longrightarrow> s < i + 1 - 0 \<and> 0 \<le> (1 :: nat)" using "2.prems" by (cases start) auto
    then have ih: "sorted_wrt (\<lambda>a b. cl_end a < cl_start b) (split_cells line cs (i + 1) ?start 0) \<and>
      (\<forall>c\<in>set (split_cells line cs (i + 1) ?start 0).
         (case ?start of Some s \<Rightarrow> s | None \<Rightarrow> i + 1) \<le> cl_start c \<and> cl_start c < cl_end c \<and> cl_end c \<le> length line)"
      using "2.IH"(4) [OF False] "2.prems"(1) by simp
    have eq: "split_cells line (c # cs) i start spaces = split_cells line cs (i + 1) ?start 0" using False by simp
    show ?thesis using ih unfolding eq by (cases start) auto
  next
    case sp: True
    show ?thesis
    proof (cases start)
      case None
      have ih: "sorted_wrt (\<lambda>a b. cl_end a < cl_start b) (split_cells line cs (i + 1) None (spaces + 1)) \<and>
        (\<forall>c\<in>set (split_cells line cs (i + 1) None (spaces + 1)).
           i + 1 \<le> cl_start c \<and> cl_start c < cl_end c \<and> cl_end c \<le> length line)"
        using "2.IH"(1) [OF sp None] "2.prems" by (simp add: None)
      show ?thesis using ih by (auto simp: sp None)
    next
      case (Some s)
      show ?thesis
      proof (cases "columnGapSpaces \<le> spaces + 1")
        case True
        have one: "spaces = 1" using True "2.prems"(2) Some by (simp add: columnGapSpaces_def)
        have ih: "sorted_wrt (\<lambda>a b. cl_end a < cl_start b) (split_cells line cs (i + 1) None (spaces + 1)) \<and>
          (\<forall>c\<in>set (split_cells line cs (i + 1) None (spaces + 1)).
             i + 1 \<le> cl_start c \<and> cl_start c < cl_end c \<and> cl_end c \<le> length line)"
          using "2.IH"(2) [OF sp Some True] "2.prems" one Some by simp
        have b: "s < i - 1" "1 \<le> i" "i < length line" using "2.prems" one Some by simp_all
        have eq: "split_cells line (c # cs) i start spaces =
          cell_of line s (i + 1 - (spaces + 1)) # split_cells line cs (i + 1) None (spaces + 1)" using sp Some True by simp
        show ?thesis using ih b unfolding eq by (auto simp: Some one cell_of_def)
      next
        case False
        have zero: "spaces = 0" using False by (simp add: columnGapSpaces_def)
        have ih: "sorted_wrt (\<lambda>a b. cl_end a < cl_start b) (split_cells line cs (i + 1) start (spaces + 1)) \<and>
          (\<forall>c\<in>set (split_cells line cs (i + 1) start (spaces + 1)).
             s \<le> cl_start c \<and> cl_start c < cl_end c \<and> cl_end c \<le> length line)"
          using "2.IH"(3) [OF sp Some False] "2.prems" zero Some by simp
        have eq: "split_cells line (c # cs) i start spaces = split_cells line cs (i + 1) start (spaces + 1)"
          using sp Some False by simp
        show ?thesis using ih unfolding eq by (simp add: Some)
      qed
    qed
  qed
qed

lemma splitColumns_bounds:
  "sorted_wrt (\<lambda>a b. cl_end a < cl_start b) (splitColumns line)"
  "c \<in> set (splitColumns line) \<Longrightarrow> cl_start c < cl_end c \<and> cl_end c \<le> length line"
  using split_cells_bounds [of 0 line line None 0] by (auto simp: splitColumns_def)

text \<open>Every row is a process that used the GPU; a published utilisation is a percentage.\<close>

definition rows_ok :: "(int \<times> rat) list \<Rightarrow> bool" where
  "rows_ok rows \<longleftrightarrow> (\<forall>(pid, ms)\<in>set rows. 0 < pid \<and> 0 < ms)"

definition block_ok :: "sample_block \<Rightarrow> bool" where
  "block_ok b \<longleftrightarrow> (sb_hasActive b \<or> sb_hasIdle b \<or> sb_utilization b = 0)"

definition reading_ok :: "gpu_reading \<Rightarrow> bool" where
  "reading_ok g \<longleftrightarrow> 0 \<le> gp_Utilization g \<and> gp_Utilization g \<le> 100 \<and> rows_ok (gp_Processes g)"

lemma rows_ok_apply: "rows_ok (tt_rows t) \<Longrightarrow> rows_ok (tt_rows (table_apply line t))"
  by (auto simp: table_apply_def Let_def readHeader_def appendRow_def rows_ok_def split: option.splits)

lemma block_ok_apply: "block_ok b \<Longrightarrow> block_ok (snd (block_apply line b))"
  by (auto simp: block_apply_def Let_def block_ok_def split: option.splits)

lemma reading_ok_emit:
  "rows_ok (tt_rows t) \<Longrightarrow> block_ok b \<Longrightarrow> list_all reading_ok out \<Longrightarrow> list_all reading_ok (emit_block clock t b out)"
  by (auto simp: emit_block_def block_result_def reading_ok_def block_ok_def clampPercent_def split: option.splits)

lemma stream_ok_line:
  assumes "rows_ok (tt_rows t) \<and> block_ok b \<and> list_all reading_ok out" "stream_line clock line (t, b, out) = (t1, b1, out1)"
  shows "rows_ok (tt_rows t1) \<and> block_ok b1 \<and> list_all reading_ok out1"
proof (cases "has_prefix_of line sampleBoundary")
  case True
  then have "t1 = t\<lparr>tt_rows := []\<rparr>" "b1 = empty_block" "out1 = emit_block clock t b out"
    using assms(2) by (simp_all add: stream_line_def)
  then show ?thesis using assms(1) reading_ok_emit [of t b out clock]
    by (simp add: rows_ok_def block_ok_def empty_block_def)
next
  case False
  obtain r b2 where b2: "block_apply line b = (r, b2)" by fastforce
  then have "block_ok b2" using block_ok_apply [of b line] assms(1) by simp
  then show ?thesis using assms rows_ok_apply [of t line] False b2
    by (cases r) (auto simp: stream_line_def)
qed

theorem stream_readings_ok: "list_all reading_ok (fst (parseStream clock input))"
proof -
  have "rows_ok (tt_rows t1) \<and> block_ok b1 \<and> list_all reading_ok out1"
    if "fold (stream_line clock) ls (t, b, out) = (t1, b1, out1)"
      "rows_ok (tt_rows t) \<and> block_ok b \<and> list_all reading_ok out" for ls t b out t1 b1 out1
    using that
  proof (induction ls arbitrary: t b out)
    case (Cons l ls)
    obtain t2 b2 out2 where s: "stream_line clock l (t, b, out) = (t2, b2, out2)" by (metis prod.exhaust)
    from stream_ok_line [OF Cons.prems(2) s] Cons.IH [of t2 b2 out2] Cons.prems(1) show ?case by (simp add: s)
  qed auto
  moreover obtain t1 b1 out1 where
    "fold (stream_line clock) (takeWhile (\<lambda>l. length l < scanBufferBytes) input) (empty_table, empty_block, []) = (t1, b1, out1)"
    by (metis prod.exhaust)
  moreover have "rows_ok (tt_rows empty_table)" "block_ok empty_block"
    by (simp_all add: empty_table_def rows_ok_def empty_block_def block_ok_def)
  ultimately show ?thesis using reading_ok_emit [of t1 b1 out1 clock] unfolding parseStream_def by fastforce
qed

text \<open>A task called \<open>ID\<close> reads as a new header, without a GPU column, and the rows below it are lost.\<close>

lemma task_called_ID:
  "tt_gpuColumn (table_apply ''ID    72  1.50'' t) = None"
  "tt_supported (table_apply ''ID    72  1.50'' t) = tt_supported t"
  "tt_gpuColumn t = None \<Longrightarrow> tt_rows (table_apply line t) = tt_rows t"
proof -
  have "findColumn (splitColumns ''ID    72  1.50'') ''ID'' \<noteq> None \<and> findPrefixColumn (splitColumns ''ID    72  1.50'') ''GPU'' = None"
    by code_simp
  then show "tt_gpuColumn (table_apply ''ID    72  1.50'' t) = None"
    "tt_supported (table_apply ''ID    72  1.50'' t) = tt_supported t"
    by (simp_all add: table_apply_def readHeader_def Let_def)
qed (simp add: table_apply_def Let_def readHeader_def appendRow_def split: option.split)

end
