(* ===== verification/Sys_Collector.thy ===== *)
theory Sys_Collector
  imports Sys_GPU
begin

text \<open>
  \<open>sysmon/collector.go\<close>, \<open>fallback.go\<close>, the samplers of \<open>darwin.go\<close> as a whole, and the snapshots of
  \<open>emit.go\<close>: which sampler serves a platform and what one sample is made of. What the tools of the
  operating system print is an argument.
\<close>

section \<open>The macOS sampler (darwin.go)\<close>

record darwin_input =
  dw_now :: gotime
  dw_iostat :: "string option"
  dw_vm_stat :: "string option"
  dw_memsize :: "string \<times> bool"
  dw_netstat :: "string option"
  dw_df :: "string option"
  dw_boot :: "string \<times> bool"
  dw_unix_nanos :: int
  dw_numcpu :: int

definition readIOStat :: "darwin_input \<Rightarrow> (cpu \<times> (rat \<times> rat \<times> rat) \<times> disk_io) option" where
  "readIOStat di = Option.bind (dw_iostat di) parseIOStat"

definition failed_outcome :: "sample_failure \<Rightarrow> 'a outcome \<Rightarrow> sample_failure list" where
  "failed_outcome e r = (case r of Value _ \<Rightarrow> [] | _ \<Rightarrow> [e])"

text \<open>A panic in the parser of \<open>vm_stat\<close> ends the sample before the network is read.\<close>

definition darwin_sample ::
  "darwin_input \<Rightarrow> rate_tracker \<Rightarrow> (system \<times> sample_failure list) outcome \<times> rate_tracker" where
  "darwin_sample di t =
     (let io = readIOStat di; me = darwin_memory (dw_vm_stat di) (dw_memsize di) in
      if me = Panicked then (Panicked, t)
      else
        (case darwin_network (dw_now di) (dw_netstat di) t of
           (nw, t1) \<Rightarrow>
             (let ds = map_option parseDiskUsage (dw_df di);
                  c = (case io of None \<Rightarrow> no_cpu | Some (x, _, _) \<Rightarrow> x)
              in (Value (\<lparr>sy_CPU = c\<lparr>cp_Cores := dw_numcpu di\<rparr>,
                          sy_Memory = (case me of Value x \<Rightarrow> x | _ \<Rightarrow> no_memory),
                          sy_Load = (case io of None \<Rightarrow> (0, 0, 0) | Some (_, x, _) \<Rightarrow> x),
                          sy_Network = (case nw of None \<Rightarrow> no_network | Some x \<Rightarrow> x),
                          sy_DiskIO = (case io of None \<Rightarrow> no_disk_io | Some (_, _, x) \<Rightarrow> x),
                          sy_Disks = (case ds of None \<Rightarrow> [] | Some x \<Rightarrow> x)\<rparr>,
                         or_failed CpuFailed io @ failed_outcome MemoryFailed me @
                         or_failed NetworkFailed nw @ or_failed DisksFailed ds), t1))))"

record host =
  ho_Hostname :: string
  ho_OS :: string
  ho_Arch :: string
  ho_Cores :: int
  ho_Uptime :: int

definition bare_host :: "int \<Rightarrow> host" where
  "bare_host cores = \<lparr>ho_Hostname = '''', ho_OS = '''', ho_Arch = '''', ho_Cores = cores, ho_Uptime = 0\<rparr>"

text \<open>\<open>int64(d.Seconds())\<close>: towards zero.\<close>

definition whole_seconds :: "int \<Rightarrow> int" where
  "whole_seconds d = sgn d * (\<bar>d\<bar> div second)"

text \<open>The host, and whether there was no error.\<close>

definition darwin_host :: "darwin_input \<Rightarrow> (host \<times> bool) outcome" where
  "darwin_host di =
     (case readSysctl (dw_boot di) of
        None \<Rightarrow> Value (bare_host (dw_numcpu di), False)
      | Some vs \<Rightarrow>
          (let h = bare_host (dw_numcpu di);
               h1 = (case atoi (trim_space (string_at vs ''hw.ncpu'')) of
                       Some n \<Rightarrow> if 0 < n then h\<lparr>ho_Cores := n\<rparr> else h
                     | None \<Rightarrow> h)
           in (case parseBootTime (string_at vs ''kern.boottime'') of
                 Panicked \<Rightarrow> Panicked
               | Failed \<Rightarrow> Value (h1, True)
               | Value n \<Rightarrow> Value (h1\<lparr>ho_Uptime := whole_seconds (dw_unix_nanos di - n * second)\<rparr>, True))))"

section \<open>The collector (collector.go, fallback.go)\<close>

datatype sampler_state = DarwinSampler rate_tracker | LinuxSampler linux_sampler | FallbackSampler

definition newSampler :: "string \<Rightarrow> sampler_state" where
  "newSampler goos =
     (if goos = ''darwin'' then DarwinSampler []
      else if goos = ''linux'' then LinuxSampler newLinuxSampler
      else FallbackSampler)"

text \<open>What one sample finds on each platform, and the file of the GPU agent.\<close>

record sample_input =
  si_darwin :: darwin_input
  si_linux :: proc_files
  si_uptime :: "string option"
  si_numcpu :: int
  si_now :: gotime
  si_gpu :: "string option"
  si_hostname :: "string option"
  si_goos :: string
  si_goarch :: string

definition no_system :: "int \<Rightarrow> system" where
  "no_system cores =
     \<lparr>sy_CPU = no_cpu\<lparr>cp_Cores := cores\<rparr>, sy_Memory = no_memory, sy_Load = (0, 0, 0), sy_Network = no_network,
      sy_DiskIO = no_disk_io, sy_Disks = []\<rparr>"

text \<open>The failures, \<open>None\<close> for the error of a platform without a sampler.\<close>

definition sampler_sample ::
  "sample_input \<Rightarrow> sampler_state \<Rightarrow> (system \<times> sample_failure list option) outcome \<times> sampler_state" where
  "sampler_sample si s =
     (case s of
        DarwinSampler t \<Rightarrow>
          (case darwin_sample (si_darwin si) t of
             (Panicked, t1) \<Rightarrow> (Panicked, DarwinSampler t1)
           | (Failed, t1) \<Rightarrow> (Failed, DarwinSampler t1)
           | (Value (sy, fs), t1) \<Rightarrow> (Value (sy, Some fs), DarwinSampler t1))
      | LinuxSampler l \<Rightarrow>
          (case linux_sample (si_linux si) l of ((sy, fs), l1) \<Rightarrow> (Value (sy, Some fs), LinuxSampler l1))
      | FallbackSampler \<Rightarrow> (Value (no_system (si_numcpu si), None), FallbackSampler))"

record collected =
  co_System :: system
  co_GPU :: "gpu_reading option"
  co_failures :: "sample_failure list option"

definition Collector_Sample ::
  "(string \<Rightarrow> gpu_reading option) \<Rightarrow> (rat \<Rightarrow> int) \<Rightarrow> sample_input \<Rightarrow> sampler_state \<Rightarrow> collected outcome \<times> sampler_state" where
  "Collector_Sample decode wild si s =
     (case sampler_sample si s of
        (Value (sy, fs), s1) \<Rightarrow>
          (Value \<lparr>co_System = sy,
                  co_GPU = (case ReadGPU decode wild (si_now si) (si_gpu si) of Inr g \<Rightarrow> Some g | Inl _ \<Rightarrow> None),
                  co_failures = fs\<rparr>, s1)
      | (_, s1) \<Rightarrow> (Panicked, s1))"

definition sampler_host :: "sample_input \<Rightarrow> sampler_state \<Rightarrow> (host \<times> bool) outcome" where
  "sampler_host si s =
     (case s of
        DarwinSampler _ \<Rightarrow> darwin_host (si_darwin si)
      | LinuxSampler _ \<Rightarrow>
          (case linux_host_uptime (si_uptime si) of
             None \<Rightarrow> Value (bare_host (si_numcpu si), False)
           | Some n \<Rightarrow> Value ((bare_host (si_numcpu si))\<lparr>ho_Uptime := n\<rparr>, True))
      | FallbackSampler \<Rightarrow> Value (bare_host (si_numcpu si), False))"

definition Collector_Host :: "sample_input \<Rightarrow> sampler_state \<Rightarrow> (host \<times> bool) outcome" where
  "Collector_Host si s =
     (case sampler_host si s of
        Value (h, ok) \<Rightarrow>
          Value (h\<lparr>ho_Hostname := (case (ho_Hostname h, si_hostname si) of ([], Some n) \<Rightarrow> n | (n, _) \<Rightarrow> n),
                   ho_OS := si_goos si, ho_Arch := si_goarch si\<rparr>, ok)
      | r \<Rightarrow> r)"

section \<open>The emitted snapshot (emit.go)\<close>

text \<open>A failure of the task source is one more entry of the errors.\<close>

definition emit_snapshot ::
  "(process_info list \<Rightarrow> ('h, 's) snapshot) \<Rightarrow> (string + process_info list) option \<Rightarrow> ('h, 's) snapshot" where
  "emit_snapshot observe tasks =
     (case tasks of
        None \<Rightarrow> observe []
      | Some (Inr managed) \<Rightarrow> observe managed
      | Some (Inl e) \<Rightarrow> (let sn = observe [] in sn\<lparr>sp_Errors := sp_Errors sn @ [e]\<rparr>))"

section \<open>One source fails, the others are read\<close>

text \<open>A file of the GPU agent that is missing, broken or stale changes nothing but the GPU reading.\<close>

theorem gpu_never_fails_a_sample:
  assumes "Collector_Sample decode wild si s = (Value c, s1)"
  shows "Collector_Sample decode wild (si\<lparr>si_gpu := src\<rparr>) s =
    (Value (c\<lparr>co_GPU := (case ReadGPU decode wild (si_now si) src of Inr g \<Rightarrow> Some g | Inl _ \<Rightarrow> None)\<rparr>), s1)"
proof -
  have "sampler_sample (si\<lparr>si_gpu := src\<rparr>) s = sampler_sample si s"
    by (cases s) (simp_all add: sampler_sample_def)
  then show ?thesis using assms unfolding Collector_Sample_def
    by (auto split: prod.splits outcome.splits)
qed

text \<open>
  The failures of a macOS sample are those of its sources, and a source that does not fail is in the
  sample whatever the others do.
\<close>

theorem darwin_sample_sources:
  assumes "darwin_sample di t = (Value (sy, fs), t1)"
  shows "CpuFailed \<in> set fs \<longleftrightarrow> readIOStat di = None"
    and "MemoryFailed \<in> set fs \<longleftrightarrow> darwin_memory (dw_vm_stat di) (dw_memsize di) = Failed"
    and "NetworkFailed \<in> set fs \<longleftrightarrow> dw_netstat di = None"
    and "DisksFailed \<in> set fs \<longleftrightarrow> dw_df di = None"
    and "readIOStat di = Some (c, l, io) \<Longrightarrow> sy_CPU sy = c\<lparr>cp_Cores := dw_numcpu di\<rparr> \<and> sy_Load sy = l \<and> sy_DiskIO sy = io"
    and "darwin_memory (dw_vm_stat di) (dw_memsize di) = Value m \<Longrightarrow> sy_Memory sy = m"
    and "dw_df di = Some d \<Longrightarrow> sy_Disks sy = parseDiskUsage d"
  using assms
  by (auto simp: darwin_sample_def Let_def or_failed_def failed_outcome_def darwin_network_def
      split: option.splits outcome.splits prod.splits if_splits)

lemma fallback_sample:
  "sampler_sample si FallbackSampler = (Value (no_system (si_numcpu si), None), FallbackSampler)"
  by (simp add: sampler_sample_def)

lemma sampler_keeps_platform:
  "(case s of DarwinSampler _ \<Rightarrow> \<exists>t. snd (sampler_sample si s) = DarwinSampler t
            | LinuxSampler _ \<Rightarrow> \<exists>l. snd (sampler_sample si s) = LinuxSampler l
            | FallbackSampler \<Rightarrow> snd (sampler_sample si s) = FallbackSampler)"
  by (auto simp: sampler_sample_def split: sampler_state.split prod.split outcome.split)

lemma emit_snapshot_task_failure:
  "sp_Host (emit_snapshot observe (Some (Inl e))) = sp_Host (observe [])"
  "sp_System (emit_snapshot observe (Some (Inl e))) = sp_System (observe [])"
  "sp_Errors (emit_snapshot observe (Some (Inl e))) = sp_Errors (observe []) @ [e]"
  by (simp_all add: emit_snapshot_def Let_def)

end
