(* ===== verification/Message_Loop.thy ===== *)
theory Message_Loop
  imports Prelude
begin

text \<open>
  The loop of a terminal program: \<open>Update\<close> folds one message into the model and answers with a
  command. A session is a list of messages; what the commands bring back is among them.
\<close>

fun run_msgs :: "('e \<Rightarrow> 's \<Rightarrow> 's \<times> 'c) \<Rightarrow> 'e list \<Rightarrow> 's \<Rightarrow> 's \<times> 'c list" where
  "run_msgs update [] s = (s, [])"
| "run_msgs update (e # es) s =
     (case update e s of (s1, cmd) \<Rightarrow>
        (case run_msgs update es s1 of (s2, cmds) \<Rightarrow> (s2, cmd # cmds)))"

text \<open>The model before message \<open>j\<close>.\<close>

definition state_at :: "('e \<Rightarrow> 's \<Rightarrow> 's \<times> 'c) \<Rightarrow> 'e list \<Rightarrow> 's \<Rightarrow> nat \<Rightarrow> 's" where
  "state_at update es s j = fst (run_msgs update (take j es) s)"

lemma run_msgs_Cons:
  "fst (run_msgs update (e # es) s) = fst (run_msgs update es (fst (update e s)))"
  "snd (run_msgs update (e # es) s) = snd (update e s) # snd (run_msgs update es (fst (update e s)))"
  by (simp_all split: prod.split)

lemma run_msgs_append:
  "fst (run_msgs update (xs @ ys) s) = fst (run_msgs update ys (fst (run_msgs update xs s)))"
  "snd (run_msgs update (xs @ ys) s) =
    snd (run_msgs update xs s) @ snd (run_msgs update ys (fst (run_msgs update xs s)))"
  by (induction xs arbitrary: s) (simp_all add: run_msgs_Cons del: run_msgs.simps(2))

lemma run_msgs_length [simp]: "length (snd (run_msgs update es s)) = length es"
  by (induction es arbitrary: s) (simp_all add: run_msgs_Cons del: run_msgs.simps(2))

lemma state_at_0 [simp]: "state_at update es s 0 = s"
  by (simp add: state_at_def)

lemma state_at_Suc:
  "j < length es \<Longrightarrow> state_at update es s (Suc j) = fst (update (es ! j) (state_at update es s j))"
  by (simp add: state_at_def take_Suc_conv_app_nth run_msgs_append run_msgs_Cons del: run_msgs.simps(2))

lemma command_at:
  assumes "j < length es"
  shows "snd (run_msgs update es s) ! j = snd (update (es ! j) (state_at update es s j))"
proof -
  have "es = take j es @ es ! j # drop (Suc j) es" using assms by (simp add: id_take_nth_drop)
  then have "snd (run_msgs update es s) = snd (run_msgs update (take j es) s) @
      snd (run_msgs update (es ! j # drop (Suc j) es) (state_at update es s j))"
    unfolding state_at_def by (metis run_msgs_append(2))
  then show ?thesis using assms by (simp add: nth_append run_msgs_Cons del: run_msgs.simps(2))
qed

text \<open>What holds at last and did not hold at first began to hold at some step and has held since.\<close>

lemma held_since:
  assumes "\<not> P (f 0)" "P (f (j :: nat))"
  shows "\<exists>i<j. \<not> P (f i) \<and> (\<forall>l. i < l \<and> l \<le> j \<longrightarrow> P (f l))"
  using assms(2)
proof (induction j)
  case (Suc j)
  show ?case
  proof (cases "P (f j)")
    case True
    from Suc.IH [OF this] obtain i where "i < j" "\<not> P (f i)" "\<forall>l. i < l \<and> l \<le> j \<longrightarrow> P (f l)" by blast
    then show ?thesis using Suc.prems by (intro exI [of _ i]) (auto simp: le_Suc_eq)
  next
    case False
    then show ?thesis using Suc.prems by (intro exI [of _ j]) (auto simp: le_Suc_eq)
  qed
qed (use assms(1) in simp)

text \<open>A screen with an invariant that every message it may receive keeps.\<close>

locale message_loop =
  fixes update :: "'e \<Rightarrow> 's \<Rightarrow> 's \<times> 'c"
    and inv :: "'s \<Rightarrow> bool"
    and ok :: "'e \<Rightarrow> bool"
  assumes keeps: "inv s \<Longrightarrow> ok e \<Longrightarrow> inv (fst (update e s))"
begin

lemma inv_run: "inv s \<Longrightarrow> list_all ok es \<Longrightarrow> inv (fst (run_msgs update es s))"
  by (induction es arbitrary: s) (simp_all add: run_msgs_Cons keeps del: run_msgs.simps(2))

lemma inv_at:
  assumes "inv s" "list_all ok es"
  shows "inv (state_at update es s j)"
  unfolding state_at_def by (rule inv_run [OF assms(1)]) (use assms(2) in \<open>auto simp: list_all_iff dest: in_set_takeD\<close>)

end

end
