(* ===== verification/Tui_LogBrowser.thy ===== *)
theory Tui_LogBrowser
  imports Log_Files Message_Loop
begin

text \<open>
  \<open>tui/logbrowser/\<close>: the tree of log files, the viewer and the confirmation of a delete, as the
  state machine \<open>Update\<close> over messages. A command is data; executing it gives the next message.
\<close>

section \<open>The model\<close>

datatype screen = ScreenTree | ScreenViewer | ScreenConfirmDelete

record browser =
  br_root :: string
  br_initialTarget :: string
  br_screen :: screen
  br_tasks :: "task_logs list"
  br_expanded :: "bool gomap"
  br_treeCursor :: int
  br_viewerPath :: string
  br_lines :: "string list"
  br_lineCursor :: int
  br_width :: int
  br_height :: int
  br_loading :: bool
  br_err :: "string option"
  br_notice :: string

datatype browser_msg =
    WindowSizeMsg int int
  | KeyMsg string
  | TasksMsg "task_logs list" "string option"
  | FileMsg string "string list" "string option"
  | DeletedMsg string "string option"

datatype browser_cmd = NoCmd | QuitCmd | LoadTasksCmd string | LoadFileCmd string | DeleteFileCmd string

definition Browser_New :: "string \<Rightarrow> string \<Rightarrow> browser" where
  "Browser_New dir initialTarget =
     \<lparr>br_root = dir, br_initialTarget = initialTarget, br_screen = ScreenTree, br_tasks = [],
      br_expanded = [], br_treeCursor = 0, br_viewerPath = '''', br_lines = [], br_lineCursor = 0,
      br_width = 100, br_height = 30, br_loading = True, br_err = None, br_notice = ''''\<rparr>"

definition Browser_Init :: "browser \<Rightarrow> browser_cmd" where
  "Browser_Init m = LoadTasksCmd (br_root m)"

definition clampIndex :: "int \<Rightarrow> int \<Rightarrow> int" where
  "clampIndex index len = (if len = 0 then 0 else max 0 (min index (len - 1)))"

section \<open>The tree (tree.go)\<close>

datatype row_kind = TreeTask | TreeFile

record tree_row =
  tw_kind :: row_kind
  tw_task :: nat
  tw_file :: int

definition is_expanded :: "browser \<Rightarrow> string \<Rightarrow> bool" where
  "is_expanded m task \<longleftrightarrow> gm_get (br_expanded m) task = Some True"

definition task_rows :: "browser \<Rightarrow> nat \<Rightarrow> task_logs \<Rightarrow> tree_row list" where
  "task_rows m i task =
     \<lparr>tw_kind = TreeTask, tw_task = i, tw_file = - 1\<rparr> #
     (if is_expanded m (tl_task task)
      then map (\<lambda>j. \<lparr>tw_kind = TreeFile, tw_task = i, tw_file = int j\<rparr>) [0..<length (tl_files task)]
      else [])"

definition visibleTreeRows :: "browser \<Rightarrow> tree_row list" where
  "visibleTreeRows m = concat (map (\<lambda>(i, task). task_rows m i task) (enumerate 0 (br_tasks m)))"

definition row_count :: "browser \<Rightarrow> int" where
  "row_count m = int (length (visibleTreeRows m))"

definition selectedTreeRow :: "browser \<Rightarrow> tree_row option" where
  "selectedTreeRow m =
     (let rows = visibleTreeRows m in
      if rows = [] then None else Some (rows ! nat (clampIndex (br_treeCursor m) (int (length rows)))))"

definition selectedFilePath :: "browser \<Rightarrow> string" where
  "selectedFilePath m =
     (case selectedTreeRow m of
        None \<Rightarrow> ''''
      | Some row \<Rightarrow>
          if tw_kind row \<noteq> TreeFile then ''''
          else (let files = tl_files (br_tasks m ! tw_task row) in
                if tw_file row < 0 \<or> int (length files) \<le> tw_file row then ''''
                else fi_path (files ! nat (tw_file row))))"

fun first_index :: "('a \<Rightarrow> bool) \<Rightarrow> 'a list \<Rightarrow> nat option" where
  "first_index P [] = None"
| "first_index P (x # xs) = (if P x then Some 0 else map_option Suc (first_index P xs))"

definition treeIndexForTask :: "browser \<Rightarrow> nat \<Rightarrow> int" where
  "treeIndexForTask m i =
     (case first_index (\<lambda>row. tw_kind row = TreeTask \<and> tw_task row = i) (visibleTreeRows m) of
        None \<Rightarrow> 0
      | Some k \<Rightarrow> int k)"

section \<open>Messages (model.go)\<close>

definition canDelete :: "browser \<Rightarrow> bool" where
  "canDelete m \<longleftrightarrow>
     br_screen m = ScreenTree \<and>
     (case selectedTreeRow m of None \<Rightarrow> False | Some row \<Rightarrow> tw_kind row = TreeFile)"

definition confirmPath :: "browser \<Rightarrow> string" where
  "confirmPath m = (if br_screen m \<noteq> ScreenConfirmDelete then '''' else selectedFilePath m)"

text \<open>\<open>strings.EqualFold\<close> on ASCII names.\<close>

definition applyInitialTarget :: "browser \<Rightarrow> browser" where
  "applyInitialTarget m =
     (if br_initialTarget m = '''' then m
      else
        (let target = br_initialTarget m; m1 = m\<lparr>br_initialTarget := ''''\<rparr> in
         case first_index (\<lambda>task. to_lower (tl_task task) = to_lower target) (br_tasks m1) of
           None \<Rightarrow> m1
         | Some i \<Rightarrow>
             (let m2 = m1\<lparr>br_expanded := gm_set (tl_task (br_tasks m1 ! i)) True (br_expanded m1)\<rparr> in
              m2\<lparr>br_treeCursor := treeIndexForTask m2 i\<rparr>)))"

definition on_tasks :: "task_logs list \<Rightarrow> string option \<Rightarrow> browser \<Rightarrow> browser" where
  "on_tasks tasks err m =
     (let m1 = m\<lparr>br_loading := False, br_err := err\<rparr> in
      if err \<noteq> None then m1
      else
        (let m2 = applyInitialTarget (m1\<lparr>br_tasks := tasks\<rparr>) in
         m2\<lparr>br_treeCursor := clampIndex (br_treeCursor m2) (row_count m2)\<rparr>))"

definition on_file :: "string \<Rightarrow> string list \<Rightarrow> string option \<Rightarrow> browser \<Rightarrow> browser" where
  "on_file path ls err m =
     (if br_viewerPath m \<noteq> path then m
      else
        (let m1 = m\<lparr>br_loading := False, br_err := err\<rparr> in
         if err \<noteq> None then m1
         else m1\<lparr>br_lines := ls, br_lineCursor := max 0 (int (length ls) - 1)\<rparr>))"

definition on_deleted :: "string \<Rightarrow> string option \<Rightarrow> browser \<Rightarrow> browser \<times> browser_cmd" where
  "on_deleted path err m =
     (let m1 = m\<lparr>br_screen := ScreenTree\<rparr> in
      if err \<noteq> None then (m1\<lparr>br_loading := False, br_err := err, br_notice := ''''\<rparr>, NoCmd)
      else
        (let m2 = m1\<lparr>br_err := None, br_notice := ''deleted '' @ path_base path\<rparr>;
             m3 = (if br_viewerPath m2 = path
                   then m2\<lparr>br_viewerPath := '''', br_lines := [], br_lineCursor := 0\<rparr> else m2)
         in (m3\<lparr>br_loading := True\<rparr>, LoadTasksCmd (br_root m3))))"

section \<open>Keys (keys.go)\<close>

definition moveSelection :: "int \<Rightarrow> browser \<Rightarrow> browser" where
  "moveSelection delta m =
     (case br_screen m of
        ScreenTree \<Rightarrow> m\<lparr>br_treeCursor := clampIndex (br_treeCursor m + delta) (row_count m)\<rparr>
      | ScreenViewer \<Rightarrow> m\<lparr>br_lineCursor := clampIndex (br_lineCursor m + delta) (int (length (br_lines m)))\<rparr>
      | ScreenConfirmDelete \<Rightarrow> m)"

definition moveToBoundary :: "bool \<Rightarrow> browser \<Rightarrow> browser" where
  "moveToBoundary e m =
     (case br_screen m of
        ScreenTree \<Rightarrow> m\<lparr>br_treeCursor := clampIndex (if e then row_count m - 1 else 0) (row_count m)\<rparr>
      | ScreenViewer \<Rightarrow>
          m\<lparr>br_lineCursor :=
              clampIndex (if e then int (length (br_lines m)) - 1 else 0) (int (length (br_lines m)))\<rparr>
      | ScreenConfirmDelete \<Rightarrow> m)"

definition focusSelectedFile :: "browser \<Rightarrow> browser \<times> browser_cmd" where
  "focusSelectedFile m =
     (if br_screen m \<noteq> ScreenTree then (m, NoCmd)
      else
        (case selectedTreeRow m of
           None \<Rightarrow> (m, NoCmd)
         | Some row \<Rightarrow>
             if tw_kind row \<noteq> TreeFile then (m, NoCmd)
             else
               (let path = selectedFilePath m in
                if path = '''' then (m, NoCmd)
                else (m\<lparr>br_screen := ScreenViewer, br_viewerPath := path, br_lines := [], br_lineCursor := 0,
                        br_loading := True, br_err := None, br_notice := ''''\<rparr>, LoadFileCmd path))))"

definition moveIn :: "browser \<Rightarrow> browser \<times> browser_cmd" where
  "moveIn m =
     (if br_screen m \<noteq> ScreenTree then (m, NoCmd)
      else
        (case selectedTreeRow m of
           None \<Rightarrow> (m, NoCmd)
         | Some row \<Rightarrow>
             if tw_kind row = TreeTask
             then
               (let task = br_tasks m ! tw_task row in
                if is_expanded m (tl_task task)
                then (if tl_files task \<noteq> [] then m\<lparr>br_treeCursor := br_treeCursor m + 1\<rparr> else m, NoCmd)
                else (m\<lparr>br_expanded := gm_set (tl_task task) True (br_expanded m)\<rparr>, NoCmd))
             else focusSelectedFile m))"

definition moveOut :: "browser \<Rightarrow> browser" where
  "moveOut m =
     (if br_screen m = ScreenViewer then m\<lparr>br_screen := ScreenTree\<rparr>
      else if br_screen m \<noteq> ScreenTree then m
      else
        (case selectedTreeRow m of
           None \<Rightarrow> m
         | Some row \<Rightarrow>
             (let task = br_tasks m ! tw_task row;
                  m1 = m\<lparr>br_expanded := gm_set (tl_task task) False (br_expanded m)\<rparr>
              in if tw_kind row = TreeTask then m1
                 else m1\<lparr>br_treeCursor := treeIndexForTask m (tw_task row)\<rparr>)))"

definition movePage :: "int \<Rightarrow> browser \<Rightarrow> browser" where
  "movePage direction m =
     m\<lparr>br_lineCursor :=
         clampIndex (br_lineCursor m + direction * max 1 (br_height m - 4)) (int (length (br_lines m)))\<rparr>"

definition confirm_key :: "string \<Rightarrow> browser \<Rightarrow> browser \<times> browser_cmd" where
  "confirm_key key m =
     (if key \<in> {''y'', ''Y''}
      then
        (let path = selectedFilePath m in
         if path = '''' then (m\<lparr>br_screen := ScreenTree\<rparr>, NoCmd)
         else (m\<lparr>br_loading := True\<rparr>, DeleteFileCmd path))
      else if key \<in> {''n'', ''N'', ''esc''} then (m\<lparr>br_screen := ScreenTree\<rparr>, NoCmd)
      else (m, NoCmd))"

definition Browser_handleKey :: "string \<Rightarrow> browser \<Rightarrow> browser \<times> browser_cmd" where
  "Browser_handleKey key m =
     (if key \<in> {''q'', ''ctrl+c''} then (m, QuitCmd)
      else if br_screen m = ScreenConfirmDelete then confirm_key key m
      else if key \<in> {''up'', ''k''} then (moveSelection (- 1) m, NoCmd)
      else if key \<in> {''down'', ''j''} then (moveSelection 1 m, NoCmd)
      else if key = ''home'' then (moveToBoundary False m, NoCmd)
      else if key = ''end'' then (moveToBoundary True m, NoCmd)
      else if key = ''right'' then moveIn m
      else if key = ''left'' then (moveOut m, NoCmd)
      else if key = ''enter'' then focusSelectedFile m
      else if key = ''pgup'' then (if br_screen m = ScreenViewer then movePage (- 1) m else m, NoCmd)
      else if key = ''pgdown'' then (if br_screen m = ScreenViewer then movePage 1 m else m, NoCmd)
      else if key = ''d'' then (if canDelete m then m\<lparr>br_screen := ScreenConfirmDelete\<rparr> else m, NoCmd)
      else (m, NoCmd))"

definition Browser_Update :: "browser_msg \<Rightarrow> browser \<Rightarrow> browser \<times> browser_cmd" where
  "Browser_Update msg m =
     (case msg of
        WindowSizeMsg w h \<Rightarrow> (m\<lparr>br_width := w, br_height := h\<rparr>, NoCmd)
      | KeyMsg key \<Rightarrow> Browser_handleKey key m
      | TasksMsg tasks err \<Rightarrow> (on_tasks tasks err m, NoCmd)
      | FileMsg path ls err \<Rightarrow> (on_file path ls err m, NoCmd)
      | DeletedMsg path err \<Rightarrow> on_deleted path err m)"

definition breadcrumb :: "browser \<Rightarrow> string list" where
  "breadcrumb m =
     [br_root m] @
     (case selectedTreeRow m of None \<Rightarrow> [] | Some row \<Rightarrow> [tl_task (br_tasks m ! tw_task row)]) @
     (if br_viewerPath m \<noteq> '''' then [path_base (br_viewerPath m)] else [])"

section \<open>Reading a file (commands.go)\<close>

text \<open>\<open>readFileLines\<close>: every line without its line end; a last line without one counts.\<close>

definition strip_cr :: "string \<Rightarrow> string" where
  "strip_cr l = (if l \<noteq> '''' \<and> last l = CHR 0x0D then butlast l else l)"

definition readFileLines :: "string \<Rightarrow> string list" where
  "readFileLines content = map (\<lambda>l. strip_cr (trim_suffix l [eol])) (log_lines content)"

text \<open>What executing a command makes of the log directory; an answer of \<open>None\<close> is an error.\<close>

record browser_env =
  bv_list :: "string gomap \<Rightarrow> task_logs list option"
  bv_remove :: "string \<Rightarrow> bool"

definition browser_exec :: "browser_env \<Rightarrow> browser_cmd \<Rightarrow> string gomap \<Rightarrow> browser_msg option \<times> string gomap" where
  "browser_exec en cmd files =
     (case cmd of
        NoCmd \<Rightarrow> (None, files)
      | QuitCmd \<Rightarrow> (None, files)
      | LoadTasksCmd dir \<Rightarrow>
          (Some (case bv_list en files of None \<Rightarrow> TasksMsg [] (Some ''list'') | Some ts \<Rightarrow> TasksMsg ts None), files)
      | LoadFileCmd path \<Rightarrow>
          (Some (case gm_get files path of
                   None \<Rightarrow> FileMsg path [] (Some ''open'')
                 | Some content \<Rightarrow> FileMsg path (readFileLines content) None), files)
      | DeleteFileCmd path \<Rightarrow>
          if gm_get files path \<noteq> None \<and> bv_remove en path then (Some (DeletedMsg path None), gm_del path files)
          else (Some (DeletedMsg path (Some ''delete'')), files))"

section \<open>The rows of the tree\<close>

fun rows_from :: "browser \<Rightarrow> nat \<Rightarrow> task_logs list \<Rightarrow> tree_row list" where
  "rows_from m i [] = []"
| "rows_from m i (t # ts) = task_rows m i t @ rows_from m (Suc i) ts"

lemma visibleTreeRows_eq: "visibleTreeRows m = rows_from m 0 (br_tasks m)"
proof -
  have "concat (map (\<lambda>(i, task). task_rows m i task) (enumerate n ts)) = rows_from m n ts" for n ts
    by (induction ts arbitrary: n) simp_all
  then show ?thesis by (simp add: visibleTreeRows_def)
qed

lemma task_rows_length:
  "length (task_rows m i t) = (if is_expanded m (tl_task t) then Suc (length (tl_files t)) else 1)"
  by (simp add: task_rows_def)

lemma task_rows_nth:
  "k < length (task_rows m i t) \<Longrightarrow> tw_task (task_rows m i t ! k) = i \<and>
    (tw_kind (task_rows m i t ! k) = TreeTask \<longleftrightarrow> k = 0) \<and>
    (0 < k \<longrightarrow> tw_file (task_rows m i t ! k) = int k - 1 \<and> k - 1 < length (tl_files t))"
  by (cases k) (auto simp: task_rows_def split: if_splits)

text \<open>A row at position \<open>k\<close> belongs to a task; its header comes after the rows of the tasks before.\<close>

lemma rows_from_nth:
  "k < length (rows_from m i ts) \<Longrightarrow>
    (let r = rows_from m i ts ! k; j = tw_task r; h = length (rows_from m i (take (j - i) ts)) in
     i \<le> j \<and> j < i + length ts \<and> h \<le> k \<and> (tw_kind r = TreeTask \<longleftrightarrow> k = h) \<and>
     (h < k \<longrightarrow> is_expanded m (tl_task (ts ! (j - i))) \<and> tw_file r = int (k - h) - 1 \<and>
        k - h \<le> length (tl_files (ts ! (j - i)))))"
proof (induction ts arbitrary: i k)
  case (Cons t ts)
  show ?case
  proof (cases "k < length (task_rows m i t)")
    case True
    then show ?thesis
      using task_rows_nth [OF True] by (auto simp: Let_def nth_append task_rows_length split: if_splits)
  next
    case False
    let ?k = "k - length (task_rows m i t)"
    have k: "?k < length (rows_from m (Suc i) ts)" using False Cons.prems by simp
    have row: "rows_from m i (t # ts) ! k = rows_from m (Suc i) ts ! ?k" using False by (simp add: nth_append)
    define r where "r = rows_from m (Suc i) ts ! ?k"
    define j where "j = tw_task r"
    define h where "h = length (rows_from m (Suc i) (take (j - Suc i) ts))"
    have IH: "Suc i \<le> j" "j < Suc i + length ts" "h \<le> ?k" "(tw_kind r = TreeTask) = (?k = h)"
      "h < ?k \<Longrightarrow> is_expanded m (tl_task (ts ! (j - Suc i))) \<and> tw_file r = int (?k - h) - 1 \<and>
        ?k - h \<le> length (tl_files (ts ! (j - Suc i)))"
      using Cons.IH [OF k] unfolding Let_def r_def [symmetric] j_def [symmetric] h_def [symmetric] by blast+
    have j: "j - i = Suc (j - Suc i)" using IH(1) by simp
    have e: "length (rows_from m i (take (j - i) (t # ts))) = length (task_rows m i t) + h" by (simp add: j h_def)
    have n: "(t # ts) ! (j - i) = ts ! (j - Suc i)" by (simp add: j)
    have "length (task_rows m i t) + h \<le> k" "(k = length (task_rows m i t) + h) = (?k = h)"
      "k - (length (task_rows m i t) + h) = ?k - h" "(length (task_rows m i t) + h < k) = (h < ?k)"
      using False IH(3) by linarith+
    then show ?thesis
      unfolding row Let_def r_def [symmetric] j_def [symmetric] e n using IH(1,2,4,5) by simp
  qed
qed simp

lemma rows_from_split:
  "j < length ts \<Longrightarrow>
    rows_from m i ts = rows_from m i (take j ts) @ task_rows m (i + j) (ts ! j) @ rows_from m (Suc (i + j)) (drop (Suc j) ts)"
proof (induction ts arbitrary: i j)
  case (Cons t ts)
  then show ?case by (cases j) simp_all
qed simp

lemma rows_from_cong:
  "(\<And>t. t \<in> set ts \<Longrightarrow> is_expanded m' (tl_task t) = is_expanded m (tl_task t)) \<Longrightarrow> rows_from m' i ts = rows_from m i ts"
  by (induction ts arbitrary: i) (simp_all add: task_rows_def)

lemma rows_from_mono:
  "(\<And>t. is_expanded m t \<Longrightarrow> is_expanded m' t) \<Longrightarrow> length (rows_from m i ts) \<le> length (rows_from m' i ts)"
  by (induction ts arbitrary: i) (auto simp: task_rows_length add_mono)

section \<open>Positions stay in range\<close>

definition browser_ok :: "browser \<Rightarrow> bool" where
  "browser_ok m \<longleftrightarrow>
     0 \<le> br_treeCursor m \<and> br_treeCursor m < max 1 (row_count m) \<and>
     0 \<le> br_lineCursor m \<and> br_lineCursor m < max 1 (int (length (br_lines m))) \<and>
     distinct (map tl_task (br_tasks m)) \<and>
     (br_screen m = ScreenViewer \<longrightarrow> br_viewerPath m \<noteq> '''')"

text \<open>\<open>ListTasks\<close> lists no task twice.\<close>

fun msg_ok :: "browser_msg \<Rightarrow> bool" where
  "msg_ok (TasksMsg ts err) = distinct (map tl_task ts)"
| "msg_ok _ = True"

lemma clampIndex_range: "0 \<le> n \<Longrightarrow> 0 \<le> clampIndex i n \<and> clampIndex i n < max 1 n"
  by (auto simp: clampIndex_def)

lemma row_count_nonneg [simp]: "0 \<le> row_count m"
  by (simp add: row_count_def)

lemma row_count_cong:
  "br_tasks m' = br_tasks m \<Longrightarrow> br_expanded m' = br_expanded m \<Longrightarrow> row_count m' = row_count m"
proof -
  assume t: "br_tasks m' = br_tasks m" and e: "br_expanded m' = br_expanded m"
  have "rows_from m' 0 (br_tasks m) = rows_from m 0 (br_tasks m)"
    by (rule rows_from_cong) (simp add: is_expanded_def e)
  then show "row_count m' = row_count m" by (simp add: row_count_def visibleTreeRows_eq t)
qed

text \<open>The selected row of a model in range: its task exists, and a file row names a file.\<close>

lemma selected_row:
  assumes "selectedTreeRow m = Some r" "browser_ok m"
  shows "nat (br_treeCursor m) < length (rows_from m 0 (br_tasks m)) \<and>
    r = rows_from m 0 (br_tasks m) ! nat (br_treeCursor m)"
proof -
  have ne: "visibleTreeRows m \<noteq> []" "r = visibleTreeRows m ! nat (clampIndex (br_treeCursor m) (int (length (visibleTreeRows m))))"
    using assms(1) by (auto simp: selectedTreeRow_def Let_def split: if_splits)
  then have "0 < int (length (visibleTreeRows m))" by simp
  moreover have "br_treeCursor m < max 1 (int (length (visibleTreeRows m)))" "0 \<le> br_treeCursor m"
    using assms(2) by (simp_all add: browser_ok_def row_count_def)
  ultimately have "br_treeCursor m < int (length (visibleTreeRows m))" "0 \<le> br_treeCursor m" by linarith+
  moreover from this have "clampIndex (br_treeCursor m) (int (length (visibleTreeRows m))) = br_treeCursor m"
    by (auto simp: clampIndex_def)
  ultimately show ?thesis using ne by (auto simp: visibleTreeRows_eq)
qed

lemma selected_row_task: "selectedTreeRow m = Some r \<Longrightarrow> browser_ok m \<Longrightarrow> tw_task r < length (br_tasks m)"
  using selected_row [of m r] rows_from_nth [of "nat (br_treeCursor m)" m 0 "br_tasks m"] by (auto simp: Let_def)

lemma selectedFilePath_file:
  assumes "selectedFilePath m \<noteq> ''''" "browser_ok m"
  shows "\<exists>t\<in>set (br_tasks m). \<exists>f\<in>set (tl_files t). selectedFilePath m = fi_path f"
proof -
  obtain r where r: "selectedTreeRow m = Some r" "0 \<le> tw_file r"
    "tw_file r < int (length (tl_files (br_tasks m ! tw_task r)))"
    "selectedFilePath m = fi_path (tl_files (br_tasks m ! tw_task r) ! nat (tw_file r))"
    using assms(1) by (auto simp: selectedFilePath_def Let_def split: option.splits if_splits)
  have "br_tasks m ! tw_task r \<in> set (br_tasks m)" using selected_row_task [OF r(1) assms(2)] by simp
  moreover have "tl_files (br_tasks m ! tw_task r) ! nat (tw_file r) \<in> set (tl_files (br_tasks m ! tw_task r))"
    using r(2,3) by simp
  ultimately show ?thesis using r(4) by metis
qed

section \<open>Every message keeps the positions in range\<close>

lemma browser_ok_New: "browser_ok (Browser_New dir target)"
  by (simp add: browser_ok_def Browser_New_def row_count_def visibleTreeRows_def)

text \<open>Changes that leave the tree and the lines alone.\<close>

lemma browser_ok_frame:
  assumes "browser_ok m" "br_tasks m' = br_tasks m" "br_expanded m' = br_expanded m"
    "br_treeCursor m' = br_treeCursor m" "br_lines m' = br_lines m" "br_lineCursor m' = br_lineCursor m"
    "br_screen m' = ScreenViewer \<Longrightarrow> br_viewerPath m' \<noteq> ''''"
  shows "browser_ok m'"
  using assms row_count_cong [OF assms(2,3)] by (simp add: browser_ok_def)

lemma browser_ok_treeCursor:
  assumes "browser_ok m" "0 \<le> n" "n < max 1 (row_count m)"
  shows "browser_ok (m\<lparr>br_treeCursor := n\<rparr>)"
proof -
  have "row_count (m\<lparr>br_treeCursor := n\<rparr>) = row_count m" by (rule row_count_cong) simp_all
  then show ?thesis using assms by (simp add: browser_ok_def)
qed

lemma browser_ok_lineCursor:
  assumes "browser_ok m" "0 \<le> n" "n < max 1 (int (length (br_lines m)))"
  shows "browser_ok (m\<lparr>br_lineCursor := n\<rparr>)"
proof -
  have "row_count (m\<lparr>br_lineCursor := n\<rparr>) = row_count m" by (rule row_count_cong) simp_all
  then show ?thesis using assms by (simp add: browser_ok_def)
qed

lemma browser_ok_moveSelection: "browser_ok m \<Longrightarrow> browser_ok (moveSelection d m)"
  using clampIndex_range [of "row_count m"] clampIndex_range [of "int (length (br_lines m))"]
  by (cases "br_screen m") (simp_all add: moveSelection_def browser_ok_treeCursor browser_ok_lineCursor)

lemma browser_ok_moveToBoundary: "browser_ok m \<Longrightarrow> browser_ok (moveToBoundary e m)"
  using clampIndex_range [of "row_count m"] clampIndex_range [of "int (length (br_lines m))"]
  by (cases "br_screen m") (simp_all add: moveToBoundary_def browser_ok_treeCursor browser_ok_lineCursor)

lemma browser_ok_movePage: "browser_ok m \<Longrightarrow> browser_ok (movePage d m)"
  using clampIndex_range [of "int (length (br_lines m))"] by (simp add: movePage_def browser_ok_lineCursor)

lemma browser_ok_focus: "browser_ok m \<Longrightarrow> browser_ok (fst (focusSelectedFile m))"
proof -
  assume ok: "browser_ok m"
  have "browser_ok (m\<lparr>br_screen := ScreenViewer, br_viewerPath := p, br_lines := [], br_lineCursor := 0,
      br_loading := True, br_err := None, br_notice := ''''\<rparr>)" (is "browser_ok ?m") if "p \<noteq> ''''" for p
  proof -
    have "row_count ?m = row_count m" by (rule row_count_cong) simp_all
    then show ?thesis using ok that by (simp add: browser_ok_def)
  qed
  then show ?thesis using ok by (simp add: focusSelectedFile_def Let_def split: option.split)
qed

text \<open>Expanding adds rows; collapsing a task removes none up to its header.\<close>

lemma browser_ok_expand:
  assumes "browser_ok m"
  shows "browser_ok (m\<lparr>br_expanded := gm_set name True (br_expanded m)\<rparr>)" (is "browser_ok ?m")
proof -
  have "length (rows_from m 0 (br_tasks m)) \<le> length (rows_from ?m 0 (br_tasks m))"
    by (rule rows_from_mono) (simp add: is_expanded_def gm_get_set)
  then have "row_count m \<le> row_count ?m" by (simp add: row_count_def visibleTreeRows_eq)
  then show ?thesis using assms by (auto simp: browser_ok_def)
qed

lemma header_position:
  assumes "distinct (map tl_task ts)" "j < length ts"
    "\<And>name. name \<noteq> tl_task (ts ! j) \<Longrightarrow> is_expanded m' name = is_expanded m name"
  shows "length (rows_from m 0 (take j ts)) < length (rows_from m' 0 ts)"
proof -
  have "tl_task t \<noteq> tl_task (ts ! j)" if "t \<in> set (take j ts)" for t
  proof -
    from that obtain i where "i < length (take j ts)" "take j ts ! i = t" by (meson in_set_conv_nth)
    then have "i < j" "i < length ts" "t = ts ! i" using assms(2) by simp_all
    then show ?thesis using nth_eq_iff_index_eq [OF assms(1), of i j] assms(2) by simp
  qed
  then have "rows_from m' 0 (take j ts) = rows_from m 0 (take j ts)" by (intro rows_from_cong) (simp add: assms(3))
  moreover have "0 < length (task_rows m' j (ts ! j))" by (simp add: task_rows_def)
  ultimately show ?thesis using rows_from_split [OF assms(2), of m' 0] by simp
qed

lemma first_index_nth:
  "first_index P xs = Some k \<Longrightarrow> k < length xs \<and> P (xs ! k)"
  by (induction xs arbitrary: k) (auto split: if_splits)

lemma first_index_None: "first_index P xs = None \<longleftrightarrow> (\<forall>x\<in>set xs. \<not> P x)"
  by (induction xs) auto

lemma treeIndexForTask_eq:
  assumes "j < length (br_tasks m)"
  shows "treeIndexForTask m j = int (length (rows_from m 0 (take j (br_tasks m))))"
proof -
  let ?P = "\<lambda>row. tw_kind row = TreeTask \<and> tw_task row = j"
  have "hd (task_rows m j (br_tasks m ! j)) \<in> set (rows_from m 0 (br_tasks m))"
    using rows_from_split [OF assms, of m 0] by (simp add: task_rows_def)
  then have "first_index ?P (rows_from m 0 (br_tasks m)) \<noteq> None"
    unfolding first_index_None by (intro notI) (drule (1) bspec, simp add: task_rows_def)
  then obtain k where k: "first_index ?P (rows_from m 0 (br_tasks m)) = Some k" by blast
  with first_index_nth [OF k] rows_from_nth [of k m 0 "br_tasks m"]
  have "k = length (rows_from m 0 (take j (br_tasks m)))" by (auto simp: Let_def)
  then show ?thesis by (simp add: treeIndexForTask_def visibleTreeRows_eq k)
qed

lemma browser_ok_moveOut:
  assumes "browser_ok m"
  shows "browser_ok (moveOut m)"
proof (cases "selectedTreeRow m")
  case None
  then show ?thesis using assms browser_ok_frame [OF assms, of "m\<lparr>br_screen := ScreenTree\<rparr>"]
    by (simp add: moveOut_def)
next
  case (Some r)
  let ?ts = "br_tasks m" and ?j = "tw_task r"
  let ?m1 = "m\<lparr>br_expanded := gm_set (tl_task (?ts ! ?j)) False (br_expanded m)\<rparr>"
  let ?h = "length (rows_from m 0 (take ?j ?ts))"
  have j: "?j < length ?ts" using selected_row_task [OF Some assms] .
  have d: "distinct (map tl_task ?ts)" using assms by (simp add: browser_ok_def)
  have "?h < length (rows_from ?m1 0 ?ts)"
    by (rule header_position [OF d j]) (simp add: is_expanded_def gm_get_set)
  then have h: "int ?h < row_count ?m1" by (simp add: row_count_def visibleTreeRows_eq)
  have "nat (br_treeCursor m) = ?h" if "tw_kind r = TreeTask"
    using selected_row [OF Some assms] rows_from_nth [of "nat (br_treeCursor m)" m 0 ?ts] that by (auto simp: Let_def)
  moreover have "0 \<le> br_treeCursor m" using assms by (simp add: browser_ok_def)
  ultimately have c: "br_treeCursor m < row_count ?m1" if "tw_kind r = TreeTask" using that h by simp
  have m1: "browser_ok (?m1\<lparr>br_treeCursor := n\<rparr>)" if "0 \<le> n" "n < row_count ?m1" for n
  proof -
    have "row_count (?m1\<lparr>br_treeCursor := n\<rparr>) = row_count ?m1" by (rule row_count_cong) simp_all
    then show ?thesis using assms that by (simp add: browser_ok_def)
  qed
  have "browser_ok ?m1" if "tw_kind r = TreeTask"
    using m1 [of "br_treeCursor m"] c [OF that] assms by (simp add: browser_ok_def)
  moreover have "browser_ok (?m1\<lparr>br_treeCursor := treeIndexForTask m ?j\<rparr>)"
    using m1 [of "int ?h"] h treeIndexForTask_eq [OF j] by simp
  moreover have "browser_ok (m\<lparr>br_screen := ScreenTree\<rparr>)" by (rule browser_ok_frame [OF assms]) simp_all
  ultimately show ?thesis using assms Some by (auto simp: moveOut_def Let_def)
qed

lemma browser_ok_moveIn:
  assumes "browser_ok m"
  shows "browser_ok (fst (moveIn m))"
proof (cases "selectedTreeRow m")
  case None
  then show ?thesis using assms by (simp add: moveIn_def)
next
  case (Some r)
  let ?ts = "br_tasks m" and ?j = "tw_task r"
  have j: "?j < length ?ts" using selected_row_task [OF Some assms] .
  have "browser_ok (m\<lparr>br_treeCursor := br_treeCursor m + 1\<rparr>)"
    if "tw_kind r = TreeTask" "is_expanded m (tl_task (?ts ! ?j))" "tl_files (?ts ! ?j) \<noteq> []"
  proof (rule browser_ok_treeCursor [OF assms])
    have "nat (br_treeCursor m) = length (rows_from m 0 (take ?j ?ts))"
      using selected_row [OF Some assms] rows_from_nth [of "nat (br_treeCursor m)" m 0 ?ts] that(1) by (auto simp: Let_def)
    moreover have "2 \<le> length (task_rows m ?j (?ts ! ?j))" using that(2,3) by (cases "tl_files (?ts ! ?j)") (simp_all add: task_rows_length)
    ultimately have "nat (br_treeCursor m) + 1 < length (rows_from m 0 ?ts)"
      using rows_from_split [OF j, of m 0] by simp
    then show "br_treeCursor m + 1 < max 1 (row_count m)" by (simp add: row_count_def visibleTreeRows_eq)
    show "0 \<le> br_treeCursor m + 1" using assms by (simp add: browser_ok_def)
  qed
  then show ?thesis
    using assms browser_ok_expand [OF assms] browser_ok_focus [OF assms] Some by (simp add: moveIn_def Let_def)
qed

lemma browser_ok_on_tasks:
  assumes "browser_ok m" "distinct (map tl_task ts)"
  shows "browser_ok (on_tasks ts err m)"
proof (cases "err = None")
  case False
  then show ?thesis by (auto simp: on_tasks_def intro!: browser_ok_frame [OF assms(1)])
      (use assms(1) in \<open>simp add: browser_ok_def\<close>)
next
  case True
  let ?m0 = "m\<lparr>br_loading := False, br_err := None, br_tasks := ts\<rparr>"
  let ?m2 = "applyInitialTarget ?m0"
  have t: "br_tasks ?m2 = ts" "br_lines ?m2 = br_lines m" "br_lineCursor ?m2 = br_lineCursor m"
    "br_screen ?m2 = br_screen m" "br_viewerPath ?m2 = br_viewerPath m"
    by (simp_all add: applyInitialTarget_def Let_def split: option.split)
  let ?n = "clampIndex (br_treeCursor ?m2) (row_count ?m2)"
  have "row_count (?m2\<lparr>br_treeCursor := ?n\<rparr>) = row_count ?m2" by (rule row_count_cong) simp_all
  then show ?thesis
    using assms t clampIndex_range [of "row_count ?m2" "br_treeCursor ?m2"] True
    by (simp add: on_tasks_def Let_def browser_ok_def)
qed

lemma browser_ok_on_file:
  assumes "browser_ok m"
  shows "browser_ok (on_file path ls err m)"
proof -
  have "row_count (m\<lparr>br_loading := False, br_err := None, br_lines := ls, br_lineCursor := max 0 (int (length ls) - 1)\<rparr>) = row_count m"
    by (rule row_count_cong) simp_all
  moreover have "row_count (m\<lparr>br_loading := False, br_err := err\<rparr>) = row_count m" by (rule row_count_cong) simp_all
  ultimately show ?thesis using assms by (auto simp: on_file_def Let_def browser_ok_def)
qed

lemma browser_ok_on_deleted:
  assumes "browser_ok m"
  shows "browser_ok (fst (on_deleted path err m))"
proof -
  have "row_count (fst (on_deleted path err m)) = row_count m"
    by (rule row_count_cong) (simp_all add: on_deleted_def Let_def)
  then show ?thesis using assms by (auto simp: on_deleted_def Let_def browser_ok_def)
qed

lemma browser_ok_confirm:
  assumes "browser_ok m" "br_screen m = ScreenConfirmDelete"
  shows "browser_ok (fst (confirm_key key m))"
proof -
  have "browser_ok (m\<lparr>br_screen := ScreenTree\<rparr>)" "browser_ok (m\<lparr>br_loading := True\<rparr>)"
    by (rule browser_ok_frame [OF assms(1)]; use assms in simp)+
  then show ?thesis using assms(1) by (simp add: confirm_key_def Let_def)
qed

lemma browser_ok_Update:
  assumes "browser_ok m" "msg_ok msg"
  shows "browser_ok (fst (Browser_Update msg m))"
proof (cases msg)
  case (WindowSizeMsg w h)
  have "browser_ok (m\<lparr>br_width := w, br_height := h\<rparr>)"
    by (rule browser_ok_frame [OF assms(1)]) (use assms(1) in \<open>simp_all add: browser_ok_def\<close>)
  then show ?thesis by (simp add: WindowSizeMsg Browser_Update_def)
next
  case (KeyMsg key)
  have "browser_ok (m\<lparr>br_screen := ScreenConfirmDelete\<rparr>)" by (rule browser_ok_frame [OF assms(1)]) simp_all
  then show ?thesis
    using assms(1) browser_ok_confirm [OF assms(1)] browser_ok_moveSelection browser_ok_moveToBoundary
      browser_ok_moveIn browser_ok_moveOut browser_ok_focus browser_ok_movePage
    by (simp add: KeyMsg Browser_Update_def Browser_handleKey_def)
next
  case (TasksMsg ts err)
  then show ?thesis using assms by (simp add: Browser_Update_def browser_ok_on_tasks)
next
  case (FileMsg path ls err)
  then show ?thesis using assms by (simp add: Browser_Update_def browser_ok_on_file)
next
  case (DeletedMsg path err)
  then show ?thesis using assms by (simp add: Browser_Update_def browser_ok_on_deleted)
qed

section \<open>Runs\<close>

interpretation bl: message_loop Browser_Update browser_ok msg_ok
  by unfold_locales (rule browser_ok_Update)

text \<open>
  A delete is only ever commanded by \<open>y\<close> while the confirmation is open, for the file the prompt
  names at that moment.
\<close>

lemma delete_only_confirmed:
  assumes "snd (Browser_Update msg m) = DeleteFileCmd path"
  shows "msg \<in> {KeyMsg ''y'', KeyMsg ''Y''} \<and> br_screen m = ScreenConfirmDelete \<and> path = confirmPath m \<and> path \<noteq> ''''"
  using assms
  by (cases msg)
    (auto simp: Browser_Update_def Browser_handleKey_def confirm_key_def confirmPath_def on_deleted_def
      moveIn_def focusSelectedFile_def Let_def split: if_splits option.splits)

text \<open>The confirmation opens only for a file row of the tree.\<close>

lemma confirm_opens:
  assumes "br_screen (fst (Browser_Update msg m)) = ScreenConfirmDelete" "br_screen m \<noteq> ScreenConfirmDelete"
  shows "msg = KeyMsg ''d'' \<and> canDelete m"
  using assms
  by (cases msg)
    (auto simp: Browser_Update_def Browser_handleKey_def confirm_key_def on_deleted_def on_tasks_def
      applyInitialTarget_def on_file_def moveIn_def moveOut_def focusSelectedFile_def moveSelection_def
      moveToBoundary_def movePage_def Let_def split: if_splits option.splits screen.splits)

text \<open>A late answer for another file changes nothing.\<close>

lemma stale_file_ignored: "path \<noteq> br_viewerPath m \<Longrightarrow> Browser_Update (FileMsg path ls err) m = (m, NoCmd)"
  by (simp add: Browser_Update_def on_file_def)

text \<open>
  The prompt follows the cursor: a listing that arrives while it is open retargets it. Here the
  prompt is opened for the file just deleted, whose row is still shown, and \<open>y\<close> deletes the other.
\<close>

definition race_file :: "string \<Rightarrow> file_info" where
  "race_file name = \<lparr>fi_path = ''/l/'' @ name, fi_name = name, fi_size = 1, fi_mtime = GoTime 1, fi_current = True\<rparr>"

definition race_msgs :: "browser_msg list" where
  "race_msgs =
     [TasksMsg [\<lparr>tl_task = ''a'', tl_files = [race_file ''a.err'', race_file ''a.log'']\<rparr>] None,
      KeyMsg ''right'', KeyMsg ''down'', KeyMsg ''d'', KeyMsg ''y'', DeletedMsg ''/l/a.err'' None,
      KeyMsg ''d'', TasksMsg [\<lparr>tl_task = ''a'', tl_files = [race_file ''a.log'']\<rparr>] None, KeyMsg ''y'']"

lemma confirm_race:
  "confirmPath (fst (run_msgs Browser_Update (take 7 race_msgs) (Browser_New ''/l'' ''''))) = ''/l/a.err''"
  "last (snd (run_msgs Browser_Update race_msgs (Browser_New ''/l'' ''''))) = DeleteFileCmd ''/l/a.log''"
  by code_simp+

end
