(* ===== verification/Tui_Monitor.thy ===== *)
theory Tui_Monitor
  imports Cli_Client Tui_LogBrowser Sys_Inspect
begin

text \<open>
  \<open>tui/model.go\<close>, \<open>tui/keys.go\<close> and \<open>tui/commands.go\<close>: the monitor as a state machine over messages.
  \<open>sort.Slice\<close> does not say how it orders equal elements, so the sorting routine is an argument.
\<close>

section \<open>The model (model.go)\<close>

definition maxLogTail :: nat where "maxLogTail = 14"

definition workflowTab :: string where "workflowTab = ''Workflows''"

datatype sort_field = SortByName | SortByNamespace | SortByCPU | SortByMem | SortByStatus

record refresh =
  rm_procs :: "process_info list"
  rm_workflows :: "wf_status list"
  rm_err :: "cli_error option"

datatype monitor_msg =
    MonWindow int int
  | MonTick
  | MonRefresh refresh
  | MonAction refresh string
  | MonLogs string "string list option"
  | MonHost rat rat
  | MonTriggerHost
  | MonKey string

datatype monitor_cmd =
    MonNone
  | MonQuit
  | MonRefreshAndTick
  | MonReadLogs string
  | MonDo rpc_request
  | MonSampleHost
  | MonArmHost

record monitor =
  mo_procs :: "process_info list"
  mo_allProcs :: "process_info list"
  mo_workflows :: "wf_status list"
  mo_namespaces :: "string list"
  mo_nsCursor :: int
  mo_selected :: int
  mo_wfSelected :: int
  mo_logs :: "string list option"
  mo_width :: int
  mo_height :: int
  mo_err :: "cli_error option"
  mo_updated :: gotime
  mo_detail :: bool
  mo_logFocus :: bool
  mo_hostCPU :: rat
  mo_hostMem :: rat
  mo_SortBy :: sort_field
  mo_notice :: string

definition Monitor_New :: "bool \<Rightarrow> monitor" where
  "Monitor_New detail =
     \<lparr>mo_procs = [], mo_allProcs = [], mo_workflows = [], mo_namespaces = [], mo_nsCursor = 0,
      mo_selected = 0, mo_wfSelected = 0, mo_logs = None, mo_width = 120, mo_height = 30, mo_err = None,
      mo_updated = zero_time, mo_detail = detail, mo_logFocus = False, mo_hostCPU = 52 / 10,
      mo_hostMem = 641 / 10, mo_SortBy = SortByName, mo_notice = ''''\<rparr>"

type_synonym sorter = "(process_info \<Rightarrow> process_info \<Rightarrow> bool) \<Rightarrow> process_info list \<Rightarrow> process_info list"

record monitor_env =
  mv_sort :: sorter
  mv_now :: gotime

definition name_of :: "process_info \<Rightarrow> string" where "name_of p = ac_Name (pi_App p)"

definition ns_of :: "process_info \<Rightarrow> string" where "ns_of p = ac_Namespace (pi_App p)"

definition by_name_id :: "process_info \<Rightarrow> process_info \<Rightarrow> bool" where
  "by_name_id a b = (if name_of a \<noteq> name_of b then name_of a < name_of b else pi_ID a < pi_ID b)"

definition proc_less :: "sort_field \<Rightarrow> process_info \<Rightarrow> process_info \<Rightarrow> bool" where
  "proc_less field a b =
     (case field of
        SortByName \<Rightarrow> by_name_id a b
      | SortByNamespace \<Rightarrow> if ns_of a \<noteq> ns_of b then ns_of a < ns_of b else by_name_id a b
      | SortByCPU \<Rightarrow> if pi_CPU a \<noteq> pi_CPU b then pi_CPU b < pi_CPU a else name_of a < name_of b
      | SortByMem \<Rightarrow> if pi_Memory a \<noteq> pi_Memory b then pi_Memory b < pi_Memory a else name_of a < name_of b
      | SortByStatus \<Rightarrow>
          if status_word (pi_Status a) \<noteq> status_word (pi_Status b)
          then status_word (pi_Status a) < status_word (pi_Status b) else name_of a < name_of b)"

definition inWorkflowScope :: "monitor \<Rightarrow> bool" where
  "inWorkflowScope m \<longleftrightarrow>
     0 < length (mo_namespaces m) \<and> mo_nsCursor m = int (length (mo_namespaces m)) - 1"

definition clamp_selected :: "monitor \<Rightarrow> monitor" where
  "clamp_selected m = m\<lparr>mo_selected := max 0 (min (mo_selected m) (int (length (mo_procs m)) - 1))\<rparr>"

definition selected_id :: "monitor \<Rightarrow> int" where
  "selected_id m =
     (if 0 \<le> mo_selected m \<and> mo_selected m < int (length (mo_procs m))
      then pi_ID (mo_procs m ! nat (mo_selected m)) else - 1)"

definition chip_of :: "process_info \<Rightarrow> string" where
  "chip_of p = (if ns_of p = '''' then DefaultNamespace else ns_of p)"

definition recomputeNamespaces :: "monitor \<Rightarrow> monitor" where
  "recomputeNamespaces m =
     (let was = inWorkflowScope m;
          prev = (if 0 \<le> mo_nsCursor m \<and> mo_nsCursor m < int (length (mo_namespaces m))
                  then mo_namespaces m ! nat (mo_nsCursor m) else '''');
          names = [''All''] @ sort (remdups (map chip_of (mo_allProcs m)));
          m1 = m\<lparr>mo_namespaces := names @ [workflowTab]\<rparr>
      in if was then m1\<lparr>mo_nsCursor := int (length (mo_namespaces m1)) - 1\<rparr>
         else if prev = '''' then m1\<lparr>mo_nsCursor := 0\<rparr>
         else (case first_index (\<lambda>n. n = prev) names of
                 Some i \<Rightarrow> m1\<lparr>mo_nsCursor := int i\<rparr>
               | None \<Rightarrow> m1\<lparr>mo_nsCursor := 0\<rparr>))"

definition applyNamespaceFilter :: "monitor \<Rightarrow> monitor" where
  "applyNamespaceFilter m =
     (if mo_namespaces m = [] then m\<lparr>mo_procs := []\<rparr>
      else
        (let m1 = (if mo_nsCursor m < 0 \<or> int (length (mo_namespaces m)) \<le> mo_nsCursor m
                   then m\<lparr>mo_nsCursor := 0\<rparr> else m) in
         if inWorkflowScope m1 then m1\<lparr>mo_procs := []\<rparr>
         else
           (let target = mo_namespaces m1 ! nat (mo_nsCursor m1) in
            if target = ''All'' then clamp_selected (m1\<lparr>mo_procs := mo_allProcs m1\<rparr>)
            else clamp_selected (m1\<lparr>mo_procs := filter (\<lambda>p. chip_of p = target) (mo_allProcs m1)\<rparr>))))"

text \<open>\<open>None\<close> is the call without the optional argument.\<close>

definition sortProcs :: "sorter \<Rightarrow> int option \<Rightarrow> monitor \<Rightarrow> monitor" where
  "sortProcs srt prevSelectedID m =
     (if mo_procs m = [] then m
      else
        (let given = (case prevSelectedID of Some i \<Rightarrow> i | None \<Rightarrow> - 1);
             selID = (if given = - 1 then selected_id m else given);
             m1 = m\<lparr>mo_procs := srt (proc_less (mo_SortBy m)) (mo_procs m)\<rparr>
         in if selID = - 1 then m1
            else (case first_index (\<lambda>p. pi_ID p = selID) (mo_procs m1) of
                    Some i \<Rightarrow> m1\<lparr>mo_selected := int i\<rparr>
                  | None \<Rightarrow> m1)))"

text \<open>Go's remainder has the sign of the dividend.\<close>

definition go_rem :: "int \<Rightarrow> int \<Rightarrow> int" where
  "go_rem a b = sgn a * (\<bar>a\<bar> mod \<bar>b\<bar>)"

definition cycleNamespace :: "sorter \<Rightarrow> int \<Rightarrow> monitor \<Rightarrow> monitor" where
  "cycleNamespace srt delta m =
     (if mo_namespaces m = [] then m
      else
        (let n = int (length (mo_namespaces m)); c = go_rem (mo_nsCursor m + delta) n;
             m1 = m\<lparr>mo_nsCursor := (if c < 0 then c + n else c)\<rparr>
         in clamp_selected (sortProcs srt None (applyNamespaceFilter m1))))"

definition cycleSort :: "monitor \<Rightarrow> monitor" where
  "cycleSort m =
     m\<lparr>mo_SortBy :=
         (case mo_SortBy m of
            SortByName \<Rightarrow> SortByNamespace
          | SortByNamespace \<Rightarrow> SortByCPU
          | SortByCPU \<Rightarrow> SortByMem
          | SortByMem \<Rightarrow> SortByStatus
          | SortByStatus \<Rightarrow> SortByName)\<rparr>"

definition applyRefresh :: "monitor_env \<Rightarrow> refresh \<Rightarrow> monitor \<Rightarrow> monitor \<times> monitor_cmd" where
  "applyRefresh en msg m =
     (let m1 = m\<lparr>mo_err := rm_err msg\<rparr> in
      if rm_err msg \<noteq> None then (m1, MonNone)
      else
        (let m2 = m1\<lparr>mo_allProcs := rm_procs msg, mo_workflows := rm_workflows msg,
                     mo_wfSelected := max 0 (min (mo_wfSelected m1) (int (length (rm_workflows msg)) - 1))\<rparr>;
             m3 = sortProcs (mv_sort en) (Some (selected_id m1)) (applyNamespaceFilter (recomputeNamespaces m2));
             m4 = m3\<lparr>mo_updated := mv_now en\<rparr>;
             m5 = (if \<not> inWorkflowScope m4 \<and> int (length (mo_procs m4)) \<le> mo_selected m4
                   then m4\<lparr>mo_selected := max 0 (int (length (mo_procs m4)) - 1)\<rparr> else m4)
         in if mo_procs m5 \<noteq> [] \<and> mo_detail m5 \<and> \<not> inWorkflowScope m5
            then (m5, MonReadLogs (pi_LogFile (mo_procs m5 ! nat (mo_selected m5))))
            else (m5, MonNone)))"

section \<open>Keys (keys.go)\<close>

definition pauseOrResume :: "status \<Rightarrow> string" where
  "pauseOrResume s = (if s = StatusPaused then CmdResume else CmdPause)"

definition handleWorkflowKey :: "string \<Rightarrow> monitor \<Rightarrow> monitor \<times> monitor_cmd" where
  "handleWorkflowKey key m =
     (if key \<in> {''up'', ''k''} \<and> 0 < mo_wfSelected m then (m\<lparr>mo_wfSelected := mo_wfSelected m - 1\<rparr>, MonNone)
      else if key \<in> {''down'', ''j''} \<and> mo_wfSelected m < int (length (mo_workflows m)) - 1
      then (m\<lparr>mo_wfSelected := mo_wfSelected m + 1\<rparr>, MonNone)
      else (m, MonNone))"

definition move_row :: "int \<Rightarrow> monitor \<Rightarrow> monitor \<times> monitor_cmd" where
  "move_row delta m =
     (let m1 = m\<lparr>mo_selected := mo_selected m + delta\<rparr> in
      if mo_detail m1
      then (m1\<lparr>mo_logs := None\<rparr>, MonReadLogs (pi_LogFile (mo_procs m1 ! nat (mo_selected m1))))
      else (m1, MonNone))"

definition action_on :: "string \<Rightarrow> monitor \<Rightarrow> monitor_cmd" where
  "action_on cmd m =
     MonDo ((command_req cmd)\<lparr>rr_Name := itoa (pi_ID (mo_procs m ! nat (mo_selected m)))\<rparr>)"

definition Monitor_handleKey :: "monitor_env \<Rightarrow> string \<Rightarrow> monitor \<Rightarrow> monitor \<times> monitor_cmd" where
  "Monitor_handleKey en key m =
     (if key \<in> {''q'', ''ctrl+c''} then (m, MonQuit)
      else if key = ''s'' then (sortProcs (mv_sort en) None (cycleSort m), MonNone)
      else if key = ''left'' then (cycleNamespace (mv_sort en) (- 1) m, MonNone)
      else if key = ''right'' then (cycleNamespace (mv_sort en) 1 m, MonNone)
      else if inWorkflowScope m then handleWorkflowKey key m
      else if mo_procs m = [] then (m, MonNone)
      else if key \<in> {''up'', ''k''} \<and> 0 < mo_selected m then move_row (- 1) m
      else if key \<in> {''down'', ''j''} \<and> mo_selected m < int (length (mo_procs m)) - 1 then move_row 1 m
      else if key = ''r'' then (m, action_on CmdRestart m)
      else if key = ''p'' then (m, action_on (pauseOrResume (pi_Status (mo_procs m ! nat (mo_selected m)))) m)
      else if key = ''d'' then (m, action_on CmdDelete m)
      else if key = ''enter'' then (if mo_detail m then m\<lparr>mo_logFocus := \<not> mo_logFocus m\<rparr> else m, MonNone)
      else if key = ''esc'' then (if mo_detail m then m\<lparr>mo_logFocus := False\<rparr> else m, MonNone)
      else (m, MonNone))"

definition Monitor_Update :: "monitor_env \<Rightarrow> monitor_msg \<Rightarrow> monitor \<Rightarrow> monitor \<times> monitor_cmd" where
  "Monitor_Update en msg m =
     (case msg of
        MonWindow w h \<Rightarrow> (m\<lparr>mo_width := w, mo_height := h\<rparr>, MonNone)
      | MonTick \<Rightarrow> (m\<lparr>mo_notice := ''''\<rparr>, MonRefreshAndTick)
      | MonAction r notice \<Rightarrow> applyRefresh en r (m\<lparr>mo_notice := notice\<rparr>)
      | MonRefresh r \<Rightarrow> applyRefresh en r m
      | MonLogs path ls \<Rightarrow>
          (if mo_procs m \<noteq> [] \<and> 0 \<le> mo_selected m \<and> mo_selected m < int (length (mo_procs m)) \<and>
              pi_LogFile (mo_procs m ! nat (mo_selected m)) = path
           then m\<lparr>mo_logs := Some (case ls of None \<Rightarrow> [] | Some xs \<Rightarrow> xs)\<rparr> else m, MonNone)
      | MonHost cpu mem \<Rightarrow> (m\<lparr>mo_hostCPU := cpu, mo_hostMem := mem\<rparr>, MonArmHost)
      | MonTriggerHost \<Rightarrow> (m, MonSampleHost)
      | MonKey key \<Rightarrow> Monitor_handleKey en key m)"

section \<open>Commands (commands.go)\<close>

definition ListWorkflows :: "cli_env \<Rightarrow> cli_world \<Rightarrow> (cli_error + wf_status list) \<times> cli_world" where
  "ListWorkflows en w =
     (case SendRequest en (command_req CmdWorkflowList) w of
        (None, w1) \<Rightarrow> (Inl NoDaemon, w1)
      | (Some resp, w1) \<Rightarrow>
          (case resp_cli_error resp of
             Some e \<Rightarrow> (Inl e, w1)
           | None \<Rightarrow>
               (case rp_Payload resp of
                  Some (PayloadWorkflows ws) \<Rightarrow> (Inr ws, w1)
                | _ \<Rightarrow> (Inl EmptyResponse, w1))))"

definition wf_sort_key :: "wf_status \<Rightarrow> string \<times> string" where
  "wf_sort_key s = (wc_Category (ws_Config s), wc_Name (ws_Config s))"

definition doRefresh :: "cli_env \<Rightarrow> cli_world \<Rightarrow> refresh \<times> cli_world" where
  "doRefresh en w =
     (case SendRequest en (command_req CmdList) w of
        (None, w1) \<Rightarrow> (\<lparr>rm_procs = [], rm_workflows = [], rm_err = Some NoDaemon\<rparr>, w1)
      | (Some resp, w1) \<Rightarrow>
          (case rp_Payload resp of
             Some (PayloadInfos infos) \<Rightarrow>
               (case ListWorkflows en w1 of
                  (r, w2) \<Rightarrow>
                    (\<lparr>rm_procs = sort_key pi_ID infos,
                      rm_workflows = (case r of Inl _ \<Rightarrow> [] | Inr ws \<Rightarrow> sort_key wf_sort_key ws),
                      rm_err = None\<rparr>, w2))
           | _ \<Rightarrow> (\<lparr>rm_procs = [], rm_workflows = [], rm_err = Some EmptyResponse\<rparr>, w1)))"

definition notice_for :: "string \<Rightarrow> string" where
  "notice_for cmd = cmd @ '' failed: ''"

text \<open>The notice without the text of the error.\<close>

definition doAction :: "cli_env \<Rightarrow> rpc_request \<Rightarrow> cli_world \<Rightarrow> monitor_msg \<times> cli_world" where
  "doAction en req w =
     (case SendRequest en req w of
        (r, w1) \<Rightarrow>
          (let notice = (case r of
                           None \<Rightarrow> notice_for (rr_Command req)
                         | Some resp \<Rightarrow> if rp_OK resp then '''' else notice_for (rr_Command req))
           in case doRefresh en w1 of (rf, w2) \<Rightarrow> (MonAction rf notice, w2)))"

text \<open>
  \<open>bufio.Scanner\<close> with its buffer of 64 KiB stops for good at a line that does not fit; the lines
  before it are kept and the error is dropped.
\<close>

definition scanner_lines :: "string \<Rightarrow> string list" where
  "scanner_lines content =
     map strip_cr (takeWhile (\<lambda>l. length l < 65536) (map (\<lambda>l. trim_suffix l [eol]) (log_lines content)))"

definition readLogs :: "string \<Rightarrow> string option \<Rightarrow> monitor_msg" where
  "readLogs path content =
     (case content of
        None \<Rightarrow> MonLogs path None
      | Some c \<Rightarrow>
          (let ls = scanner_lines c in
           MonLogs path (if ls = [] then None else Some (drop (length ls - maxLogTail) ls))))"

section \<open>Cursors stay in range\<close>

text \<open>All that is used of the sorting routine: it permutes its input.\<close>

definition permutes_rows :: "sorter \<Rightarrow> bool" where
  "permutes_rows srt \<longleftrightarrow> (\<forall>lt xs. mset (srt lt xs) = mset xs)"

lemma permutes_rowsD:
  assumes "permutes_rows srt"
  shows "length (srt lt xs) = length xs" "set (srt lt xs) = set xs" "srt lt xs = [] \<longleftrightarrow> xs = []"
  using assms unfolding permutes_rows_def by (metis size_mset, metis set_mset_mset, metis mset_zero_iff)

text \<open>The selected row exists if there are rows; without rows the position is kept for later.\<close>

definition selected_ok :: "monitor \<Rightarrow> bool" where
  "selected_ok m \<longleftrightarrow> 0 \<le> mo_selected m \<and> (mo_procs m = [] \<or> mo_selected m < int (length (mo_procs m)))"

definition chips_ok :: "monitor \<Rightarrow> bool" where
  "chips_ok m \<longleftrightarrow>
     (if mo_namespaces m = [] then mo_procs m = [] \<and> mo_nsCursor m = 0
      else 0 \<le> mo_nsCursor m \<and> mo_nsCursor m < int (length (mo_namespaces m))) \<and>
     (if inWorkflowScope m then mo_procs m = [] else True)"

definition monitor_ok :: "monitor \<Rightarrow> bool" where
  "monitor_ok m \<longleftrightarrow>
     chips_ok m \<and> selected_ok m \<and>
     0 \<le> mo_wfSelected m \<and> mo_wfSelected m < max 1 (int (length (mo_workflows m)))"

lemma inWorkflowScope_cong:
  "mo_namespaces m' = mo_namespaces m \<Longrightarrow> mo_nsCursor m' = mo_nsCursor m \<Longrightarrow> inWorkflowScope m' = inWorkflowScope m"
  by (simp add: inWorkflowScope_def)

lemma chips_ok_cong:
  "mo_namespaces m' = mo_namespaces m \<Longrightarrow> mo_nsCursor m' = mo_nsCursor m \<Longrightarrow> mo_procs m' = mo_procs m \<Longrightarrow>
   chips_ok m' = chips_ok m"
  by (simp add: chips_ok_def inWorkflowScope_def)

lemma clamp_selected_simps [simp]:
  "mo_procs (clamp_selected m) = mo_procs m" "mo_namespaces (clamp_selected m) = mo_namespaces m"
  "mo_nsCursor (clamp_selected m) = mo_nsCursor m" "mo_wfSelected (clamp_selected m) = mo_wfSelected m"
  "mo_workflows (clamp_selected m) = mo_workflows m" "mo_detail (clamp_selected m) = mo_detail m"
  "mo_allProcs (clamp_selected m) = mo_allProcs m" "inWorkflowScope (clamp_selected m) = inWorkflowScope m"
  by (simp_all add: clamp_selected_def inWorkflowScope_def)

lemma selected_ok_clamp [simp]: "selected_ok (clamp_selected m)"
  by (cases "mo_procs m") (auto simp: selected_ok_def clamp_selected_def)

lemma applyNamespaceFilter_simps [simp]:
  "mo_namespaces (applyNamespaceFilter m) = mo_namespaces m" "mo_wfSelected (applyNamespaceFilter m) = mo_wfSelected m"
  "mo_workflows (applyNamespaceFilter m) = mo_workflows m" "mo_allProcs (applyNamespaceFilter m) = mo_allProcs m"
  by (simp_all add: applyNamespaceFilter_def Let_def)

lemma applyNamespaceFilter_ok:
  assumes "mo_namespaces m \<noteq> []" "0 \<le> mo_selected m"
  shows "chips_ok (applyNamespaceFilter m) \<and> selected_ok (applyNamespaceFilter m)"
proof -
  define m1 where
    "m1 = (if mo_nsCursor m < 0 \<or> int (length (mo_namespaces m)) \<le> mo_nsCursor m then m\<lparr>mo_nsCursor := 0\<rparr> else m)"
  have m1: "mo_namespaces m1 = mo_namespaces m" "0 \<le> mo_nsCursor m1" "mo_nsCursor m1 < int (length (mo_namespaces m))"
    "mo_selected m1 = mo_selected m"
    using assms(1) by (auto simp: m1_def)
  have e: "applyNamespaceFilter m =
      (if inWorkflowScope m1 then m1\<lparr>mo_procs := []\<rparr>
       else if mo_namespaces m1 ! nat (mo_nsCursor m1) = ''All'' then clamp_selected (m1\<lparr>mo_procs := mo_allProcs m1\<rparr>)
       else clamp_selected (m1\<lparr>mo_procs := filter (\<lambda>p. chip_of p = mo_namespaces m1 ! nat (mo_nsCursor m1)) (mo_allProcs m1)\<rparr>))"
    using assms(1) unfolding applyNamespaceFilter_def Let_def m1_def [symmetric] by (simp only: if_False)
  show ?thesis
  proof (cases "inWorkflowScope m1")
    case True
    then show ?thesis using m1 assms unfolding e by (simp add: chips_ok_def selected_ok_def)
  next
    case False
    have "\<not> inWorkflowScope (m1\<lparr>mo_procs := ps\<rparr>)" for ps
      using False inWorkflowScope_cong [of "m1\<lparr>mo_procs := ps\<rparr>" m1] by simp
    then have "chips_ok (m1\<lparr>mo_procs := ps\<rparr>)" for ps using m1 assms(1) by (simp add: chips_ok_def)
    then have "chips_ok (clamp_selected (m1\<lparr>mo_procs := ps\<rparr>))" for ps
      by (subst chips_ok_cong [of _ "m1\<lparr>mo_procs := ps\<rparr>"]) simp_all
    then show ?thesis using False unfolding e by simp
  qed
qed

lemma sortProcs_simps [simp]:
  "mo_namespaces (sortProcs srt i m) = mo_namespaces m" "mo_nsCursor (sortProcs srt i m) = mo_nsCursor m"
  "mo_wfSelected (sortProcs srt i m) = mo_wfSelected m" "mo_workflows (sortProcs srt i m) = mo_workflows m"
  "mo_detail (sortProcs srt i m) = mo_detail m" "inWorkflowScope (sortProcs srt i m) = inWorkflowScope m"
  by (simp_all add: sortProcs_def Let_def inWorkflowScope_def split: option.split)

lemma sortProcs_procs:
  assumes "permutes_rows srt"
  shows "mset (mo_procs (sortProcs srt i m)) = mset (mo_procs m)"
  using assms by (auto simp: sortProcs_def Let_def permutes_rows_def split: option.split)

lemma sortProcs_empty: "permutes_rows srt \<Longrightarrow> mo_procs (sortProcs srt i m) = [] \<longleftrightarrow> mo_procs m = []"
  using sortProcs_procs [of srt i m] by (metis mset_zero_iff)

lemma sortProcs_cases:
  assumes "mo_procs m \<noteq> []"
  shows "\<exists>s. sortProcs srt i m = m\<lparr>mo_procs := srt (proc_less (mo_SortBy m)) (mo_procs m), mo_selected := s\<rparr> \<and>
    (s = mo_selected m \<or> (\<exists>P k. first_index P (srt (proc_less (mo_SortBy m)) (mo_procs m)) = Some k \<and> s = int k))"
proof -
  define given where "given = (case i of Some i \<Rightarrow> i | None \<Rightarrow> - 1)"
  define selID where "selID = (if given = - 1 then selected_id m else given)"
  define m1 where "m1 = m\<lparr>mo_procs := srt (proc_less (mo_SortBy m)) (mo_procs m)\<rparr>"
  have e: "sortProcs srt i m = (if selID = - 1 then m1
      else (case first_index (\<lambda>p. pi_ID p = selID) (mo_procs m1) of Some i \<Rightarrow> m1\<lparr>mo_selected := int i\<rparr> | None \<Rightarrow> m1))"
    using assms unfolding sortProcs_def Let_def given_def [symmetric] selID_def [symmetric] m1_def [symmetric] by (simp only: if_False)
  have "m1 = m\<lparr>mo_procs := srt (proc_less (mo_SortBy m)) (mo_procs m), mo_selected := mo_selected m\<rparr>"
    by (cases m) (simp add: m1_def)
  moreover have "m1\<lparr>mo_selected := s\<rparr> = m\<lparr>mo_procs := srt (proc_less (mo_SortBy m)) (mo_procs m), mo_selected := s\<rparr>" for s
    by (cases m) (simp add: m1_def)
  moreover have "mo_procs m1 = srt (proc_less (mo_SortBy m)) (mo_procs m)" by (simp add: m1_def)
  ultimately show ?thesis unfolding e
    by (cases "first_index (\<lambda>p. pi_ID p = selID) (mo_procs m1)"; cases "selID = - 1") (metis option.simps(4,5))+
qed

lemma sortProcs_ok:
  assumes "permutes_rows srt" "chips_ok m" "selected_ok m"
  shows "chips_ok (sortProcs srt i m) \<and> selected_ok (sortProcs srt i m)"
proof
  show "chips_ok (sortProcs srt i m)"
    using assms(2) sortProcs_empty [OF assms(1), of i m] by (simp add: chips_ok_def)
  show "selected_ok (sortProcs srt i m)"
  proof (cases "mo_procs m = []")
    case True
    then show ?thesis using assms(3) by (simp add: sortProcs_def)
  next
    case False
    let ?ps = "srt (proc_less (mo_SortBy m)) (mo_procs m)"
    obtain s where s: "sortProcs srt i m = m\<lparr>mo_procs := ?ps, mo_selected := s\<rparr>"
      "s = mo_selected m \<or> (\<exists>P k. first_index P ?ps = Some k \<and> s = int k)"
      using sortProcs_cases [OF False] by blast
    have "0 \<le> s \<and> s < int (length ?ps)"
      using s(2)
    proof
      assume "s = mo_selected m"
      then show ?thesis using assms(3) False permutes_rowsD(1) [OF assms(1)] by (simp add: selected_ok_def)
    next
      assume "\<exists>P k. first_index P ?ps = Some k \<and> s = int k"
      then obtain P k where "first_index P ?ps = Some k" "s = int k" by blast
      then show ?thesis using first_index_nth by fastforce
    qed
    then show ?thesis unfolding s(1) by (simp add: selected_ok_def)
  qed
qed

lemma recomputeNamespaces_simps [simp]:
  "mo_allProcs (recomputeNamespaces m) = mo_allProcs m" "mo_wfSelected (recomputeNamespaces m) = mo_wfSelected m"
  "mo_workflows (recomputeNamespaces m) = mo_workflows m" "mo_selected (recomputeNamespaces m) = mo_selected m"
  "mo_namespaces (recomputeNamespaces m) \<noteq> []" "mo_procs (recomputeNamespaces m) = mo_procs m"
  by (simp_all add: recomputeNamespaces_def Let_def split: option.split)

lemma applyRefresh_ok:
  assumes "permutes_rows (mv_sort en)" "monitor_ok m"
  shows "monitor_ok (fst (applyRefresh en msg m))"
proof (cases "rm_err msg = None")
  case False
  then show ?thesis
    using assms(2) by (auto simp: applyRefresh_def monitor_ok_def chips_ok_def selected_ok_def inWorkflowScope_def)
next
  case True
  define m2 where "m2 = m\<lparr>mo_err := rm_err msg, mo_allProcs := rm_procs msg, mo_workflows := rm_workflows msg,
      mo_wfSelected := max 0 (min (mo_wfSelected m) (int (length (rm_workflows msg)) - 1))\<rparr>"
  define m3 where "m3 = sortProcs (mv_sort en) (Some (selected_id (m\<lparr>mo_err := rm_err msg\<rparr>)))
      (applyNamespaceFilter (recomputeNamespaces m2))"
  define m4 where "m4 = m3\<lparr>mo_updated := mv_now en\<rparr>"
  define m5 where "m5 = (if \<not> inWorkflowScope m4 \<and> int (length (mo_procs m4)) \<le> mo_selected m4
      then m4\<lparr>mo_selected := max 0 (int (length (mo_procs m4)) - 1)\<rparr> else m4)"
  have m1: "mo_wfSelected (m\<lparr>mo_err := rm_err msg\<rparr>) = mo_wfSelected m" by simp
  have r: "fst (applyRefresh en msg m) = m5"
    unfolding applyRefresh_def Let_def m1 m2_def [symmetric] m3_def [symmetric] m4_def [symmetric] m5_def [symmetric]
    by (simp add: True)
  have "0 \<le> mo_selected (recomputeNamespaces m2)"
    using assms(2) by (simp add: m2_def monitor_ok_def selected_ok_def)
  then have "chips_ok (applyNamespaceFilter (recomputeNamespaces m2))"
    "selected_ok (applyNamespaceFilter (recomputeNamespaces m2))"
    using applyNamespaceFilter_ok [of "recomputeNamespaces m2"] by simp_all
  from sortProcs_ok [OF assms(1) this] have "chips_ok m3" "selected_ok m3" unfolding m3_def by blast+
  then have m4: "chips_ok m4" "selected_ok m4" by (simp_all add: m4_def chips_ok_def selected_ok_def inWorkflowScope_def)
  have "mo_wfSelected m4 = max 0 (min (mo_wfSelected m) (int (length (rm_workflows msg)) - 1))"
    "mo_workflows m4 = rm_workflows msg" by (simp_all add: m4_def m3_def m2_def)
  then have "monitor_ok m4" using m4 by (simp add: monitor_ok_def) linarith
  then have "monitor_ok m5" by (auto simp: m5_def monitor_ok_def chips_ok_def selected_ok_def inWorkflowScope_def)
  then show ?thesis by (simp add: r)
qed

lemma cycleNamespace_ok:
  assumes "permutes_rows srt" "monitor_ok m"
  shows "monitor_ok (cycleNamespace srt d m)"
proof (cases "mo_namespaces m = []")
  case True
  then show ?thesis using assms(2) by (simp add: cycleNamespace_def)
next
  case False
  define c where "c = go_rem (mo_nsCursor m + d) (int (length (mo_namespaces m)))"
  define m1 where "m1 = m\<lparr>mo_nsCursor := (if c < 0 then c + int (length (mo_namespaces m)) else c)\<rparr>"
  have m1: "mo_selected m1 = mo_selected m" "mo_namespaces m1 = mo_namespaces m" "mo_wfSelected m1 = mo_wfSelected m"
    "mo_workflows m1 = mo_workflows m" by (simp_all add: m1_def)
  have e: "cycleNamespace srt d m = clamp_selected (sortProcs srt None (applyNamespaceFilter m1))"
    unfolding cycleNamespace_def Let_def c_def [symmetric] m1_def [symmetric] using False by (simp only: if_False)
  have "0 \<le> mo_selected m1" "mo_namespaces m1 \<noteq> []" using assms(2) False by (simp_all add: m1 monitor_ok_def selected_ok_def)
  then have "chips_ok (sortProcs srt None (applyNamespaceFilter m1))"
    using applyNamespaceFilter_ok [of m1] sortProcs_ok [OF assms(1)] by blast
  then have "chips_ok (clamp_selected (sortProcs srt None (applyNamespaceFilter m1)))"
    by (subst chips_ok_cong [of _ "sortProcs srt None (applyNamespaceFilter m1)"]) simp_all
  then show ?thesis using assms(2) unfolding e by (simp add: monitor_ok_def m1)
qed

lemma move_row_ok:
  assumes "monitor_ok m" "mo_procs m \<noteq> []" "0 \<le> mo_selected m + d" "mo_selected m + d < int (length (mo_procs m))"
  shows "monitor_ok (fst (move_row d m))"
  using assms by (auto simp: move_row_def Let_def monitor_ok_def chips_ok_def selected_ok_def inWorkflowScope_def)

lemma Monitor_Update_ok:
  assumes "permutes_rows (mv_sort en)" "monitor_ok m"
  shows "monitor_ok (fst (Monitor_Update en msg m))"
proof -
  have frame: "monitor_ok m'" if "mo_procs m' = mo_procs m" "mo_namespaces m' = mo_namespaces m" "mo_nsCursor m' = mo_nsCursor m"
    "mo_selected m' = mo_selected m" "mo_workflows m' = mo_workflows m" "mo_wfSelected m' = mo_wfSelected m" for m'
    using assms(2) that by (simp add: monitor_ok_def chips_ok_def selected_ok_def inWorkflowScope_def)
  show ?thesis
  proof (cases msg)
    case (MonKey key)
    have "monitor_ok (sortProcs (mv_sort en) None (cycleSort m))"
    proof -
      have "monitor_ok (cycleSort m)" by (rule frame) (simp_all add: cycleSort_def)
      then show ?thesis using sortProcs_ok [OF assms(1), of "cycleSort m" None] by (simp add: monitor_ok_def)
    qed
    moreover have "monitor_ok (fst (handleWorkflowKey key m))"
      using assms(2) by (auto simp: handleWorkflowKey_def monitor_ok_def chips_ok_def selected_ok_def inWorkflowScope_def)
    moreover have "monitor_ok (fst (move_row (- 1) m))" if "mo_procs m \<noteq> []" "0 < mo_selected m"
      using that assms(2) by (intro move_row_ok) (auto simp: monitor_ok_def selected_ok_def)
    moreover have "monitor_ok (fst (move_row 1 m))" if "mo_procs m \<noteq> []" "mo_selected m < int (length (mo_procs m)) - 1"
      using that assms(2) by (intro move_row_ok) (auto simp: monitor_ok_def selected_ok_def)
    moreover have "monitor_ok (m\<lparr>mo_logFocus := b\<rparr>)" for b by (rule frame) simp_all
    ultimately show ?thesis
      using assms cycleNamespace_ok [OF assms] by (simp add: MonKey Monitor_Update_def Monitor_handleKey_def)
  next
    case (MonAction r notice)
    have "monitor_ok (m\<lparr>mo_notice := notice\<rparr>)" by (rule frame) simp_all
    then show ?thesis using applyRefresh_ok [OF assms(1)] by (simp add: MonAction Monitor_Update_def)
  next
    case (MonRefresh r)
    then show ?thesis using applyRefresh_ok [OF assms] by (simp add: Monitor_Update_def)
  qed (auto simp: Monitor_Update_def assms(2) intro!: frame)
qed

lemma monitor_ok_New: "monitor_ok (Monitor_New detail)"
  by (simp add: monitor_ok_def chips_ok_def selected_ok_def Monitor_New_def inWorkflowScope_def)

definition monitor_step :: "monitor_env \<times> monitor_msg \<Rightarrow> monitor \<Rightarrow> monitor \<times> monitor_cmd" where
  "monitor_step e m = Monitor_Update (fst e) (snd e) m"

interpretation ml: message_loop monitor_step monitor_ok "\<lambda>e. permutes_rows (mv_sort (fst e))"
  by unfold_locales (simp add: monitor_step_def Monitor_Update_ok)

section \<open>What the keys do\<close>

lemma cycleNamespace_cursor:
  assumes "mo_namespaces m \<noteq> []"
  shows "mo_nsCursor (cycleNamespace srt d m) = (mo_nsCursor m + d) mod int (length (mo_namespaces m))"
proof -
  define n where "n = int (length (mo_namespaces m))"
  define a where "a = mo_nsCursor m + d"
  define c where "c = go_rem a n"
  define m1 where "m1 = m\<lparr>mo_nsCursor := (if c < 0 then c + n else c)\<rparr>"
  have n: "0 < n" using assms by (simp add: n_def)
  have c: "(if c < 0 then c + n else c) = a mod n"
  proof (cases "a < 0")
    case True
    then have "c = - ((- a) mod n)" using n by (simp add: c_def go_rem_def)
    moreover have "a mod n = (if (- a) mod n = 0 then 0 else n - (- a) mod n)"
      using zmod_zminus1_eq_if [of "- a" n] by simp
    moreover have "0 \<le> (- a) mod n" using n by simp
    ultimately show ?thesis by auto
  next
    case False
    then have "c = a mod n" using n by (cases "a = 0") (simp_all add: c_def go_rem_def)
    moreover have "0 \<le> a mod n" using n by simp
    ultimately show ?thesis by simp
  qed
  have "0 \<le> a mod n" "a mod n < n" using n by simp_all
  then have keep: "mo_nsCursor (applyNamespaceFilter m1) = a mod n"
    by (simp add: applyNamespaceFilter_def Let_def m1_def c n_def)
  have "cycleNamespace srt d m = clamp_selected (sortProcs srt None (applyNamespaceFilter m1))"
    unfolding cycleNamespace_def Let_def n_def [symmetric] a_def [symmetric] c_def [symmetric] m1_def [symmetric]
    using assms by (simp only: if_False)
  then show ?thesis using keep by (simp add: a_def n_def)
qed

text \<open>Restart, pause, resume and delete go to the highlighted process, by its ID, and nowhere else.\<close>

theorem action_targets_selected:
  assumes "monitor_ok m" "snd (Monitor_Update en msg m) = MonDo req"
  shows "\<not> inWorkflowScope m \<and> nat (mo_selected m) < length (mo_procs m) \<and>
    rr_Name req = itoa (pi_ID (mo_procs m ! nat (mo_selected m))) \<and>
    (msg = MonKey ''r'' \<and> rr_Command req = CmdRestart \<or>
     msg = MonKey ''p'' \<and> rr_Command req = pauseOrResume (pi_Status (mo_procs m ! nat (mo_selected m))) \<or>
     msg = MonKey ''d'' \<and> rr_Command req = CmdDelete)"
proof -
  have refresh: "snd (applyRefresh en r m') \<noteq> MonDo req" for r m'
    by (simp add: applyRefresh_def Let_def)
  have wf: "snd (handleWorkflowKey key m) \<noteq> MonDo req" for key by (simp add: handleWorkflowKey_def)
  have mv: "snd (move_row d m) \<noteq> MonDo req" for d by (simp add: move_row_def Let_def)
  obtain key where k: "msg = MonKey key" and key: "snd (Monitor_handleKey en key m) = MonDo req"
    using assms(2) refresh by (cases msg) (auto simp: Monitor_Update_def split: if_splits)
  have "\<not> inWorkflowScope m" "mo_procs m \<noteq> []" and req: "MonDo req = action_on CmdRestart m \<and> key = ''r'' \<or>
     MonDo req = action_on (pauseOrResume (pi_Status (mo_procs m ! nat (mo_selected m)))) m \<and> key = ''p'' \<or>
     MonDo req = action_on CmdDelete m \<and> key = ''d''"
    using key wf mv by (auto simp: Monitor_handleKey_def split: if_splits)
  then have "nat (mo_selected m) < length (mo_procs m)"
    using assms(1) by (auto simp: monitor_ok_def selected_ok_def)
  then show ?thesis using req k \<open>\<not> inWorkflowScope m\<close> by (auto simp: action_on_def command_req_def)
qed

text \<open>A process that is listed after a refresh keeps the highlight.\<close>

theorem refresh_keeps_selection:
  assumes "permutes_rows (mv_sort en)" "monitor_ok m" "rm_err msg = None" "selected_id m = i" "i \<noteq> - 1"
    and "\<exists>p \<in> set (mo_procs (fst (applyRefresh en msg m))). pi_ID p = i"
  shows "selected_id (fst (applyRefresh en msg m)) = i"
proof -
  define m2 where "m2 = m\<lparr>mo_err := rm_err msg, mo_allProcs := rm_procs msg, mo_workflows := rm_workflows msg,
      mo_wfSelected := max 0 (min (mo_wfSelected m) (int (length (rm_workflows msg)) - 1))\<rparr>"
  define f where "f = applyNamespaceFilter (recomputeNamespaces m2)"
  define m4 where "m4 = (sortProcs (mv_sort en) (Some i) f)\<lparr>mo_updated := mv_now en\<rparr>"
  define m5 where "m5 = (if \<not> inWorkflowScope m4 \<and> int (length (mo_procs m4)) \<le> mo_selected m4
      then m4\<lparr>mo_selected := max 0 (int (length (mo_procs m4)) - 1)\<rparr> else m4)"
  have m1: "mo_wfSelected (m\<lparr>mo_err := rm_err msg\<rparr>) = mo_wfSelected m" "selected_id (m\<lparr>mo_err := rm_err msg\<rparr>) = i"
    unfolding assms(4) [symmetric] selected_id_def by simp_all
  have r: "fst (applyRefresh en msg m) = m5"
    unfolding applyRefresh_def Let_def m1 m2_def [symmetric] f_def [symmetric] m4_def [symmetric] m5_def [symmetric]
    by (simp add: assms(3))
  have "mo_procs m5 = mo_procs m4" by (simp add: m5_def)
  then obtain p where p: "p \<in> set (mo_procs m4)" "pi_ID p = i" using assms(6) unfolding r by auto
  define ps where "ps = mv_sort en (proc_less (mo_SortBy f)) (mo_procs f)"
  have ne: "mo_procs f \<noteq> []"
    using p(1) sortProcs_empty [OF assms(1), of "Some i" f] by (auto simp: m4_def)
  have srt: "sortProcs (mv_sort en) (Some i) f =
      (case first_index (\<lambda>p. pi_ID p = i) ps of Some k \<Rightarrow> f\<lparr>mo_procs := ps, mo_selected := int k\<rparr> | None \<Rightarrow> f\<lparr>mo_procs := ps\<rparr>)"
    using ne assms(5) unfolding sortProcs_def Let_def ps_def [symmetric] by (simp split: option.split)
  have "mo_procs m4 = ps" using srt by (simp add: m4_def split: option.splits)
  then obtain k where k: "first_index (\<lambda>p. pi_ID p = i) ps = Some k"
    using p first_index_None [of "\<lambda>p. pi_ID p = i" ps] by (cases "first_index (\<lambda>p. pi_ID p = i) ps") auto
  then have "k < length ps" "pi_ID (ps ! k) = i" using first_index_nth by fastforce+
  moreover from k srt have "mo_procs m4 = ps" "mo_selected m4 = int k" by (simp_all add: m4_def)
  ultimately show ?thesis unfolding r by (simp add: m5_def selected_id_def)
qed

text \<open>Visiting the workflow tab forgets the highlighted process.\<close>

theorem workflow_tab_forgets_the_row:
  assumes "permutes_rows srt" "mo_namespaces m \<noteq> []" "inWorkflowScope (cycleNamespace srt d m)"
  shows "mo_procs (cycleNamespace srt d m) = [] \<and> mo_selected (cycleNamespace srt d m) = 0"
proof -
  obtain m1 where e: "cycleNamespace srt d m = clamp_selected (sortProcs srt None (applyNamespaceFilter m1))"
    and ns: "mo_namespaces m1 = mo_namespaces m"
    using assms(2) by (auto simp: cycleNamespace_def Let_def)
  define m2 where
    "m2 = (if mo_nsCursor m1 < 0 \<or> int (length (mo_namespaces m1)) \<le> mo_nsCursor m1 then m1\<lparr>mo_nsCursor := 0\<rparr> else m1)"
  have f: "applyNamespaceFilter m1 =
      (if inWorkflowScope m2 then m2\<lparr>mo_procs := []\<rparr>
       else if mo_namespaces m2 ! nat (mo_nsCursor m2) = ''All'' then clamp_selected (m2\<lparr>mo_procs := mo_allProcs m2\<rparr>)
       else clamp_selected (m2\<lparr>mo_procs := filter (\<lambda>p. chip_of p = mo_namespaces m2 ! nat (mo_nsCursor m2)) (mo_allProcs m2)\<rparr>))"
    using assms(2) ns unfolding applyNamespaceFilter_def Let_def m2_def [symmetric] by (simp only: if_False)
  have same: "inWorkflowScope (m2\<lparr>mo_procs := ps\<rparr>) = inWorkflowScope m2" for ps by (rule inWorkflowScope_cong) simp_all
  have "inWorkflowScope (applyNamespaceFilter m1)" using assms(3) unfolding e by simp
  then have "inWorkflowScope m2" unfolding f using same by (simp split: if_splits)
  then have "mo_procs (applyNamespaceFilter m1) = []" unfolding f by simp
  then show ?thesis unfolding e using sortProcs_empty [OF assms(1), of None "applyNamespaceFilter m1"]
    by (simp add: clamp_selected_def)
qed

end
