(* ===== verification/Tui_Dashboard.thy ===== *)
theory Tui_Dashboard
  imports Tui_Monitor
begin

text \<open>
  \<open>tui/dashboard/\<close>: the activity monitor as a state machine over messages. The two lists are ranked
  anew with every collection; the cursor is anchored to its subject, and a kill is confirmed first.
  \<open>sort.SliceStable\<close> with these orders is a stable sort by a key.
\<close>

section \<open>The model (model.go)\<close>

datatype dash_scope = ScopeTasks | ScopeSystem

datatype dash_sort = DashByCPU | DashByMemory | DashByName

record kill_target =
  kt_system :: bool
  kt_id :: string
  kt_pid :: int
  kt_label :: string

text \<open>The line on the footer; a transport error and the error a daemon answers are one case.\<close>

datatype dash_action =
    NoAction
  | NoProcessSelected
  | NoTaskSelected
  | RefuseSelf
  | RefuseInit
  | TaskNotRunning string
  | StopFailed string
  | StoppedTask string
  | KillFailed int
  | SignalSent string int

record ('h, 's) observation =
  ob_Snapshot :: "('h, 's) snapshot"
  ob_Procs :: "proc list"
  ob_Ports :: "port by_pid"

record ('h, 's) dashboard =
  da_Interval :: duration
  da_observation :: "('h, 's) observation"
  da_ranked :: "proc list"
  da_scope :: dash_scope
  da_sortBy :: dash_sort
  da_selected :: int
  da_width :: int
  da_height :: int
  da_updated :: gotime
  da_notice :: string
  da_anchorPID :: int
  da_anchorTask :: string
  da_confirm :: "kill_target option"
  da_action :: dash_action
  da_actionAt :: gotime

datatype ('h, 's) dash_msg =
    DashWindow int int
  | DashObserved "('h, 's) observation" string
  | DashKillResult dash_action
  | DashTicked
  | DashKey string

datatype dash_cmd = DashNone | DashQuit | DashCollect | DashTick duration | DashKill kill_target

definition DefaultInterval :: duration where "DefaultInterval = 30 * second"

definition MinInterval :: duration where "MinInterval = second"

definition actionTTL :: duration where "actionTTL = 5 * second"

text \<open>The zero value of the observation needs the zero values of the host and of the readings.\<close>

definition Dashboard_New :: "'h \<Rightarrow> 's \<Rightarrow> ('h, 's) dashboard" where
  "Dashboard_New host system =
     \<lparr>da_Interval = DefaultInterval,
      da_observation =
        \<lparr>ob_Snapshot = \<lparr>sp_Host = host, sp_System = system, sp_Processes = \<lparr>pn_Total = 0, pn_Running = 0\<rparr>,
                        sp_Tasks = [], sp_Errors = []\<rparr>,
         ob_Procs = [], ob_Ports = []\<rparr>,
      da_ranked = [], da_scope = ScopeTasks, da_sortBy = DashByCPU, da_selected = 0, da_width = 120,
      da_height = 34, da_updated = zero_time, da_notice = '''', da_anchorPID = 0, da_anchorTask = '''',
      da_confirm = None, da_action = NoAction, da_actionAt = zero_time\<rparr>"

definition Dashboard_Init :: "('h, 's) dashboard \<Rightarrow> dash_cmd" where
  "Dashboard_Init m = DashCollect"

definition dash_tasks :: "('h, 's) dashboard \<Rightarrow> sys_task list" where
  "dash_tasks m = sp_Tasks (ob_Snapshot (da_observation m))"

definition rank_tasks :: "dash_sort \<Rightarrow> sys_task list \<Rightarrow> sys_task list" where
  "rank_tasks s tasks =
     (case s of
        DashByMemory \<Rightarrow> sort_key (\<lambda>t. (- int (unat (sk_TreeMemory t)), sk_Name t)) tasks
      | DashByName \<Rightarrow> sort_key sk_Name tasks
      | DashByCPU \<Rightarrow> sort_key (\<lambda>t. (- sk_TreeCPU t, sk_Name t)) tasks)"

definition rank_procs :: "dash_sort \<Rightarrow> proc list \<Rightarrow> proc list" where
  "rank_procs s procs =
     (case s of
        DashByMemory \<Rightarrow> sort_key (\<lambda>p. (- int (unat (pr_Memory p)), pr_PID p)) procs
      | DashByName \<Rightarrow> sort_key (\<lambda>p. (Executable p, pr_PID p)) procs
      | DashByCPU \<Rightarrow> sort_key (\<lambda>p. (- pr_CPU p, pr_PID p)) procs)"

text \<open>The tasks are sorted in place, the process table in a copy.\<close>

definition applySort :: "('h, 's) dashboard \<Rightarrow> ('h, 's) dashboard" where
  "applySort m =
     (let ob = da_observation m; sn = ob_Snapshot ob in
      m\<lparr>da_observation := ob\<lparr>ob_Snapshot := sn\<lparr>sp_Tasks := rank_tasks (da_sortBy m) (sp_Tasks sn)\<rparr>\<rparr>,
        da_ranked := rank_procs (da_sortBy m) (ob_Procs ob)\<rparr>)"

definition refreshDelay :: "('h, 's) dashboard \<Rightarrow> duration" where
  "refreshDelay m = (if da_Interval m < MinInterval then DefaultInterval else da_Interval m)"

definition rememberSelection :: "('h, 's) dashboard \<Rightarrow> ('h, 's) dashboard" where
  "rememberSelection m =
     (let m1 = m\<lparr>da_anchorPID := 0, da_anchorTask := ''''\<rparr> in
      if da_scope m1 = ScopeSystem
      then (if 0 \<le> da_selected m1 \<and> da_selected m1 < int (length (da_ranked m1))
            then m1\<lparr>da_anchorPID := pr_PID (da_ranked m1 ! nat (da_selected m1))\<rparr> else m1)
      else if 0 \<le> da_selected m1 \<and> da_selected m1 < int (length (dash_tasks m1))
      then m1\<lparr>da_anchorTask := sk_Name (dash_tasks m1 ! nat (da_selected m1))\<rparr> else m1)"

definition rowCount :: "('h, 's) dashboard \<Rightarrow> int" where
  "rowCount m = (if da_scope m = ScopeSystem then int (length (da_ranked m)) else int (length (dash_tasks m)))"

definition clampSelection :: "('h, 's) dashboard \<Rightarrow> ('h, 's) dashboard" where
  "clampSelection m =
     (let m1 = (if rowCount m \<le> da_selected m then m\<lparr>da_selected := max 0 (rowCount m - 1)\<rparr> else m)
      in if da_selected m1 < 0 then m1\<lparr>da_selected := 0\<rparr> else m1)"

definition restoreSelection :: "('h, 's) dashboard \<Rightarrow> ('h, 's) dashboard" where
  "restoreSelection m =
     (let found =
        (if da_scope m = ScopeSystem \<and> da_anchorPID m \<noteq> 0
         then first_index (\<lambda>p. pr_PID p = da_anchorPID m) (da_ranked m)
         else if da_scope m = ScopeTasks \<and> da_anchorTask m \<noteq> ''''
         then first_index (\<lambda>t. sk_Name t = da_anchorTask m) (dash_tasks m)
         else None)
      in case found of Some i \<Rightarrow> m\<lparr>da_selected := int i\<rparr> | None \<Rightarrow> clampSelection m)"

definition expireAction :: "gotime \<Rightarrow> ('h, 's) dashboard \<Rightarrow> ('h, 's) dashboard" where
  "expireAction now m =
     (if da_action m \<noteq> NoAction \<and> nanos now - nanos (da_actionAt m) > actionTTL
      then m\<lparr>da_action := NoAction, da_actionAt := zero_time\<rparr> else m)"

text \<open>What the detail pane shows of the selected row: its processes and its listeners.\<close>

definition dash_detail :: "('h, 's) dashboard \<Rightarrow> (proc list \<times> port list) option" where
  "dash_detail m =
     (if da_scope m = ScopeSystem
      then (if 0 \<le> da_selected m \<and> da_selected m < int (length (da_ranked m))
            then (let p = da_ranked m ! nat (da_selected m);
                      children = Descendants (ob_Procs (da_observation m)) (pr_PID p)
                  in Some (children, collectPorts (ob_Ports (da_observation m)) (pr_PID p) children))
            else None)
      else if 0 \<le> da_selected m \<and> da_selected m < int (length (dash_tasks m))
      then (let t = dash_tasks m ! nat (da_selected m) in Some (sk_Children t, sk_Ports t))
      else None)"

section \<open>The kill (kill.go)\<close>

definition killTargetForSelection :: "int \<Rightarrow> ('h, 's) dashboard \<Rightarrow> dash_action + kill_target" where
  "killTargetForSelection self m =
     (if da_scope m = ScopeSystem
      then (if da_selected m < 0 \<or> int (length (da_ranked m)) \<le> da_selected m then Inl NoProcessSelected
            else (let p = da_ranked m ! nat (da_selected m) in
                  if pr_PID p = self then Inl RefuseSelf
                  else if pr_PID p \<le> 1 then Inl RefuseInit
                  else Inr \<lparr>kt_system = True, kt_id = '''', kt_pid = pr_PID p, kt_label = Executable p\<rparr>))
      else if da_selected m < 0 \<or> int (length (dash_tasks m)) \<le> da_selected m then Inl NoTaskSelected
      else (let t = dash_tasks m ! nat (da_selected m) in
            if sk_PID t = 0 then Inl (TaskNotRunning (sk_Name t))
            else Inr \<lparr>kt_system = False, kt_id = itoa (sk_ID t), kt_pid = sk_PID t, kt_label = sk_Name t\<rparr>))"

text \<open>
  What a confirmed kill does: a task is stopped by the daemon, a process gets one \<open>SIGTERM\<close>. The
  third part is the PID that is signalled, \<open>delivers\<close> whether the system delivers the signal.
\<close>

definition kill_run ::
  "(int \<Rightarrow> bool) \<Rightarrow> cli_env \<Rightarrow> kill_target \<Rightarrow> cli_world \<Rightarrow> dash_action \<times> cli_world \<times> int option" where
  "kill_run delivers en k w =
     (if kt_system k
      then (if delivers (kt_pid k) then SignalSent (kt_label k) (kt_pid k) else KillFailed (kt_pid k), w, Some (kt_pid k))
      else (case SendRequest en ((command_req CmdStop)\<lparr>rr_Name := kt_id k\<rparr>) w of
              (r, w1) \<Rightarrow>
                (case r of
                   None \<Rightarrow> StopFailed (kt_label k)
                 | Some resp \<Rightarrow> if rp_OK resp then StoppedTask (kt_label k) else StopFailed (kt_label k), w1, None)))"

section \<open>Keys (keys.go)\<close>

definition pageStep :: int where "pageStep = 10"

definition otherScope :: "dash_scope \<Rightarrow> dash_scope" where
  "otherScope s = (if s = ScopeTasks then ScopeSystem else ScopeTasks)"

definition dash_cycleSort :: "dash_sort \<Rightarrow> dash_sort" where
  "dash_cycleSort s =
     (case s of DashByCPU \<Rightarrow> DashByMemory | DashByMemory \<Rightarrow> DashByName | DashByName \<Rightarrow> DashByCPU)"

definition dash_move :: "int \<Rightarrow> ('h, 's) dashboard \<Rightarrow> ('h, 's) dashboard" where
  "dash_move delta m = rememberSelection (clampSelection (m\<lparr>da_selected := da_selected m + delta\<rparr>))"

text \<open>\<open>self\<close> is the process of the dashboard, \<open>now\<close> the clock.\<close>

definition Dashboard_handleKey ::
  "int \<Rightarrow> gotime \<Rightarrow> string \<Rightarrow> ('h, 's) dashboard \<Rightarrow> ('h, 's) dashboard \<times> dash_cmd" where
  "Dashboard_handleKey self now key m =
     (if key \<in> {''q'', ''ctrl+c''} then (m, DashQuit)
      else
        (case da_confirm m of
           Some target \<Rightarrow>
             if key \<in> {''y'', ''Y''} then (m\<lparr>da_confirm := None\<rparr>, DashKill target)
             else if key \<in> {''n'', ''N'', ''esc''} then (m\<lparr>da_confirm := None\<rparr>, DashNone)
             else (m, DashNone)
         | None \<Rightarrow>
             if key \<in> {''up'', ''k''} then (dash_move (- 1) m, DashNone)
             else if key \<in> {''down'', ''j''} then (dash_move 1 m, DashNone)
             else if key = ''pgup'' then (dash_move (- pageStep) m, DashNone)
             else if key = ''pgdown'' then (dash_move pageStep m, DashNone)
             else if key \<in> {''home'', ''g''} then (rememberSelection (m\<lparr>da_selected := 0\<rparr>), DashNone)
             else if key \<in> {''end'', ''G''}
             then (rememberSelection (m\<lparr>da_selected := max 0 (rowCount m - 1)\<rparr>), DashNone)
             else if key = ''a''
             then (rememberSelection (m\<lparr>da_scope := otherScope (da_scope m), da_selected := 0\<rparr>), DashNone)
             else if key = ''s''
             then (restoreSelection (applySort (m\<lparr>da_sortBy := dash_cycleSort (da_sortBy m)\<rparr>)), DashNone)
             else if key = ''d''
             then (case killTargetForSelection self m of
                     Inl refusal \<Rightarrow> (m\<lparr>da_action := refusal, da_actionAt := now\<rparr>, DashNone)
                   | Inr target \<Rightarrow> (m\<lparr>da_confirm := Some target\<rparr>, DashNone))
             else (m, DashNone)))"

definition Dashboard_Update ::
  "int \<Rightarrow> gotime \<Rightarrow> ('h, 's) dash_msg \<Rightarrow> ('h, 's) dashboard \<Rightarrow> ('h, 's) dashboard \<times> dash_cmd" where
  "Dashboard_Update self now msg m =
     (case msg of
        DashWindow w h \<Rightarrow> (m\<lparr>da_width := w, da_height := h\<rparr>, DashNone)
      | DashObserved ob notice \<Rightarrow>
          (let m1 = m\<lparr>da_observation := ob, da_updated := now, da_notice := notice\<rparr>;
               m2 = restoreSelection (applySort (expireAction now m1))
           in (m2, DashTick (refreshDelay m2)))
      | DashKillResult notice \<Rightarrow> (m\<lparr>da_action := notice, da_actionAt := now\<rparr>, DashNone)
      | DashTicked \<Rightarrow> (m, DashCollect)
      | DashKey key \<Rightarrow> Dashboard_handleKey self now key m)"

text \<open>The collection (commands.go): without a daemon the tasks are missing and nothing else.\<close>

definition collect_observation ::
  "cli_env \<Rightarrow> (process_info list \<Rightarrow> ('h, 's) observation) \<Rightarrow> cli_world \<Rightarrow> ('h, 's) dash_msg \<times> cli_world" where
  "collect_observation en observe w =
     (case ListProcesses en w of
        (r, w1) \<Rightarrow>
          (let ob = observe (case r of Inl _ \<Rightarrow> [] | Inr managed \<Rightarrow> managed);
               notice = (case r of
                           Inl _ \<Rightarrow> ''daemon unreachable '' @ Dash @ '' showing system only''
                         | Inr _ \<Rightarrow> (case sp_Errors (ob_Snapshot ob) of [] \<Rightarrow> '''' | e # _ \<Rightarrow> e))
           in (DashObserved ob notice, w1)))"

section \<open>The cursor\<close>

definition dash_ok :: "('h, 's) dashboard \<Rightarrow> bool" where
  "dash_ok m \<longleftrightarrow>
     0 \<le> da_selected m \<and> da_selected m < max 1 (rowCount m) \<and>
     mset (da_ranked m) = mset (ob_Procs (da_observation m))"

lemma rank_perm [simp]:
  "mset (rank_procs s ps) = mset ps" "mset (rank_tasks s ts) = mset ts"
  by (cases s; simp add: rank_procs_def rank_tasks_def)+

lemma rememberSelection_simps [simp]:
  "da_selected (rememberSelection m) = da_selected m" "da_ranked (rememberSelection m) = da_ranked m"
  "da_scope (rememberSelection m) = da_scope m" "da_observation (rememberSelection m) = da_observation m"
  "da_confirm (rememberSelection m) = da_confirm m" "rowCount (rememberSelection m) = rowCount m"
  by (simp_all add: rememberSelection_def Let_def rowCount_def dash_tasks_def)

lemma clampSelection_simps [simp]:
  "da_ranked (clampSelection m) = da_ranked m" "da_scope (clampSelection m) = da_scope m"
  "da_observation (clampSelection m) = da_observation m" "da_confirm (clampSelection m) = da_confirm m"
  "rowCount (clampSelection m) = rowCount m"
  by (simp_all add: clampSelection_def Let_def rowCount_def dash_tasks_def)

lemma clampSelection_range:
  "0 \<le> da_selected (clampSelection m) \<and> da_selected (clampSelection m) < max 1 (rowCount m)"
  by (auto simp: clampSelection_def Let_def rowCount_def dash_tasks_def)

lemma applySort_simps [simp]:
  "da_selected (applySort m) = da_selected m" "da_scope (applySort m) = da_scope m" "da_confirm (applySort m) = da_confirm m"
  "da_ranked (applySort m) = rank_procs (da_sortBy m) (ob_Procs (da_observation m))"
  "ob_Procs (da_observation (applySort m)) = ob_Procs (da_observation m)"
  "ob_Ports (da_observation (applySort m)) = ob_Ports (da_observation m)"
  "dash_tasks (applySort m) = rank_tasks (da_sortBy m) (dash_tasks m)"
  "da_anchorPID (applySort m) = da_anchorPID m" "da_anchorTask (applySort m) = da_anchorTask m"
  by (simp_all add: applySort_def Let_def dash_tasks_def)

lemma restoreSelection_simps [simp]:
  "da_ranked (restoreSelection m) = da_ranked m" "da_scope (restoreSelection m) = da_scope m"
  "da_observation (restoreSelection m) = da_observation m" "da_confirm (restoreSelection m) = da_confirm m"
  "rowCount (restoreSelection m) = rowCount m" "dash_tasks (restoreSelection m) = dash_tasks m"
  by (simp_all add: restoreSelection_def Let_def rowCount_def dash_tasks_def split: option.split)

lemma restoreSelection_range:
  "0 \<le> da_selected (restoreSelection m) \<and> da_selected (restoreSelection m) < max 1 (rowCount m)"
proof -
  define found where "found =
        (if da_scope m = ScopeSystem \<and> da_anchorPID m \<noteq> 0
         then first_index (\<lambda>p. pr_PID p = da_anchorPID m) (da_ranked m)
         else if da_scope m = ScopeTasks \<and> da_anchorTask m \<noteq> ''''
         then first_index (\<lambda>t. sk_Name t = da_anchorTask m) (dash_tasks m)
         else None)"
  have e: "restoreSelection m = (case found of Some i \<Rightarrow> m\<lparr>da_selected := int i\<rparr> | None \<Rightarrow> clampSelection m)"
    by (simp add: restoreSelection_def Let_def found_def)
  show ?thesis
  proof (cases found)
    case None
    then show ?thesis using clampSelection_range [of m] by (simp add: e)
  next
    case (Some i)
    then have "int i < rowCount m"
      by (auto simp: found_def rowCount_def split: if_splits dest: first_index_nth)
    then show ?thesis by (simp add: e Some)
  qed
qed

lemma expireAction_simps [simp]:
  "da_selected (expireAction now m) = da_selected m" "da_ranked (expireAction now m) = da_ranked m"
  "da_scope (expireAction now m) = da_scope m" "da_observation (expireAction now m) = da_observation m"
  "da_confirm (expireAction now m) = da_confirm m" "dash_tasks (expireAction now m) = dash_tasks m"
  "da_anchorPID (expireAction now m) = da_anchorPID m" "da_anchorTask (expireAction now m) = da_anchorTask m"
  "da_sortBy (expireAction now m) = da_sortBy m"
  by (simp_all add: expireAction_def dash_tasks_def)

lemma dash_ok_frame:
  assumes "dash_ok m" "da_selected m' = da_selected m" "da_ranked m' = da_ranked m" "da_scope m' = da_scope m"
    "da_observation m' = da_observation m"
  shows "dash_ok m'"
  using assms by (auto simp: dash_ok_def rowCount_def dash_tasks_def)

lemma dash_ok_restore: "dash_ok (restoreSelection (applySort m))"
  using restoreSelection_range [of "applySort m"] by (simp add: dash_ok_def)

lemma dash_ok_move: "dash_ok m \<Longrightarrow> dash_ok (dash_move d m)"
  using clampSelection_range [of "m\<lparr>da_selected := da_selected m + d\<rparr>"] by (simp add: dash_ok_def dash_move_def)

lemma dash_ok_key:
  assumes "dash_ok m"
  shows "dash_ok (fst (Dashboard_handleKey self now key m))"
proof -
  have "dash_ok (rememberSelection (m\<lparr>da_selected := 0\<rparr>))"
    "dash_ok (rememberSelection (m\<lparr>da_selected := max 0 (rowCount m - 1)\<rparr>))"
    "dash_ok (rememberSelection (m\<lparr>da_scope := s, da_selected := 0\<rparr>))" for s
    using assms by (auto simp: dash_ok_def rowCount_def dash_tasks_def max_def)
  moreover have "dash_ok (m\<lparr>da_confirm := c\<rparr>)" "dash_ok (m\<lparr>da_action := a, da_actionAt := t\<rparr>)" for a c t
    by (rule dash_ok_frame [OF assms]; simp)+
  ultimately show ?thesis
    using assms by (simp add: Dashboard_handleKey_def dash_ok_move dash_ok_restore split: option.split sum.split)
qed

lemma dash_ok_Update:
  assumes "dash_ok m"
  shows "dash_ok (fst (Dashboard_Update self now msg m))"
  using dash_ok_key [OF assms] dash_ok_restore
  by (cases msg) (auto simp: Dashboard_Update_def Let_def assms intro: dash_ok_frame [OF assms])

definition dash_step :: "int \<Rightarrow> gotime \<times> ('h, 's) dash_msg \<Rightarrow> ('h, 's) dashboard \<Rightarrow> ('h, 's) dashboard \<times> dash_cmd" where
  "dash_step self e m = Dashboard_Update self (fst e) (snd e) m"

interpretation dl: message_loop "dash_step self" dash_ok "\<lambda>_. True"
  by unfold_locales (simp add: dash_step_def dash_ok_Update)

lemma dash_ok_New: "dash_ok (Dashboard_New h s)"
  by (simp add: dash_ok_def Dashboard_New_def rowCount_def dash_tasks_def)

section \<open>Kills\<close>

text \<open>A target is never the dashboard itself nor a PID the system reserves.\<close>

definition target_ok :: "int \<Rightarrow> kill_target \<Rightarrow> bool" where
  "target_ok self k \<longleftrightarrow> (if kt_system k then 1 < kt_pid k \<and> kt_pid k \<noteq> self else kt_pid k \<noteq> 0)"

definition confirm_ok :: "int \<Rightarrow> ('h, 's) dashboard \<Rightarrow> bool" where
  "confirm_ok self m \<longleftrightarrow> (case da_confirm m of None \<Rightarrow> True | Some k \<Rightarrow> target_ok self k)"

lemma target_ok_selection: "killTargetForSelection self m = Inr k \<Longrightarrow> target_ok self k"
  by (auto simp: killTargetForSelection_def Let_def target_ok_def split: if_splits)

lemma confirm_ok_Update:
  assumes "confirm_ok self m"
  shows "confirm_ok self (fst (Dashboard_Update self now msg m))"
    and "snd (Dashboard_Update self now msg m) = DashKill k \<Longrightarrow>
      da_confirm m = Some k \<and> target_ok self k \<and> (\<exists>key\<in>{''y'', ''Y''}. msg = DashKey key) \<and>
      da_confirm (fst (Dashboard_Update self now msg m)) = None"
proof -
  show "confirm_ok self (fst (Dashboard_Update self now msg m))"
  proof (cases msg)
    case (DashKey key)
    show ?thesis
    proof (cases "da_confirm m")
      case None
      then show ?thesis
        by (auto simp: DashKey Dashboard_Update_def Dashboard_handleKey_def confirm_ok_def dash_move_def
            dest: target_ok_selection split: sum.split)
    next
      case (Some t)
      then show ?thesis using assms by (simp add: DashKey Dashboard_Update_def Dashboard_handleKey_def confirm_ok_def)
    qed
  qed (use assms in \<open>simp_all add: Dashboard_Update_def Let_def confirm_ok_def\<close>)
  assume k: "snd (Dashboard_Update self now msg m) = DashKill k"
  then obtain key where key: "msg = DashKey key"
    by (cases msg) (auto simp: Dashboard_Update_def Let_def)
  show "da_confirm m = Some k \<and> target_ok self k \<and> (\<exists>key\<in>{''y'', ''Y''}. msg = DashKey key) \<and>
      da_confirm (fst (Dashboard_Update self now msg m)) = None"
  proof (cases "da_confirm m")
    case None
    then show ?thesis using k by (auto simp: key Dashboard_Update_def Dashboard_handleKey_def split: if_splits sum.splits)
  next
    case (Some t)
    then show ?thesis using k assms
      by (auto simp: key Dashboard_Update_def Dashboard_handleKey_def confirm_ok_def split: if_splits)
  qed
qed

interpretation cl: message_loop "dash_step self" "confirm_ok self" "\<lambda>_. True"
  by unfold_locales (simp add: dash_step_def confirm_ok_Update(1))

text \<open>Nothing that happens while the prompt is open changes what it asks about, except closing it.\<close>

theorem prompt_keeps_its_target:
  assumes "da_confirm m = Some k"
  shows "da_confirm (fst (Dashboard_Update self now msg m)) = Some k \<or>
    da_confirm (fst (Dashboard_Update self now msg m)) = None \<and>
    (\<exists>key\<in>{''y'', ''Y'', ''n'', ''N'', ''esc''}. msg = DashKey key)"
  using assms by (cases msg) (auto simp: Dashboard_Update_def Dashboard_handleKey_def Let_def)

lemma arms_by_d:
  assumes "da_confirm m \<noteq> Some k" "da_confirm (fst (Dashboard_Update self now msg m)) = Some k"
  shows "msg = DashKey ''d'' \<and> killTargetForSelection self m = Inr k"
proof (cases "da_confirm m")
  case None
  then show ?thesis using assms(2)
    by (cases msg) (auto simp: Dashboard_Update_def Dashboard_handleKey_def Let_def dash_move_def split: if_splits sum.splits)
next
  case (Some k')
  from prompt_keeps_its_target [OF Some, of self now msg] show ?thesis using assms Some by auto
qed

lemma armed_since:
  assumes "j < length es" "da_confirm m = None" "da_confirm (state_at (dash_step self) es m j) = Some k"
  shows "\<exists>i<j. snd (es ! i) = DashKey ''d'' \<and> killTargetForSelection self (state_at (dash_step self) es m i) = Inr k \<and>
    (\<forall>l. i < l \<and> l \<le> j \<longrightarrow> da_confirm (state_at (dash_step self) es m l) = Some k)"
proof -
  let ?f = "state_at (dash_step self) es m"
  have "\<exists>i<j. \<not> da_confirm (?f i) = Some k \<and> (\<forall>l. i < l \<and> l \<le> j \<longrightarrow> da_confirm (?f l) = Some k)"
    by (rule held_since [of "\<lambda>s. da_confirm s = Some k" ?f j]) (use assms in simp_all)
  then obtain i where i: "i < j" "da_confirm (?f i) \<noteq> Some k" "\<forall>l. i < l \<and> l \<le> j \<longrightarrow> da_confirm (?f l) = Some k" by blast
  then have "da_confirm (?f (Suc i)) = Some k" by simp
  then have "da_confirm (fst (Dashboard_Update self (fst (es ! i)) (snd (es ! i)) (?f i))) = Some k"
    using i(1) assms(1) by (simp add: state_at_Suc dash_step_def)
  from arms_by_d [OF i(2) this] i show ?thesis by blast
qed

section \<open>One chain of collections\<close>

definition chain_msg :: "('h, 's) dash_msg \<Rightarrow> nat" where
  "chain_msg msg = (case msg of DashObserved ob n \<Rightarrow> 1 | DashTicked \<Rightarrow> 1 | _ \<Rightarrow> 0)"

definition chain_cmd :: "dash_cmd \<Rightarrow> nat" where
  "chain_cmd cmd = (case cmd of DashCollect \<Rightarrow> 1 | DashTick d \<Rightarrow> 1 | _ \<Rightarrow> 0)"

text \<open>Every message of the chain is answered by one command of the chain, no other message by any.\<close>

theorem one_chain: "chain_cmd (snd (Dashboard_Update self now msg m)) = chain_msg msg"
  by (cases msg)
    (auto simp: Dashboard_Update_def Dashboard_handleKey_def Let_def chain_cmd_def chain_msg_def split: option.split sum.split)

lemma refreshDelay_floor: "MinInterval \<le> refreshDelay m"
  by (simp add: refreshDelay_def MinInterval_def DefaultInterval_def second_def)

section \<open>The anchor\<close>

lemma first_index_first:
  "first_index P xs = Some k \<Longrightarrow> j < k \<Longrightarrow> \<not> P (xs ! j)"
  by (induction xs arbitrary: k j) (auto split: if_splits simp: nth_Cons')

text \<open>A process that is still there after a collection keeps the cursor, however the rows are ranked.\<close>

theorem anchor_follows_process:
  assumes "da_scope m = ScopeSystem" "da_anchorPID m = pid" "pid \<noteq> 0" "\<exists>p \<in> set (ob_Procs ob). pr_PID p = pid"
    and "m' = fst (Dashboard_Update self now (DashObserved ob notice) m)"
  shows "0 \<le> da_selected m' \<and> nat (da_selected m') < length (da_ranked m') \<and> pr_PID (da_ranked m' ! nat (da_selected m')) = pid"
proof -
  define ps where "ps = rank_procs (da_sortBy m) (ob_Procs ob)"
  define m1 where "m1 = applySort (expireAction now (m\<lparr>da_observation := ob, da_updated := now, da_notice := notice\<rparr>))"
  have m1: "da_scope m1 = ScopeSystem" "da_anchorPID m1 = pid" "da_ranked m1 = ps"
    using assms by (simp_all add: m1_def ps_def)
  have "set ps = set (ob_Procs ob)" unfolding ps_def by (metis rank_perm(1) set_mset_mset)
  then obtain k where k: "first_index (\<lambda>p. pr_PID p = pid) ps = Some k"
    using assms(4) first_index_None [of "\<lambda>p. pr_PID p = pid" ps] by (cases "first_index (\<lambda>p. pr_PID p = pid) ps") auto
  have m': "m' = restoreSelection m1" by (simp add: assms(5) Dashboard_Update_def Let_def m1_def)
  have "restoreSelection m1 = m1\<lparr>da_selected := int k\<rparr>" using m1 k assms(3) by (simp add: restoreSelection_def)
  then show ?thesis using first_index_nth [OF k] m1 by (simp add: m')
qed

text \<open>A task is anchored by its name alone: of two tasks of one name the lower one cannot stay selected.\<close>

theorem same_name_steals_the_cursor:
  assumes "da_scope m = ScopeTasks" "da_anchorTask m = nm" "nm \<noteq> ''''"
    and "tasks = rank_tasks (da_sortBy m) (sp_Tasks (ob_Snapshot ob))" "i < j" "j < length tasks"
    and "sk_Name (tasks ! i) = nm" "sk_Name (tasks ! j) = nm"
  shows "da_selected (fst (Dashboard_Update self now (DashObserved ob notice) m)) < int j"
proof -
  define m1 where "m1 = applySort (expireAction now (m\<lparr>da_observation := ob, da_updated := now, da_notice := notice\<rparr>))"
  have m1: "da_scope m1 = ScopeTasks" "da_anchorTask m1 = nm" "dash_tasks m1 = tasks"
    using assms(1,2) by (simp_all add: m1_def)
       (simp add: assms(4) dash_tasks_def)
  obtain k where k: "first_index (\<lambda>t. sk_Name t = nm) tasks = Some k"
    using assms(5-7) first_index_None [of "\<lambda>t. sk_Name t = nm" tasks]
    by (cases "first_index (\<lambda>t. sk_Name t = nm) tasks") (auto dest: bspec [of _ _ "tasks ! i"])
  have "k \<le> i" using first_index_first [OF k, of i] assms(7) by (meson not_le)
  moreover have "fst (Dashboard_Update self now (DashObserved ob notice) m) = restoreSelection m1"
    by (simp add: Dashboard_Update_def Let_def m1_def)
  moreover have "restoreSelection m1 = m1\<lparr>da_selected := int k\<rparr>" using m1 k assms(3) by (simp add: restoreSelection_def)
  ultimately show ?thesis using assms(5) by simp
qed

end
