(* ===== verification/Wizard_Prompt.thy ===== *)
theory Wizard_Prompt
  imports Task_Apply Sys_Process
begin

text \<open>
  The questions of \<open>config/wizard/\<close>: \<open>prompt.go\<close>, \<open>app.go\<close>, \<open>app_options.go\<close>, \<open>name.go\<close>, \<open>workflow.go\<close>,
  \<open>collection.go\<close> and \<open>document.go\<close>. The input is the rest of the bytes, with what comes after the last one;
  what is printed is left out. The random minute of the \<open>r\<close> shortcut is read from the input record.
\<close>

section \<open>The reader\<close>

record wizard_in =
  wi_rest :: string
  wi_eof :: bool
  wi_picks :: "nat \<Rightarrow> int"
  wi_drawn :: nat

datatype wiz_error =
    ReadFailed
  | NoOptions string
  | DefaultOutOfRange string int
  | ChoiceRefused string
  | DefaultNotPositive string int
  | RequiredMissing string

text \<open>A question takes the input and gives an answer or an error, and the rest of the input.\<close>

type_synonym 'a ask = "wizard_in \<Rightarrow> (wiz_error + 'a) \<times> wizard_in"

definition answer :: "'a \<Rightarrow> 'a ask" where
  "answer x r = (Inr x, r)"

definition refuse :: "wiz_error \<Rightarrow> 'a ask" where
  "refuse e r = (Inl e, r)"

definition and_then :: "'a ask \<Rightarrow> ('a \<Rightarrow> 'b ask) \<Rightarrow> 'b ask" where
  "and_then m f r = (case m r of (Inl e, r1) \<Rightarrow> (Inl e, r1) | (Inr x, r1) \<Rightarrow> f x r1)"

text \<open>\<open>ReadString\<close>: the line, whether it ended in a newline, and the rest.\<close>

definition read_string :: "wizard_in \<Rightarrow> (string \<times> bool) \<times> wizard_in" where
  "read_string r =
     (case str_index newline (wi_rest r) of
        Some i \<Rightarrow> ((take (Suc i) (wi_rest r), True), r\<lparr>wi_rest := drop (Suc i) (wi_rest r)\<rparr>)
      | None \<Rightarrow> ((wi_rest r, False), r\<lparr>wi_rest := ''''\<rparr>))"

definition trim_eol :: "string \<Rightarrow> string" where
  "trim_eol s = rev (dropWhile (\<lambda>c. c = CHR 0x0D \<or> c = newline) (rev s))"

section \<open>Prompts (prompt.go)\<close>

definition promptLine :: "string ask" where
  "promptLine r =
     (case read_string r of
        ((line, ended), r1) \<Rightarrow> if \<not> ended \<and> \<not> wi_eof r1 then (Inl ReadFailed, r1) else (Inr (trim_eol line), r1))"

definition promptYesNo :: "bool \<Rightarrow> bool ask" where
  "promptYesNo def =
     and_then promptLine (\<lambda>raw.
       let line = trim_space raw; w = to_lower line in
       answer (if line = '''' then def
               else if w \<in> {''y'', ''yes''} then True
               else if w \<in> {''n'', ''no''} then False
               else def))"

definition maxChoiceAttempts :: nat where "maxChoiceAttempts = 5"

fun choice_loop :: "string \<Rightarrow> int \<Rightarrow> int \<Rightarrow> nat \<Rightarrow> int ask" where
  "choice_loop label n def 0 = refuse (ChoiceRefused label)"
| "choice_loop label n def (Suc k) =
     and_then promptLine (\<lambda>raw.
       if trim_space raw = '''' then answer def
       else (case atoi (trim_space raw) of
               Some c \<Rightarrow> if 1 \<le> c \<and> c \<le> n then answer c else choice_loop label n def k
             | None \<Rightarrow> choice_loop label n def k))"

definition promptChoice :: "string \<Rightarrow> string list \<Rightarrow> int \<Rightarrow> int ask" where
  "promptChoice label options def =
     (if options = [] then refuse (NoOptions label)
      else if def < 1 \<or> int (length options) < def then refuse (DefaultOutOfRange label def)
      else choice_loop label (int (length options)) def maxChoiceAttempts)"

fun int_loop :: "int \<Rightarrow> nat \<Rightarrow> int ask" where
  "int_loop def 0 = answer def"
| "int_loop def (Suc k) =
     and_then promptLine (\<lambda>s.
       if s = '''' then answer def
       else (case atoi (trim_space s) of
               Some n \<Rightarrow> if 0 < n then answer n else int_loop def k
             | None \<Rightarrow> int_loop def k))"

definition promptPositiveInt :: "string \<Rightarrow> int \<Rightarrow> int ask" where
  "promptPositiveInt label def =
     (if def \<le> 0 then refuse (DefaultNotPositive label def) else int_loop def 3)"

definition promptInstances :: "int ask" where
  "promptInstances = promptPositiveInt ''Instances'' DefaultInstances"

lemma promptLine_consumes:
  assumes "promptLine r = (Inr s, r1)" "s \<noteq> ''''"
  shows "length (wi_rest r1) < length (wi_rest r)"
proof (cases "str_index newline (wi_rest r)")
  case None
  then have "r1 = r\<lparr>wi_rest := ''''\<rparr>" "s = trim_eol (wi_rest r)"
    using assms(1) unfolding promptLine_def read_string_def None by (auto split: if_splits)
  then show ?thesis using assms(2) by (auto simp: trim_eol_def)
next
  case (Some i)
  then have r1: "r1 = r\<lparr>wi_rest := drop (Suc i) (wi_rest r)\<rparr>"
    using assms(1) unfolding promptLine_def read_string_def Some by auto
  have "wi_rest r \<noteq> ''''" using Some by (cases "wi_rest r") auto
  then show ?thesis by (simp add: r1)
qed

text \<open>One answer of the form \<open>KEY=VALUE\<close>; any other line is ignored.\<close>

definition env_answer :: "string \<Rightarrow> string gomap \<Rightarrow> string gomap" where
  "env_answer s env =
     (case str_index CHR ''='' s of
        None \<Rightarrow> env
      | Some i \<Rightarrow> if trim_space (take i s) = '''' then env else gm_set (trim_space (take i s)) (drop (Suc i) s) env)"

text \<open>The loop has no bound of its own: it ends because every answer that continues it uses up input.\<close>

function env_loop :: "string gomap \<Rightarrow> string gomap ask" where
  "env_loop env r =
     (case promptLine r of
        (Inl e, r1) \<Rightarrow> (Inl e, r1)
      | (Inr s, r1) \<Rightarrow> if s = '''' then (Inr env, r1) else env_loop (env_answer s env) r1)"
  by pat_completeness auto

termination env_loop
  by (relation "measure (\<lambda>(env, r). length (wi_rest r))") (auto dest!: sym [of "(_, _)"] promptLine_consumes)

definition promptEnvVars :: "string gomap ask" where
  "promptEnvVars = env_loop []"

definition randomCronStartMinute :: int where "randomCronStartMinute = 2 * 60"

definition randomCronEndMinute :: int where "randomCronEndMinute = 8 * 60"

text \<open>The drawn number is in the range \<open>rand.IntN\<close> is asked for.\<close>

definition resolveCronSchedule :: "string \<Rightarrow> string ask" where
  "resolveCronSchedule raw r =
     (let schedule = trim_space raw in
      if to_lower schedule \<noteq> ''r'' then (Inr schedule, r)
      else
        (let minute = randomCronStartMinute +
                      wi_picks r (wi_drawn r) mod (randomCronEndMinute - randomCronStartMinute + 1)
         in (Inr (itoa (minute mod 60) @ '' '' @ itoa (minute div 60) @ '' * * *''), r\<lparr>wi_drawn := Suc (wi_drawn r)\<rparr>)))"

fun duration_loop :: "nat \<Rightarrow> string ask" where
  "duration_loop 0 = answer ''''"
| "duration_loop (Suc k) =
     and_then promptLine (\<lambda>raw.
       let v = trim_space raw in
       if v = '''' then answer ''''
       else (case ParseDuration v of
               Inr d \<Rightarrow> if 0 \<le> d then answer v else duration_loop k
             | Inl _ \<Rightarrow> duration_loop k))"

definition promptDuration :: "string ask" where
  "promptDuration = duration_loop 3"

fun required_loop :: "string \<Rightarrow> nat \<Rightarrow> string ask" where
  "required_loop label 0 = refuse (RequiredMissing label)"
| "required_loop label (Suc k) =
     and_then promptLine (\<lambda>raw.
       if trim_space raw \<noteq> '''' then answer (trim_space raw) else required_loop label k)"

definition promptRequiredLine :: "string \<Rightarrow> string ask" where
  "promptRequiredLine label = required_loop label maxChoiceAttempts"

section \<open>The document (document.go)\<close>

definition TaskKeys :: "os_env \<Rightarrow> ecosystem \<Rightarrow> string list" where
  "TaskKeys os doc =
     map (\<lambda>a. (if ac_Namespace a = '''' then DefaultNamespace else ac_Namespace a) @ '':'' @ ac_Name a)
       (filter (\<lambda>a. ac_Name a \<noteq> '''') (map (AppConfig_Normalize os '''') (ec_Apps doc)))"

definition WorkflowKeys :: "ecosystem \<Rightarrow> string list" where
  "WorkflowKeys doc =
     map (\<lambda>w. (if wc_Category w = '''' then DefaultCategory else wc_Category w) @ '':'' @ wc_Name w)
       (filter (\<lambda>w. wc_Name w \<noteq> '''') (ec_Workflows doc))"

section \<open>An app (app.go, app_options.go, name.go)\<close>

definition namespaceOptions :: "string list" where
  "namespaceOptions = [''Agent'', ''Backup'', ''Local'', ''Service'', ''AutoP'']"

definition defaultName :: string where "defaultName = ''app''"

definition defaultScript :: string where "defaultScript = ''app.js''"

definition DefaultVersion :: string where "DefaultVersion = ''-''"

definition DeriveName :: "string \<Rightarrow> string" where
  "DeriveName script =
     (if script = '''' then defaultName
      else (let base = script_stem script in if base = '''' then defaultName else base))"

definition to_upper_char :: "char \<Rightarrow> char" where
  "to_upper_char c = (if CHR ''a'' \<le> c \<and> c \<le> CHR ''z'' then char_of (of_char c - 32 :: nat) else c)"

text \<open>\<open>strings.ToUpper\<close> on ASCII names.\<close>

definition formatWizardName :: "string \<Rightarrow> string \<Rightarrow> string \<Rightarrow> string" where
  "formatWizardName namespace script name =
     map to_upper_char (trim_space namespace @ '' '' @ DeriveName (trim_space script) @ '' - '' @ trim_space name)"

definition DefaultApp :: "os_env \<Rightarrow> app_config" where
  "DefaultApp os =
     AppConfig_Normalize os ''''
       (empty_app_config
          \<lparr>ac_Script := defaultScript, ac_Name := formatWizardName (hd namespaceOptions) defaultScript defaultName,
           ac_Namespace := hd namespaceOptions, ac_Instances := DefaultInstances, ac_Version := DefaultVersion,
           ac_Optional := True\<rparr>)"

definition or_default :: "string \<Rightarrow> string \<Rightarrow> string" where
  "or_default def s = (if s = '''' then def else s)"

definition promptAdditionalAppOptions :: "app_config \<Rightarrow> app_config ask" where
  "promptAdditionalAppOptions app =
     and_then promptLine (\<lambda>raw.
     and_then (resolveCronSchedule raw) (\<lambda>cronRestart.
     and_then (promptPositiveInt ''Max restarts'' DefaultMaxRestarts) (\<lambda>maxRestarts.
     and_then promptLine (\<lambda>cwd.
       answer (app\<lparr>ac_CronRestart := cronRestart, ac_MaxRestarts := maxRestarts, ac_CWD := trim_space cwd\<rparr>)))))"

definition askOneApp :: "app_config ask" where
  "askOneApp =
     and_then (promptChoice ''Namespace'' namespaceOptions 1) (\<lambda>ns.
     and_then promptLine (\<lambda>name.
     and_then promptLine (\<lambda>script0.
     and_then promptLine (\<lambda>args.
     and_then promptInstances (\<lambda>instances.
     and_then (promptYesNo False) (\<lambda>watch.
     and_then promptEnvVars (\<lambda>env.
     and_then promptLine (\<lambda>raw.
     and_then (resolveCronSchedule raw) (\<lambda>cron.
       let namespace = namespaceOptions ! nat (ns - 1); script = or_default defaultScript script0 in
     and_then (promptAdditionalAppOptions
                 (empty_app_config
                    \<lparr>ac_Namespace := namespace,
                     ac_Name := formatWizardName namespace script (or_default defaultName name),
                     ac_Script := script, ac_Args := str_fields args, ac_Instances := instances, ac_Watch := watch,
                     ac_Env := env, ac_Cron := cron\<rparr>)) (\<lambda>app.
     and_then (promptChoice ''Optional'' [''Yes (registered but paused)'', ''No''] 1) (\<lambda>optional.
       answer (app\<lparr>ac_Optional := (optional = 1), ac_Version := DefaultVersion\<rparr>))))))))))))"

section \<open>A workflow (workflow.go)\<close>

definition promptRef :: "string \<Rightarrow> string list \<Rightarrow> string ask" where
  "promptRef label candidates =
     (if candidates = [] then promptRequiredLine label
      else
        and_then (promptChoice label (candidates @ [''other (type a reference)'']) 1) (\<lambda>choice.
          if choice \<le> int (length candidates) then answer (candidates ! nat (choice - 1))
          else promptRequiredLine (label @ '' reference'')))"

definition empty_stage :: stage where
  "empty_stage =
     \<lparr>sg_Name = '''', sg_Script = '''', sg_Args = [], sg_Task = '''', sg_Workflow = '''', sg_Env = [], sg_CWD = '''',
      sg_Timeout = ''''\<rparr>"

definition askScriptStage :: "stage \<Rightarrow> stage ask" where
  "askScriptStage st =
     and_then (promptRequiredLine ''Script'') (\<lambda>script.
     and_then promptLine (\<lambda>args.
     and_then promptEnvVars (\<lambda>env.
     and_then promptLine (\<lambda>cwd.
       answer (st\<lparr>sg_Script := script, sg_Args := str_fields args, sg_Env := env, sg_CWD := trim_space cwd\<rparr>)))))"

text \<open>The default that the prompt for the name shows is not applied: a blank answer stays blank.\<close>

definition askOneStage :: "os_env \<Rightarrow> ecosystem \<Rightarrow> stage ask" where
  "askOneStage os known =
     and_then (promptChoice ''Stage type'' [''script'', ''task'', ''workflow''] 1) (\<lambda>kind.
     and_then promptLine (\<lambda>name.
       let st = empty_stage\<lparr>sg_Name := trim_space name\<rparr> in
     and_then
       (if kind = 1 then askScriptStage st
        else if kind = 2 then and_then (promptRef ''Task'' (TaskKeys os known)) (\<lambda>t. answer (st\<lparr>sg_Task := t\<rparr>))
        else and_then (promptRef ''Workflow'' (WorkflowKeys known)) (\<lambda>w. answer (st\<lparr>sg_Workflow := w\<rparr>))) (\<lambda>st1.
     and_then promptDuration (\<lambda>timeout.
       answer (st1\<lparr>sg_Timeout := timeout\<rparr>)))))"

section \<open>Collections (collection.go)\<close>

text \<open>
  The loop of apps, workflows and stages: one more item until the user declines, \<open>left\<close> being how many
  are still allowed. An item may look at those before it.
\<close>

fun collect_items :: "('a list \<Rightarrow> 'a ask) \<Rightarrow> nat \<Rightarrow> 'a list \<Rightarrow> 'a list ask" where
  "collect_items item 0 xs = answer xs"
| "collect_items item (Suc left) xs =
     and_then (item xs) (\<lambda>x.
       if left = 0 then answer (xs @ [x])
       else
         and_then (promptYesNo False) (\<lambda>again.
           if again then collect_items item left (xs @ [x]) else answer (xs @ [x])))"

definition maxApps :: nat where "maxApps = 64"

definition maxWorkflows :: nat where "maxWorkflows = 64"

definition maxStages :: nat where "maxStages = 64"

definition collectStages :: "os_env \<Rightarrow> ecosystem \<Rightarrow> stage list ask" where
  "collectStages os known = collect_items (\<lambda>_. askOneStage os known) maxStages []"

definition askOneWorkflow :: "os_env \<Rightarrow> ecosystem \<Rightarrow> wf_config ask" where
  "askOneWorkflow os known =
     and_then promptLine (\<lambda>category.
     and_then promptLine (\<lambda>name.
     and_then promptLine (\<lambda>raw.
     and_then (resolveCronSchedule raw) (\<lambda>cron.
     and_then promptDuration (\<lambda>timeout.
     and_then promptLine (\<lambda>cwd.
     and_then promptEnvVars (\<lambda>env.
     and_then (collectStages os known) (\<lambda>stages.
       answer (zero_config\<lparr>wc_Category := trim_space category, wc_Name := or_default ''workflow'' (trim_space name),
                           wc_Cron := cron, wc_Timeout := timeout, wc_CWD := trim_space cwd, wc_Env := env,
                           wc_Stages := stages\<rparr>)))))))))"

definition collectApps :: "os_env \<Rightarrow> app_config list ask" where
  "collectApps os =
     collect_items (\<lambda>_. and_then askOneApp (\<lambda>app. answer (AppConfig_Normalize os '''' app))) maxApps []"

definition collectWorkflows :: "os_env \<Rightarrow> ecosystem \<Rightarrow> wf_config list ask" where
  "collectWorkflows os doc =
     and_then (promptYesNo False) (\<lambda>add.
       if \<not> add then answer []
       else collect_items (\<lambda>ws. askOneWorkflow os (doc\<lparr>ec_Workflows := ws\<rparr>)) maxWorkflows [])"

definition collectAnswers :: "os_env \<Rightarrow> ecosystem ask" where
  "collectAnswers os =
     and_then (collectApps os) (\<lambda>apps.
     and_then (collectWorkflows os \<lparr>ec_Apps = apps, ec_Workflows = []\<rparr>) (\<lambda>ws.
       answer \<lparr>ec_Apps = apps, ec_Workflows = ws\<rparr>))"

section \<open>What an answer satisfies\<close>

text \<open>\<open>ensures m P\<close>: whatever the input, an answer of \<open>m\<close> satisfies \<open>P\<close>.\<close>

definition ensures :: "'a ask \<Rightarrow> ('a \<Rightarrow> bool) \<Rightarrow> bool" where
  "ensures m P \<longleftrightarrow> (\<forall>r x r1. m r = (Inr x, r1) \<longrightarrow> P x)"

named_theorems ask_rules

lemma ensures_answer [ask_rules]: "P x \<Longrightarrow> ensures (answer x) P"
  by (simp add: ensures_def answer_def)

lemma ensures_refuse [ask_rules]: "ensures (refuse e) P"
  by (simp add: ensures_def refuse_def)

lemma ensures_bind:
  "ensures m P \<Longrightarrow> (\<And>x. P x \<Longrightarrow> ensures (f x) Q) \<Longrightarrow> ensures (and_then m f) Q"
  by (fastforce simp: ensures_def and_then_def split: prod.splits sum.splits)

lemma ensures_any: "ensures m (\<lambda>_. True)"
  by (simp add: ensures_def)

lemma ensures_bind_any [ask_rules]: "(\<And>x. ensures (f x) Q) \<Longrightarrow> ensures (and_then m f) Q"
  by (rule ensures_bind [OF ensures_any])

lemma ensures_if: "(b \<Longrightarrow> ensures m P) \<Longrightarrow> (\<not> b \<Longrightarrow> ensures m' P) \<Longrightarrow> ensures (if b then m else m') P"
  by simp

lemma ensures_mono: "ensures m P \<Longrightarrow> (\<And>x. P x \<Longrightarrow> Q x) \<Longrightarrow> ensures m Q"
  by (simp add: ensures_def)

lemma ensuresD: "ensures m P \<Longrightarrow> m r = (Inr x, r1) \<Longrightarrow> P x"
  unfolding ensures_def by blast

lemma choice_loop_range: "1 \<le> def \<Longrightarrow> def \<le> n \<Longrightarrow> ensures (choice_loop label n def k) (\<lambda>c. 1 \<le> c \<and> c \<le> n)"
  by (induction k) (auto intro!: ask_rules split: option.split)

lemma promptChoice_range: "ensures (promptChoice label options def) (\<lambda>c. 1 \<le> c \<and> c \<le> int (length options))"
  by (auto simp: promptChoice_def intro!: ask_rules choice_loop_range)

lemma promptPositiveInt_pos: "ensures (promptPositiveInt label def) (\<lambda>n. 0 < n)"
proof -
  have "0 < def \<Longrightarrow> ensures (int_loop def k) (\<lambda>n. 0 < n)" for k
    by (induction k) (auto intro!: ask_rules split: option.split)
  then show ?thesis by (auto simp: promptPositiveInt_def intro!: ask_rules)
qed

lemma promptDuration_ok: "ensures promptDuration (\<lambda>s. \<exists>d\<ge>0. parseTimeout s = Inr d)"
proof -
  have blank: "\<exists>d\<ge>0. parseTimeout '''' = Inr d" by (auto simp: parseTimeout_def)
  have given: "\<exists>d\<ge>0. parseTimeout v = Inr d" if "v \<noteq> ''''" "ParseDuration v = Inr d" "0 \<le> d" for v d
    using that by (auto simp: parseTimeout_def)
  have "ensures (duration_loop k) (\<lambda>s. \<exists>d\<ge>0. parseTimeout s = Inr d)" for k
  proof (induction k)
    case (Suc k)
    have "ensures
        (let v = trim_space raw in
         if v = '''' then answer ''''
         else (case ParseDuration v of Inr d \<Rightarrow> if 0 \<le> d then answer v else duration_loop k | Inl _ \<Rightarrow> duration_loop k))
        (\<lambda>s. \<exists>d\<ge>0. parseTimeout s = Inr d)" for raw
      using Suc.IH blank given [of "trim_space raw"]
      by (cases "ParseDuration (trim_space raw)") (simp_all add: Let_def ensures_answer)
    then show ?case by (simp only: duration_loop.simps, rule ensures_bind_any)
  qed (use blank in \<open>simp add: ensures_answer\<close>)
  then show ?thesis by (simp add: promptDuration_def)
qed

lemma promptRequiredLine_nonempty: "ensures (promptRequiredLine label) (\<lambda>s. s \<noteq> '''')"
proof -
  have "ensures (required_loop label k) (\<lambda>s. s \<noteq> '''')" for k
    by (induction k) (auto intro!: ask_rules)
  then show ?thesis by (simp add: promptRequiredLine_def)
qed

lemma promptRef_nonempty: "'''' \<notin> set candidates \<Longrightarrow> ensures (promptRef label candidates) (\<lambda>s. s \<noteq> '''')"
proof (cases "candidates = []")
  case True
  then show ?thesis unfolding promptRef_def by (simp only: if_True simp_thms) (rule promptRequiredLine_nonempty)
next
  case False
  assume c: "'''' \<notin> set candidates"
  let ?pick = "\<lambda>choice :: int. if choice \<le> int (length candidates) then answer (candidates ! nat (choice - 1))
      else promptRequiredLine (label @ '' reference'')"
  have pick: "ensures (?pick choice) (\<lambda>s. s \<noteq> '''')"
    if "1 \<le> choice \<and> choice \<le> int (length (candidates @ [other]))" for choice other
  proof (rule ensures_if)
    assume "choice \<le> int (length candidates)"
    then have "candidates ! nat (choice - 1) \<in> set candidates" using that by (intro nth_mem) linarith
    then have "candidates ! nat (choice - 1) \<noteq> ''''" using c by auto
    then show "ensures (answer (candidates ! nat (choice - 1))) (\<lambda>s. s \<noteq> '''')" by (rule ensures_answer)
  qed (rule promptRequiredLine_nonempty)
  show ?thesis unfolding promptRef_def if_not_P [OF False]
    by (rule ensures_bind [OF promptChoice_range]) (rule pick)
qed

text \<open>The shortcut \<open>r\<close> draws a time from 02:00 to 08:00.\<close>

lemma cron_shortcut_window:
  "\<exists>m h. 0 \<le> m \<and> m < 60 \<and> 2 \<le> h \<and> h \<le> 8 \<and> (h = 8 \<longrightarrow> m = 0) \<and>
    fst (resolveCronSchedule ''r'' r) = Inr (itoa m @ '' '' @ itoa h @ '' * * *'')"
proof -
  define t where "t = 120 + wi_picks r (wi_drawn r) mod 361"
  have "0 \<le> wi_picks r (wi_drawn r) mod 361" "wi_picks r (wi_drawn r) mod 361 < 361"
    by (rule pos_mod_sign, simp, rule pos_mod_bound, simp)
  then have t: "120 \<le> t" "t \<le> 480" by (simp_all add: t_def)
  define m h where "m = t mod 60" and "h = t div 60"
  have mh: "t = 60 * h + m" "0 \<le> m" "m < 60" by (simp_all add: m_def h_def)
  have r: "2 \<le> h \<and> h \<le> 8 \<and> (h = 8 \<longrightarrow> m = 0)" using t mh by linarith
  have "to_lower (trim_space ''r'') = ''r''" by code_simp
  then have "fst (resolveCronSchedule ''r'' r) = Inr (itoa m @ '' '' @ itoa h @ '' * * *'')"
    by (simp add: resolveCronSchedule_def Let_def m_def h_def t_def randomCronStartMinute_def randomCronEndMinute_def)
  with r mh(2,3) show ?thesis by blast
qed

lemma TaskKeys_nonempty: "'''' \<notin> set (TaskKeys os doc)"
  by (auto simp: TaskKeys_def)

lemma WorkflowKeys_nonempty: "'''' \<notin> set (WorkflowKeys doc)"
  by (auto simp: WorkflowKeys_def)

text \<open>Every collected stage has one form, no field that form ignores and a usable timeout.\<close>

lemma askScriptStage_ok:
  "sg_Task st = '''' \<Longrightarrow> sg_Workflow st = '''' \<Longrightarrow>
   ensures (askScriptStage st) (\<lambda>s. sg_Script s \<noteq> '''' \<and> sg_Task s = '''' \<and> sg_Workflow s = '''')"
  unfolding askScriptStage_def
  by (rule ensures_bind [OF promptRequiredLine_nonempty]) (auto intro!: ask_rules)

definition one_form :: "stage \<Rightarrow> bool" where
  "one_form s \<longleftrightarrow> Stage_Kind s \<noteq> None \<and> (Stage_Kind s \<noteq> Some StageScript \<longrightarrow> sg_Args s = [] \<and> sg_Env s = [])"

lemma Stage_Kind_timeout [simp]: "Stage_Kind (s\<lparr>sg_Timeout := t\<rparr>) = Stage_Kind s"
  by (simp add: Stage_Kind_def)

lemma askOneStage_ok: "ensures (askOneStage os known) stage_ok"
proof -
  have form: "ensures
       (if kind = (1 :: int) then askScriptStage st
        else if kind = 2 then and_then (promptRef ''Task'' (TaskKeys os known)) (\<lambda>t. answer (st\<lparr>sg_Task := t\<rparr>))
        else and_then (promptRef ''Workflow'' (WorkflowKeys known)) (\<lambda>w. answer (st\<lparr>sg_Workflow := w\<rparr>))) one_form"
    if "st = empty_stage\<lparr>sg_Name := n\<rparr>" for kind st n
  proof (intro ensures_if)
    show "ensures (askScriptStage st) one_form"
      by (rule ensures_mono [OF askScriptStage_ok]) (auto simp: that empty_stage_def one_form_def Stage_Kind_def)
    show "ensures (and_then (promptRef ''Task'' (TaskKeys os known)) (\<lambda>t. answer (st\<lparr>sg_Task := t\<rparr>))) one_form"
      by (rule ensures_bind [OF promptRef_nonempty [OF TaskKeys_nonempty]])
        (auto intro!: ask_rules simp: that empty_stage_def one_form_def Stage_Kind_def)
    show "ensures (and_then (promptRef ''Workflow'' (WorkflowKeys known)) (\<lambda>w. answer (st\<lparr>sg_Workflow := w\<rparr>))) one_form"
      by (rule ensures_bind [OF promptRef_nonempty [OF WorkflowKeys_nonempty]])
        (auto intro!: ask_rules simp: that empty_stage_def one_form_def Stage_Kind_def)
  qed
  have timed: "ensures (and_then promptDuration (\<lambda>t. answer (s\<lparr>sg_Timeout := t\<rparr>))) stage_ok" if "one_form s" for s
  proof (rule ensures_bind [OF promptDuration_ok], rule ensures_answer)
    fix t assume "\<exists>d\<ge>0. parseTimeout t = Inr d"
    then show "stage_ok (s\<lparr>sg_Timeout := t\<rparr>)" using that
      by (simp add: stage_ok_def one_form_def)
  qed
  show ?thesis unfolding askOneStage_def Let_def
    by (rule ensures_bind_any, rule ensures_bind_any, rule ensures_bind [OF form], rule refl, rule timed)
qed

lemma collect_items_all:
  assumes "\<And>xs. ensures (item xs) P" "0 < n" "list_all P acc"
  shows "ensures (collect_items item n acc) (\<lambda>xs. xs \<noteq> [] \<and> list_all P xs \<and> length xs \<le> length acc + n)"
  using assms(2,3)
proof (induction n arbitrary: acc)
  case (Suc left)
  have "ensures (collect_items item left (acc @ [x]))
      (\<lambda>xs. xs \<noteq> [] \<and> list_all P xs \<and> length xs \<le> length acc + Suc left)" if "P x" "left \<noteq> 0" for x
    using Suc.IH [of "acc @ [x]"] that Suc.prems(2) by (auto intro: ensures_mono)
  then show ?case using Suc.prems(2)
    by (simp, intro ensures_bind [OF assms(1)]) (auto intro!: ask_rules ensures_if)
qed simp

text \<open>
  A collected workflow is what validation asks for, but for one thing: its stages need not have
  distinct names, because blank ones are all alike.
\<close>

theorem collected_workflow_ok:
  assumes "askOneWorkflow os known r = (Inr w, r1)"
  shows "Config_Validate w = Inr () \<longleftrightarrow> distinct (map sg_Name (wc_Stages w))"
proof -
  let ?P = "\<lambda>w. wc_Name w \<noteq> '''' \<and> wc_Stages w \<noteq> [] \<and> (\<exists>d\<ge>0. parseTimeout (wc_Timeout w) = Inr d) \<and>
    list_all stage_ok (wc_Stages w)"
  have stages: "ensures (collectStages os known) (\<lambda>sts. sts \<noteq> [] \<and> list_all stage_ok sts)"
    using collect_items_all [of "\<lambda>_. askOneStage os known" stage_ok maxStages "[]"] askOneStage_ok
    by (auto simp: collectStages_def maxStages_def intro: ensures_mono)
  have "ensures (askOneWorkflow os known) ?P"
    unfolding askOneWorkflow_def
    by (rule ensures_bind_any, rule ensures_bind_any, rule ensures_bind_any, rule ensures_bind_any,
        rule ensures_bind [OF promptDuration_ok], rule ensures_bind_any, rule ensures_bind_any,
        rule ensures_bind [OF stages], rule ensures_answer) (simp add: or_default_def)
  from ensuresD [OF this assms] show ?thesis by (simp add: Config_Validate_ok config_ok_def)
qed

end
