(* ===== verification/Wizard_Write.thy ===== *)
theory Wizard_Write
  imports Wizard_Prompt
begin

text \<open>
  What \<open>config/wizard/\<close> does with the answers: \<open>merge.go\<close>, \<open>validate.go\<close>, \<open>format.go\<close>, the renderers and
  \<open>writer.go\<close>. JSON is a parameter; the JavaScript is rendered byte by byte. \<open>strconv.Quote\<close> on ASCII is
  written out, and \<open>other\<close> is what it makes of a run of other bytes.
\<close>

section \<open>Merging (merge.go)\<close>

record merge_counts =
  mc_apps :: nat
  mc_workflows :: nat

text \<open>The loop over the incoming items: an item with a seen key is skipped and counted.\<close>

fun merge_new :: "('a \<Rightarrow> string) \<Rightarrow> string list \<Rightarrow> 'a list \<Rightarrow> 'a list \<times> nat" where
  "merge_new key seen [] = ([], 0)"
| "merge_new key seen (x # xs) =
     (if key x \<in> set seen then (case merge_new key seen xs of (ys, n) \<Rightarrow> (ys, Suc n))
      else (case merge_new key (key x # seen) xs of (ys, n) \<Rightarrow> (x # ys, n)))"

definition named_apps :: "os_env \<Rightarrow> app_config list \<Rightarrow> app_config list" where
  "named_apps os apps = filter (\<lambda>a. ac_Name a \<noteq> '''') (map (AppConfig_Normalize os '''') apps)"

definition named_workflows :: "os_env \<Rightarrow> wf_config list \<Rightarrow> wf_config list" where
  "named_workflows os ws = filter (\<lambda>w. wc_Name w \<noteq> '''') (map (Config_Normalize os '''') ws)"

definition mergeDocuments :: "os_env \<Rightarrow> ecosystem \<Rightarrow> ecosystem \<Rightarrow> ecosystem \<times> merge_counts" where
  "mergeDocuments os existing incoming =
     (let olda = named_apps os (ec_Apps existing); oldw = named_workflows os (ec_Workflows existing) in
      case merge_new ac_Name (map ac_Name olda) (named_apps os (ec_Apps incoming)) of
        (apps, na) \<Rightarrow>
          (case merge_new Config_Key (map Config_Key oldw) (named_workflows os (ec_Workflows incoming)) of
             (ws, nw) \<Rightarrow>
               (\<lparr>ec_Apps = olda @ apps, ec_Workflows = oldw @ ws\<rparr>, \<lparr>mc_apps = na, mc_workflows = nw\<rparr>)))"

datatype stat_result = StatMissing | StatFound | StatFailed

datatype write_error =
    BadFormat string
  | StatError
  | WouldOverwrite string
  | UnsupportedExisting string
  | ExistingBroken load_error
  | InvalidDocument wf_error
  | NotEncodable
  | ConfirmFailed wiz_error
  | WriteFailed

definition loadExisting :: "load_env \<Rightarrow> (string \<Rightarrow> stat_result) \<Rightarrow> string \<Rightarrow> write_error + ecosystem" where
  "loadExisting en stat path =
     (case stat path of
        StatMissing \<Rightarrow> Inr \<lparr>ec_Apps = [], ec_Workflows = []\<rparr>
      | StatFailed \<Rightarrow> Inl StatError
      | StatFound \<Rightarrow>
          (let ext = to_lower (path_ext path) in
           if ext \<notin> {''.json'', ''.js'', ''.cjs'', ''.mjs''} then Inl (UnsupportedExisting ext)
           else (case Load en path of Inl e \<Rightarrow> Inl (ExistingBroken e) | Inr c \<Rightarrow> Inr c)))"

definition FormatJS :: string where "FormatJS = ''js''"

definition FormatJSON :: string where "FormatJSON = ''json''"

definition detectFormatFromExt :: "string \<Rightarrow> string option" where
  "detectFormatFromExt path =
     (let ext = to_lower (path_ext path) in
      if ext = ''.json'' then Some FormatJSON
      else if ext \<in> {''.js'', ''.cjs'', ''.mjs''} then Some FormatJS
      else None)"

definition normalizeFormat :: "string \<Rightarrow> write_error + string" where
  "normalizeFormat format =
     (let f = (if format = '''' then FormatJS else format)
      in if f \<noteq> FormatJS \<and> f \<noteq> FormatJSON then Inl (BadFormat f) else Inr f)"

definition defaultOutputFor :: "string \<Rightarrow> string" where
  "defaultOutputFor format = (if format = FormatJSON then ''ecosystem.config.json'' else ''ecosystem.config.js'')"

section \<open>Checks (validate.go)\<close>

definition validateDocument :: "ecosystem \<Rightarrow> wf_error + unit" where
  "validateDocument doc = ValidateAll (ec_Workflows doc)"

datatype dangling = DanglingWorkflow wf_ref | DanglingTask string nat string

definition dangling_tasks :: "string list \<Rightarrow> string list \<Rightarrow> wf_config \<Rightarrow> dangling list" where
  "dangling_tasks keys names w =
     map (\<lambda>(i, st). DanglingTask (Config_Key w) (i + 1) (sg_Task st))
       (filter (\<lambda>(i, st). Stage_Kind st = Some StageTask \<and> sg_Task st \<notin> set keys \<and> sg_Task st \<notin> set names)
          (enumerate 0 (wc_Stages w)))"

definition warnDanglingRefs :: "os_env \<Rightarrow> ecosystem \<Rightarrow> dangling list" where
  "warnDanglingRefs os doc =
     (let ws = map (Config_Normalize os '''') (ec_Workflows doc);
          defs = fold (\<lambda>w m. gm_set (Config_Key w) w m) ws [];
          keys = TaskKeys os doc; names = map (\<lambda>k. snd (ParseKey k)) keys
      in map DanglingWorkflow (DanglingRefs defs) @ concat (map (dangling_tasks keys names) ws))"

section \<open>Rendering (render_app.go, render_workflow.go, render_javascript.go)\<close>

record rendered_app =
  ra_Name :: string
  ra_Namespace :: string
  ra_Script :: string
  ra_Args :: "string list"
  ra_Instances :: int
  ra_Env :: "string gomap"
  ra_Cron :: string
  ra_CronRestart :: string
  ra_Watch :: bool
  ra_MaxRestarts :: int
  ra_CWD :: string
  ra_Optional :: bool

definition appForRender :: "os_env \<Rightarrow> app_config \<Rightarrow> rendered_app" where
  "appForRender os a0 =
     (let a = AppConfig_Normalize os '''' a0 in
      \<lparr>ra_Name = ac_Name a, ra_Namespace = ac_Namespace a, ra_Script = ac_Script a, ra_Args = ac_Args a,
       ra_Instances = ac_Instances a, ra_Env = ac_Env a, ra_Cron = ac_Cron a, ra_CronRestart = ac_CronRestart a,
       ra_Watch = ac_Watch a, ra_MaxRestarts = ac_MaxRestarts a, ra_CWD = ac_CWD a, ra_Optional = ac_Optional a\<rparr>)"

text \<open>A rendered stage has the fields of a stage.\<close>

record rendered_workflow =
  rw_Name :: string
  rw_Category :: string
  rw_Cron :: string
  rw_Timeout :: string
  rw_CWD :: string
  rw_Env :: "string gomap"
  rw_Stages :: "stage list"

definition workflowForRender :: "os_env \<Rightarrow> wf_config \<Rightarrow> rendered_workflow" where
  "workflowForRender os w0 =
     (let w = Config_Normalize os '''' w0 in
      \<lparr>rw_Name = wc_Name w, rw_Category = wc_Category w, rw_Cron = wc_Cron w, rw_Timeout = wc_Timeout w,
       rw_CWD = wc_CWD w, rw_Env = wc_Env w,
       rw_Stages = map (\<lambda>st. if sg_CWD st = wc_CWD w then st\<lparr>sg_CWD := ''''\<rparr> else st) (wc_Stages w)\<rparr>)"

definition quote_hex :: "nat \<Rightarrow> char" where
  "quote_hex n = ''0123456789abcdef'' ! n"

definition backslash_char :: char where "backslash_char = char_of (92 :: nat)"

definition dquote :: char where "dquote = char_of (34 :: nat)"

definition code_of :: "char \<Rightarrow> nat" where "code_of c = of_char c"

definition quote_char :: "char \<Rightarrow> string" where
  "quote_char c =
     (let n = code_of c in
      if n = 34 \<or> n = 92 then [backslash_char, c]
      else if 32 \<le> n \<and> n < 127 then [c]
      else if n = 7 then [backslash_char, CHR ''a'']
      else if n = 8 then [backslash_char, CHR ''b'']
      else if n = 12 then [backslash_char, CHR ''f'']
      else if n = 10 then [backslash_char, CHR ''n'']
      else if n = 13 then [backslash_char, CHR ''r'']
      else if n = 9 then [backslash_char, CHR ''t'']
      else if n = 11 then [backslash_char, CHR ''v'']
      else [backslash_char, CHR ''x'', quote_hex (n div 16), quote_hex (n mod 16)])"

definition is_ascii :: "char \<Rightarrow> bool" where "is_ascii c \<longleftrightarrow> code_of c < 128"

function quote_body :: "(string \<Rightarrow> string) \<Rightarrow> string \<Rightarrow> string" where
  "quote_body other [] = []"
| "quote_body other (c # cs) =
     (if is_ascii c then quote_char c @ quote_body other cs
      else other (c # takeWhile (\<lambda>d. \<not> is_ascii d) cs) @ quote_body other (dropWhile (\<lambda>d. \<not> is_ascii d) cs))"
  by pat_completeness auto

termination quote_body
  by (relation "measure (\<lambda>(other, s). length s)") (auto simp: le_imp_less_Suc length_dropWhile_le)

definition strconv_quote :: "(string \<Rightarrow> string) \<Rightarrow> string \<Rightarrow> string" where
  "strconv_quote other s = [dquote] @ quote_body other s @ [dquote]"

definition spaces :: "nat \<Rightarrow> string" where "spaces n = replicate n CHR '' ''"

definition appIndent :: string where "appIndent = spaces 8"

definition fieldIndent :: string where "fieldIndent = spaces 12"

definition stageIndent :: string where "stageIndent = spaces 16"

definition stageField :: string where "stageField = spaces 20"

definition ln :: "string \<Rightarrow> string" where "ln s = s @ [newline]"

definition writeJSArgs :: "(string \<Rightarrow> string) \<Rightarrow> string \<Rightarrow> string list \<Rightarrow> string" where
  "writeJSArgs q indent args =
     (if args = [] then '''' else indent @ ''args: ['' @ str_join '', '' (map q args) @ ln ''],'')"

definition writeJSString :: "(string \<Rightarrow> string) \<Rightarrow> string \<Rightarrow> string \<Rightarrow> string \<Rightarrow> string" where
  "writeJSString q indent key v = (if v \<noteq> '''' then indent @ key @ '': '' @ q v @ ln '','' else '''')"

text \<open>Items on lines of their own, with a comma between them.\<close>

fun js_items :: "string list \<Rightarrow> string" where
  "js_items [] = ''''"
| "js_items [x] = ln x"
| "js_items (x # xs) = x @ ln '','' @ js_items xs"

definition writeJSEnv :: "(string \<Rightarrow> string) \<Rightarrow> string \<Rightarrow> string gomap \<Rightarrow> string" where
  "writeJSEnv q indent env =
     (if env = [] then ''''
      else indent @ ln ''env: {'' @
           js_items (map (\<lambda>k. indent @ ''    '' @ q k @ '': '' @
                              q (case gm_get env k of Some v \<Rightarrow> v | None \<Rightarrow> '''')) (sorted_keys env)) @
           indent @ ln ''},'')"

definition writeAppJS :: "(string \<Rightarrow> string) \<Rightarrow> rendered_app \<Rightarrow> string" where
  "writeAppJS q a =
     appIndent @ ''// '' @ ra_Name a @ '' ('' @ (if ra_Namespace a = '''' then DefaultNamespace else ra_Namespace a) @ ln '')'' @
     appIndent @ ln ''{'' @
     writeJSString q fieldIndent ''name'' (ra_Name a) @
     fieldIndent @ ''script: '' @ q (ra_Script a) @ ln '','' @
     writeJSArgs q fieldIndent (ra_Args a) @
     writeJSString q fieldIndent ''namespace'' (ra_Namespace a) @
     writeJSString q fieldIndent ''cwd'' (ra_CWD a) @
     fieldIndent @ ''instances: '' @ itoa (ra_Instances a) @ ln '','' @
     (if ra_Watch a then fieldIndent @ ln ''watch: true,'' else '''') @
     writeJSEnv q fieldIndent (ra_Env a) @
     writeJSString q fieldIndent ''cron_restart'' (ra_CronRestart a) @
     writeJSString q fieldIndent ''cron'' (ra_Cron a) @
     fieldIndent @ ''max_restarts: '' @ itoa (ra_MaxRestarts a) @ ln '','' @
     (if ra_Optional a then fieldIndent @ ln ''optional: true,'' else '''') @
     appIndent @ ''}''"

definition writeStageJS :: "(string \<Rightarrow> string) \<Rightarrow> stage \<Rightarrow> string" where
  "writeStageJS q st =
     stageIndent @ ln ''{'' @
     writeJSString q stageField ''name'' (sg_Name st) @
     writeJSString q stageField ''script'' (sg_Script st) @
     writeJSArgs q stageField (sg_Args st) @
     writeJSString q stageField ''task'' (sg_Task st) @
     writeJSString q stageField ''workflow'' (sg_Workflow st) @
     writeJSEnv q stageField (sg_Env st) @
     writeJSString q stageField ''cwd'' (sg_CWD st) @
     writeJSString q stageField ''timeout'' (sg_Timeout st) @
     stageIndent @ ''}''"

definition writeWorkflowJS :: "(string \<Rightarrow> string) \<Rightarrow> rendered_workflow \<Rightarrow> string" where
  "writeWorkflowJS q w =
     appIndent @ ''// '' @ rw_Category w @ '':'' @ ln (rw_Name w) @
     appIndent @ ln ''{'' @
     writeJSString q fieldIndent ''name'' (rw_Name w) @
     writeJSString q fieldIndent ''category'' (rw_Category w) @
     writeJSString q fieldIndent ''cron'' (rw_Cron w) @
     writeJSString q fieldIndent ''timeout'' (rw_Timeout w) @
     writeJSString q fieldIndent ''cwd'' (rw_CWD w) @
     writeJSEnv q fieldIndent (rw_Env w) @
     fieldIndent @ ln ''stages: ['' @
     js_items (map (writeStageJS q) (rw_Stages w)) @
     fieldIndent @ ln ''],'' @
     appIndent @ ''}''"

definition renderEcosystemJS :: "os_env \<Rightarrow> (string \<Rightarrow> string) \<Rightarrow> ecosystem \<Rightarrow> string" where
  "renderEcosystemJS os q doc =
     ln ''module.exports = {'' @
     ln ''    apps: ['' @
     js_items (map (\<lambda>a. writeAppJS q (appForRender os a)) (ec_Apps doc)) @
     ln ''    ],'' @
     (if ec_Workflows doc \<noteq> []
      then ln ''    workflows: ['' @
           js_items (map (\<lambda>w. writeWorkflowJS q (workflowForRender os w)) (ec_Workflows doc)) @
           ln ''    ],''
      else '''') @
     ln ''};''"

text \<open>What the wizard asks of its surroundings.\<close>

record wizard_env =
  wz_load :: load_env
  wz_stat :: "string \<Rightarrow> stat_result"
  wz_json :: "rendered_app list \<Rightarrow> rendered_workflow list \<Rightarrow> string option"
  wz_other :: "string \<Rightarrow> string"
  wz_write :: bool

definition renderEcosystem :: "wizard_env \<Rightarrow> ecosystem \<Rightarrow> string \<Rightarrow> string option" where
  "renderEcosystem en doc format =
     (let os = le_os (wz_load en) in
      if format = FormatJSON
      then map_option ln (wz_json en (map (appForRender os) (ec_Apps doc)) (map (workflowForRender os) (ec_Workflows doc)))
      else Some (renderEcosystemJS os (strconv_quote (wz_other en)) doc))"

section \<open>Writing (writer.go, interactive.go, install.go)\<close>

record write_options =
  wo_Output :: string
  wo_Format :: string
  wo_Force :: bool
  wo_NoMerge :: bool

definition writeSummary :: "bool \<Rightarrow> bool \<Rightarrow> ecosystem \<Rightarrow> ecosystem \<Rightarrow> merge_counts \<Rightarrow> string" where
  "writeSummary exists force collected merged counts =
     (let nm = int (length (ec_Apps merged)); nc = int (length (ec_Apps collected)); ka = int (mc_apps counts);
          wm = int (length (ec_Workflows merged)); wc = int (length (ec_Workflows collected)); kw = int (mc_workflows counts);
          apps = itoa nm @ '' app(s)'' @ (if 0 < wm then '' + '' @ itoa wm @ '' workflow(s)'' else '''')
      in if force then ''replace with '' @ apps
         else if exists
         then ''merged '' @ itoa (nm - nc + ka) @ '' existing + '' @ itoa (nc - ka) @ '' new = '' @ itoa nm @
              '' app(s) (skipped '' @ itoa ka @ '' duplicate name(s))'' @
              (if 0 < wm \<or> 0 < wc
               then ''; merged '' @ itoa (wm - wc + kw) @ '' existing + '' @ itoa (wc - kw) @ '' new = '' @ itoa wm @
                    '' workflow(s) (skipped '' @ itoa kw @ '' duplicate key(s))''
               else '''')
         else apps @ '' to write'')"

text \<open>The document that goes to the file, and its format.\<close>

definition document_for ::
  "wizard_env \<Rightarrow> write_options \<Rightarrow> string \<Rightarrow> string \<Rightarrow> ecosystem \<Rightarrow> write_error + ecosystem \<times> string" where
  "document_for en opts format output doc =
     (if wz_stat en output = StatFailed then Inl StatError
      else if wz_stat en output = StatFound \<and> \<not> wo_Force opts
      then (if wo_NoMerge opts then Inl (WouldOverwrite output)
            else (case loadExisting (wz_load en) (wz_stat en) output of
                    Inl e \<Rightarrow> Inl e
                  | Inr existing \<Rightarrow>
                      Inr (fst (mergeDocuments (le_os (wz_load en)) existing doc),
                           case detectFormatFromExt output of Some f \<Rightarrow> f | None \<Rightarrow> format)))
      else Inr (doc, format))"

text \<open>The path and the bytes that are written; \<open>None\<close> if the user declines.\<close>

definition WriteEcosystemFile ::
  "wizard_env \<Rightarrow> bool \<Rightarrow> write_options \<Rightarrow> ecosystem \<Rightarrow> wizard_in \<Rightarrow> write_error + (string \<times> string) option" where
  "WriteEcosystemFile en yesAll opts doc r =
     (case normalizeFormat (wo_Format opts) of
        Inl e \<Rightarrow> Inl e
      | Inr format \<Rightarrow>
          (let output = (if wo_Output opts = '''' then defaultOutputFor format else wo_Output opts) in
           case document_for en opts format output doc of
             Inl e \<Rightarrow> Inl e
           | Inr (toWrite, writeFormat) \<Rightarrow>
               (case validateDocument toWrite of
                  Inl e \<Rightarrow> Inl (InvalidDocument e)
                | Inr _ \<Rightarrow>
                    (case renderEcosystem en toWrite writeFormat of
                       None \<Rightarrow> Inl NotEncodable
                     | Some data \<Rightarrow>
                         (case (if yesAll then Inr True else fst (promptYesNo True r)) of
                            Inl e \<Rightarrow> Inl (ConfirmFailed e)
                          | Inr False \<Rightarrow> Inr None
                          | Inr True \<Rightarrow> if wz_write en then Inr (Some (output, data)) else Inl WriteFailed)))))"

definition RunInteractive ::
  "wizard_env \<Rightarrow> bool \<Rightarrow> write_options \<Rightarrow> wizard_in \<Rightarrow> (wiz_error + write_error) + (string \<times> string) option" where
  "RunInteractive en yesAll opts r =
     (let os = le_os (wz_load en) in
      case (if yesAll then (Inr \<lparr>ec_Apps = [DefaultApp os], ec_Workflows = []\<rparr>, r) else collectAnswers os r) of
        (Inl e, _) \<Rightarrow> Inl (Inl e)
      | (Inr doc, r1) \<Rightarrow>
          (case WriteEcosystemFile en yesAll opts doc r1 of Inl e \<Rightarrow> Inl (Inr e) | Inr w \<Rightarrow> Inr w))"

definition RunInstall ::
  "wizard_env \<Rightarrow> write_options \<Rightarrow> app_config \<Rightarrow> wizard_in \<Rightarrow> write_error + (string \<times> string) option" where
  "RunInstall en opts app r = WriteEcosystemFile en True opts \<lparr>ec_Apps = [app], ec_Workflows = []\<rparr> r"


section \<open>Summaries (collection.go)\<close>

definition bool_word :: "bool \<Rightarrow> string" where
  "bool_word b = (if b then ''true'' else ''false'')"

definition writeAppSummary :: "(string \<Rightarrow> string) \<Rightarrow> nat \<Rightarrow> app_config \<Rightarrow> string" where
  "writeAppSummary q number a =
     ''  -> app #'' @ itoa (int number) @ '': name='' @ ac_Name a @ '' script='' @ ac_Script a @
     '' instances='' @ itoa (ac_Instances a) @ '' namespace='' @ ac_Namespace a @ '' watch='' @ bool_word (ac_Watch a) @
     '' cron='' @ q (ac_Cron a) @ '' cron_restart='' @ q (ac_CronRestart a) @
     '' max_restarts='' @ itoa (ac_MaxRestarts a) @ '' optional='' @ ln (bool_word (ac_Optional a))"

definition stageKindLabel :: "stage \<Rightarrow> string" where
  "stageKindLabel st =
     (case Stage_Kind st of
        Some StageScript \<Rightarrow> ''script'' | Some StageTask \<Rightarrow> ''task'' | Some StageWorkflow \<Rightarrow> ''workflow''
      | None \<Rightarrow> ''invalid'')"

definition stageTarget :: "stage \<Rightarrow> string" where
  "stageTarget st = (if Stage_Kind st = Some StageScript then sg_Script st else Stage_Ref st)"

definition writeWorkflowSummary :: "(string \<Rightarrow> string) \<Rightarrow> nat \<Rightarrow> wf_config \<Rightarrow> string" where
  "writeWorkflowSummary q number w =
     ''  -> workflow #'' @ itoa (int number) @ '': key='' @
     (if wc_Category w = '''' then DefaultCategory else wc_Category w) @ '':'' @ wc_Name w @
     '' stages='' @ itoa (int (length (wc_Stages w))) @ '' cron='' @ q (wc_Cron w) @ '' timeout='' @ ln (q (wc_Timeout w)) @
     concat (map (\<lambda>(i, st). ''     stage '' @ itoa (int i + 1) @ '': name='' @ sg_Name st @ '' kind='' @ stageKindLabel st @
                             '' ref='' @ ln (q (stageTarget st)))
              (enumerate 0 (wc_Stages w)))"

section \<open>What a merge keeps\<close>

lemma merge_new_props:
  "merge_new key seen xs = (ys, n) \<Longrightarrow>
     distinct (map key ys) \<and> set (map key ys) = set (map key xs) - set seen \<and> length ys + n = length xs \<and>
     set ys \<subseteq> set xs"
proof (induction xs arbitrary: seen ys n)
  case (Cons x xs)
  show ?case
  proof (cases "key x \<in> set seen")
    case True
    obtain ys' n' where r: "merge_new key seen xs = (ys', n')" by (metis surj_pair)
    with Cons.prems True have "ys = ys'" "n = Suc n'" by auto
    with Cons.IH [OF r] True show ?thesis by auto
  next
    case False
    obtain ys' n' where r: "merge_new key (key x # seen) xs = (ys', n')" by (metis surj_pair)
    with Cons.prems False have "ys = x # ys'" "n = n'" by auto
    with Cons.IH [OF r] False show ?thesis by auto
  qed
qed simp

lemma mergeDocuments_workflows:
  "ec_Workflows (fst (mergeDocuments os existing incoming)) =
     named_workflows os (ec_Workflows existing) @
     fst (merge_new Config_Key (map Config_Key (named_workflows os (ec_Workflows existing)))
            (named_workflows os (ec_Workflows incoming)))"
  by (simp add: mergeDocuments_def Let_def split: prod.split)

lemma mergeDocuments_apps:
  "ec_Apps (fst (mergeDocuments os existing incoming)) =
     named_apps os (ec_Apps existing) @
     fst (merge_new ac_Name (map ac_Name (named_apps os (ec_Apps existing))) (named_apps os (ec_Apps incoming)))"
  by (simp add: mergeDocuments_def Let_def split: prod.split)

text \<open>Every declaration of the file comes first and in its order; every incoming name is there afterwards.\<close>

theorem merge_keeps_the_file:
  "take (length (named_apps os (ec_Apps existing))) (ec_Apps (fst (mergeDocuments os existing incoming))) =
     named_apps os (ec_Apps existing) \<and>
   take (length (named_workflows os (ec_Workflows existing)))
     (ec_Workflows (fst (mergeDocuments os existing incoming))) = named_workflows os (ec_Workflows existing) \<and>
   set (map ac_Name (ec_Apps (fst (mergeDocuments os existing incoming)))) =
     set (map ac_Name (named_apps os (ec_Apps existing))) \<union> set (map ac_Name (named_apps os (ec_Apps incoming))) \<and>
   set (map Config_Key (ec_Workflows (fst (mergeDocuments os existing incoming)))) =
     set (map Config_Key (named_workflows os (ec_Workflows existing))) \<union>
     set (map Config_Key (named_workflows os (ec_Workflows incoming)))"
proof -
  have keys: "set (map key (fst (merge_new key (map key old) xs))) = set (map key xs) - set (map key old)"
    for key :: "'c \<Rightarrow> string" and old xs
    using merge_new_props [of key "map key old" xs] by (metis prod.collapse)
  show ?thesis
    by (simp only: mergeDocuments_apps mergeDocuments_workflows append_eq_conv_conj map_append set_append keys
        Un_Diff_cancel take_append diff_self_eq_0 take_0 append_Nil2 take_all order_refl simp_thms)
qed

section \<open>Reading the file again\<close>

text \<open>What the rendered fields declare, whatever the format.\<close>

definition declared_app :: "rendered_app \<Rightarrow> app_config" where
  "declared_app a =
     empty_app_config
       \<lparr>ac_Name := ra_Name a, ac_Namespace := ra_Namespace a, ac_Script := ra_Script a, ac_Args := ra_Args a,
        ac_Instances := ra_Instances a, ac_Env := ra_Env a, ac_Cron := ra_Cron a, ac_CronRestart := ra_CronRestart a,
        ac_Watch := ra_Watch a, ac_MaxRestarts := ra_MaxRestarts a, ac_CWD := ra_CWD a, ac_Optional := ra_Optional a\<rparr>"

definition declared_workflow :: "rendered_workflow \<Rightarrow> wf_config" where
  "declared_workflow w =
     zero_config
       \<lparr>wc_Name := rw_Name w, wc_Category := rw_Category w, wc_Cron := rw_Cron w, wc_Timeout := rw_Timeout w,
        wc_CWD := rw_CWD w, wc_Env := rw_Env w, wc_Stages := rw_Stages w\<rparr>"

definition declared :: "os_env \<Rightarrow> ecosystem \<Rightarrow> ecosystem" where
  "declared os doc =
     \<lparr>ec_Apps = map (declared_app \<circ> appForRender os) (ec_Apps doc),
      ec_Workflows = map (declared_workflow \<circ> workflowForRender os) (ec_Workflows doc)\<rparr>"

text \<open>Two workflows that validation and the reference graph cannot tell apart.\<close>

definition same_stage :: "stage \<Rightarrow> stage \<Rightarrow> bool" where
  "same_stage s t \<longleftrightarrow>
     sg_Name s = sg_Name t \<and> Stage_Kind s = Stage_Kind t \<and> sg_Args s = sg_Args t \<and> sg_Env s = sg_Env t \<and>
     sg_Task s = sg_Task t \<and> sg_Workflow s = sg_Workflow t \<and> sg_Timeout s = sg_Timeout t"

definition same_workflow :: "wf_config \<Rightarrow> wf_config \<Rightarrow> bool" where
  "same_workflow a b \<longleftrightarrow>
     wc_Category a = wc_Category b \<and> wc_Name a = wc_Name b \<and> wc_Timeout a = wc_Timeout b \<and>
     wc_Cron a = wc_Cron b \<and> wc_Env a = wc_Env b \<and> list_all2 same_stage (wc_Stages a) (wc_Stages b)"

lemma same_workflow_key: "same_workflow a b \<Longrightarrow> Config_Key a = Config_Key b"
  by (simp add: same_workflow_def Config_Key_def)

lemma same_stages:
  "list_all2 same_stage xs ys \<Longrightarrow> list_all stage_ok xs = list_all stage_ok ys \<and> map sg_Name xs = map sg_Name ys"
  by (induction rule: list_all2_induct) (simp_all add: same_stage_def stage_ok_def)

lemma same_workflow_validate:
  assumes "same_workflow a b" "Config_Validate a = Inr ()"
  shows "Config_Validate b = Inr ()"
proof -
  have "list_all2 same_stage (wc_Stages a) (wc_Stages b)" using assms(1) by (simp add: same_workflow_def)
  from same_stages [OF this] this assms show ?thesis
    by (auto simp: Config_Validate_ok config_ok_def same_workflow_def)
qed

definition same_defs :: "wf_defs \<Rightarrow> wf_defs \<Rightarrow> bool" where
  "same_defs d e \<longleftrightarrow> map fst d = map fst e \<and> (\<forall>k. rel_option same_workflow (gm_get d k) (gm_get e k))"

lemma map_fst_update:
  "map fst d = map fst e \<Longrightarrow> map fst (AList.update k v d) = map fst (AList.update k w e)"
  by (simp add: update_keys)

lemma same_defs_set: "same_defs d e \<Longrightarrow> same_workflow a b \<Longrightarrow> same_defs (gm_set k a d) (gm_set k b e)"
  using map_fst_update [of d e k a b] by (simp add: same_defs_def gm_get_set) (simp add: gm_set_def)

lemma same_validate_set:
  "list_all2 same_workflow as bs \<Longrightarrow> same_defs d e \<Longrightarrow> validate_set d as = Inr d' \<Longrightarrow>
   \<exists>e'. validate_set e bs = Inr e' \<and> same_defs d' e'"
proof (induction arbitrary: d e rule: list_all2_induct)
  case (Cons a as b bs)
  note key = same_workflow_key [OF Cons.hyps(1)]
  have v: "Config_Validate a = Inr ()" and none: "gm_get d (Config_Key a) = None"
    and rest: "validate_set (gm_set (Config_Key a) a d) as = Inr d'"
    using Cons.prems(2) by (auto split: sum.splits option.splits)
  have "gm_get e (Config_Key b) = None"
    using Cons.prems(1) none key by (metis same_defs_def option.rel_sel)
  with Cons.IH [OF same_defs_set [OF Cons.prems(1) Cons.hyps(1)] rest] same_workflow_validate [OF Cons.hyps(1) v] key
  show ?case by simp
qed auto

lemma same_defs_name: "same_defs d e \<Longrightarrow> wc_Name (def_of d k) = wc_Name (def_of e k)"
proof -
  assume "same_defs d e"
  then have "rel_option same_workflow (gm_get d k) (gm_get e k)" by (simp add: same_defs_def)
  then show ?thesis by (cases "gm_get d k"; cases "gm_get e k") (simp_all add: def_of_def same_workflow_def)
qed

lemma same_defs_stages: "same_defs d e \<Longrightarrow> list_all2 same_stage (wc_Stages (def_of d k)) (wc_Stages (def_of e k))"
proof -
  assume "same_defs d e"
  then have "rel_option same_workflow (gm_get d k) (gm_get e k)" by (simp add: same_defs_def)
  then show ?thesis
    by (cases "gm_get d k"; cases "gm_get e k") (simp_all add: def_of_def same_workflow_def zero_config_def)
qed

lemma same_defs_keys: "same_defs d e \<Longrightarrow> gm_keys d = gm_keys e"
  by (simp add: same_defs_def gm_keys_def)

lemma same_defs_resolve:
  assumes "same_defs d e"
  shows "resolve d r = resolve e r"
proof -
  have g: "(gm_get d k \<noteq> None) = (gm_get e k \<noteq> None)" for k
    using assms by (metis same_defs_def option.rel_sel)
  have s: "sorted_keys d = sorted_keys e" by (simp add: sorted_keys_def same_defs_keys [OF assms])
  show ?thesis by (simp only: resolve_def g s same_defs_name [OF assms])
qed

lemma same_succs:
  "list_all2 same_stage xs ys \<Longrightarrow> same_defs d e \<Longrightarrow> succs d xs = succs e ys"
  by (induction rule: list_all2_induct) (simp_all add: succs_Cons same_stage_def same_defs_resolve)

lemma same_defs_acyclic:
  assumes "same_defs d e" "CheckAcyclic d = Inr ()"
  shows "CheckAcyclic e = Inr ()"
proof -
  have "ref_edges d = ref_edges e"
    by (simp add: ref_edges_def same_defs_keys [OF assms(1)] same_succs [OF same_defs_stages [OF assms(1)] assms(1)])
  with assms(2) show ?thesis by (simp add: CheckAcyclic_iff)
qed

lemma same_ValidateAll:
  assumes "list_all2 same_workflow as bs" "ValidateAll as = Inr ()"
  shows "ValidateAll bs = Inr ()"
proof -
  obtain d where d: "validate_set [] as = Inr d" "CheckAcyclic d = Inr ()"
    using assms(2) by (auto simp: ValidateAll_def split: sum.splits)
  have "same_defs [] []" by (simp add: same_defs_def)
  from same_validate_set [OF assms(1) this d(1)] obtain e where "validate_set [] bs = Inr e" "same_defs d e" by blast
  with same_defs_acyclic [OF _ d(2)] show ?thesis by (simp add: ValidateAll_def)
qed

text \<open>A workflow that normalisation has been through.\<close>

definition normal_form :: "wf_config \<Rightarrow> bool" where
  "normal_form w \<longleftrightarrow> wc_Category w \<noteq> '''' \<and> list_all (\<lambda>st. sg_Name st \<noteq> '''') (wc_Stages w)"

lemma normalize_stage_fields:
  "sg_Name (normalize_stage env bd cwd i st) = (if sg_Name st = '''' then ''stage-'' @ itoa (int i + 1) else sg_Name st)"
  "sg_Task (normalize_stage env bd cwd i st) = sg_Task st"
  "sg_Workflow (normalize_stage env bd cwd i st) = sg_Workflow st"
  "sg_Args (normalize_stage env bd cwd i st) = sg_Args st"
  "sg_Env (normalize_stage env bd cwd i st) = sg_Env st"
  "sg_Timeout (normalize_stage env bd cwd i st) = sg_Timeout st"
  by (simp_all add: normalize_stage_def Let_def)

lemma Normalize_fields:
  "wc_Category (Config_Normalize env bd w) = (if wc_Category w = [] then DefaultCategory else wc_Category w)"
  "wc_Name (Config_Normalize env bd w) = wc_Name w"
  "wc_Timeout (Config_Normalize env bd w) = wc_Timeout w"
  "wc_Cron (Config_Normalize env bd w) = wc_Cron w"
  "wc_Env (Config_Normalize env bd w) = wc_Env w"
  "wc_Stages (Config_Normalize env bd w) =
     normalize_stages env bd (if wc_CWD w = [] then bd else wc_CWD w) 0 (wc_Stages w)"
  by (simp_all only: Config_Normalize_def Let_def) simp_all

lemma Normalize_settled: "normal_form (Config_Normalize env bd w)"
proof -
  have "list_all (\<lambda>st. sg_Name st \<noteq> '''') (normalize_stages env bd cwd i sts)" for cwd i sts
    by (induction sts arbitrary: i) (simp_all add: normalize_stage_fields)
  moreover have "(if c = [] then DefaultCategory else c) \<noteq> []" for c by (simp add: DefaultCategory_def)
  ultimately show ?thesis by (simp only: normal_form_def Normalize_fields simp_thms)
qed

lemma normalize_stages_same:
  assumes "\<And>s. os_lookpath env s \<noteq> Some ''''"
  shows "list_all (\<lambda>st. sg_Name st \<noteq> '''') sts \<Longrightarrow> list_all2 same_stage sts (normalize_stages env bd cwd i sts)"
proof (induction sts arbitrary: i)
  case (Cons st sts)
  have "Stage_Kind (normalize_stage env bd cwd i st) = Stage_Kind st" by (rule normalize_stage_kind [OF assms])
  with Cons show ?case
    by (simp only: normalize_stages.simps list_all2_Cons list.pred_inject same_stage_def normalize_stage_fields if_False simp_thms)
qed simp

lemma Normalize_same:
  assumes "\<And>s. os_lookpath env s \<noteq> Some ''''" "normal_form w"
  shows "same_workflow w (Config_Normalize env bd w)"
proof -
  have "list_all2 same_stage (wc_Stages w) (normalize_stages env bd cwd 0 (wc_Stages w))" for cwd
    using assms(2) by (intro normalize_stages_same [OF assms(1)]) (simp add: normal_form_def)
  moreover have "wc_Category w \<noteq> []" using assms(2) by (simp add: normal_form_def)
  ultimately show ?thesis by (simp only: same_workflow_def Normalize_fields if_False simp_thms)
qed

lemma same_stage_trans: "same_stage a b \<Longrightarrow> same_stage b c \<Longrightarrow> same_stage a c"
  by (simp add: same_stage_def)

lemma same_workflow_trans: "same_workflow a b \<Longrightarrow> same_workflow b c \<Longrightarrow> same_workflow a c"
  using list_all2_trans [of same_stage same_stage same_stage "wc_Stages a" "wc_Stages b" "wc_Stages c"]
  by (simp add: same_workflow_def same_stage_trans)

lemma rendered_same: "same_workflow (Config_Normalize os '''' w) (declared_workflow (workflowForRender os w))"
  by (auto simp: same_workflow_def declared_workflow_def workflowForRender_def Let_def zero_config_def list_all2_map2 same_stage_def
      Stage_Kind_def intro!: list.rel_refl_strong)

lemma rendered_settled: "normal_form (declared_workflow (workflowForRender os w))"
  using Normalize_settled [of os "''''" w]
  by (auto simp: normal_form_def declared_workflow_def workflowForRender_def Let_def zero_config_def list_all_iff)

text \<open>A normal_form workflow is read back from the file as itself, but for the paths.\<close>

lemma reread_same:
  assumes "\<And>s. os_lookpath env s \<noteq> Some ''''" "normal_form w"
  shows "same_workflow w ((Config_Normalize env bd (declared_workflow (workflowForRender env w)))\<lparr>wc_ConfigFile := f\<rparr>)"
proof -
  have "same_workflow w (Config_Normalize env '''' w)" by (rule Normalize_same [OF assms])
  from same_workflow_trans [OF this rendered_same]
  have "same_workflow w (declared_workflow (workflowForRender env w))" .
  from same_workflow_trans [OF this Normalize_same [OF assms(1) rendered_settled]]
  have "same_workflow w (Config_Normalize env bd (declared_workflow (workflowForRender env w)))" .
  then show ?thesis by (simp add: same_workflow_def)
qed

text \<open>
  What a merge writes is accepted when the file is applied, with the same apps and the same workflows: the wizard
  validates the merged document, and nothing that validation looks at is changed by rendering and loading.
\<close>

lemma merged_workflows_settled: "list_all normal_form (ec_Workflows (fst (mergeDocuments os existing incoming)))"
proof -
  have named: "list_all normal_form (named_workflows os ws)" for ws
    by (auto simp: named_workflows_def list_all_iff Normalize_settled)
  have "set (fst (merge_new key seen xs)) \<subseteq> set xs" for key :: "wf_config \<Rightarrow> string" and seen xs
    using merge_new_props [of key seen xs] by (metis prod.collapse)
  with named show ?thesis unfolding mergeDocuments_workflows list_all_append
    by (metis list_all_iff subset_code(1))
qed

lemma merged_loads_again:
  assumes "merged = fst (mergeDocuments os existing incoming)" "validateDocument merged = Inr ()"
    and "\<And>s. os_lookpath os s \<noteq> Some ''''"
  shows "\<exists>c. postProcess os path (declared os merged) = Inr c \<and>
    list_all2 same_workflow (ec_Workflows merged) (ec_Workflows c) \<and>
    map ac_Name (ec_Apps c) = map ac_Name (ec_Apps merged)"
proof -
  define rd where "rd w = (Config_Normalize os (path_dir path) (declared_workflow (workflowForRender os w)))\<lparr>wc_ConfigFile := path\<rparr>" for w
  have same: "list_all2 same_workflow (ec_Workflows merged) (map rd (ec_Workflows merged))"
    using merged_workflows_settled [of os existing incoming] reread_same [OF assms(3)]
    by (simp add: assms(1) rd_def list_all2_map2 list_all_iff list.rel_refl_strong)
  from same_ValidateAll [OF this] assms(2) have ok: "ValidateAll (map rd (ec_Workflows merged)) = Inr ()"
    by (simp add: validateDocument_def)
  have named: "ac_Name a \<noteq> ''''" if "a \<in> set (ec_Apps merged)" for a
  proof -
    have "set (fst (merge_new ac_Name seen xs)) \<subseteq> set xs" for seen and xs :: "app_config list"
      using merge_new_props [of ac_Name seen xs] by (metis prod.collapse)
    moreover have "ac_Name x \<noteq> []" if "x \<in> set (named_apps os apps)" for x apps
      using that by (simp add: named_apps_def)
    ultimately show ?thesis using that unfolding assms(1) mergeDocuments_apps by (metis Un_iff set_append subsetD)
  qed
  then have "ac_Name (AppConfig_Normalize os d (declared_app (appForRender os a))) = ac_Name a"
    if "a \<in> set (ec_Apps merged)" for a d
    using that by (simp add: AppConfig_Normalize_def declared_app_def appForRender_def Let_def)
  then show ?thesis using ok same
    by (simp add: postProcess_def declared_def Let_def comp_def flip: rd_def)
qed

text \<open>\<open>reads_as\<close>: the decoder of the format reads the document from the bytes.\<close>

definition reads_as :: "load_env \<Rightarrow> string \<Rightarrow> string \<Rightarrow> ecosystem \<Rightarrow> bool" where
  "reads_as en format data doc \<longleftrightarrow>
     (if format = FormatJSON then le_json en data = Some doc
      else (\<exists>j. le_js en data = JsExports j \<and> le_json en j = Some doc))"

definition after_write :: "load_env \<Rightarrow> string \<Rightarrow> string \<Rightarrow> load_env" where
  "after_write en path data = en\<lparr>le_read := \<lambda>p. if p = path then Some data else le_read en p\<rparr>"

text \<open>Nothing is written that validation refuses, and the path is the one asked for.\<close>

lemma written_document_is_valid:
  assumes "WriteEcosystemFile en yesAll opts doc r = Inr (Some (output, data))"
    and "normalizeFormat (wo_Format opts) = Inr format" "document_for en opts format output doc = Inr (merged, fmt)"
  shows "validateDocument merged = Inr ()" "renderEcosystem en merged fmt = Some data"
proof -
  define out where "out = (if wo_Output opts = '''' then defaultOutputFor format else wo_Output opts)"
  obtain m f where d: "document_for en opts format out doc = Inr (m, f)" and v: "validateDocument m = Inr ()"
    and w: "renderEcosystem en m f = Some data" "output = out"
    using assms(1,2) unfolding WriteEcosystemFile_def out_def [symmetric]
    by (auto simp: Let_def out_def [symmetric] split: sum.splits option.splits if_splits bool.splits prod.splits)
  from d w(2) assms(3) have "m = merged" "f = fmt" by auto
  with v w(1) show "validateDocument merged = Inr ()" "renderEcosystem en merged fmt = Some data" by simp_all
qed

section \<open>Quoting\<close>

text \<open>
  How JavaScript reads the inside of a double-quoted literal (ECMAScript, 12.9.4): the value and what follows the
  closing quote. An escape that stands for nothing else stands for its character.
\<close>

definition js_hex_value :: "char \<Rightarrow> nat option" where
  "js_hex_value c =
     (let n = code_of c in
      if 48 \<le> n \<and> n \<le> 57 then Some (n - 48)
      else if 97 \<le> n \<and> n \<le> 102 then Some (n - 87)
      else if 65 \<le> n \<and> n \<le> 70 then Some (n - 55)
      else None)"

definition js_single_escape :: "char \<Rightarrow> char" where
  "js_single_escape e =
     (if e = CHR ''b'' then char_of (8 :: nat)
      else if e = CHR ''f'' then char_of (12 :: nat)
      else if e = CHR ''n'' then char_of (10 :: nat)
      else if e = CHR ''r'' then char_of (13 :: nat)
      else if e = CHR ''t'' then char_of (9 :: nat)
      else if e = CHR ''v'' then char_of (11 :: nat)
      else e)"

definition js_cons :: "char \<Rightarrow> (string \<times> string) option \<Rightarrow> (string \<times> string) option" where
  "js_cons c = map_option (\<lambda>(s, rest). (c # s, rest))"

fun js_hex :: "char \<Rightarrow> char \<Rightarrow> char option" where
  "js_hex a b = (case (js_hex_value a, js_hex_value b) of (Some x, Some y) \<Rightarrow> Some (char_of (16 * x + y)) | _ \<Rightarrow> None)"

fun js_body :: "string \<Rightarrow> (string \<times> string) option" where
  "js_body [] = None"
| "js_body (c # r) =
     (if c = dquote then Some ([], r)
      else if c = newline \<or> c = CHR 0x0D then None
      else if c \<noteq> backslash_char then js_cons c (js_body r)
      else (case r of
              [] \<Rightarrow> None
            | e # r1 \<Rightarrow>
                if e = CHR ''u'' \<or> is_digit e then None
                else if e \<noteq> CHR ''x'' then js_cons (js_single_escape e) (js_body r1)
                else (case r1 of
                        a # b # r2 \<Rightarrow> (case js_hex a b of None \<Rightarrow> None | Some d \<Rightarrow> js_cons d (js_body r2))
                      | _ \<Rightarrow> None)))"

definition js_literal :: "string \<Rightarrow> (string \<times> string) option" where
  "js_literal s = (case s of [] \<Rightarrow> None | c # r \<Rightarrow> if c = dquote then js_body r else None)"

lemma code_of_inject: "code_of c = code_of d \<longleftrightarrow> c = d"
  by (simp add: code_of_def)

lemma js_hex_value_digit: "n < 16 \<Longrightarrow> js_hex_value (quote_hex n) = Some n"
proof -
  have "list_all (\<lambda>n. js_hex_value (quote_hex n) = Some n) [0..<16]" by code_simp
  then show "n < 16 \<Longrightarrow> js_hex_value (quote_hex n) = Some n" by (simp add: list_all_iff)
qed

lemma code_of_bound: "code_of c < 256"
  by (simp add: code_of_def)

lemma js_body_plain:
  assumes "32 \<le> code_of c" "code_of c \<noteq> 34" "code_of c \<noteq> 92"
  shows "js_body (c # r) = js_cons c (js_body r)"
proof -
  have "c \<noteq> dquote" "c \<noteq> newline" "c \<noteq> CHR 0x0D" "c \<noteq> backslash_char"
    using assms by (auto simp: dquote_def backslash_char_def code_of_def newline_def)
  then show ?thesis by simp
qed

lemma backslash_differs: "backslash_char \<noteq> dquote" "backslash_char \<noteq> newline" "backslash_char \<noteq> CHR 0x0D"
  by code_simp+

lemma js_body_escape:
  assumes "e \<noteq> CHR ''u''" "\<not> is_digit e" "e \<noteq> CHR ''x''"
  shows "js_body (backslash_char # e # r) = js_cons (js_single_escape e) (js_body r)"
  using assms by (simp add: backslash_differs)

lemma js_body_hex:
  assumes "x < 16" "y < 16"
  shows "js_body (backslash_char # CHR ''x'' # quote_hex x # quote_hex y # r) = js_cons (char_of (16 * x + y)) (js_body r)"
  using assms by (simp add: backslash_differs js_hex_value_digit is_digit_def)

text \<open>Reading what \<open>strconv.Quote\<close> makes of one ASCII character gives the character back, the bell apart.\<close>

lemma js_body_quote_char:
  assumes "is_ascii c" "code_of c \<noteq> 7"
  shows "js_body (quote_char c @ r) = js_cons c (js_body r)"
proof -
  let ?n = "code_of c"
  have c: "c = char_of ?n" by (simp add: code_of_def)
  have range: "?n < 127 \<or> ?n = 127" "?n < 32 \<or> 32 \<le> ?n" using assms(1) by (auto simp: is_ascii_def)
  consider "?n = 34 \<or> ?n = 92" | "32 \<le> ?n" "?n < 127" "?n \<noteq> 34" "?n \<noteq> 92"
    | "?n \<in> {8, 9, 10, 11, 12, 13}" | "?n < 32 \<or> ?n = 127" "?n \<notin> {7, 8, 9, 10, 11, 12, 13}"
    using range assms(2) by blast
  then show ?thesis
  proof cases
    case 1
    then have q: "quote_char c = [backslash_char, c]" by (simp add: quote_char_def Let_def)
    have "code_of (CHR 0x22) = 34" "code_of (CHR 0x5C) = 92" by (simp_all add: code_of_def)
    with 1 code_of_inject have "c = CHR 0x22 \<or> c = CHR 0x5C" by metis
    then have "c \<noteq> CHR ''u''" "\<not> is_digit c" "c \<noteq> CHR ''x''" "js_single_escape c = c"
      by (auto simp: is_digit_def js_single_escape_def)
    with q show ?thesis by (simp add: js_body_escape del: js_body.simps)
  next
    case 2
    then have "quote_char c = [c]" by (simp add: quote_char_def Let_def)
    with 2 js_body_plain show ?thesis by (simp del: js_body.simps)
  next
    case 3
    then obtain e where "quote_char c = [backslash_char, e]" "e \<noteq> CHR ''u''" "\<not> is_digit e" "e \<noteq> CHR ''x''"
        "js_single_escape e = c"
      using c by (auto simp: quote_char_def Let_def is_digit_def js_single_escape_def)
    then show ?thesis by (simp add: js_body_escape del: js_body.simps)
  next
    case 4
    then have q: "quote_char c = [backslash_char, CHR ''x'', quote_hex (?n div 16), quote_hex (?n mod 16)]"
      by (auto simp: quote_char_def Let_def)
    have "?n div 16 < 16" "?n mod 16 < 16" using code_of_bound [of c] by simp_all
    from js_body_hex [OF this, of r] q c show ?thesis by (simp del: js_body.simps)
  qed
qed

text \<open>
  The rendered literal of an ASCII string is read as the string. It is not so for the bell: Go writes it \<open>\\a\<close>, which
  JavaScript reads as the letter.
\<close>

theorem js_reads_the_quoted_string:
  "(list_all (\<lambda>c. is_ascii c \<and> code_of c \<noteq> 7) s \<longrightarrow> js_literal (strconv_quote other s @ r) = Some (s, r)) \<and>
   js_literal (strconv_quote other [char_of (7 :: nat)]) = Some (''a'', '''')"
proof
  have "list_all (\<lambda>c. is_ascii c \<and> code_of c \<noteq> 7) s \<Longrightarrow> js_body (quote_body other s @ dquote # r) = Some (s, r)"
  proof (induction s)
    case (Cons c s)
    then show ?case by (simp add: js_body_quote_char js_cons_def del: js_body.simps)
  qed simp
  then show "list_all (\<lambda>c. is_ascii c \<and> code_of c \<noteq> 7) s \<longrightarrow> js_literal (strconv_quote other s @ r) = Some (s, r)"
    by (simp add: js_literal_def strconv_quote_def del: js_body.simps)
  show "js_literal (strconv_quote other [char_of (7 :: nat)]) = Some (''a'', '''')"
    by (simp add: strconv_quote_def is_ascii_def code_of_def quote_char_def js_literal_def) code_simp
qed

section \<open>What a fresh document may be\<close>

text \<open>
  A document that is not merged is validated before it is normalised. Two workflows of one name, one without a category
  and one of the default category, pass; the file that is written for them is refused when it is loaded. Two stages
  without a name are refused although loading would number them.
\<close>

definition plain_stage :: "string \<Rightarrow> string \<Rightarrow> stage" where
  "plain_stage name script = empty_stage\<lparr>sg_Name := name, sg_Script := script\<rparr>"

definition one_stage_workflow :: "string \<Rightarrow> string \<Rightarrow> wf_config" where
  "one_stage_workflow category name =
     zero_config\<lparr>wc_Category := category, wc_Name := name, wc_Stages := [plain_stage ''build'' ''make'']\<rparr>"

definition twice_named :: ecosystem where
  "twice_named =
     \<lparr>ec_Apps = [], ec_Workflows = [one_stage_workflow '''' ''ci'', one_stage_workflow ''default'' ''ci'']\<rparr>"

definition blank_stages :: ecosystem where
  "blank_stages =
     \<lparr>ec_Apps = [],
      ec_Workflows = [zero_config\<lparr>wc_Name := ''ci'', wc_Stages := [plain_stage '''' ''make'', plain_stage '''' ''test'']\<rparr>]\<rparr>"

definition here :: os_env where
  "here = \<lparr>os_exists = \<lambda>_. False, os_lookpath = \<lambda>_. None, os_getwd = Some ''/w''\<rparr>"

lemma fresh_documents_are_not_normalised:
  "validateDocument twice_named = Inr () \<and>
   postProcess here ''/w/eco.js'' (declared here twice_named) =
     Inl (InvalidWorkflows ''eco.js'' (WfDeclaredTwice ''default:ci'' ''/w/eco.js'' ''/w/eco.js'')) \<and>
   validateDocument blank_stages = Inl (WfStageRepeats '':ci'' 2 '''' 1)"
  by code_simp

end
