(* ===== verification/View_Text.thy ===== *)
theory View_Text
  imports Tui_Dashboard Sys_Collector "HOL-Library.Monad_Syntax"
begin

text \<open>
  \<open>tui/views/format.go\<close>: runes, widths and the formatters of the screens. Lip Gloss, which paints, and
  go-runewidth, which measures, are third-party code: \<open>view_env\<close> has what they answer. A style is the
  sequence of settings the code makes before it calls \<open>Render\<close>. \<open>None\<close> is a panic. The clock is read
  once for a frame; a \<open>float64\<close> is a rational number.
\<close>

section \<open>Runes\<close>

type_synonym rune = nat

definition valid_rune :: "rune \<Rightarrow> bool" where
  "valid_rune n \<longleftrightarrow> n \<le> 1114111 \<and> \<not> (55296 \<le> n \<and> n \<le> 57343)"

definition utf8 :: "rune \<Rightarrow> string" where
  "utf8 n =
     map char_of
       (if \<not> valid_rune n then [239, 191, 189]
        else if n < 128 then [n]
        else if n < 2048 then [192 + n div 64, 128 + n mod 64]
        else if n < 65536 then [224 + n div 4096, 128 + n div 64 mod 64, 128 + n mod 64]
        else [240 + n div 262144, 128 + n div 4096 mod 64, 128 + n div 64 mod 64, 128 + n mod 64 :: nat])"

definition text_of :: "rune list \<Rightarrow> string" where
  "text_of rs = concat (map utf8 rs)"

text \<open>The continuation bytes of a sequence; the second byte has bounds of its own.\<close>

definition continues :: "nat \<Rightarrow> nat \<Rightarrow> nat \<Rightarrow> nat list \<Rightarrow> bool" where
  "continues n lo hi bs \<longleftrightarrow>
     n \<le> length bs \<and> lo \<le> bs ! 0 \<and> bs ! 0 \<le> hi \<and> list_all (\<lambda>b. 128 \<le> b \<and> b \<le> 191) (take (n - 1) (tl bs))"

text \<open>\<open>DecodeRune\<close>: the rune and its size; a byte that starts no valid sequence is the rune U+FFFD.\<close>

definition decode_rune :: "nat list \<Rightarrow> rune \<times> nat" where
  "decode_rune bs =
     (let b = hd bs; r = tl bs in
      if b < 128 then (b, 1)
      else if 194 \<le> b \<and> b \<le> 223 \<and> continues 1 128 191 r then ((b - 192) * 64 + (r ! 0 - 128), 2)
      else if 224 \<le> b \<and> b \<le> 239 \<and>
              continues 2 (if b = 224 then 160 else 128) (if b = 237 then 159 else 191) r
      then ((b - 224) * 4096 + (r ! 0 - 128) * 64 + (r ! 1 - 128), 3)
      else if 240 \<le> b \<and> b \<le> 244 \<and>
              continues 3 (if b = 240 then 144 else 128) (if b = 244 then 143 else 191) r
      then ((b - 240) * 262144 + (r ! 0 - 128) * 4096 + (r ! 1 - 128) * 64 + (r ! 2 - 128), 4)
      else (65533, 1))"

function runes_of :: "nat list \<Rightarrow> rune list" where
  "runes_of [] = []"
| "runes_of (b # bs) = fst (decode_rune (b # bs)) # runes_of (drop (snd (decode_rune (b # bs)) - 1) bs)"
  by pat_completeness auto

termination by (relation "measure length") auto

definition runes :: "string \<Rightarrow> rune list" where
  "runes s = runes_of (map of_char s)"

text \<open>The runes the screens print besides ASCII.\<close>

definition ellipsis :: string where "ellipsis = utf8 8230"

section \<open>Styles and the environment\<close>

datatype theme_colour =
    ThOnline | ThStopped | ThErrored | ThWarn | ThCron | ThPath | ThMuted | ThSelBg | ThSelName | ThSelText
  | ThHdrBg | ThBorder | ThText

datatype position = PosLeft | PosCenter | PosRight

record style =
  sl_bold :: bool
  sl_fg :: "theme_colour option"
  sl_bg :: "theme_colour option"
  sl_width :: "int option"
  sl_height :: "int option"
  sl_maxWidth :: "int option"
  sl_maxHeight :: "int option"
  sl_pad :: "(int \<times> int) option"
  sl_align :: "position option"
  sl_alignV :: "position option"

definition NewStyle :: style where
  "NewStyle =
     \<lparr>sl_bold = False, sl_fg = None, sl_bg = None, sl_width = None, sl_height = None, sl_maxWidth = None,
      sl_maxHeight = None, sl_pad = None, sl_align = None, sl_alignV = None\<rparr>"

definition fg :: "theme_colour \<Rightarrow> style \<Rightarrow> style" where "fg c st = st\<lparr>sl_fg := Some c\<rparr>"

definition bg :: "theme_colour \<Rightarrow> style \<Rightarrow> style" where "bg c st = st\<lparr>sl_bg := Some c\<rparr>"

definition bold :: "style \<Rightarrow> style" where "bold st = st\<lparr>sl_bold := True\<rparr>"

definition wide :: "int \<Rightarrow> style \<Rightarrow> style" where "wide w st = st\<lparr>sl_width := Some w\<rparr>"

definition padded :: "int \<Rightarrow> int \<Rightarrow> style \<Rightarrow> style" where "padded v h st = st\<lparr>sl_pad := Some (v, h)\<rparr>"

definition coloured :: "theme_colour \<Rightarrow> style" where "coloured c = fg c NewStyle"

definition row_style :: "int \<Rightarrow> style" where "row_style w = padded 0 1 (wide w NewStyle)"

type_synonym renderer = "style \<Rightarrow> string \<Rightarrow> string"

record view_env =
  vw_now :: gotime
  vw_civil :: "gotime \<Rightarrow> civil"
  vw_cron :: "string \<Rightarrow> gotime \<Rightarrow> gotime option"
  vw_string :: "string \<Rightarrow> int"
  vw_rune :: "rune \<Rightarrow> int"
  vw_upper :: "rune \<Rightarrow> rune"
  vw_render :: renderer
  vw_plain :: renderer
  vw_joinH :: "string list \<Rightarrow> string"
  vw_joinV :: "string list \<Rightarrow> string"
  vw_height :: "string \<Rightarrow> int"
  vw_rand :: "nat \<Rightarrow> rat"

text \<open>\<open>strings.Repeat\<close> panics on a negative count.\<close>

definition str_repeat :: "string \<Rightarrow> int \<Rightarrow> string option" where
  "str_repeat s n = (if n < 0 then None else Some (concat (replicate (nat n) s)))"

definition lines_of :: "string list \<Rightarrow> string" where
  "lines_of ls = str_join [newline] ls"

definition split_lines :: "string \<Rightarrow> string list" where
  "split_lines s = str_split newline s"

text \<open>\<open>xs[:n]\<close> and \<open>xs[i]\<close> panic out of range.\<close>

definition slice_to :: "int \<Rightarrow> 'a list \<Rightarrow> 'a list option" where
  "slice_to n xs = (if n < 0 \<or> int (length xs) < n then None else Some (take (nat n) xs))"

definition index_at :: "'a list \<Rightarrow> int \<Rightarrow> 'a option" where
  "index_at xs i = (if i < 0 \<or> int (length xs) \<le> i then None else Some (xs ! nat i))"

fun map_panic :: "('a \<Rightarrow> 'b option) \<Rightarrow> 'a list \<Rightarrow> 'b list option" where
  "map_panic f [] = Some []"
| "map_panic f (x # xs) = do { y \<leftarrow> f x; ys \<leftarrow> map_panic f xs; Some (y # ys) }"

section \<open>Verbs of fmt\<close>

definition spaces_to :: "nat \<Rightarrow> string \<Rightarrow> string" where
  "spaces_to n s = replicate (n - length (runes s)) CHR '' ''"

text \<open>\<open>%-nv\<close> and \<open>%nv\<close>: the width counts runes.\<close>

definition pad_right :: "nat \<Rightarrow> string \<Rightarrow> string" where
  "pad_right n s = s @ spaces_to n s"

definition pad_left :: "nat \<Rightarrow> string \<Rightarrow> string" where
  "pad_left n s = spaces_to n s @ s"

definition two_digits :: "int \<Rightarrow> string" where
  "two_digits n = (if 0 \<le> n \<and> n < 10 then CHR ''0'' # itoa n else itoa n)"

fun low_digits :: "nat \<Rightarrow> nat \<Rightarrow> string" where
  "low_digits 0 n = ''''"
| "low_digits (Suc k) n = low_digits k (n div 10) @ [digit_char (n mod 10)]"

text \<open>\<open>%.df\<close>: the nearest decimal, ties to even.\<close>

definition fixed :: "nat \<Rightarrow> rat \<Rightarrow> string" where
  "fixed d x =
     (let (a, b) = quotient_of x; n = nat (round_half_even (10 ^ d * \<bar>a\<bar>) b)
      in (if a < 0 then ''-'' else '''') @ itoa (int (n div 10 ^ d)) @
         (if d = 0 then '''' else ''.'' @ low_digits d (n mod 10 ^ d)))"

definition percent_text :: "rat \<Rightarrow> string" where
  "percent_text x = fixed 1 x @ ''%''"

definition trunc_div :: "int \<Rightarrow> int \<Rightarrow> int" where
  "trunc_div a b = sgn a * (\<bar>a\<bar> div b)"

section \<open>Uptime, time and cron\<close>

text \<open>
  \<open>Hours\<close> and its like are floats in Go; only their integer part is used, which is exact for
  spans shorter than \<open>2 ^ 12\<close> hours and off by one nanosecond's rounding at most beyond. \<open>time.Since\<close>
  saturates.
\<close>

definition hours_of :: "duration \<Rightarrow> int" where "hours_of d = trunc_div d (3600 * second)"

definition minutes_of :: "duration \<Rightarrow> int" where "minutes_of d = trunc_div d (60 * second)"

definition seconds_of :: "duration \<Rightarrow> int" where "seconds_of d = trunc_div d second"

definition since :: "view_env \<Rightarrow> gotime \<Rightarrow> duration" where
  "since en t = max (- (2 ^ 63)) (min (2 ^ 63 - 1) (nanos (vw_now en) - nanos t))"

definition shortUptime :: "view_env \<Rightarrow> process_info \<Rightarrow> string" where
  "shortUptime en p =
     (if pi_Status p \<noteq> StatusOnline \<or> is_zero_time (pi_StartedAt p) then Dash
      else
        (let d = since en (pi_StartedAt p); days = trunc_div (hours_of d) 24 in
         if 0 < days then itoa days @ ''d'' @ itoa (go_rem (hours_of d) 24) @ ''h''
         else if 0 < hours_of d then itoa (hours_of d) @ ''h'' @ itoa (go_rem (minutes_of d) 60) @ ''m''
         else itoa (go_rem (minutes_of d) 60) @ ''m'' @ itoa (go_rem (seconds_of d) 60) @ ''s''))"

definition fullUptimeSince :: "view_env \<Rightarrow> gotime \<Rightarrow> string" where
  "fullUptimeSince en started =
     (let d = since en started; days = trunc_div (hours_of d) 24;
          hms = two_digits (go_rem (hours_of d) 24) @ '':'' @ two_digits (go_rem (minutes_of d) 60) @ '':'' @
                two_digits (go_rem (seconds_of d) 60)
      in if 0 < days then itoa days @ '' days  '' @ hms else hms)"

definition fullUptime :: "view_env \<Rightarrow> process_info \<Rightarrow> string" where
  "fullUptime en p =
     (if pi_Status p \<noteq> StatusOnline \<or> is_zero_time (pi_StartedAt p) then Dash
      else fullUptimeSince en (pi_StartedAt p))"

text \<open>The product wraps around at 64 bits.\<close>

definition formatUptimeSeconds :: "int \<Rightarrow> string" where
  "formatUptimeSeconds s =
     (if s \<le> 0 then Dash
      else
        (let d = sint (word_of_int (s * second) :: 64 word) in
         if 24 * 3600 * second \<le> d
         then itoa (trunc_div (hours_of d) 24) @ ''d '' @ itoa (go_rem (hours_of d) 24) @ ''h''
         else if 3600 * second \<le> d then itoa (hours_of d) @ ''h '' @ itoa (go_rem (minutes_of d) 60) @ ''m''
         else itoa (minutes_of d) @ ''m''))"

text \<open>The byte formatter of this package is the one of \<open>process/format.go\<close> once more.\<close>

definition formatBytes :: "64 word \<Rightarrow> string option" where
  "formatBytes w =
     (let b = uint w in
      if b = 0 then Some ''0b''
      else if b < 1024 then Some (itoa b @ ''b'')
      else (let (dv, ex) = bytes_unit (b div 1024) 1024 0
            in if ex < length byte_units
               then Some (fmt_tenths (round_half_even (10 * f64_of_int 11 b) dv) @ byte_units ! ex)
               else None))"

text \<open>The conversion to an unsigned integer, for a rate below $2^{64}$.\<close>

definition formatRate :: "rat \<Rightarrow> string option" where
  "formatRate x = do { b \<leftarrow> formatBytes (word_of_int \<lfloor>max 0 x\<rfloor>); Some (b @ ''/s'') }"

definition clock_text :: "view_env \<Rightarrow> gotime \<Rightarrow> string" where
  "clock_text en t = fmt_clock (vw_civil en t)"

definition stamp_text :: "view_env \<Rightarrow> gotime \<Rightarrow> string" where
  "stamp_text en t = fmt_date (vw_civil en t) @ ''  '' @ clock_text en t"

definition fmtTime :: "view_env \<Rightarrow> gotime \<Rightarrow> string" where
  "fmtTime en t = (if is_zero_time t then Dash else stamp_text en t)"

definition cronExpr :: "string \<Rightarrow> string" where
  "cronExpr expr = (if expr = '''' then Dash else expr)"

definition cronNext :: "view_env \<Rightarrow> string \<Rightarrow> string" where
  "cronNext en expr =
     (if expr = '''' then Dash
      else (case vw_cron en expr (vw_now en) of None \<Rightarrow> ''invalid expression'' | Some t \<Rightarrow> stamp_text en t))"

section \<open>Cropping\<close>

text \<open>The leading runes that fit, up to the first that does not.\<close>

fun fitting :: "(rune \<Rightarrow> int) \<Rightarrow> int \<Rightarrow> rune list \<Rightarrow> rune list" where
  "fitting rw room [] = []"
| "fitting rw room (r # rs) = (if room < rw r then [] else r # fitting rw (room - rw r) rs)"

definition Crop :: "view_env \<Rightarrow> string \<Rightarrow> int \<Rightarrow> string" where
  "Crop en s maxLen =
     (if maxLen \<le> 4 \<or> vw_string en s \<le> maxLen then s
      else ellipsis @ text_of (rev (fitting (vw_rune en) (maxLen - 1) (rev (runes s)))))"

definition CropRight :: "view_env \<Rightarrow> string \<Rightarrow> int \<Rightarrow> string" where
  "CropRight en s maxLen =
     (if maxLen \<le> 4 \<or> vw_string en s \<le> maxLen then s
      else text_of (fitting (vw_rune en) (maxLen - 1) (runes s)) @ ellipsis)"

section \<open>Status, headers and the last cron run\<close>

definition formatWatching :: "bool \<Rightarrow> string" where
  "formatWatching watch = (if watch then ''enabled'' else ''disabled'')"

text \<open>\<open>strings.ToUpper\<close>: ASCII letters are mapped here, the table of the other runes is \<open>vw_upper\<close>.\<close>

definition rune_upper :: "view_env \<Rightarrow> rune \<Rightarrow> rune" where
  "rune_upper en r = (if 97 \<le> r \<and> r \<le> 122 then r - 32 else if r < 128 then r else vw_upper en r)"

definition to_upper :: "view_env \<Rightarrow> string \<Rightarrow> string" where
  "to_upper en s = text_of (map (rune_upper en) (runes s))"

definition secHeader :: "view_env \<Rightarrow> string \<Rightarrow> int \<Rightarrow> string" where
  "secHeader en label w =
     vw_render en (padded 0 1 (wide w (fg ThMuted (bg ThHdrBg NewStyle)))) (to_upper en (CropRight en label (w - 2)))"

definition getStatusColor :: "status \<Rightarrow> theme_colour" where
  "getStatusColor s =
     (case s of
        StatusOnline \<Rightarrow> ThOnline
      | StatusErrored \<Rightarrow> ThErrored
      | StatusLaunching \<Rightarrow> ThWarn
      | StatusStopping \<Rightarrow> ThWarn
      | StatusPaused \<Rightarrow> ThCron
      | _ \<Rightarrow> ThStopped)"

definition dotFor :: "view_env \<Rightarrow> status \<Rightarrow> string" where
  "dotFor en s =
     (case s of
        StatusOnline \<Rightarrow> vw_render en (coloured ThOnline) (utf8 9679)
      | StatusErrored \<Rightarrow> vw_render en (coloured ThErrored) (utf8 9679)
      | StatusLaunching \<Rightarrow> vw_render en (coloured ThWarn) (utf8 9676)
      | StatusStopping \<Rightarrow> vw_render en (coloured ThWarn) (utf8 9676)
      | StatusPaused \<Rightarrow> vw_render en (coloured ThCron) (utf8 9208)
      | _ \<Rightarrow> vw_render en (coloured ThStopped) (utf8 9675))"

definition statusLabel :: "view_env \<Rightarrow> status \<Rightarrow> string" where
  "statusLabel en s = vw_render en (coloured (getStatusColor s)) (status_word s)"

definition cronLastRunStyled :: "view_env \<Rightarrow> gotime \<Rightarrow> string \<Rightarrow> int \<Rightarrow> string" where
  "cronLastRunStyled en t status maxStatusLen =
     (if is_zero_time t then vw_render en (coloured ThMuted) Dash
      else
        (let s = CropRight en status (max 5 maxStatusLen);
             badge = (if s = ''ok'' then vw_render en (coloured ThOnline) ''  ok''
                      else if s = ''failed'' then vw_render en (coloured ThErrored) ''  failed''
                      else if s = ''skipped'' then vw_render en (coloured ThWarn) ''  skipped''
                      else if s = ''running'' then vw_render en (coloured ThWarn) ''  running''
                      else vw_render en (coloured ThMuted) (''  '' @ s))
         in vw_render en (coloured ThText) (stamp_text en t) @ badge))"


section \<open>Cropped text fits\<close>

lemma text_of_simps [simp]:
  "text_of [] = ''''" "text_of (r # rs) = utf8 r @ text_of rs" "text_of (rs @ qs) = text_of rs @ text_of qs"
  by (simp_all add: text_of_def)

lemma fitting_width: "0 \<le> room \<Longrightarrow> sum_list (map rw (fitting rw room rs)) \<le> room"
proof (induction rs arbitrary: room)
  case (Cons r rs)
  show ?case
  proof (cases "room < rw r")
    case False
    with Cons.IH [of "room - rw r"] show ?thesis by simp
  qed (use Cons.prems in simp)
qed simp

lemma fitting_prefix: "\<exists>k. fitting rw room rs = take k rs"
proof (induction rs arbitrary: room)
  case (Cons r rs)
  obtain k where "fitting rw (room - rw r) rs = take k rs" using Cons.IH by blast
  then have "fitting rw room (r # rs) = take (if room < rw r then 0 else Suc k) (r # rs)" by simp
  then show ?case by blast
qed simp

text \<open>
  \<open>measures\<close>: what go-runewidth promises. A string is at most as wide as its runes together (a grapheme
  cluster is as wide as one of its runes), and the ellipsis has one column.
\<close>

definition measures :: "view_env \<Rightarrow> bool" where
  "measures en \<longleftrightarrow>
     (\<forall>rs. vw_string en (text_of rs) \<le> sum_list (map (vw_rune en) rs)) \<and> vw_rune en 8230 = 1"

lemma text_fits:
  assumes "measures en" "sum_list (map (vw_rune en) rs) + sum_list (map (vw_rune en) qs) \<le> n - 1"
  shows "vw_string en (text_of rs @ ellipsis @ text_of qs) \<le> n"
proof -
  have "vw_string en (text_of (rs @ 8230 # qs)) \<le> sum_list (map (vw_rune en) (rs @ 8230 # qs))"
    using assms(1) unfolding measures_def by blast
  moreover have "sum_list (map (vw_rune en) (rs @ 8230 # qs)) = sum_list (map (vw_rune en) rs) + 1 + sum_list (map (vw_rune en) qs)"
    using assms(1) by (simp add: measures_def)
  ultimately show ?thesis using assms(2) by (simp add: ellipsis_def)
qed

lemma cropped_fits:
  assumes "measures en" "4 < n"
  shows "vw_string en (Crop en s n) \<le> n" "vw_string en (CropRight en s n) \<le> n"
proof -
  define rw where "rw = vw_rune en"
  have room: "sum_list (map rw (fitting rw (n - 1) rs)) \<le> n - 1" for rs using assms(2) by (intro fitting_width) simp
  have "sum_list (map rw (rev (fitting rw (n - 1) (rev (runes s))))) \<le> n - 1"
    using room [of "rev (runes s)"] by (simp flip: rev_map)
  with text_fits [OF assms(1), of "[]" "rev (fitting rw (n - 1) (rev (runes s)))" n]
  show "vw_string en (Crop en s n) \<le> n" using assms(2) by (simp add: Crop_def rw_def)
  from text_fits [OF assms(1), of "fitting rw (n - 1) (runes s)" "[]" n] room [of "runes s"]
  show "vw_string en (CropRight en s n) \<le> n" using assms(2) by (simp add: CropRight_def rw_def)
qed

text \<open>What is kept is a tail, or a head, of the runes.\<close>

lemma cropped_part:
  "Crop en s n = s \<or> (\<exists>k. Crop en s n = ellipsis @ text_of (drop k (runes s)))"
  "CropRight en s n = s \<or> (\<exists>k. CropRight en s n = text_of (take k (runes s)) @ ellipsis)"
proof -
  obtain k where "fitting (vw_rune en) (n - 1) (rev (runes s)) = take k (rev (runes s))" using fitting_prefix by blast
  then have "rev (fitting (vw_rune en) (n - 1) (rev (runes s))) = drop (length (runes s) - k) (runes s)"
    by (simp add: rev_take)
  then show "Crop en s n = s \<or> (\<exists>k. Crop en s n = ellipsis @ text_of (drop k (runes s)))"
    unfolding Crop_def by metis
  show "CropRight en s n = s \<or> (\<exists>k. CropRight en s n = text_of (take k (runes s)) @ ellipsis)"
    unfolding CropRight_def using fitting_prefix [of "vw_rune en" "n - 1" "runes s"] by metis
qed

section \<open>Panics\<close>

lemma str_repeat_Some: "str_repeat s n \<noteq> None \<longleftrightarrow> 0 \<le> n"
  by (simp add: str_repeat_def)

lemma map_panic_Some: "map_panic f xs \<noteq> None \<longleftrightarrow> (\<forall>x\<in>set xs. f x \<noteq> None)"
  by (induction xs) (auto split: Option.bind_split)

lemma map_panic_length: "map_panic f xs = Some ys \<Longrightarrow> length ys = length xs"
  by (induction xs arbitrary: ys) (auto split: Option.bind_splits)

lemma bind_Some: "Option.bind m f \<noteq> None \<longleftrightarrow> (\<exists>x. m = Some x \<and> f x \<noteq> None)"
  by (cases m) auto

lemma formatBytes_same: "formatBytes w = FormatBytes w"
  by (simp add: formatBytes_def FormatBytes_def)

lemma formatBytes_Some: "formatBytes w \<noteq> None \<longleftrightarrow> uint w < 2 ^ 50"
  using FormatBytes_None [of w] by (auto simp: formatBytes_same)


lemma bind_not_None: "m \<noteq> None \<Longrightarrow> (\<And>x. m = Some x \<Longrightarrow> f x \<noteq> None) \<Longrightarrow> Option.bind m f \<noteq> None"
  by (cases m) auto

lemma bind_Some_None [simp]: "Option.bind m (\<lambda>x. Some (g x)) = None \<longleftrightarrow> m = None"
  by (cases m) auto

end
