(* ===== verification/View_Browser.thy ===== *)
theory View_Browser
  imports View_Text
begin

text \<open>
  The screen of the log browser: \<open>tui/views/log_browser.go\<close> and the rows of \<open>tui/logbrowser/tree.go\<close>. The
  context of the code is filled field by field from the model, which stands for it here.
\<close>

section \<open>The rows of the tree (tree.go, model.go)\<close>

definition nameColumn :: nat where "nameColumn = 22"

text \<open>The units are powers of two, so the divisions are exact.\<close>

definition formatFileSize :: "int \<Rightarrow> string" where
  "formatFileSize bytes =
     (let v = of_int (f64_of_int 11 bytes) :: rat in
      if bytes < 1024 then itoa bytes @ '' B''
      else if v / 1024 < 1024 then fixed 1 (v / 1024) @ '' KiB''
      else if v / 1024 ^ 2 < 1024 then fixed 1 (v / 1024 ^ 2) @ '' MiB''
      else if v / 1024 ^ 3 < 1024 then fixed 1 (v / 1024 ^ 3) @ '' GiB''
      else if v / 1024 ^ 4 < 1024 then fixed 1 (v / 1024 ^ 4) @ '' TiB''
      else fixed 1 (v / 1024 ^ 5) @ '' PiB'')"

definition taskTreeItem :: "view_env \<Rightarrow> browser \<Rightarrow> task_logs \<Rightarrow> string" where
  "taskTreeItem en m task =
     utf8 (if is_expanded m (tl_task task) then 9662 else 9656) @ '' '' @
     pad_right nameColumn (CropRight en (tl_task task) (int nameColumn)) @ ''  '' @
     pad_left 3 (itoa (int (length (tl_files task)))) @ '' files  '' @ pad_left 8 (formatFileSize (TotalSize task))"

definition fileTreeItem :: "view_env \<Rightarrow> file_info \<Rightarrow> string" where
  "fileTreeItem en f =
     ''   '' @ (if fi_current f then utf8 128310 else ''  '') @ '' '' @
     pad_right nameColumn (Crop en (fi_name f) (int nameColumn)) @ ''  '' @
     pad_left 8 (formatFileSize (fi_size f)) @ ''  '' @ fmt_date (vw_civil en (fi_mtime f)) @ '' '' @
     clock_text en (fi_mtime f)"

definition treeItems :: "view_env \<Rightarrow> browser \<Rightarrow> string list" where
  "treeItems en m =
     map (\<lambda>row.
            let task = br_tasks m ! tw_task row in
            if tw_kind row = TreeTask then taskTreeItem en m task
            else fileTreeItem en (tl_files task ! nat (tw_file row)))
       (visibleTreeRows m)"

section \<open>Panes (log\_browser.go)\<close>

definition visibleStart :: "int \<Rightarrow> int \<Rightarrow> int \<Rightarrow> int" where
  "visibleStart selected n height =
     (if n \<le> height then 0 else max 0 (min (selected - height + 1) (n - height)))"

text \<open>The rows filled up or cut to the height, for a positive height.\<close>

definition padLogBrowserRows :: "string list \<Rightarrow> int \<Rightarrow> int \<Rightarrow> string option" where
  "padLogBrowserRows rows width height =
     do { blank \<leftarrow> str_repeat '' '' width;
          Some (lines_of (take (nat height) (rows @ replicate (nat height - length rows) blank))) }"

definition renderLogBrowserMessage :: "view_env \<Rightarrow> string \<Rightarrow> int \<Rightarrow> int \<Rightarrow> string option" where
  "renderLogBrowserMessage en message width height =
     padLogBrowserRows [vw_render en (wide width (coloured ThMuted)) ('' '' @ CropRight en message (max 0 (width - 1)))]
       width height"

text \<open>The rows from \<open>visibleStart\<close> on, as many as the height allows, each with its index.\<close>

definition visible_rows :: "int \<Rightarrow> 'a list \<Rightarrow> int \<Rightarrow> (nat \<times> 'a) list" where
  "visible_rows selected xs height =
     (let start = nat (visibleStart selected (int (length xs)) height)
      in enumerate start (take (nat height) (drop start xs)))"

definition clamp_row :: "int \<Rightarrow> 'a list \<Rightarrow> int" where
  "clamp_row i xs = max 0 (min i (int (length xs) - 1))"

definition marked_row :: "view_env \<Rightarrow> theme_colour \<Rightarrow> int \<Rightarrow> bool \<Rightarrow> string \<Rightarrow> string" where
  "marked_row en colour width sel s =
     vw_render en (wide width (if sel then fg ThSelText (bg ThSelBg (coloured colour)) else coloured colour))
       ((if sel then utf8 8250 @ '' '' else ''  '') @ s)"

definition renderLogBrowserItems ::
  "view_env \<Rightarrow> string list \<Rightarrow> int \<Rightarrow> string \<Rightarrow> int \<Rightarrow> int \<Rightarrow> string option" where
  "renderLogBrowserItems en items selected0 blankText width height =
     (if items = [] then renderLogBrowserMessage en (if blankText = '''' then ''(no entries)'' else blankText) width height
      else
        (let selected = clamp_row selected0 items in
         padLogBrowserRows
           (map (\<lambda>(i, s). marked_row en ThText width (int i = selected) (CropRight en s (max 0 (width - 2))))
              (visible_rows selected items height)) width height))"

definition renderLogViewer :: "view_env \<Rightarrow> string list \<Rightarrow> int \<Rightarrow> int \<Rightarrow> int \<Rightarrow> string option" where
  "renderLogViewer en ls cursor0 width height =
     (if ls = [] then renderLogBrowserMessage en ''(empty log file)'' width height
      else
        (let cursor = clamp_row cursor0 ls in
         padLogBrowserRows
           (map (\<lambda>(i, s). marked_row en ThMuted width (int i = cursor)
                            (pad_left 6 (itoa (int i + 1)) @ '' '' @ CropRight en s (width - 11)))
              (visible_rows cursor ls height)) width height))"

definition renderDeleteConfirmation :: "view_env \<Rightarrow> string \<Rightarrow> int \<Rightarrow> int \<Rightarrow> string option" where
  "renderDeleteConfirmation en path width height =
     (let pathWidth = max 5 (width - 2 - int (length ''Delete '') - int (length ''? [y/N]'')) in
      padLogBrowserRows
        [vw_render en (padded 1 1 (wide width (fg ThErrored (bold NewStyle)))) (''Delete '' @ Crop en path pathWidth @ ''? [y/N]'')]
        width height)"

definition renderLogBrowserPaneTitle :: "view_env \<Rightarrow> string \<Rightarrow> int \<Rightarrow> bool \<Rightarrow> string" where
  "renderLogBrowserPaneTitle en label width focused =
     (let st = wide width (fg ThMuted (bold NewStyle)) in
      vw_render en (if focused then fg ThSelText (bg ThSelBg st) else st) (CropRight en ('' '' @ label) width))"

text \<open>The widths of the two panes; a column is left for the divider.\<close>

definition pane_widths :: "int \<Rightarrow> int \<times> int" where
  "pane_widths width = (let l = min (max 14 (width * 2 div 5)) (width - 15) in (l, width - l - 1))"

definition renderLogBrowserSplitPanes :: "view_env \<Rightarrow> browser \<Rightarrow> int \<Rightarrow> int \<Rightarrow> string option" where
  "renderLogBrowserSplitPanes en m width height =
     (case pane_widths width of
        (leftWidth, rightWidth) \<Rightarrow>
          (let contentHeight = max 1 (height - 1); viewer = (br_screen m = ScreenViewer) in
           do { items \<leftarrow> renderLogBrowserItems en (treeItems en m) (br_treeCursor m)
                  (''(no log files under '' @ br_root m @ '')'') leftWidth contentHeight;
                body \<leftarrow> if br_loading m then renderLogBrowserMessage en ''loading...'' rightWidth contentHeight
                  else (case br_err m of
                          Some e \<Rightarrow> renderLogBrowserMessage en e rightWidth contentHeight
                        | None \<Rightarrow>
                            if br_viewerPath m = ''''
                            then renderLogBrowserMessage en ''Select a log file and press Enter'' rightWidth contentHeight
                            else renderLogViewer en (br_lines m) (br_lineCursor m) rightWidth contentHeight);
                let left = lines_of [renderLogBrowserPaneTitle en ''TREE'' leftWidth (\<not> viewer), items];
                let title = ''LOG'' @ (if br_viewerPath m \<noteq> '''' then '' '' @ path_base (br_viewerPath m) else '''');
                let right = lines_of [renderLogBrowserPaneTitle en title rightWidth viewer, body];
                let dv = vw_render en (coloured ThBorder) (lines_of (replicate (nat height) (utf8 9474)));
                Some (vw_joinH en [left, dv, right]) }))"

definition renderLogBrowserHeader :: "view_env \<Rightarrow> browser \<Rightarrow> int \<Rightarrow> string" where
  "renderLogBrowserHeader en m width =
     (let title = vw_render en (fg ThText (bold NewStyle)) ''pm2 logs monitor'';
          status = (if br_notice m \<noteq> '''' then vw_render en (coloured ThWarn) (''  '' @ br_notice m)
                    else if br_err m \<noteq> None then vw_render en (coloured ThErrored) ''  error''
                    else if br_loading m then vw_render en (coloured ThMuted) ''  loading...''
                    else '''')
      in vw_render en (padded 0 1 (wide width (bg ThHdrBg NewStyle))) (title @ status))"

definition renderLogBrowserBreadcrumb :: "view_env \<Rightarrow> string list \<Rightarrow> int \<Rightarrow> string" where
  "renderLogBrowserBreadcrumb en parts width =
     vw_render en (padded 0 1 (wide width (coloured ThMuted)))
       (CropRight en (if parts \<noteq> [] then str_join ('' '' @ utf8 8594 @ '' '') parts else ''log files'') (width - 2))"

definition browser_hints :: "browser \<Rightarrow> string list" where
  "browser_hints m =
     (let arrows = utf8 8593 @ utf8 8595 @ '' / jk '' in
      if confirmPath m \<noteq> '''' then [''y confirm delete'', ''n/esc cancel'']
      else if br_screen m = ScreenViewer
      then [arrows @ ''line'', ''PgUp/PgDn page'', utf8 8592 @ '' focus tree'', ''q quit'']
      else [arrows @ ''navigate'', utf8 8592 @ '' collapse/back'', utf8 8594 @ '' expand/open'', ''Enter focus log''] @
           (if canDelete m then [''d delete''] else []) @ [''q quit''])"

definition renderLogBrowserFooter :: "view_env \<Rightarrow> browser \<Rightarrow> int \<Rightarrow> string" where
  "renderLogBrowserFooter en m width =
     vw_render en (padded 0 1 (wide width (fg ThMuted (bg ThHdrBg NewStyle))))
       (CropRight en (str_join ('' '' @ utf8 9474 @ '' '') (browser_hints m)) (width - 2))"

definition RenderLogBrowser :: "view_env \<Rightarrow> browser \<Rightarrow> string option" where
  "RenderLogBrowser en m =
     (let width = max (br_width m) 30; height = max (br_height m) 6; bodyHeight = max 1 (height - 3) in
      do { body \<leftarrow> if confirmPath m \<noteq> '''' then renderDeleteConfirmation en (confirmPath m) width bodyHeight
             else renderLogBrowserSplitPanes en m width bodyHeight;
           Some (lines_of [renderLogBrowserHeader en m width, renderLogBrowserBreadcrumb en (breadcrumb m) width, body,
                           renderLogBrowserFooter en m width]) })"

definition Browser_View :: "view_env \<Rightarrow> browser \<Rightarrow> string option" where
  "Browser_View en m = RenderLogBrowser en m"


section \<open>Every frame is drawn, with the cursor in it\<close>

lemma padLogBrowserRows_Some: "0 \<le> w \<Longrightarrow> padLogBrowserRows rows w h \<noteq> None"
  using str_repeat_Some [of "'' ''" w] by (simp add: padLogBrowserRows_def del: not_None_eq)

lemma renderLogBrowserItems_Some: "0 \<le> w \<Longrightarrow> renderLogBrowserItems en items i e w h \<noteq> None"
  by (simp add: renderLogBrowserItems_def renderLogBrowserMessage_def Let_def padLogBrowserRows_Some del: not_None_eq)

lemma renderLogViewer_Some: "0 \<le> w \<Longrightarrow> renderLogViewer en ls i w h \<noteq> None"
  by (simp add: renderLogViewer_def renderLogBrowserMessage_def Let_def padLogBrowserRows_Some del: not_None_eq)

text \<open>The panes and the divider share the width, and neither pane is narrower than 14 columns.\<close>

lemma pane_widths_ok:
  assumes "30 \<le> width" "pane_widths width = (l, r)"
  shows "l + 1 + r = width \<and> 14 \<le> l \<and> 14 \<le> r"
  using assms by (auto simp: pane_widths_def Let_def)

text \<open>Whatever the state and the size of the terminal, the browser draws a frame.\<close>

lemma Browser_View_total: "Browser_View en m \<noteq> None"
proof -
  define w where "w = max (br_width m) 30"
  obtain l r where p: "pane_widths w = (l, r)" by (metis surj_pair)
  then have lr: "0 \<le> l" "0 \<le> r" using pane_widths_ok [of w l r] by (simp_all add: w_def)
  have body: "(if br_loading m then renderLogBrowserMessage en ''loading...'' r h
      else (case br_err m of
              Some e \<Rightarrow> renderLogBrowserMessage en e r h
            | None \<Rightarrow> if br_viewerPath m = [] then renderLogBrowserMessage en ''Select a log file and press Enter'' r h
                      else renderLogViewer en (br_lines m) (br_lineCursor m) r h)) \<noteq> None" for h
    using lr(2)
    by (simp add: renderLogBrowserMessage_def padLogBrowserRows_Some renderLogViewer_Some del: not_None_eq split: option.split)
  have "renderLogBrowserSplitPanes en m w h \<noteq> None" for h
    unfolding renderLogBrowserSplitPanes_def p prod.case Let_def
    by (intro bind_not_None renderLogBrowserItems_Some [OF lr(1)] body) simp
  moreover have "renderDeleteConfirmation en path w h \<noteq> None" for path h
    by (simp add: renderDeleteConfirmation_def Let_def padLogBrowserRows_Some w_def del: not_None_eq)
  ultimately show ?thesis
    by (auto simp: Browser_View_def RenderLogBrowser_def Let_def w_def [symmetric] simp del: not_None_eq intro!: bind_not_None)
qed

lemma visibleStart_bounds:
  assumes "0 \<le> sel" "sel < n" "0 < h"
  shows "0 \<le> visibleStart sel n h \<and> visibleStart sel n h \<le> sel \<and> sel < visibleStart sel n h + h \<and>
    (visibleStart sel n h = 0 \<or> visibleStart sel n h + h \<le> n)"
  using assms by (auto simp: visibleStart_def)

text \<open>The row of the cursor is among the rows that are drawn, with its own index.\<close>

lemma cursor_is_visible:
  assumes "xs \<noteq> []" "0 < h"
  shows "(nat (clamp_row i xs), xs ! nat (clamp_row i xs)) \<in> set (visible_rows (clamp_row i xs) xs h)"
    and "length (visible_rows (clamp_row i xs) xs h) = min (nat h) (length xs)"
proof -
  define sel where "sel = clamp_row i xs"
  define n where "n = int (length xs)"
  have n: "0 < n" using assms(1) by (simp add: n_def)
  have sel: "0 \<le> sel" "sel < n" using n by (auto simp: sel_def clamp_row_def n_def)
  define s where "s = nat (visibleStart sel n h)"
  have b: "int s \<le> sel" "sel < int s + h" "s = 0 \<or> int s + h \<le> n"
    using visibleStart_bounds [OF sel assms(2)] by (auto simp: s_def)
  have v: "visible_rows sel xs h = enumerate s (take (nat h) (drop s xs))"
    by (simp add: visible_rows_def s_def n_def Let_def)
  have len: "length (take (nat h) (drop s xs)) = min (nat h) (length xs)"
    using b sel assms(2) by (auto simp: n_def)
  have pos: "nat sel - s < length (take (nat h) (drop s xs))" using b sel by (auto simp: n_def)
  have "enumerate s (take (nat h) (drop s xs)) ! (nat sel - s) = (nat sel, xs ! nat sel)"
    using pos b sel by (auto simp: nth_enumerate_eq n_def nth_drop)
  then show "(nat (clamp_row i xs), xs ! nat (clamp_row i xs)) \<in> set (visible_rows (clamp_row i xs) xs h)"
    using pos v by (metis length_enumerate nth_mem sel_def)
  show "length (visible_rows (clamp_row i xs) xs h) = min (nat h) (length xs)"
    using v len by (simp add: sel_def)
qed

text \<open>Both panes draw exactly as many rows as they have, the row of the cursor, marked, among them.\<close>

lemma padded_rows:
  assumes "0 \<le> w" "int (length rows) \<le> h"
  shows "\<exists>blank. padLogBrowserRows rows w h = Some (lines_of (rows @ replicate (nat h - length rows) blank))"
proof -
  obtain blank where "str_repeat '' '' w = Some blank" using str_repeat_Some assms(1) by blast
  then show ?thesis using assms(2) by (intro exI [of _ blank]) (simp add: padLogBrowserRows_def)
qed

lemma drawn_rows:
  assumes "xs \<noteq> []" "0 < h" "0 \<le> w"
  shows "\<exists>rows. padLogBrowserRows (map f (visible_rows (clamp_row i xs) xs h)) w h = Some (lines_of rows) \<and>
    int (length rows) = h \<and> f (nat (clamp_row i xs), xs ! nat (clamp_row i xs)) \<in> set rows"
proof -
  let ?v = "map f (visible_rows (clamp_row i xs) xs h)"
  have n: "length ?v = min (nat h) (length xs)" using cursor_is_visible(2) [OF assms(1,2)] by simp
  then have "int (length ?v) \<le> h" using assms(2) by simp
  from padded_rows [OF assms(3) this] obtain blank where
    p: "padLogBrowserRows ?v w h = Some (lines_of (?v @ replicate (nat h - length ?v) blank))" by blast
  have "f (nat (clamp_row i xs), xs ! nat (clamp_row i xs)) \<in> set ?v"
    using cursor_is_visible(1) [OF assms(1,2), of i] by (metis image_eqI list.set_map)
  moreover have "int (length (?v @ replicate (nat h - length ?v) blank)) = h" using n assms(2) by simp
  ultimately show ?thesis using p by (intro exI [of _ "?v @ replicate (nat h - length ?v) blank"]) (simp del: length_map)
qed

theorem tree_pane_draws_the_cursor:
  assumes "items \<noteq> []" "0 < h" "0 \<le> w"
  shows "\<exists>rows. renderLogBrowserItems en items i e w h = Some (lines_of rows) \<and> int (length rows) = h \<and>
    marked_row en ThText w True (CropRight en (items ! nat (clamp_row i items)) (max 0 (w - 2))) \<in> set rows"
proof -
  have "0 \<le> clamp_row i items" by (simp add: clamp_row_def)
  with drawn_rows [OF assms, of "\<lambda>(k, s). marked_row en ThText w (int k = clamp_row i items) (CropRight en s (max 0 (w - 2)))" i]
  show ?thesis using assms(1) by (simp add: renderLogBrowserItems_def Let_def)
qed

theorem log_pane_draws_the_cursor:
  assumes "ls \<noteq> []" "0 < h" "0 \<le> w"
  shows "\<exists>rows. renderLogViewer en ls i w h = Some (lines_of rows) \<and> int (length rows) = h \<and>
    marked_row en ThMuted w True (pad_left 6 (itoa (clamp_row i ls + 1)) @ '' '' @
      CropRight en (ls ! nat (clamp_row i ls)) (w - 11)) \<in> set rows"
proof -
  have "0 \<le> clamp_row i ls" by (simp add: clamp_row_def)
  with drawn_rows [OF assms, of "\<lambda>(k, s). marked_row en ThMuted w (int k = clamp_row i ls)
      (pad_left 6 (itoa (int k + 1)) @ '' '' @ CropRight en s (w - 11))" i]
  show ?thesis using assms(1) by (simp add: renderLogViewer_def Let_def)
qed

end
