(* ===== verification/View_Monitor.thy ===== *)
theory View_Monitor
  imports View_Text
begin

text \<open>
  The screen of the monitor: \<open>tui/views/list.go\<close>, \<open>namespace.go\<close>, \<open>header.go\<close>, \<open>footer.go\<close>, \<open>logs.go\<close>,
  \<open>detail.go\<close>, \<open>detail_field.go\<close>, \<open>workflow.go\<close> and \<open>layout.go\<close>. The \<open>ViewContext\<close> of the code is
  filled field by field from the model of the monitor, which stands for it here.
\<close>

section \<open>Header and footer\<close>

text \<open>The notice carries no error text, as in the model.\<close>

definition RenderHeader :: "view_env \<Rightarrow> monitor \<Rightarrow> string" where
  "RenderHeader en m =
     (let name = vw_render en (fg ThText (bold NewStyle)) ''pm2 monitor'';
          info =
            (if mo_notice m \<noteq> ''''
             then vw_render en (coloured ThErrored) (''  '' @ utf8 10007 @ '' '' @ mo_notice m)
             else if mo_err m \<noteq> None
             then vw_render en (coloured ThErrored) (''  '' @ utf8 10007 @ '' daemon unreachable'')
             else if \<not> is_zero_time (mo_updated m) \<and> inWorkflowScope m
             then vw_render en (coloured ThMuted)
                    (''  '' @ itoa (int (length (mo_workflows m))) @ '' workflows '' @ utf8 183 @ '' '' @
                     clock_text en (mo_updated m))
             else if \<not> is_zero_time (mo_updated m)
             then vw_render en (coloured ThMuted)
                    (''  '' @ itoa (int (length (mo_procs m))) @ '' processes '' @ utf8 183 @ '' '' @
                     clock_text en (mo_updated m))
             else '''')
      in vw_render en (padded 0 1 (wide (mo_width m) (bg ThHdrBg NewStyle))) (name @ info))"

definition sort_label :: "sort_field \<Rightarrow> string" where
  "sort_label f =
     (case f of
        SortByName \<Rightarrow> ''name'' | SortByNamespace \<Rightarrow> ''namespace'' | SortByCPU \<Rightarrow> ''cpu''
      | SortByMem \<Rightarrow> ''memory'' | SortByStatus \<Rightarrow> ''status'')"

definition monitor_keys :: "monitor \<Rightarrow> (string \<times> string) list" where
  "monitor_keys m =
     (let arrows = utf8 8593 @ utf8 8595 @ '' / jk''; tabs = utf8 8592 @ ''/'' @ utf8 8594 in
      if inWorkflowScope m
      then [(arrows, ''navigate''), (tabs, ''tab''), (''run'', ''pm2 workflow run <name>''), (''q'', ''quit'')]
      else [(arrows, ''navigate''), (tabs, ''tab''), (''r'', ''restart''), (''p'', ''pause/resume''), (''d'', ''delete''),
            (''s'', ''sort: '' @ sort_label (mo_SortBy m)), (utf8 9166 @ ''/esc'', ''logs only''), (''q'', ''quit'')])"

definition RenderFooter :: "view_env \<Rightarrow> monitor \<Rightarrow> string" where
  "RenderFooter en m =
     vw_render en (padded 0 1 (wide (mo_width m) (bg ThHdrBg NewStyle)))
       (str_join (''  '' @ utf8 9474 @ ''  '')
          (map (\<lambda>(k, d). vw_render en (coloured ThText) k @ '' '' @ vw_render en (coloured ThMuted) d) (monitor_keys m)))"

text \<open>The four random readings are \<open>vw_rand\<close>, between 0 and 1.\<close>

definition RenderHostMetricsLines :: "view_env \<Rightarrow> monitor \<Rightarrow> string \<times> string" where
  "RenderHostMetricsLines en m =
     (let lbl = vw_render en (fg ThText (bold NewStyle)); val = vw_render en (coloured ThOnline);
          mute = vw_render en (coloured ThMuted);
          down = vw_rand en 0 * (5 / 100); up = vw_rand en 1 * (1 / 100); rd = vw_rand en 2 * 2; wr = vw_rand en 3 * (5 / 10);
          cpu = lbl ''cpu: '' @ val (percent_text (mo_hostCPU m));
          mem = lbl ''mem: '' @ val (percent_text (mo_hostMem m));
          net = lbl ''net: '' @ val ''12.5ms'' @
                val ('' '' @ utf8 8675 @ fixed 3 down @ ''mb/s '' @ utf8 8673 @ fixed 3 up @ ''mb/s'');
          dsk = lbl ''disk: '' @ val (utf8 8675 @ fixed 3 rd @ ''mb/s '' @ utf8 8673 @ fixed 3 wr @ ''mb/s'') @
                mute '' /dev/disk1s1 '' @ val ''89%'';
          bar = mute ('' '' @ utf8 9474 @ '' '');
          paint = vw_render en (wide (mo_width m) (bg ThHdrBg NewStyle))
      in (paint ('' '' @ cpu @ '' '' @ bar @ '' '' @ mem), paint ('' '' @ dsk @ '' '' @ bar @ '' '' @ net)))"

section \<open>The namespace bar (namespace.go)\<close>

definition chip_sep :: string where "chip_sep = '' '' @ utf8 183 @ '' ''"

text \<open>The width of the chips \<open>[a, b)\<close>.\<close>

definition windowWidth :: "int \<Rightarrow> int list \<Rightarrow> nat \<Rightarrow> nat \<Rightarrow> int" where
  "windowWidth sepW chipW a b =
     (if b \<le> a then 0
      else sum_list (take (b - a) (drop a chipW)) + (if 1 < b - a then int (b - a - 1) * sepW else 0))"

definition budgetFor :: "int \<Rightarrow> int \<Rightarrow> nat \<Rightarrow> nat \<Rightarrow> nat \<Rightarrow> int" where
  "budgetFor w arrowW n a b = w - 2 - (if 0 < a then arrowW else 0) - (if b < n then arrowW else 0)"

definition window_fits :: "int \<Rightarrow> int \<Rightarrow> int \<Rightarrow> int list \<Rightarrow> nat \<Rightarrow> nat \<Rightarrow> bool" where
  "window_fits w sepW arrowW chipW a b \<longleftrightarrow> windowWidth sepW chipW a b + 2 \<le> budgetFor w arrowW (length chipW) a b"

text \<open>The loops that widen the window to the left and to the right until one step does not fit.\<close>

fun grow_left :: "(nat \<Rightarrow> nat \<Rightarrow> bool) \<Rightarrow> nat \<Rightarrow> nat \<Rightarrow> nat" where
  "grow_left fits 0 b = 0"
| "grow_left fits (Suc a) b = (if fits a b then grow_left fits a b else Suc a)"

function grow_right :: "(nat \<Rightarrow> nat \<Rightarrow> bool) \<Rightarrow> nat \<Rightarrow> nat \<Rightarrow> nat \<Rightarrow> nat" where
  "grow_right fits n a b = (if b < n \<and> fits a (Suc b) then grow_right fits n a (Suc b) else b)"
  by pat_completeness auto

termination by (relation "measure (\<lambda>(_, n, _, b). n - b)") auto

declare grow_right.simps [simp del]

definition chip_window :: "int \<Rightarrow> int \<Rightarrow> int \<Rightarrow> int list \<Rightarrow> nat \<Rightarrow> nat \<times> nat" where
  "chip_window w sepW arrowW chipW cursor =
     (let n = length chipW; fits = window_fits w sepW arrowW chipW in
      if windowWidth sepW chipW 0 n + 2 \<le> w then (0, n)
      else
        (let a = grow_left fits cursor (cursor + 1);
             b = grow_right fits n a (cursor + 1)
         in (grow_left fits a b, b)))"

definition renderChips :: "view_env \<Rightarrow> string list \<Rightarrow> nat \<Rightarrow> nat \<Rightarrow> nat \<Rightarrow> int \<Rightarrow> string" where
  "renderChips en ns a b cursor w =
     (let muted = vw_render en (coloured ThMuted);
          parts =
            (if 0 < a then [muted (utf8 8249)] else []) @
            concat (map (\<lambda>i. (if a < i then [muted chip_sep] else []) @
                             [vw_render en (if i = cursor then fg ThSelText (bg ThSelBg (bold NewStyle)) else coloured ThText)
                                (ns ! i)])
                      [a..<b]) @
            (if b < length ns then [muted (utf8 8250)] else [])
      in vw_render en (padded 0 1 (wide w (bg ThHdrBg NewStyle))) (concat parts))"

definition RenderNamespaceBar :: "view_env \<Rightarrow> monitor \<Rightarrow> int \<Rightarrow> string" where
  "RenderNamespaceBar en m w =
     (let ns = (if mo_namespaces m = [] then [''All''] else mo_namespaces m);
          cursor = (if mo_nsCursor m < 0 \<or> int (length ns) \<le> mo_nsCursor m then 0 else nat (mo_nsCursor m))
      in case chip_window w (vw_string en chip_sep) (vw_string en (utf8 8250)) (map (vw_string en) ns) cursor of
           (a, b) \<Rightarrow> renderChips en ns a b cursor w)"

section \<open>The process table (list.go)\<close>

record col_def =
  cd_name :: string
  cd_width :: int
  cd_right :: bool

definition restarts_column :: string where "restarts_column = utf8 8634"

definition listColumns :: "col_def list" where
  "listColumns =
     map (\<lambda>(n, w, r). \<lparr>cd_name = n, cd_width = w, cd_right = r\<rparr>)
       [(''id'', 3, True), (''namespace'', 10, False), (''name'', 12, False), (''version'', 8, False),
        (''pid'', 6, True), (''uptime'', 8, True), (restarts_column, 3, True), (''status'', 9, False),
        (''cpu'', 6, True), (''mem'', 8, True), (''user'', 8, False), (''cron'', 10, False),
        (''last exec'', 19, False)]"

definition listWideWidth :: int where "listWideWidth = 100"

definition listNarrowWidth :: int where "listNarrowWidth = 80"

definition drawBorder :: "col_def list \<Rightarrow> string \<Rightarrow> string \<Rightarrow> string \<Rightarrow> string \<Rightarrow> string option" where
  "drawBorder cols left mid right fill =
     do { parts \<leftarrow> map_panic (\<lambda>c. str_repeat fill (cd_width c + 2)) cols;
          Some (left @ str_join mid parts @ right) }"

definition sepLine :: "renderer \<Rightarrow> string \<Rightarrow> string" where
  "sepLine rnd s = rnd (coloured ThBorder) s"

text \<open>\<open>process.LastExec\<close>: the last cron fire and how it ended.\<close>

definition LastExec :: "view_env \<Rightarrow> process_info \<Rightarrow> string" where
  "LastExec en p =
     (if is_zero_time (pi_LastCronAt p) then Dash
      else fmt_date (vw_civil en (pi_LastCronAt p)) @ '' '' @ clock_text en (pi_LastCronAt p) @
           (if pi_LastCronStatus p \<noteq> [] then '' ('' @ pi_LastCronStatus p @ '')'' else []))"

definition getColVal :: "view_env \<Rightarrow> process_info \<Rightarrow> string \<Rightarrow> string option" where
  "getColVal en p col =
     (if col = ''id'' then Some (itoa (pi_ID p))
      else if col = ''namespace'' then Some (NamespaceOrDefault (ns_of p))
      else if col = ''name'' then Some (name_of p)
      else if col = ''version'' then Some (VersionOrDash (ac_Version (pi_App p)))
      else if col = ''pid'' then Some (PIDOrDash (pi_PID p))
      else if col = ''uptime'' then Some (ShortUptime (vw_now en) p)
      else if col = restarts_column then Some (itoa (pi_Restarts p))
      else if col = ''status'' then Some (status_word (pi_Status p))
      else if col = ''cpu'' then Some (CPUPercent p)
      else if col = ''mem'' then MemCell p
      else if col = ''user'' then Some (UserOrDash (pi_User p))
      else if col = ''cron'' then Some (CronOrDash (ac_Cron (pi_App p)))
      else if col = ''last exec'' then Some (LastExec en p)
      else Some '''')"

definition withoutColumns :: "col_def list \<Rightarrow> string list \<Rightarrow> col_def list" where
  "withoutColumns cols names = filter (\<lambda>c. cd_name c \<notin> set names) cols"

definition processTableColumns :: "int \<Rightarrow> col_def list" where
  "processTableColumns width =
     (let c1 = (if 0 < width \<and> width < listWideWidth
                then withoutColumns listColumns [''user'', ''cron'', ''last exec''] else listColumns)
      in if 0 < width \<and> width < listNarrowWidth then withoutColumns c1 [''version''] else c1)"

text \<open>The columns with the width of the name column filled in.\<close>

definition sized_columns :: "int \<Rightarrow> col_def list" where
  "sized_columns width =
     (let cols = processTableColumns width;
          fixedWidth = 3 * int (length cols) + 1 + sum_list (map cd_width (filter (\<lambda>c. cd_name c \<noteq> ''name'') cols))
      in map (\<lambda>c. if cd_name c = ''name'' then c\<lparr>cd_width := max 18 (width - fixedWidth)\<rparr> else c) cols)"

definition cell_style :: "col_def \<Rightarrow> style \<Rightarrow> style" where
  "cell_style c st = (wide (cd_width c) st)\<lparr>sl_align := Some (if cd_right c then PosRight else PosLeft)\<rparr>"

definition crop_cell :: "view_env \<Rightarrow> col_def \<Rightarrow> string \<Rightarrow> string" where
  "crop_cell en c v = (if cd_width c < vw_string en v then CropRight en v (cd_width c) else v)"

definition renderProcessCell :: "renderer \<Rightarrow> style \<Rightarrow> process_info \<Rightarrow> string \<Rightarrow> string \<Rightarrow> bool \<Rightarrow> string" where
  "renderProcessCell rnd st p column value selected =
     (if selected
      then
        (if column = ''name'' then rnd (fg ThSelName (bold st)) value
         else if column \<in> {''id'', ''status''} then rnd (fg (getStatusColor (pi_Status p)) (bold st)) value
         else if column = ''cpu'' \<and> pi_Status p = StatusOnline then rnd (fg ThOnline (bold st)) value
         else rnd (fg ThSelText (bold st)) value)
      else if column = ''id'' then rnd (fg (getStatusColor (pi_Status p)) (bold st)) value
      else if column = ''status'' then rnd (fg (getStatusColor (pi_Status p)) st) value
      else if column = ''cpu'' then rnd (fg (if pi_Status p = StatusOnline then ThOnline else ThStopped) st) value
      else if column = ''mem'' then rnd (fg (if pi_Status p = StatusOnline then ThText else ThStopped) st) value
      else if pi_Status p \<noteq> StatusOnline \<and> column \<notin> {''name'', ''version'', ''namespace''}
      then rnd (fg ThStopped st) value
      else rnd (fg ThText st) value)"

definition table_row :: "view_env \<Rightarrow> renderer \<Rightarrow> col_def list \<Rightarrow> bool \<Rightarrow> process_info \<Rightarrow> string option" where
  "table_row en rnd cols sel p =
     do { cells \<leftarrow> map_panic (\<lambda>c.
            do { v \<leftarrow> getColVal en p (cd_name c);
                 let st = cell_style c NewStyle;
                 let text = renderProcessCell rnd (if sel then bg ThSelBg st else st) p (cd_name c) (crop_cell en c v) sel;
                 let blank = (if sel then rnd (bg ThSelBg NewStyle) '' '' else '' '');
                 Some (blank @ text @ blank) }) cols;
          let bar = rnd (coloured ThBorder) (utf8 9474);
          Some (bar @ str_join bar cells @ bar) }"

definition header_row :: "view_env \<Rightarrow> renderer \<Rightarrow> col_def list \<Rightarrow> string" where
  "header_row en rnd cols =
     (let st = bold (fg ThText (bg ThHdrBg NewStyle)); bar = utf8 9474 in
      bar @ str_join bar (map (\<lambda>c. '' '' @ rnd (cell_style c st) (crop_cell en c (cd_name c)) @ '' '') cols) @ bar)"

text \<open>The lines of the table, which the code joins with newlines.\<close>

definition table_lines :: "view_env \<Rightarrow> renderer \<Rightarrow> process_info list \<Rightarrow> int \<Rightarrow> int \<Rightarrow> string list option" where
  "table_lines en rnd procs width selected =
     (let cols = sized_columns width in
      do { top \<leftarrow> drawBorder cols (utf8 9484) (utf8 9516) (utf8 9488) (utf8 9472);
           sep \<leftarrow> drawBorder cols (utf8 9500) (utf8 9532) (utf8 9508) (utf8 9472);
           rows \<leftarrow> map_panic (\<lambda>(i, p). table_row en rnd cols (0 \<le> selected \<and> int i = selected) p) (enumerate 0 procs);
           bottom \<leftarrow> drawBorder cols (utf8 9492) (utf8 9524) (utf8 9496) (utf8 9472);
           Some ([sepLine rnd top, sepLine rnd (header_row en rnd cols), sepLine rnd sep] @ rows @ [sepLine rnd bottom]) })"

definition renderProcessTable :: "view_env \<Rightarrow> renderer \<Rightarrow> process_info list \<Rightarrow> int \<Rightarrow> int \<Rightarrow> string option" where
  "renderProcessTable en rnd procs width selected = map_option lines_of (table_lines en rnd procs width selected)"

record table_options =
  to_Width :: int
  to_NoColor :: bool

definition RenderProcessTable :: "view_env \<Rightarrow> process_info list \<Rightarrow> table_options \<Rightarrow> string option" where
  "RenderProcessTable en procs opts =
     renderProcessTable en (if to_NoColor opts then vw_plain en else vw_render en) procs (to_Width opts) (- 1)"

definition no_tasks :: string where
  "no_tasks = ''run config: pm2 task start [ecosystem.config.js]''"

definition RenderWideTable :: "view_env \<Rightarrow> monitor \<Rightarrow> string option" where
  "RenderWideTable en m =
     (let frame = (\<lambda>body. vw_joinV en [RenderHeader en m, RenderNamespaceBar en m (mo_width m), body, RenderFooter en m]) in
      if mo_procs m = []
      then Some (frame (vw_render en
             (fg ThMuted ((wide (mo_width m) NewStyle)
                \<lparr>sl_height := Some (mo_height m - 3), sl_align := Some PosCenter, sl_alignV := Some PosCenter\<rparr>))
             (''No tasks running'' @ [newline] @ no_tasks)))
      else
        do { table \<leftarrow> renderProcessTable en (vw_render en) (mo_procs m) (mo_width m) (mo_selected m);
             let lns = split_lines table;
             let (a, b) = RenderHostMetricsLines en m;
             let all = lns @ [a, b];
             let contentH = mo_height m - 3;
             blank \<leftarrow> if int (length all) < contentH then str_repeat '' '' (mo_width m) else Some '''';
             visible \<leftarrow> slice_to contentH (all @ replicate (nat contentH - length all) blank);
             Some (frame (lines_of visible)) })"

text \<open>The left pane of the two-pane view: the rows, filled up to the height less the heading.\<close>

definition filled_rows :: "string list \<Rightarrow> string \<Rightarrow> int \<Rightarrow> string list option" where
  "filled_rows rows blank h =
     (let all = rows @ replicate (nat (h - 1) - length rows) blank in slice_to (min (h - 1) (int (length all))) all)"

text \<open>\<open>nameSt.Width\<close> and \<open>%-*s\<close>: Lip Gloss pads the selected name, \<open>fmt\<close> the others.\<close>

definition left_row :: "view_env \<Rightarrow> int \<Rightarrow> int \<Rightarrow> string \<Rightarrow> string \<Rightarrow> string \<Rightarrow> theme_colour \<Rightarrow> bool \<Rightarrow> string" where
  "left_row en w nameW dot name right colour sel =
     vw_render en (if sel then bg ThSelBg (row_style w) else row_style w)
       (if sel
        then dot @ '' '' @ vw_render en (wide nameW (fg ThSelName (bold NewStyle))) name @ '' '' @
             vw_render en (coloured ThSelText) right
        else dot @ '' '' @ pad_right (nat nameW) name @ '' '' @ vw_render en (coloured colour) right)"

definition name_width :: "int \<Rightarrow> string list \<Rightarrow> int" where
  "name_width w rights = max 5 (w - 5 - foldl max 1 (map (\<lambda>s. int (length s)) rights))"

definition muted_row :: "view_env \<Rightarrow> int \<Rightarrow> string \<Rightarrow> string" where
  "muted_row en w s = vw_render en (fg ThMuted (row_style w)) s"

definition RenderLeftPane :: "view_env \<Rightarrow> monitor \<Rightarrow> int \<Rightarrow> int \<Rightarrow> string option" where
  "RenderLeftPane en m w h =
     do { blank \<leftarrow> str_repeat '' '' w;
          let nameW = name_width w (map (shortUptime en) (mo_procs m));
          let rows = map (\<lambda>(i, p). left_row en w nameW (dotFor en (pi_Status p)) (CropRight en (name_of p) nameW)
                                     (shortUptime en p) ThMuted (int i = mo_selected m)) (enumerate 0 (mo_procs m));
          visible \<leftarrow> filled_rows (if rows = [] then [muted_row en w ''no processes''] else rows) blank h;
          Some (secHeader en ''processes'' w @ [newline] @ lines_of visible) }"


section \<open>The window of chips\<close>

lemma grow_left_le: "grow_left fits a b \<le> a"
  by (induction a) auto

lemma grow_left_fits: "grow_left fits a b = a \<or> fits (grow_left fits a b) b"
  by (induction a) auto

lemma grow_right_bounds: "b \<le> grow_right fits n a b \<and> (b \<le> n \<longrightarrow> grow_right fits n a b \<le> n)"
  by (induction fits n a b rule: grow_right.induct) (subst grow_right.simps, auto)+

lemma grow_right_fits: "grow_right fits n a b = b \<or> fits a (grow_right fits n a b)"
proof (induction fits n a b rule: grow_right.induct)
  case (1 fits n a b)
  show ?case
  proof (cases "b < n \<and> fits a (Suc b)")
    case True
    then have "grow_right fits n a b = grow_right fits n a (Suc b)" by (subst grow_right.simps) simp
    with 1 True show ?thesis by metis
  next
    case False
    then show ?thesis by (subst grow_right.simps) auto
  qed
qed

text \<open>The chip of the cursor is always drawn; a window of more than that chip fits with its arrows.\<close>

lemma chip_window_ok:
  assumes "cursor < length chipW" "chip_window w sepW arrowW chipW cursor = (a, b)"
  shows "a \<le> cursor \<and> cursor < b \<and> b \<le> length chipW"
    and "(a, b) = (0, length chipW) \<and> windowWidth sepW chipW a b + 2 \<le> w \<or> (a, b) = (cursor, Suc cursor) \<or>
      window_fits w sepW arrowW chipW a b"
proof -
  define n where "n = length chipW"
  define fits where "fits = window_fits w sepW arrowW chipW"
  define a1 where "a1 = grow_left fits cursor (cursor + 1)"
  define b1 where "b1 = grow_right fits n a1 (cursor + 1)"
  have whole: "windowWidth sepW chipW 0 n + 2 \<le> w \<Longrightarrow> (a, b) = (0, n)"
    and part: "\<not> windowWidth sepW chipW 0 n + 2 \<le> w \<Longrightarrow> (a, b) = (grow_left fits a1 b1, b1)"
  proof -
    have "(a, b) = (if windowWidth sepW chipW 0 n + 2 \<le> w then (0, n) else (grow_left fits a1 b1, b1))"
      using assms(2) by (simp only: chip_window_def Let_def n_def fits_def a1_def b1_def)
    then show "windowWidth sepW chipW 0 n + 2 \<le> w \<Longrightarrow> (a, b) = (0, n)"
      "\<not> windowWidth sepW chipW 0 n + 2 \<le> w \<Longrightarrow> (a, b) = (grow_left fits a1 b1, b1)" by simp_all
  qed
  have bounds: "grow_left fits a1 b1 \<le> a1" "a1 \<le> cursor" "cursor < b1" "b1 \<le> n"
    using grow_left_le [of fits a1 b1] grow_left_le [of fits cursor "cursor + 1"]
      grow_right_bounds [of "cursor + 1" fits n a1] assms(1) by (simp_all add: a1_def b1_def n_def)
  show "a \<le> cursor \<and> cursor < b \<and> b \<le> length chipW"
    using whole part bounds assms(1) by (cases "windowWidth sepW chipW 0 n + 2 \<le> w") (auto simp: n_def)
  show "(a, b) = (0, length chipW) \<and> windowWidth sepW chipW a b + 2 \<le> w \<or> (a, b) = (cursor, Suc cursor) \<or>
      window_fits w sepW arrowW chipW a b"
  proof (cases "windowWidth sepW chipW 0 n + 2 \<le> w")
    case False
    have "a1 = cursor \<or> fits a1 (cursor + 1)" unfolding a1_def by (rule grow_left_fits)
    moreover have "b1 = cursor + 1 \<or> fits a1 b1" unfolding b1_def by (rule grow_right_fits)
    moreover have "grow_left fits a1 b1 = a1 \<or> fits (grow_left fits a1 b1) b1" by (rule grow_left_fits)
    ultimately show ?thesis using part [OF False] by (auto simp: fits_def)
  qed (use whole in \<open>simp add: n_def\<close>)
qed

section \<open>The width of the table\<close>

definition drawn_width :: "col_def list \<Rightarrow> int" where
  "drawn_width cols = sum_list (map (\<lambda>c. cd_width c + 3) cols) + 1"

definition least_width :: "int \<Rightarrow> int" where
  "least_width width =
     (if 0 < width \<and> width < listNarrowWidth then 99 else if 0 < width \<and> width < listWideWidth then 110 else 156)"

lemma restarts_column_eq: "restarts_column = map char_of [226 :: nat, 134, 186]"
  by (simp add: restarts_column_def utf8_def valid_rune_def)

lemma restarts_column_differs:
  "restarts_column \<notin> {''id'', ''namespace'', ''name'', ''version'', ''pid'', ''uptime'', ''status'', ''cpu'', ''mem'', ''user'', ''cron'', ''last exec''}"
  unfolding restarts_column_eq by code_simp

lemma processTableColumns_eq:
  "processTableColumns width =
     (if 0 < width \<and> width < listNarrowWidth then processTableColumns 1
      else if 0 < width \<and> width < listWideWidth then processTableColumns 90 else listColumns)"
  by (simp add: processTableColumns_def Let_def listNarrowWidth_def listWideWidth_def)

text \<open>
  Below 156 columns the table does not follow the terminal: it is 99, 110 or 156 columns wide, and every line of it is
  broken by a narrower terminal.
\<close>

lemma table_width: "drawn_width (sized_columns width) = max width (least_width width)"
proof -
  have w: "drawn_width (sized_columns width) = (let cols = processTableColumns width in
      sum_list (map (\<lambda>c. if cd_name c = ''name''
        then max 18 (width - (3 * int (length cols) + 1 + sum_list (map cd_width (filter (\<lambda>c. cd_name c \<noteq> ''name'') cols)))) + 3
        else cd_width c + 3) cols) + 1)"
    by (simp add: drawn_width_def sized_columns_def Let_def comp_def if_distrib cong: if_cong)
      (rule arg_cong [where f = sum_list], rule map_cong, auto)
  have c: "map (\<lambda>c. (cd_name c = ''name'', cd_width c)) (processTableColumns 1) =
      [(False, 3), (False, 10), (True, 12), (False, 6), (False, 8), (False, 3), (False, 9), (False, 6), (False, 8)]"
    "map (\<lambda>c. (cd_name c = ''name'', cd_width c)) (processTableColumns 90) =
      [(False, 3), (False, 10), (True, 12), (False, 8), (False, 6), (False, 8), (False, 3), (False, 9), (False, 6), (False, 8)]"
    "map (\<lambda>c. (cd_name c = ''name'', cd_width c)) listColumns =
      [(False, 3), (False, 10), (True, 12), (False, 8), (False, 6), (False, 8), (False, 3), (False, 9), (False, 6), (False, 8),
       (False, 8), (False, 10), (False, 19)]"
    using restarts_column_differs
    by (simp_all add: processTableColumns_def withoutColumns_def Let_def listColumns_def listWideWidth_def listNarrowWidth_def)
  define shape where "shape = (\<lambda>cols :: col_def list. map (\<lambda>c. (cd_name c = ''name'', cd_width c)) cols)"
  have s: "sum_list (map (\<lambda>c. if cd_name c = ''name'' then x else cd_width c + 3) cols) =
      sum_list (map (\<lambda>(n, v). if n then x else v + 3) (shape cols))"
    "sum_list (map cd_width (filter (\<lambda>c. cd_name c \<noteq> ''name'') cols)) =
      sum_list (map snd (filter (\<lambda>(n, v). \<not> n) (shape cols)))" "length cols = length (shape cols)"
    for cols x by (simp_all add: shape_def comp_def filter_map)
  consider "0 < width \<and> width < 80" | "80 \<le> width \<and> width < 100" | "width \<le> 0 \<or> 100 \<le> width" by linarith
  then show ?thesis
  proof cases
    case 1
    then have "processTableColumns width = processTableColumns 1" by (subst processTableColumns_eq) (simp add: listNarrowWidth_def)
    with 1 c(1) show ?thesis
      by (simp add: w Let_def s shape_def [symmetric] least_width_def listNarrowWidth_def c(1) [folded shape_def])
  next
    case 2
    then have "processTableColumns width = processTableColumns 90"
      by (subst processTableColumns_eq) (simp add: listNarrowWidth_def listWideWidth_def)
    with 2 show ?thesis
      by (simp add: w Let_def s least_width_def listNarrowWidth_def listWideWidth_def c(2) [folded shape_def])
  next
    case 3
    then have "processTableColumns width = listColumns"
      by (subst processTableColumns_eq) (auto simp: listNarrowWidth_def listWideWidth_def)
    with 3 show ?thesis
      by (auto simp: w Let_def s least_width_def listNarrowWidth_def listWideWidth_def c(3) [folded shape_def])
  qed
qed

section \<open>Frames of the table and of the left pane\<close>

lemma sized_columns_nonneg: "c \<in> set (sized_columns width) \<Longrightarrow> 0 \<le> cd_width c"
proof -
  assume "c \<in> set (sized_columns width)"
  then obtain d where d: "d \<in> set (processTableColumns width)" "0 \<le> cd_width d \<longrightarrow> 0 \<le> cd_width c"
    by (fastforce simp: sized_columns_def Let_def split: if_splits)
  have "list_all (\<lambda>d. 0 \<le> cd_width d) listColumns" by (simp add: listColumns_def)
  moreover have "set (processTableColumns width) \<subseteq> set listColumns"
    by (auto simp: processTableColumns_def withoutColumns_def Let_def)
  ultimately show ?thesis using d by (auto simp: list_all_iff)
qed

lemma drawBorder_Some: "drawBorder (sized_columns width) l md r fill \<noteq> None"
proof -
  have "\<forall>c\<in>set (sized_columns width). str_repeat fill (cd_width c + 2) \<noteq> None"
    unfolding str_repeat_Some using sized_columns_nonneg [of _ width] by (simp add: add_nonneg_nonneg)
  then show ?thesis unfolding drawBorder_def bind_Some map_panic_Some [symmetric] by auto
qed

lemma getColVal_Some: "MemCell p \<noteq> None \<Longrightarrow> getColVal en p col \<noteq> None"
  by (simp add: getColVal_def)

lemma table_row_Some:
  assumes "MemCell p \<noteq> None"
  shows "table_row en rnd cols sel p \<noteq> None"
  using getColVal_Some [OF assms]
  by (auto simp: table_row_def map_panic_Some Let_def simp del: not_None_eq intro!: bind_not_None)

text \<open>The memory of a running process is below one pebibyte.\<close>

definition memory_ok :: "process_info \<Rightarrow> bool" where
  "memory_ok p \<longleftrightarrow> uint (pi_Memory p) < 2 ^ 50"

lemma MemCell_Some: "memory_ok p \<Longrightarrow> MemCell p \<noteq> None"
  using FormatBytes_None [of "pi_Memory p"] by (auto simp: MemCell_def memory_ok_def)

lemma table_lines_Some: "list_all memory_ok procs \<Longrightarrow> table_lines en rnd procs width selected \<noteq> None"
proof -
  assume ok: "list_all memory_ok procs"
  have "map_panic (\<lambda>(i, p). table_row en rnd cols (0 \<le> selected \<and> int i = selected) p) (enumerate 0 procs) \<noteq> None" for cols
    unfolding map_panic_Some using ok table_row_Some [OF MemCell_Some]
    by (auto simp: list_all_iff in_set_enumerate_eq)
  then show ?thesis unfolding table_lines_def Let_def bind_Some
    using drawBorder_Some [of width] by (metis not_None_eq option.distinct(1))
qed

lemma slice_to_Some: "slice_to n xs \<noteq> None \<longleftrightarrow> 0 \<le> n \<and> n \<le> int (length xs)"
  by (auto simp: slice_to_def)

lemma filled_rows_Some: "filled_rows rows blank h \<noteq> None \<longleftrightarrow> 1 \<le> h"
  unfolding filled_rows_def Let_def slice_to_Some by auto

lemma filled_rows_length:
  assumes "filled_rows rows blank h = Some out"
  shows "int (length out) = h - 1"
proof -
  have h: "1 \<le> h" using assms filled_rows_Some by (metis option.distinct(1))
  then show ?thesis using assms by (auto simp: filled_rows_def Let_def slice_to_def split: if_splits)
qed

lemma RenderLeftPane_Some:
  assumes "0 \<le> w"
  shows "RenderLeftPane en m w h \<noteq> None \<longleftrightarrow> 1 \<le> h"
proof -
  obtain blank where "str_repeat '' '' w = Some blank" using str_repeat_Some assms by blast
  then show ?thesis
    using filled_rows_Some [of _ blank h] by (simp add: RenderLeftPane_def Let_def del: not_None_eq)
qed

lemma RenderWideTable_Some:
  assumes "0 \<le> mo_width m" "list_all memory_ok (mo_procs m)"
  shows "RenderWideTable en m \<noteq> None \<longleftrightarrow> mo_procs m = [] \<or> 3 \<le> mo_height m"
proof (cases "mo_procs m = []")
  case False
  obtain rows where "table_lines en (vw_render en) (mo_procs m) (mo_width m) (mo_selected m) = Some rows"
    using table_lines_Some [OF assms(2)] by blast
  then have lns: "renderProcessTable en (vw_render en) (mo_procs m) (mo_width m) (mo_selected m) = Some (lines_of rows)"
    by (simp add: renderProcessTable_def)
  define lns where "lns = split_lines (lines_of rows)"
  obtain a b where ab: "RenderHostMetricsLines en m = (a, b)" by (metis surj_pair)
  obtain blank where blank: "(if int (length (lns @ [a, b])) < mo_height m - 3 then str_repeat '' '' (mo_width m) else Some '''') = Some blank"
    using str_repeat_Some [of "'' ''" "mo_width m"] assms(1) by (cases "int (length (lns @ [a, b])) < mo_height m - 3") auto
  have "RenderWideTable en m \<noteq> None \<longleftrightarrow>
      slice_to (mo_height m - 3) (lns @ [a, b] @ replicate (nat (mo_height m - 3) - length (lns @ [a, b])) blank) \<noteq> None"
    using False lns ab blank by (simp add: RenderWideTable_def Let_def lns_def [symmetric] del: not_None_eq)
  also have "\<dots> \<longleftrightarrow> 3 \<le> mo_height m" unfolding slice_to_Some by auto
  finally show ?thesis using False by simp
qed (simp add: RenderWideTable_def Let_def)

end
