(* ===== verification/View_Layout.thy ===== *)
theory View_Layout
  imports View_Monitor
begin

text \<open>
  The right side of the monitor and the whole screen: \<open>tui/views/logs.go\<close>, \<open>detail.go\<close>, \<open>detail_field.go\<close>,
  \<open>workflow.go\<close> and \<open>layout.go\<close>.
\<close>

section \<open>Logs (logs.go)\<close>

text \<open>The rows padded to the height; of too many the last are shown.\<close>

definition tail_rows :: "string list \<Rightarrow> string \<Rightarrow> int \<Rightarrow> string list option" where
  "tail_rows rows blank h =
     (let all = rows @ replicate (nat h - length rows) blank in
      if h < int (length all) then (if h < 0 then None else Some (drop (length all - nat h) all)) else Some all)"

definition RenderLogs :: "view_env \<Rightarrow> string \<Rightarrow> string list option \<Rightarrow> int \<Rightarrow> int \<Rightarrow> string option" where
  "RenderLogs en name logs w h =
     do { blank \<leftarrow> str_repeat '' '' w;
          let rows = (case logs of
                        None \<Rightarrow> [muted_row en w ''loading...'']
                      | Some [] \<Rightarrow> [muted_row en w ''(no log entries)'']
                      | Some ls \<Rightarrow> map (\<lambda>l. muted_row en w (Crop en l (w - 3))) ls);
          visible \<leftarrow> tail_rows rows blank h;
          Some (secHeader en (''logs '' @ Dash @ '' '' @ name) w @ [newline] @ lines_of visible) }"

section \<open>The detail of a process (detail.go, detail\_field.go)\<close>

definition renderWrappedDetailField :: "view_env \<Rightarrow> string \<Rightarrow> string \<Rightarrow> int \<Rightarrow> int \<Rightarrow> theme_colour \<Rightarrow> string" where
  "renderWrappedDetailField en label v width keyWidth0 colour =
     (let contentWidth = max (width - 2) 1;
          keyWidth = min keyWidth0 (max (contentWidth - 2) 1);
          valueWidth = max (contentWidth - keyWidth - 1) 1;
          key = vw_render en (wide keyWidth (coloured ThMuted)) label;
          wrapped = vw_render en (wide valueWidth (coloured colour)) v
      in vw_render en (row_style width) (vw_joinH en [key @ '' '', wrapped]))"

datatype detail_style = DsPlain | DsWrap | DsPath | DsCron | DsLast | DsStatus | DsWatching | DsCpu | DsMem

definition process_rows :: "view_env \<Rightarrow> process_info \<Rightarrow> int \<Rightarrow> (string \<times> string \<times> detail_style) list option" where
  "process_rows en p w =
     (let a = pi_App p; crop = (\<lambda>s. Crop en s (w - 21)); right = (\<lambda>s. CropRight en s (w - 21));
          cwd = (if ac_CWD a = '''' \<and> ac_ConfigFile a \<noteq> '''' then path_dir (ac_ConfigFile a) else ac_CWD a)
      in do { mem \<leftarrow> formatBytes (pi_Memory p);
              Some
                [(''script'', ac_Script a @ (if ac_Args a \<noteq> [] then '' '' @ str_join '' '' (ac_Args a) else ''''), DsWrap),
                 (''cwd'', crop cwd, DsPath), (''namespace'', right (ac_Namespace a), DsPlain),
                 (''user'', right (pi_User p), DsPlain), (''status'', right (status_word (pi_Status p)), DsStatus),
                 (''cpu'', crop (percent_text (pi_CPU p)), DsCpu), (''mem'', crop mem, DsMem),
                 (''uptime'', crop (fullUptime en p), DsPlain), (''started'', crop (fmtTime en (pi_StartedAt p)), DsPlain),
                 (''restarts'', crop (itoa (pi_Restarts p) @ '' / '' @ itoa (ac_MaxRestarts a) @ '' max''), DsPlain),
                 (''cron'', crop (cronExpr (ac_Cron a)), DsCron), (''cron next'', crop (cronNext en (ac_Cron a)), DsCron),
                 (''cron_restart'', crop (cronExpr (ac_CronRestart a)), DsCron),
                 (''cron_restart next'', crop (cronNext en (ac_CronRestart a)), DsCron), (''last run'', '''', DsLast),
                 (''watching'', right (formatWatching (ac_Watch a)), DsWatching), (''stdout'', crop (pi_LogFile p), DsPath),
                 (''stderr'', crop (pi_ErrorFile p), DsPath)] })"

definition process_row :: "view_env \<Rightarrow> process_info \<Rightarrow> int \<Rightarrow> string \<times> string \<times> detail_style \<Rightarrow> string" where
  "process_row en p w row =
     (case row of (k, v, sty) \<Rightarrow>
        if sty = DsWrap then renderWrappedDetailField en k v w 18 ThPath
        else
          (let val =
             (case sty of
                DsPath \<Rightarrow> vw_render en (coloured ThPath) v
              | DsCron \<Rightarrow> vw_render en (coloured ThCron) v
              | DsLast \<Rightarrow> cronLastRunStyled en (pi_LastCronAt p) (pi_LastCronStatus p) (w - 43)
              | DsStatus \<Rightarrow> statusLabel en (pi_Status p)
              | DsWatching \<Rightarrow> vw_render en (coloured (if ac_Watch (pi_App p) then ThOnline else ThMuted)) v
              | DsCpu \<Rightarrow> vw_render en (coloured (if pi_Status p = StatusOnline then ThOnline else ThMuted)) v
              | DsMem \<Rightarrow> vw_render en (coloured (if pi_Status p = StatusOnline then ThText else ThMuted)) v
              | _ \<Rightarrow> vw_render en (coloured ThText) v)
           in vw_render en (row_style w) (vw_render en (wide 18 (coloured ThMuted)) k @ '' '' @ val)))"

definition RenderDetail :: "view_env \<Rightarrow> process_info \<Rightarrow> int \<Rightarrow> string option" where
  "RenderDetail en p w =
     do { rows \<leftarrow> process_rows en p w;
          Some (secHeader en (''detail '' @ Dash @ '' '' @ name_of p) w @ [newline] @
                lines_of (map (process_row en p w) rows)) }"

section \<open>The workflow tab (workflow.go)\<close>

definition workflowLabel :: "wf_status \<Rightarrow> string" where
  "workflowLabel s =
     (let c = ws_Config s in
      if wc_Category c = '''' \<or> wc_Category c = DefaultCategory then wc_Name c else wc_Category c @ '':'' @ wc_Name c)"

definition workflowState :: "wf_status \<Rightarrow> string" where
  "workflowState s =
     (if ws_Running s then ''running''
      else if ws_LastStatus s = None then ''never run'' else status_text (ws_LastStatus s))"

definition workflowColour :: "wf_status \<Rightarrow> theme_colour" where
  "workflowColour s =
     (if ws_Running s then ThOnline
      else (case ws_LastStatus s of
              Some RunSuccess \<Rightarrow> ThOnline
            | Some RunFailed \<Rightarrow> ThErrored
            | Some RunSkipped \<Rightarrow> ThWarn
            | Some RunCancelled \<Rightarrow> ThWarn
            | None \<Rightarrow> ThMuted))"

definition workflowDot :: "view_env \<Rightarrow> wf_status \<Rightarrow> string" where
  "workflowDot en s = vw_render en (coloured (workflowColour s)) (utf8 9679)"

definition workflowTrigger :: "wf_status \<Rightarrow> string" where
  "workflowTrigger s = (if wc_Cron (ws_Config s) = '''' then ''on trigger'' else cronExpr (wc_Cron (ws_Config s)))"

definition workflowLastRun :: "view_env \<Rightarrow> wf_status \<Rightarrow> string" where
  "workflowLastRun en s =
     (if is_zero_time (ws_LastRunAt s) then Dash
      else fmt_date (vw_civil en (ws_LastRunAt s)) @ '' '' @ clock_text en (ws_LastRunAt s) @ '' ('' @
           formatUptimeSeconds (seconds_of (since en (ws_LastRunAt s))) @ '' ago)'')"

definition view_stageTarget :: "stage \<Rightarrow> string" where
  "view_stageTarget st =
     sg_Name st @ '' '' @ Dash @ '' '' @
     (if Stage_Kind st = Some StageScript
      then sg_Script st @ (if sg_Args st \<noteq> [] then '' '' @ str_join '' '' (sg_Args st) else '''')
      else Stage_Ref st)"

definition dashIfEmpty :: "string \<Rightarrow> string" where
  "dashIfEmpty s = (if s = '''' then Dash else s)"

definition view_kind :: "stage \<Rightarrow> string" where
  "view_kind st =
     (case Stage_Kind st of
        None \<Rightarrow> '''' | Some StageScript \<Rightarrow> ''script'' | Some StageTask \<Rightarrow> ''task'' | Some StageWorkflow \<Rightarrow> ''workflow'')"

definition RenderWorkflowPane :: "view_env \<Rightarrow> monitor \<Rightarrow> int \<Rightarrow> int \<Rightarrow> string option" where
  "RenderWorkflowPane en m w h =
     do { blank \<leftarrow> str_repeat '' '' w;
          let nameW = name_width w (map workflowState (mo_workflows m));
          let rows = map (\<lambda>(i, s). left_row en w nameW (workflowDot en s) (CropRight en (workflowLabel s) nameW)
                                     (workflowState s) (workflowColour s) (int i = mo_wfSelected m))
                       (enumerate 0 (mo_workflows m));
          visible \<leftarrow> filled_rows (if rows = [] then [muted_row en w ''no workflows''] else rows) blank h;
          Some (secHeader en ''workflows'' w @ [newline] @ lines_of visible) }"

definition workflow_rows :: "view_env \<Rightarrow> wf_status \<Rightarrow> int \<Rightarrow> (string \<times> string \<times> theme_colour) list" where
  "workflow_rows en s w =
     (let c = ws_Config s; crop = (\<lambda>t. Crop en t (w - 21)) in
      [(''category'', CropRight en (wc_Category c) (w - 21), ThText), (''name'', CropRight en (wc_Name c) (w - 21), ThText),
       (''state'', workflowState s, workflowColour s), (''stages'', itoa (int (length (wc_Stages c))), ThText),
       (''trigger'', workflowTrigger s, ThCron), (''cron next'', crop (cronNext en (wc_Cron c)), ThCron),
       (''timeout'', crop (dashIfEmpty (wc_Timeout c)), ThText), (''last run'', crop (workflowLastRun en s), ThText),
       (''run id'', crop (dashIfEmpty (ws_RunID s)), ThText), (''cwd'', crop (wc_CWD c), ThPath)])"

definition RenderWorkflowDetail :: "view_env \<Rightarrow> wf_status \<Rightarrow> int \<Rightarrow> string" where
  "RenderWorkflowDetail en s w =
     (let rows = map (\<lambda>(k, v, c). vw_render en (row_style w)
                        (vw_render en (wide 18 (coloured ThMuted)) k @ '' '' @ vw_render en (coloured c) v))
                   (workflow_rows en s w);
          stages = map (\<lambda>(i, st). vw_render en (row_style w)
                          (vw_render en (wide 4 (coloured ThMuted)) (itoa (int i + 1) @ ''.'') @
                           vw_render en (wide 9 (coloured ThCron)) (view_kind st) @
                           vw_render en (coloured ThText) (CropRight en (view_stageTarget st) (max (w - 18) 5))))
                     (enumerate 0 (wc_Stages (ws_Config s)))
      in secHeader en (''workflow '' @ Dash @ '' '' @ workflowLabel s) w @ [newline] @
         lines_of (rows @ [secHeader en ''stages'' w] @
                   (if wc_Stages (ws_Config s) = [] then [muted_row en w ''none declared''] else []) @ stages))"

section \<open>The screen (layout.go)\<close>

definition notice_box :: "view_env \<Rightarrow> int \<Rightarrow> string \<Rightarrow> string" where
  "notice_box en w s = vw_render en (padded 1 2 (wide w (coloured ThMuted))) s"

definition RenderRightPane :: "view_env \<Rightarrow> monitor \<Rightarrow> int \<Rightarrow> int \<Rightarrow> string option" where
  "RenderRightPane en m w h =
     (if inWorkflowScope m
      then (if mo_workflows m = []
            then Some (notice_box en w (''no workflows'' @ [newline] @
                         ''declare them in the workflows: block, then: pm2 apply''))
            else do { s \<leftarrow> index_at (mo_workflows m) (min (mo_wfSelected m) (int (length (mo_workflows m)) - 1));
                      Some (RenderWorkflowDetail en s w) })
      else if mo_procs m = [] then Some (notice_box en w (''no tasks'' @ [newline] @ no_tasks))
      else
        do { p \<leftarrow> index_at (mo_procs m) (mo_selected m);
             if mo_logFocus m then RenderLogs en (name_of p) (mo_logs m) w h
             else
               do { detail \<leftarrow> RenderDetail en p w;
                    if h < vw_height en detail + 2 then Some detail
                    else do { logs \<leftarrow> RenderLogs en (name_of p) (mo_logs m) w (h - vw_height en detail - 2);
                              Some (detail @ [newline] @ logs) } } })"

text \<open>\<open>len\<close> counts bytes.\<close>

definition len :: "string \<Rightarrow> int" where "len s = int (length s)"

definition leftColumnWidth :: "view_env \<Rightarrow> monitor \<Rightarrow> int" where
  "leftColumnWidth en m =
     (let w1 = (if inWorkflowScope m
                then foldl max 34 (map (\<lambda>s. len (workflowLabel s) + len (workflowState s) + 5) (mo_workflows m)) else 34);
          w2 = (if mo_procs m \<noteq> []
                then max w1 (foldl max 0 (map (len \<circ> name_of) (mo_procs m)) +
                             foldl max 0 (map (len \<circ> shortUptime en) (mo_procs m)) + 5)
                else w1);
          allowed = min 50 (max 34 (mo_width m - 40 - 1))
      in max 10 (min (min w2 allowed) (mo_width m - 10)))"

definition divider :: "view_env \<Rightarrow> int \<Rightarrow> string option" where
  "divider en h =
     do { bars \<leftarrow> str_repeat (utf8 9474 @ [newline]) (h - 1);
          Some (vw_render en ((wide 1 (coloured ThBorder))\<lparr>sl_height := Some h\<rparr>) (bars @ utf8 9474)) }"

definition pane :: "view_env \<Rightarrow> int \<Rightarrow> int \<Rightarrow> string \<Rightarrow> string" where
  "pane en w h s = vw_render en ((wide w NewStyle)\<lparr>sl_height := Some h\<rparr>) s"

text \<open>The left pane is rendered in any case, and replaced in the workflow tab.\<close>

definition RenderLayout :: "view_env \<Rightarrow> monitor \<Rightarrow> string option" where
  "RenderLayout en m =
     (if mo_width m < 50 then Some ''terminal too narrow (min 50 cols)''
      else if \<not> mo_detail m then RenderWideTable en m
      else
        (let contentH = mo_height m - 3; leftW = leftColumnWidth en m; rw = mo_width m - leftW - 1 in
         do { procs \<leftarrow> RenderLeftPane en m leftW contentH;
              leftBody \<leftarrow> if inWorkflowScope m then RenderWorkflowPane en m leftW contentH else Some procs;
              dv \<leftarrow> divider en contentH;
              right \<leftarrow> RenderRightPane en m rw contentH;
              Some (vw_joinV en
                [RenderHeader en m, RenderNamespaceBar en m (mo_width m),
                 vw_joinH en [pane en leftW contentH leftBody, dv, pane en rw contentH right],
                 RenderFooter en m]) }))"

definition Monitor_View :: "view_env \<Rightarrow> monitor \<Rightarrow> string option" where
  "Monitor_View en m = RenderLayout en m"


section \<open>Frames\<close>

lemma tail_rows_Some: "0 \<le> h \<Longrightarrow> tail_rows rows blank h \<noteq> None"
  by (auto simp: tail_rows_def Let_def)

text \<open>Exactly \<open>h\<close> rows are drawn, the last ones of the log among them.\<close>

lemma tail_rows_length: "0 \<le> h \<Longrightarrow> tail_rows rows blank h = Some out \<Longrightarrow> int (length out) = h"
  by (auto simp: tail_rows_def Let_def split: if_splits)

lemma RenderLogs_Some:
  assumes "0 \<le> w" "0 \<le> h"
  shows "RenderLogs en name logs w h \<noteq> None"
proof -
  obtain blank where "str_repeat '' '' w = Some blank" using str_repeat_Some assms(1) by blast
  then show ?thesis
    using tail_rows_Some [OF assms(2), of _ blank] by (simp add: RenderLogs_def Let_def del: not_None_eq)
qed

lemma RenderDetail_Some: "RenderDetail en p w \<noteq> None \<longleftrightarrow> memory_ok p"
  using formatBytes_Some [of "pi_Memory p"]
  by (simp add: RenderDetail_def process_rows_def Let_def memory_ok_def del: not_None_eq)

lemma RenderWorkflowPane_Some:
  assumes "0 \<le> w"
  shows "RenderWorkflowPane en m w h \<noteq> None \<longleftrightarrow> 1 \<le> h"
proof -
  obtain blank where "str_repeat '' '' w = Some blank" using str_repeat_Some assms by blast
  then show ?thesis
    using filled_rows_Some [of _ blank h] by (simp add: RenderWorkflowPane_def Let_def del: not_None_eq)
qed

lemma divider_Some: "divider en h \<noteq> None \<longleftrightarrow> 1 \<le> h"
  using str_repeat_Some [of "utf8 9474 @ [newline]" "h - 1"] by (simp add: divider_def int_one_le_iff_zero_less del: not_None_eq)

text \<open>The left column leaves at least nine columns for the right one and the divider.\<close>

lemma leftColumnWidth_bounds:
  assumes "50 \<le> mo_width m"
  shows "10 \<le> leftColumnWidth en m \<and> leftColumnWidth en m \<le> 50 \<and> leftColumnWidth en m + 10 \<le> mo_width m"
proof -
  have "10 \<le> max 10 (min (min x (min 50 (max 34 (mo_width m - 40 - 1)))) (mo_width m - 10)) \<and>
      max 10 (min (min x (min 50 (max 34 (mo_width m - 40 - 1)))) (mo_width m - 10)) \<le> 50 \<and>
      max 10 (min (min x (min 50 (max 34 (mo_width m - 40 - 1)))) (mo_width m - 10)) + 10 \<le> mo_width m" for x :: int
    using assms by linarith
  then show ?thesis unfolding leftColumnWidth_def Let_def .
qed

lemma index_at_Some: "index_at xs i \<noteq> None \<longleftrightarrow> 0 \<le> i \<and> i < int (length xs)"
  by (auto simp: index_at_def)

lemma RenderRightPane_Some:
  assumes "monitor_ok m" "list_all memory_ok (mo_procs m)" "0 \<le> w" "0 \<le> h"
  shows "RenderRightPane en m w h \<noteq> None"
proof (cases "inWorkflowScope m")
  case True
  have "mo_workflows m \<noteq> [] \<Longrightarrow> index_at (mo_workflows m) (min (mo_wfSelected m) (int (length (mo_workflows m)) - 1)) \<noteq> None"
    unfolding index_at_Some using assms(1) by (cases "mo_workflows m") (auto simp: monitor_ok_def)
  with True show ?thesis by (simp add: RenderRightPane_def del: not_None_eq)
next
  case scope: False
  show ?thesis
  proof (cases "mo_procs m = []")
    case False
    then have "0 \<le> mo_selected m \<and> mo_selected m < int (length (mo_procs m))"
      using assms(1) by (simp add: monitor_ok_def selected_ok_def)
    then obtain p where p: "index_at (mo_procs m) (mo_selected m) = Some p" "p \<in> set (mo_procs m)"
      by (auto simp: index_at_def)
    then have "memory_ok p" using assms(2) by (simp add: list_all_iff)
    then obtain d where d: "RenderDetail en p w = Some d" using RenderDetail_Some by blast
    have "0 \<le> k \<Longrightarrow> RenderLogs en (name_of p) (mo_logs m) w k \<noteq> None" for k by (rule RenderLogs_Some [OF assms(3)])
    then show ?thesis using scope False p(1) d assms(4)
      by (simp add: RenderRightPane_def del: not_None_eq)
  qed (use scope in \<open>simp add: RenderRightPane_def\<close>)
qed

text \<open>The two-pane screen needs four rows, the table three.\<close>

lemma Monitor_View_Some:
  assumes "monitor_ok m" "list_all memory_ok (mo_procs m)"
  shows "Monitor_View en m = None \<longleftrightarrow>
    50 \<le> mo_width m \<and> (if mo_detail m then mo_height m < 4 else mo_procs m \<noteq> [] \<and> mo_height m < 3)"
proof (cases "50 \<le> mo_width m")
  case wide: True
  show ?thesis
  proof (cases "mo_detail m")
    case True
    define L where "L = leftColumnWidth en m"
    have L: "0 \<le> L" "0 \<le> mo_width m - L - 1" using leftColumnWidth_bounds [OF wide, of en] by (simp_all add: L_def)
    have v: "Monitor_View en m = do { procs \<leftarrow> RenderLeftPane en m L (mo_height m - 3);
        leftBody \<leftarrow> if inWorkflowScope m then RenderWorkflowPane en m L (mo_height m - 3) else Some procs;
        dv \<leftarrow> divider en (mo_height m - 3);
        right \<leftarrow> RenderRightPane en m (mo_width m - L - 1) (mo_height m - 3);
        Some (vw_joinV en [RenderHeader en m, RenderNamespaceBar en m (mo_width m),
                 vw_joinH en [pane en L (mo_height m - 3) leftBody, dv, pane en (mo_width m - L - 1) (mo_height m - 3) right],
                 RenderFooter en m]) }"
    proof -
      have "\<not> mo_width m < 50" using wide by simp
      with True show ?thesis by (simp only: Monitor_View_def RenderLayout_def Let_def L_def if_False simp_thms)
    qed
    show ?thesis
    proof (cases "4 \<le> mo_height m")
      case h: True
      have "RenderLeftPane en m L (mo_height m - 3) \<noteq> None" "RenderWorkflowPane en m L (mo_height m - 3) \<noteq> None"
        "divider en (mo_height m - 3) \<noteq> None" "RenderRightPane en m (mo_width m - L - 1) (mo_height m - 3) \<noteq> None"
        using h L assms by (simp_all add: RenderLeftPane_Some RenderWorkflowPane_Some divider_Some RenderRightPane_Some del: not_None_eq)
      then show ?thesis using wide True h unfolding v by auto
    next
      case False
      then have "RenderLeftPane en m L (mo_height m - 3) = None" 
        using RenderLeftPane_Some [OF L(1), of en m "mo_height m - 3"] by linarith
      then show ?thesis using wide True False unfolding v by simp
    qed
  next
    case False
    then show ?thesis using wide RenderWideTable_Some [of m en] assms(2)
      by (auto simp: Monitor_View_def RenderLayout_def)
  qed
qed (simp add: Monitor_View_def RenderLayout_def)

end
