(* ===== verification/View_Dashboard.thy ===== *)
theory View_Dashboard
  imports View_Layout
begin

text \<open>
  The screen of the activity dashboard: \<open>tui/views/dashboard.go\<close>, \<open>dashboard_detail.go\<close> and
  \<open>dashboard_host.go\<close>. The line about the last action is an argument, because its wording contains the
  texts of errors.
\<close>

type_synonym host_system = "system \<times> gpu_reading option"

record dash_context =
  dc_model :: "(host, host_system) dashboard"
  dc_Task :: "sys_task option"
  dc_Proc :: "proc option"
  dc_Children :: "proc list"
  dc_Ports :: "port list"
  dc_Confirm :: string
  dc_Action :: string

definition ctx_snapshot :: "dash_context \<Rightarrow> (host, host_system) snapshot" where
  "ctx_snapshot c = ob_Snapshot (da_observation (dc_model c))"

section \<open>The host panel (dashboard\_host.go)\<close>

definition gaugeWidth :: int where "gaugeWidth = 18"

definition gaugeWarnPercent :: rat where "gaugeWarnPercent = 70"

definition gaugeCriticalPercent :: rat where "gaugeCriticalPercent = 88"

definition baseHostRows :: int where "baseHostRows = 4"

definition hostLabelWidth :: int where "hostLabelWidth = 6"

definition HostPanelRows :: "host_system \<Rightarrow> int" where
  "HostPanelRows s = (if snd s \<noteq> None then baseHostRows + 1 else baseHostRows)"

definition hostLine :: "view_env \<Rightarrow> string \<Rightarrow> string \<Rightarrow> string \<Rightarrow> string" where
  "hostLine en label bar summary =
     vw_render en (wide hostLabelWidth (fg ThText (bold NewStyle))) label @
     (if bar = '''' then replicate (nat (gaugeWidth + 1)) CHR '' '' else bar @ '' '') @ summary"

definition clamp_percent :: "rat \<Rightarrow> rat" where
  "clamp_percent p = min 100 (max 0 p)"

definition gauge_filled :: "rat \<Rightarrow> int \<Rightarrow> int" where
  "gauge_filled p width = \<lfloor>clamp_percent p / 100 * of_int width + 1 / 2\<rfloor>"

definition gauge :: "view_env \<Rightarrow> rat \<Rightarrow> int \<Rightarrow> string option" where
  "gauge en p width =
     (let colour = (if gaugeCriticalPercent \<le> clamp_percent p then ThErrored
                    else if gaugeWarnPercent \<le> clamp_percent p then ThWarn else ThOnline)
      in do { full \<leftarrow> str_repeat (utf8 9608) (gauge_filled p width);
              rest \<leftarrow> str_repeat (utf8 9617) (width - gauge_filled p width);
              Some (vw_render en (coloured colour) full @ vw_render en (coloured ThBorder) rest) })"

definition mutedText :: "view_env \<Rightarrow> string \<Rightarrow> string" where
  "mutedText en s = vw_render en (coloured ThMuted) s"

definition dot_sep :: string where "dot_sep = ''  '' @ utf8 183 @ ''  ''"

text \<open>The leading \<open>%5.1f%%\<close>.\<close>

definition lead_percent :: "view_env \<Rightarrow> rat \<Rightarrow> string" where
  "lead_percent en p = vw_render en (fg ThText (bold NewStyle)) (pad_left 5 (fixed 1 p) @ ''%'')"

definition cpuSummary :: "view_env \<Rightarrow> system \<Rightarrow> string" where
  "cpuSummary en s =
     (case sy_Load s of (one, five, fifteen) \<Rightarrow>
        lead_percent en (cp_Used (sy_CPU s)) @ ''  '' @
        mutedText en (''user '' @ fixed 1 (cp_User (sy_CPU s)) @ ''  sys '' @ fixed 1 (cp_Sys (sy_CPU s)) @ dot_sep @
                      ''load '' @ fixed 2 one @ '' '' @ fixed 2 five @ '' '' @ fixed 2 fifteen @ dot_sep @
                      itoa (cp_Cores (sy_CPU s)) @ '' cores''))"

definition memorySummary :: "view_env \<Rightarrow> memory \<Rightarrow> string option" where
  "memorySummary en m =
     do { used \<leftarrow> formatBytes (me_Used m);
          whole \<leftarrow> formatBytes (me_Total m);
          available \<leftarrow> formatBytes (me_Available m);
          swap \<leftarrow> if 0 < me_SwapTotal m
                 then do { su \<leftarrow> formatBytes (me_SwapUsed m);
                           st \<leftarrow> formatBytes (me_SwapTotal m);
                           Some (dot_sep @ ''swap '' @ su @ '' / '' @ st) }
                 else Some '''';
          Some (lead_percent en (me_UsedPercent m) @ ''  '' @
                mutedText en (used @ '' of '' @ whole @ dot_sep @ available @ '' available'' @ swap)) }"

text \<open>A duration in whole seconds as \<open>Duration.String\<close> prints it, and the rounding to a second, half away from zero.\<close>

definition seconds_string :: "int \<Rightarrow> string" where
  "seconds_string s =
     (let a = \<bar>s\<bar>; t = itoa (a mod 60) @ ''s'' in
      (if s < 0 then ''-'' else '''') @
      (if 3600 \<le> a then itoa (a div 3600) @ ''h'' @ itoa (a div 60 mod 60) @ ''m'' @ t
       else if 60 \<le> a then itoa (a div 60) @ ''m'' @ t else t))"

definition round_seconds :: "duration \<Rightarrow> int" where
  "round_seconds d = sgn d * ((\<bar>d\<bar> + second div 2) div second)"

definition gpuSummary :: "view_env \<Rightarrow> gpu_reading \<Rightarrow> string" where
  "gpuSummary en g =
     lead_percent en (gp_Utilization g) @ ''  '' @
     mutedText en (str_join dot_sep
       ((if 0 < gp_Frequency g then [fixed 0 (gp_Frequency g) @ '' MHz''] else []) @
        (if 0 < gp_Power g then [fixed 0 (gp_Power g) @ '' mW''] else []) @
        [''via '' @ gp_Source g, seconds_string (round_seconds (since en (gp_SampledAt g))) @ '' old'']))"

definition networkSummary :: "view_env \<Rightarrow> network \<Rightarrow> string option" where
  "networkSummary en n =
     do { rx \<leftarrow> formatRate (nw_Rx n);
          tx \<leftarrow> formatRate (nw_Tx n);
          rxTotal \<leftarrow> formatBytes (nw_RxTotal n);
          txTotal \<leftarrow> formatBytes (nw_TxTotal n);
          Some (vw_render en (coloured ThOnline) (utf8 8675 @ '' '' @ rx @ ''   '' @ utf8 8673 @ '' '' @ tx) @ ''  '' @
                mutedText en (''on '' @ (if nw_Interface n = '''' then Dash else nw_Interface n) @ dot_sep @ rxTotal @
                              '' in / '' @ txTotal @ '' out since boot'')) }"

definition disk_part :: "disk \<Rightarrow> string option" where
  "disk_part d =
     do { used \<leftarrow> formatBytes (dk_Used d);
          whole \<leftarrow> formatBytes (dk_Total d);
          Some (dk_Mount d @ '' '' @ used @ ''/'' @ whole @ '' '' @ fixed 0 (dk_UsedPercent d) @ ''%'') }"

definition diskSummary :: "view_env \<Rightarrow> system \<Rightarrow> string option" where
  "diskSummary en s =
     (let io = sy_DiskIO s in
      do { both \<leftarrow> formatRate (io_Bytes io);
           throughput \<leftarrow> if io_Split io
             then do { r \<leftarrow> formatRate (io_Read io);
                       w \<leftarrow> formatRate (io_Write io);
                       Some (utf8 8675 @ '' '' @ r @ ''   '' @ utf8 8673 @ '' '' @ w) }
             else Some (utf8 8645 @ '' '' @ both);
           disks \<leftarrow> map_panic disk_part (take 2 (sy_Disks s));
           Some (vw_render en (coloured ThOnline) throughput @ ''  '' @
                 mutedText en (str_join dot_sep ((fixed 0 (io_Transfers io) @ '' io/s'') # disks))) })"

definition one_line :: "int \<Rightarrow> style \<Rightarrow> style" where
  "one_line w st = (wide w st)\<lparr>sl_maxWidth := Some w, sl_maxHeight := Some 1\<rparr>"

definition RenderHostPanel :: "view_env \<Rightarrow> host_system \<Rightarrow> int \<Rightarrow> string option" where
  "RenderHostPanel en hs width =
     (let s = fst hs in
      do { cpuBar \<leftarrow> gauge en (cp_Used (sy_CPU s)) gaugeWidth;
           memBar \<leftarrow> gauge en (me_UsedPercent (sy_Memory s)) gaugeWidth;
           mem \<leftarrow> memorySummary en (sy_Memory s);
           gpu \<leftarrow> (case snd hs of
                     None \<Rightarrow> Some []
                   | Some g \<Rightarrow> do { bar \<leftarrow> gauge en (gp_Utilization g) gaugeWidth;
                                    Some [hostLine en ''gpu'' bar (gpuSummary en g)] });
           net \<leftarrow> networkSummary en (sy_Network s);
           dsk \<leftarrow> diskSummary en s;
           Some (lines_of (map (\<lambda>l. vw_render en (one_line width (bg ThHdrBg NewStyle)) ('' '' @ l))
             ([hostLine en ''cpu'' cpuBar (cpuSummary en s), hostLine en ''mem'' memBar mem] @ gpu @
              [hostLine en ''net'' '''' net, hostLine en ''disk'' '''' dsk]))) })"

section \<open>The list (dashboard.go)\<close>

definition dashboardCPUWidth :: int where "dashboardCPUWidth = 6"

definition dashboardMemWidth :: int where "dashboardMemWidth = 7"

definition dashboardRowFixed :: int where
  "dashboardRowFixed = 1 + 3 + dashboardCPUWidth + dashboardMemWidth + 2"

definition dashboardPIDWidth :: int where "dashboardPIDWidth = 6"

definition dashboardMinLabelW :: int where "dashboardMinLabelW = 6"

text \<open>\<open>whole / 2\<close> on a width of at least 60.\<close>

definition dashboardListWidth :: "int \<Rightarrow> int" where
  "dashboardListWidth whole = max (min 38 (whole div 2)) (dashboardRowFixed + dashboardMinLabelW)"

definition dashboardRow ::
  "view_env \<Rightarrow> string \<Rightarrow> string \<Rightarrow> rat \<Rightarrow> 64 word \<Rightarrow> bool \<Rightarrow> int \<Rightarrow> int \<Rightarrow> bool \<Rightarrow> string option" where
  "dashboardRow en marker label cpu memory selected width labelWidth active =
     (let metric = coloured (if active then ThOnline else ThMuted);
          labelStyle = wide labelWidth (coloured ThText);
          ls = (if selected then fg ThSelName (bold labelStyle) else labelStyle);
          ms = (if selected then bold metric else metric);
          right = (\<lambda>w. (wide w ms)\<lparr>sl_align := Some PosRight\<rparr>);
          row = padded 0 1 ((wide width NewStyle)\<lparr>sl_maxHeight := Some 1\<rparr>)
      in do { mem \<leftarrow> formatBytes memory;
              Some (vw_render en (if selected then bg ThSelBg row else row)
                (marker @ '' '' @ vw_render en ls label @ '' '' @
                 vw_render en (right dashboardCPUWidth) (percent_text cpu) @ '' '' @
                 vw_render en (right dashboardMemWidth) mem)) })"

definition status_of_word :: "string \<Rightarrow> status" where
  "status_of_word w =
     (if w = ''online'' then StatusOnline else if w = ''stopped'' then StatusStopped
      else if w = ''stopping'' then StatusStopping else if w = ''errored'' then StatusErrored
      else if w = ''launching'' then StatusLaunching else if w = ''paused'' then StatusPaused else StatusUnset)"

definition dashboardRows :: "view_env \<Rightarrow> dash_context \<Rightarrow> int \<Rightarrow> string list option" where
  "dashboardRows en c width =
     (let m = dc_model c; labelWidth = max (width - dashboardRowFixed) dashboardMinLabelW in
      if da_scope m = ScopeSystem
      then map_panic (\<lambda>(i, p).
             dashboardRow en '' ''
               (pad_left (nat dashboardPIDWidth) (itoa (pr_PID p)) @ '' '' @
                CropRight en (Executable p) (max (labelWidth - dashboardPIDWidth - 1) 1))
               (pr_CPU p) (pr_Memory p) (int i = da_selected m) width labelWidth True)
           (enumerate 0 (da_ranked m))
      else map_panic (\<lambda>(i, t).
             let s = status_of_word (sk_Status t) in
             dashboardRow en (dotFor en s) (CropRight en (sk_Name t) labelWidth) (sk_TreeCPU t) (sk_TreeMemory t)
               (int i = da_selected m) width labelWidth (s = StatusOnline))
           (enumerate 0 (dash_tasks m)))"

text \<open>Go divides towards zero; the selected position is not negative.\<close>

definition scroll_start :: "int \<Rightarrow> int \<Rightarrow> int \<Rightarrow> int" where
  "scroll_start n selected height =
     (let start = max (selected - trunc_div height 2) 0 in if n < start + height then n - height else start)"

definition scrollWindow :: "'a list \<Rightarrow> int \<Rightarrow> int \<Rightarrow> 'a list" where
  "scrollWindow rows selected height =
     (if height \<le> 0 \<or> int (length rows) \<le> height then rows
      else take (nat height) (drop (nat (scroll_start (int (length rows)) selected height)) rows))"

definition dashboardListTitle :: "dash_context \<Rightarrow> string" where
  "dashboardListTitle c =
     (let m = dc_model c in
      if da_scope m = ScopeSystem then ''processes ('' @ itoa (int (length (da_ranked m))) @ '')''
      else ''pm2 tasks ('' @ itoa (int (length (dash_tasks m))) @ '')'')"

definition RenderDashboardList :: "view_env \<Rightarrow> dash_context \<Rightarrow> int \<Rightarrow> int \<Rightarrow> string option" where
  "RenderDashboardList en c width height =
     do { rows0 \<leftarrow> dashboardRows en c width;
          let blankText = (if da_scope (dc_model c) = ScopeSystem then ''no processes visible''
                       else ''no managed tasks'' @ [newline] @ ''run: pm2 task start ecosystem.config.js'');
          let rows = (if rows0 = [] then [muted_row en width blankText] else rows0);
          let visible = scrollWindow rows (da_selected (dc_model c)) (height - 1);
          blank \<leftarrow> str_repeat '' '' width;
          Some (secHeader en (dashboardListTitle c) width @ [newline] @
                lines_of (visible @ replicate (nat (height - 1) - length visible) blank)) }"

section \<open>The detail (dashboard\_detail.go)\<close>

definition detailKeyWidth :: int where "detailKeyWidth = 16"

record detail_field =
  df_label :: string
  df_value :: string
  df_style :: string

definition field :: "string \<Rightarrow> string \<Rightarrow> string \<Rightarrow> detail_field" where
  "field l v s = \<lparr>df_label = l, df_value = v, df_style = s\<rparr>"

definition pidLabel :: "int \<Rightarrow> string" where
  "pidLabel pid = (if pid \<le> 0 then Dash else itoa pid)"

definition taskHeading :: "sys_task \<Rightarrow> string" where
  "taskHeading t = sk_Namespace t @ '':'' @ sk_Name t"

definition insertAfter :: "detail_field list \<Rightarrow> string \<Rightarrow> detail_field \<Rightarrow> detail_field list" where
  "insertAfter fs after f =
     (case first_index (\<lambda>g. df_label g = after) fs of
        Some i \<Rightarrow> take (Suc i) fs @ [f] @ drop (Suc i) fs
      | None \<Rightarrow> fs @ [f])"

definition tree_percent :: "rat \<Rightarrow> rat \<Rightarrow> string" where
  "tree_percent own tree = percent_text own @ ''   tree '' @ percent_text tree"

definition taskFields :: "view_env \<Rightarrow> sys_task \<Rightarrow> detail_field list option" where
  "taskFields en t =
     (let uptime = (if \<not> is_zero_time (sk_StartedAt t) \<and> sk_Status t = ''online''
                    then fullUptimeSince en (sk_StartedAt t) else Dash)
      in do { own \<leftarrow> formatBytes (sk_Memory t);
              tree \<leftarrow> formatBytes (sk_TreeMemory t);
              let fs =
                [field ''status'' (sk_Status t) ''status'', field ''pid'' (pidLabel (sk_PID t)) '''',
                 field ''uptime'' uptime '''', field ''restarts'' (itoa (sk_Restarts t)) '''',
                 field ''cpu'' (tree_percent (sk_CPU t) (sk_TreeCPU t)) ''metric'',
                 field ''memory'' (own @ ''   tree '' @ tree) ''metric'',
                 field ''sub-processes'' (itoa (int (length (sk_Children t)))) '''',
                 field ''listening'' (itoa (int (length (sk_Ports t)))) '''',
                 field ''command'' (sk_Command t) ''path-wrap''];
              Some (if 0 < sk_TreeGPU t
                    then insertAfter fs ''memory'' (field ''gpu'' (tree_percent (sk_GPU t) (sk_TreeGPU t)) ''metric'')
                    else fs) })"

definition procFields :: "proc \<Rightarrow> detail_field list option" where
  "procFields p =
     do { mem \<leftarrow> formatBytes (pr_Memory p);
          let fs =
            [field ''pid'' (pidLabel (pr_PID p)) '''', field ''parent pid'' (pidLabel (pr_PPID p)) '''',
             field ''state'' (pr_State p) '''', field ''cpu'' (percent_text (pr_CPU p)) ''metric'',
             field ''memory'' mem ''metric'', field ''command'' (pr_Command p) ''path-wrap''];
          Some (if 0 < pr_GPU p then insertAfter fs ''memory'' (field ''gpu'' (percent_text (pr_GPU p)) ''metric'')
                else fs) }"

definition renderDetailField :: "view_env \<Rightarrow> detail_field \<Rightarrow> int \<Rightarrow> string" where
  "renderDetailField en f width =
     (if df_style f = ''path-wrap''
      then renderWrappedDetailField en (df_label f) (df_value f) width detailKeyWidth ThPath
      else
        (let valueWidth = width - detailKeyWidth - 3;
             v = (if df_style f = ''status'' then vw_render en (coloured (getStatusColor (status_of_word (df_value f)))) (df_value f)
                  else if df_style f = ''path'' then vw_render en (coloured ThPath) (Crop en (df_value f) valueWidth)
                  else if df_style f = ''metric'' then vw_render en (coloured ThOnline) (CropRight en (df_value f) valueWidth)
                  else vw_render en (coloured ThText) (CropRight en (df_value f) valueWidth))
         in vw_render en (row_style width) (vw_render en (wide detailKeyWidth (coloured ThMuted)) (df_label f) @ '' '' @ v)))"

definition childRowFixed :: int where "childRowFixed = 6 + 2 + 6 + 2 + 8 + 2 + 2"

text \<open>What is shown of a section with so many rows, and what is left over.\<close>

definition fit :: "int \<Rightarrow> int \<Rightarrow> int \<times> int" where
  "fit whole rows =
     (let budget = max (rows - 1) 1 in
      if whole \<le> budget then (whole, 0) else (let shown = max (budget - 1) 1 in (shown, whole - shown)))"

definition detailRow :: "view_env \<Rightarrow> theme_colour \<Rightarrow> int \<Rightarrow> string \<Rightarrow> string" where
  "detailRow en colour width text = vw_render en (fg colour (padded 0 1 ((wide width NewStyle)\<lparr>sl_maxHeight := Some 1\<rparr>))) text"

definition mutedRow :: "view_env \<Rightarrow> string \<Rightarrow> int \<Rightarrow> string" where
  "mutedRow en text width = detailRow en ThMuted width text"

definition more_row :: "view_env \<Rightarrow> int \<Rightarrow> int \<Rightarrow> string list" where
  "more_row en truncated width =
     (if 0 < truncated then [mutedRow en (ellipsis @ '' '' @ itoa truncated @ '' more'') width] else [])"

definition renderChildProcesses :: "view_env \<Rightarrow> proc list \<Rightarrow> int \<Rightarrow> int \<Rightarrow> string list option" where
  "renderChildProcesses en children width rows =
     (let head = secHeader en (''sub-processes ('' @ itoa (int (length children)) @ '')'') width in
      if children = [] then Some [head, mutedRow en ''none'' width]
      else
        (case fit (int (length children)) rows of
           (shown, truncated) \<Rightarrow>
             do { visible \<leftarrow> slice_to shown children;
                  lns \<leftarrow> map_panic (\<lambda>p.
                    do { mem \<leftarrow> formatBytes (pr_Memory p);
                         Some (detailRow en ThText width
                           (pad_left 6 (itoa (pr_PID p)) @ ''  '' @ pad_left 5 (fixed 1 (pr_CPU p)) @ ''%  '' @ pad_left 8 mem @
                            ''  '' @ CropRight en (pr_Command p) (max (width - childRowFixed) 8))) }) visible;
                  Some ([head] @ lns @ more_row en truncated width) }))"

definition renderListeningPorts :: "view_env \<Rightarrow> port list \<Rightarrow> int \<Rightarrow> int \<Rightarrow> string list option" where
  "renderListeningPorts en ports width rows =
     (let head = secHeader en (''listening ports ('' @ itoa (int (length ports)) @ '')'') width in
      if ports = [] then Some [head, mutedRow en ''none'' width]
      else
        (case fit (int (length ports)) rows of
           (shown, truncated) \<Rightarrow>
             do { visible \<leftarrow> slice_to shown ports;
                  Some ([head] @
                    map (\<lambda>p. detailRow en ThOnline width
                           (pad_right 4 (po_Protocol p) @ ''  '' @
                            pad_right 24 (CropRight en (po_Address p @ '':'' @ itoa (po_Port p)) 24) @ ''  pid '' @
                            itoa (po_PID p))) visible @
                    more_row en truncated width) }))"

text \<open>How the height left after the fields is shared between the two lists.\<close>

definition share_rows :: "int \<Rightarrow> int \<Rightarrow> int \<times> int" where
  "share_rows available ports = (let p = min (max (ports + 1) 2) (available div 2) in (available - p, p))"

definition dashboardDetailBody ::
  "view_env \<Rightarrow> string \<Rightarrow> detail_field list \<Rightarrow> dash_context \<Rightarrow> int \<Rightarrow> int \<Rightarrow> string option" where
  "dashboardDetailBody en heading fs c width height =
     (let rendered = map (\<lambda>f. renderDetailField en f width) fs;
          fieldRows = 1 + sum_list (map (vw_height en) rendered);
          available = max (height - fieldRows - 2) 4
      in case share_rows available (int (length (dc_Ports c))) of
           (childRows, portRows) \<Rightarrow>
             do { children \<leftarrow> renderChildProcesses en (dc_Children c) width childRows;
                  ports \<leftarrow> renderListeningPorts en (dc_Ports c) width portRows;
                  let physical = split_lines (lines_of
                    ([secHeader en (''detail '' @ Dash @ '' '' @ heading) width] @ rendered @ [''''] @ children @ [''''] @ ports));
                  visible \<leftarrow> if height < int (length physical) then slice_to height physical else Some physical;
                  Some (lines_of visible) })"

definition RenderDashboardDetail :: "view_env \<Rightarrow> dash_context \<Rightarrow> int \<Rightarrow> int \<Rightarrow> string option" where
  "RenderDashboardDetail en c width height =
     (case (dc_Task c, dc_Proc c) of
        (Some t, _) \<Rightarrow> do { fs \<leftarrow> taskFields en t; dashboardDetailBody en (taskHeading t) fs c width height }
      | (None, Some p) \<Rightarrow> do { fs \<leftarrow> procFields p; dashboardDetailBody en (Executable p) fs c width height }
      | (None, None) \<Rightarrow> Some (notice_box en width ''nothing selected''))"

section \<open>The screen (dashboard.go)\<close>

definition bar_style :: "int \<Rightarrow> style" where
  "bar_style w = padded 0 1 (one_line w (bg ThHdrBg NewStyle))"

definition renderDashboardHeader :: "view_env \<Rightarrow> dash_context \<Rightarrow> string" where
  "renderDashboardHeader en c =
     (let m = dc_model c; h = sp_Host (ctx_snapshot c); n = sp_Processes (ctx_snapshot c); dot = '' '' @ utf8 183 @ '' '';
          title = vw_render en (fg ThText (bold NewStyle)) ''pm2 taskmanager'';
          info =
            (if da_notice m \<noteq> ''''
             then vw_render en (coloured ThErrored) (''  '' @ utf8 10007 @ '' '' @ da_notice m)
             else if is_zero_time (da_updated m) then vw_render en (coloured ThMuted) (''  sampling'' @ ellipsis)
             else vw_render en (coloured ThMuted)
                    (''  '' @ ho_Hostname h @ dot @ itoa (ho_Cores h) @ '' cores'' @ dot @ ''up '' @
                     formatUptimeSeconds (ho_Uptime h) @ dot @ itoa (pn_Total n) @ '' procs ('' @ itoa (pn_Running n) @
                     '' running)'' @ dot @ clock_text en (da_updated m)))
      in vw_render en (bar_style (da_width m)) (title @ info))"

definition dash_sort_label :: "dash_sort \<Rightarrow> string" where
  "dash_sort_label s = (case s of DashByCPU \<Rightarrow> ''cpu'' | DashByMemory \<Rightarrow> ''memory'' | DashByName \<Rightarrow> ''name'')"

definition renderDashboardFooter :: "view_env \<Rightarrow> dash_context \<Rightarrow> string" where
  "renderDashboardFooter en c =
     (let m = dc_model c; paint = vw_render en (bar_style (da_width m)); system = (da_scope m = ScopeSystem);
          keys = [(utf8 8593 @ utf8 8595 @ '' / jk'', ''navigate''), (''a'', if system then ''pm2 tasks'' else ''all processes''),
                  (''s'', ''sort: '' @ dash_sort_label (da_sortBy m)), (''d'', if system then ''kill pid'' else ''stop task''),
                  (''q'', ''quit'')]
      in if dc_Confirm c \<noteq> '''' then paint (vw_render en (fg ThErrored (bold NewStyle)) (dc_Confirm c))
         else paint (str_join (''  '' @ utf8 9474 @ ''  '')
                (map (\<lambda>(k, d). vw_render en (coloured ThText) k @ '' '' @ vw_render en (coloured ThMuted) d) keys @
                 (if dc_Action c \<noteq> '''' then [vw_render en (coloured ThWarn) (dc_Action c)] else []))))"

definition RenderDashboard :: "view_env \<Rightarrow> dash_context \<Rightarrow> string option" where
  "RenderDashboard en c =
     (let m = dc_model c; system = sp_System (ctx_snapshot c); width = da_width m in
      if width < 60 then Some ''terminal too narrow (min 60 cols)''
      else
        (let bodyHeight = max (da_height m - HostPanelRows system - 2) 3;
             leftWidth = dashboardListWidth width; rightWidth = width - leftWidth - 1
         in do { l \<leftarrow> RenderDashboardList en c leftWidth bodyHeight;
                 dv \<leftarrow> divider en bodyHeight;
                 r \<leftarrow> RenderDashboardDetail en c rightWidth bodyHeight;
                 host \<leftarrow> RenderHostPanel en system width;
                 Some (vw_joinV en
                   [renderDashboardHeader en c, host,
                    vw_joinH en [pane en leftWidth bodyHeight l, dv, pane en rightWidth bodyHeight r],
                    renderDashboardFooter en c]) }))"

text \<open>\<open>View\<close>: the context of a frame, with what is known of the selected row.\<close>

definition kill_prompt :: "kill_target \<Rightarrow> string" where
  "kill_prompt k =
     (if kt_system k then ''kill '' else ''stop task '') @ kt_label k @ '' (pid '' @ itoa (kt_pid k) @ '')? '' @ Dash @
     '' y to confirm, n to cancel''"

definition dashboard_context :: "(host, host_system) dashboard \<Rightarrow> string \<Rightarrow> dash_context" where
  "dashboard_context m action =
     (let inRange = (\<lambda>n. 0 \<le> da_selected m \<and> da_selected m < int n);
          p = (if da_scope m = ScopeSystem \<and> inRange (length (da_ranked m))
               then Some (da_ranked m ! nat (da_selected m)) else None);
          t = (if da_scope m \<noteq> ScopeSystem \<and> inRange (length (dash_tasks m))
               then Some (dash_tasks m ! nat (da_selected m)) else None)
      in \<lparr>dc_model = m, dc_Task = t, dc_Proc = p,
          dc_Children = (case dash_detail m of None \<Rightarrow> [] | Some (cs, _) \<Rightarrow> cs),
          dc_Ports = (case dash_detail m of None \<Rightarrow> [] | Some (_, ps) \<Rightarrow> ps),
          dc_Confirm = (case da_confirm m of None \<Rightarrow> '''' | Some k \<Rightarrow> kill_prompt k), dc_Action = action\<rparr>)"

definition Dashboard_View :: "view_env \<Rightarrow> (host, host_system) dashboard \<Rightarrow> string \<Rightarrow> string option" where
  "Dashboard_View en m action = RenderDashboard en (dashboard_context m action)"


section \<open>Every frame is drawn\<close>

definition bytes_ok :: "64 word \<Rightarrow> bool" where "bytes_ok w \<longleftrightarrow> uint w < 2 ^ 50"

definition rate_ok :: "rat \<Rightarrow> bool" where "rate_ok x \<longleftrightarrow> \<lfloor>max 0 x\<rfloor> < 2 ^ 50"

lemma formatBytes_ok: "bytes_ok w \<Longrightarrow> formatBytes w \<noteq> None"
  by (simp only: formatBytes_Some bytes_ok_def)

lemma formatRate_ok: "rate_ok x \<Longrightarrow> formatRate x \<noteq> None"
proof -
  assume r: "rate_ok x"
  have "0 \<le> \<lfloor>max 0 x\<rfloor>" by simp
  then have "uint (word_of_int \<lfloor>max 0 x\<rfloor> :: 64 word) = \<lfloor>max 0 x\<rfloor>"
    using r by (simp add: rate_ok_def uint_word_of_int)
  then have "bytes_ok (word_of_int \<lfloor>max 0 x\<rfloor>)" using r by (simp add: bytes_ok_def rate_ok_def)
  from formatBytes_ok [OF this] show ?thesis by (simp add: formatRate_def del: not_None_eq)
qed

definition system_ok :: "system \<Rightarrow> bool" where
  "system_ok s \<longleftrightarrow>
     list_all bytes_ok [me_Used (sy_Memory s), me_Total (sy_Memory s), me_Available (sy_Memory s), me_SwapUsed (sy_Memory s),
                        me_SwapTotal (sy_Memory s), nw_RxTotal (sy_Network s), nw_TxTotal (sy_Network s)] \<and>
     list_all rate_ok [nw_Rx (sy_Network s), nw_Tx (sy_Network s), io_Bytes (sy_DiskIO s), io_Read (sy_DiskIO s),
                       io_Write (sy_DiskIO s)] \<and>
     list_all (\<lambda>d. bytes_ok (dk_Used d) \<and> bytes_ok (dk_Total d)) (sy_Disks s)"

lemma gauge_filled_bounds:
  assumes "0 \<le> width"
  shows "0 \<le> gauge_filled p width \<and> gauge_filled p width \<le> width"
proof -
  have c: "0 \<le> clamp_percent p" "clamp_percent p \<le> 100" by (auto simp: clamp_percent_def)
  have "0 \<le> clamp_percent p / 100 * of_int width" using c assms by simp
  moreover have "clamp_percent p / 100 * of_int width \<le> 1 * of_int width"
    using c assms by (intro mult_right_mono) simp_all
  ultimately show ?thesis unfolding gauge_filled_def by (auto simp: le_floor_iff floor_less_iff not_less [symmetric]) linarith+
qed

lemma if_not_None: "(c \<Longrightarrow> x \<noteq> None) \<Longrightarrow> (\<not> c \<Longrightarrow> y \<noteq> None) \<Longrightarrow> (if c then x else y) \<noteq> None"
  by simp

lemmas drawn = bind_not_None if_not_None option.distinct(2)

lemma gauge_Some: "gauge en p gaugeWidth \<noteq> None"
proof -
  have "0 \<le> gaugeWidth" by (simp add: gaugeWidth_def)
  from gauge_filled_bounds [OF this]
  have "str_repeat (utf8 9608) (gauge_filled p gaugeWidth) \<noteq> None"
    "str_repeat (utf8 9617) (gaugeWidth - gauge_filled p gaugeWidth) \<noteq> None"
    by (simp_all only: str_repeat_Some diff_ge_0_iff_ge)
  then show ?thesis unfolding gauge_def Let_def by (intro bind_not_None) simp_all
qed

lemma RenderHostPanel_Some:
  assumes "system_ok (fst hs)"
  shows "RenderHostPanel en hs width \<noteq> None"
proof -
  have b: "formatBytes w \<noteq> None" if "w \<in> {me_Used (sy_Memory (fst hs)), me_Total (sy_Memory (fst hs)), me_Available (sy_Memory (fst hs)),
      me_SwapUsed (sy_Memory (fst hs)), me_SwapTotal (sy_Memory (fst hs)), nw_RxTotal (sy_Network (fst hs)), nw_TxTotal (sy_Network (fst hs))}" for w
    using assms that formatBytes_ok by (auto simp: system_ok_def simp del: not_None_eq)
  have r: "formatRate x \<noteq> None" if "x \<in> {nw_Rx (sy_Network (fst hs)), nw_Tx (sy_Network (fst hs)), io_Bytes (sy_DiskIO (fst hs)),
      io_Read (sy_DiskIO (fst hs)), io_Write (sy_DiskIO (fst hs))}" for x
    using assms that formatRate_ok by (auto simp: system_ok_def simp del: not_None_eq)
  have mem: "memorySummary en (sy_Memory (fst hs)) \<noteq> None"
    unfolding memorySummary_def by (intro drawn b) simp_all
  have net: "networkSummary en (sy_Network (fst hs)) \<noteq> None"
    unfolding networkSummary_def by (intro drawn b r) simp_all
  have "disk_part d \<noteq> None" if "d \<in> set (take 2 (sy_Disks (fst hs)))" for d
  proof -
    have "bytes_ok (dk_Used d)" "bytes_ok (dk_Total d)"
      using assms in_set_takeD [OF that] by (auto simp: system_ok_def list_all_iff)
    then show ?thesis unfolding disk_part_def by (intro drawn formatBytes_ok)
  qed
  then have "map_panic disk_part (take 2 (sy_Disks (fst hs))) \<noteq> None" unfolding map_panic_Some by blast
  then have dsk: "diskSummary en (fst hs) \<noteq> None"
    unfolding diskSummary_def Let_def by (intro drawn r) simp_all
  show ?thesis unfolding RenderHostPanel_def Let_def
    by (cases "snd hs") (simp_all only: option.case, (intro drawn gauge_Some mem net dsk)+)
qed

text \<open>A section shows at least one entry of its own and says how many it leaves out.\<close>

lemma fit_ok:
  assumes "0 < n" "fit n rows = (shown, truncated)"
  shows "1 \<le> shown \<and> 0 \<le> truncated \<and> shown + truncated = n \<and>
    (3 \<le> rows \<longrightarrow> 1 + shown + (if 0 < truncated then 1 else 0) \<le> rows)"
  using assms by (auto simp: fit_def Let_def split: if_splits)

lemma renderChildProcesses_Some:
  assumes "list_all (\<lambda>p. bytes_ok (pr_Memory p)) children"
  shows "renderChildProcesses en children width rows \<noteq> None"
proof (cases "children = []")
  case False
  obtain shown truncated where f: "fit (int (length children)) rows = (shown, truncated)" by (metis surj_pair)
  have "0 \<le> shown" "shown \<le> int (length children)" using fit_ok [OF _ f] False by auto
  then have v: "slice_to shown children = Some (take (nat shown) children)" by (simp add: slice_to_def)
  have "formatBytes (pr_Memory p) \<noteq> None" if "p \<in> set (take (nat shown) children)" for p
    using assms in_set_takeD [OF that] by (intro formatBytes_ok) (simp add: list_all_iff)
  then show ?thesis using False f v
    by (simp add: renderChildProcesses_def map_panic_Some del: not_None_eq)
qed (simp add: renderChildProcesses_def)

lemma renderListeningPorts_Some: "renderListeningPorts en ports width rows \<noteq> None"
proof (cases "ports = []")
  case False
  obtain shown truncated where f: "fit (int (length ports)) rows = (shown, truncated)" by (metis surj_pair)
  have "0 \<le> shown" "shown \<le> int (length ports)" using fit_ok [OF _ f] False by auto
  then show ?thesis using False f by (simp add: renderListeningPorts_def slice_to_def)
qed (simp add: renderListeningPorts_def)

lemma dashboardDetailBody_Some:
  assumes "0 \<le> height" "list_all (\<lambda>p. bytes_ok (pr_Memory p)) (dc_Children c)"
  shows "dashboardDetailBody en heading fs c width height \<noteq> None"
  unfolding dashboardDetailBody_def Let_def share_rows_def prod.case
  by (intro drawn renderChildProcesses_Some assms(2) renderListeningPorts_Some) (simp_all add: slice_to_def not_less assms(1) del: not_None_eq)

definition context_ok :: "dash_context \<Rightarrow> bool" where
  "context_ok c \<longleftrightarrow>
     system_ok (fst (sp_System (ctx_snapshot c))) \<and>
     list_all (\<lambda>p. bytes_ok (pr_Memory p)) (da_ranked (dc_model c)) \<and>
     list_all (\<lambda>p. bytes_ok (pr_Memory p)) (dc_Children c) \<and>
     list_all (\<lambda>t. bytes_ok (sk_TreeMemory t)) (dash_tasks (dc_model c)) \<and>
     (case dc_Proc c of None \<Rightarrow> True | Some p \<Rightarrow> bytes_ok (pr_Memory p)) \<and>
     (case dc_Task c of None \<Rightarrow> True | Some t \<Rightarrow> bytes_ok (sk_Memory t) \<and> bytes_ok (sk_TreeMemory t))"

lemma dashboardRow_Some: "bytes_ok memory \<Longrightarrow> dashboardRow en mk lb cpu memory sel w lw act \<noteq> None"
  using formatBytes_ok [of memory] by (simp add: dashboardRow_def Let_def del: not_None_eq)

lemma dashboardRows_Some: "context_ok c \<Longrightarrow> dashboardRows en c width \<noteq> None"
  unfolding dashboardRows_def Let_def
  by (auto simp: map_panic_Some context_ok_def list_all_iff in_set_enumerate_eq simp del: not_None_eq
      intro!: dashboardRow_Some)

lemma RenderDashboardList_Some: "context_ok c \<Longrightarrow> 0 \<le> width \<Longrightarrow> RenderDashboardList en c width height \<noteq> None"
  unfolding RenderDashboardList_def Let_def
  by (intro drawn dashboardRows_Some) (simp_all only: str_repeat_Some)

lemma RenderDashboardDetail_Some:
  assumes "context_ok c" "0 \<le> height"
  shows "RenderDashboardDetail en c width height \<noteq> None"
proof -
  have body: "dashboardDetailBody en h fs c width height \<noteq> None" for h fs
    using assms by (intro dashboardDetailBody_Some) (simp_all add: context_ok_def)
  show ?thesis
  proof (cases "dc_Task c")
    case (Some t)
    then have "taskFields en t \<noteq> None" using assms(1)
        unfolding taskFields_def Let_def by (intro drawn formatBytes_ok) (simp_all add: context_ok_def)
    then show ?thesis unfolding RenderDashboardDetail_def Some prod.case option.case by (intro drawn body)
  next
    case None
    show ?thesis
    proof (cases "dc_Proc c")
      case (Some p)
      then have "procFields p \<noteq> None" using assms(1)
        unfolding procFields_def Let_def by (intro drawn formatBytes_ok) (simp_all add: context_ok_def)
      then show ?thesis unfolding RenderDashboardDetail_def None Some prod.case option.case by (intro drawn body)
    qed (use None in \<open>simp add: RenderDashboardDetail_def\<close>)
  qed
qed

text \<open>The dashboard draws a frame in a terminal of any size.\<close>

lemma RenderDashboard_Some:
  assumes "context_ok c"
  shows "RenderDashboard en c \<noteq> None"
proof (cases "da_width (dc_model c) < 60")
  case False
  define h where "h = max (da_height (dc_model c) - HostPanelRows (sp_System (ctx_snapshot c)) - 2) 3"
  have h: "1 \<le> h" "0 \<le> h" by (simp_all add: h_def)
  have l: "0 \<le> dashboardListWidth w" for w
    by (simp add: dashboardListWidth_def dashboardRowFixed_def dashboardCPUWidth_def dashboardMemWidth_def dashboardMinLabelW_def)
  have "divider en h \<noteq> None" using h(1) by (simp only: divider_Some)
  moreover have "RenderHostPanel en (sp_System (ctx_snapshot c)) w \<noteq> None" for w
    using assms by (intro RenderHostPanel_Some) (simp add: context_ok_def)
  ultimately show ?thesis using False assms unfolding RenderDashboard_def Let_def h_def [symmetric] if_not_P [OF False]
    by (intro bind_not_None RenderDashboardList_Some RenderDashboardDetail_Some l h(2)) simp_all
qed (simp add: RenderDashboard_def Let_def)

text \<open>The list scrolls so that the selected row is drawn.\<close>

lemma selected_row_is_drawn:
  assumes "0 \<le> sel" "sel < int (length rows)" "0 < height"
  shows "\<exists>k. scrollWindow rows sel height = take (length (scrollWindow rows sel height)) (drop k rows) \<and>
    int k \<le> sel \<and> sel < int k + int (length (scrollWindow rows sel height)) \<and>
    length (scrollWindow rows sel height) = min (nat height) (length rows)"
proof (cases "int (length rows) \<le> height")
  case True
  then have "scrollWindow rows sel height = rows" by (simp add: scrollWindow_def)
  with assms True show ?thesis by (intro exI [of _ 0]) auto
next
  case False
  define s where "s = scroll_start (int (length rows)) sel height"
  have half: "trunc_div height 2 = height div 2" using assms(3) by (simp add: trunc_div_def)
  have "0 \<le> height div 2" "height div 2 < height" using assms(3) by auto
  then have s: "0 \<le> s" "s \<le> sel" "sel < s + height" "s + height \<le> int (length rows)"
    using assms False by (auto simp: s_def scroll_start_def Let_def half)
  have w: "scrollWindow rows sel height = take (nat height) (drop (nat s) rows)"
    using False assms(3) by (simp add: scrollWindow_def s_def)
  moreover have "length (take (nat height) (drop (nat s) rows)) = nat height" using s by auto
  ultimately show ?thesis using s False by (intro exI [of _ "nat s"]) auto
qed

end
