(* ===== verification/File_Watcher.thy ===== *)
theory File_Watcher
  imports PM_Results
begin

text \<open>
  The watcher of a task's script: \<open>daemon/executor/watcher.go\<close>. The goroutine of the watcher is a
  function of one input of its \<open>select\<close>; its timer is a deadline, in nanoseconds of the monotonic
  clock, that a run checks before each input. A run over timed inputs gives the times at which
  \<open>onDetect\<close> is called, and is compared with a reference that says when a file has been quiet for long
  enough. \<open>fsnotify\<close> is the source of the inputs.
\<close>

definition debounceDuration :: duration where "debounceDuration = 500 * 1000000"

datatype file_op = FsCreate | FsWrite | FsRemove | FsRename | FsChmod

text \<open>An event carries a set of operations; \<open>WatchClosed\<close> is what a receive from a closed channel gives.\<close>

datatype watch_input = FileEvent "file_op list" | WatchError | WatchClosed

record watcher =
  fw_timer :: "int option"
  fw_listening :: bool

text \<open>The error of the call that fails, creating the watcher or adding the path, or the watcher.\<close>

definition NewFileWatcher :: "'e option \<Rightarrow> 'e option \<Rightarrow> 'e + watcher" where
  "NewFileWatcher createErr addErr =
     (case createErr of
        Some e \<Rightarrow> Inl e
      | None \<Rightarrow> (case addErr of Some e \<Rightarrow> Inl e | None \<Rightarrow> Inr \<lparr>fw_timer = None, fw_listening = True\<rparr>))"

definition is_change :: "watch_input \<Rightarrow> bool" where
  "is_change i = (case i of FileEvent ops \<Rightarrow> FsWrite \<in> set ops \<or> FsRename \<in> set ops | _ \<Rightarrow> False)"

text \<open>One round of the loop. The return on a closed channel leaves the timer armed.\<close>

definition watch_select :: "int \<Rightarrow> watch_input \<Rightarrow> watcher \<Rightarrow> watcher" where
  "watch_select t i w =
     (if \<not> fw_listening w then w
      else if i = WatchClosed then w\<lparr>fw_listening := False\<rparr>
      else if is_change i then w\<lparr>fw_timer := Some (t + debounceDuration)\<rparr>
      else w)"

text \<open>A timer that is due fires before the next input is received.\<close>

definition due :: "int \<Rightarrow> watcher \<Rightarrow> bool" where
  "due t w = (case fw_timer w of None \<Rightarrow> False | Some d \<Rightarrow> d \<le> t)"

fun watch_run :: "(int \<times> watch_input) list \<Rightarrow> watcher \<Rightarrow> int list" where
  "watch_run [] w = (case fw_timer w of None \<Rightarrow> [] | Some d \<Rightarrow> [d])"
| "watch_run ((t, i) # es) w =
     (if due t w then the (fw_timer w) # watch_run es (watch_select t i (w\<lparr>fw_timer := None\<rparr>))
      else watch_run es (watch_select t i w))"

section \<open>The reference\<close>

text \<open>The changes the watcher hears of, and the ends of the quiet periods after them.\<close>

fun change_times :: "(int \<times> watch_input) list \<Rightarrow> int list" where
  "change_times [] = []"
| "change_times ((t, i) # es) =
     (if i = WatchClosed then [] else if is_change i then t # change_times es else change_times es)"

fun quiet_ends :: "int list \<Rightarrow> int list" where
  "quiet_ends [] = []"
| "quiet_ends [c] = [c + debounceDuration]"
| "quiet_ends (c # c' # cs) =
     (if c + debounceDuration \<le> c' then (c + debounceDuration) # quiet_ends (c' # cs) else quiet_ends (c' # cs))"

definition heard :: "watcher \<Rightarrow> (int \<times> watch_input) list \<Rightarrow> int list" where
  "heard w es = (if fw_listening w then change_times es else [])"

lemma change_times_ge: "sorted (map fst es) \<Longrightarrow> \<forall>e \<in> set es. t \<le> fst e \<Longrightarrow> c \<in> set (change_times es) \<Longrightarrow> t \<le> c"
  by (induction es rule: change_times.induct) (auto split: if_splits)

lemma change_times_sorted: "sorted (map fst es) \<Longrightarrow> sorted (change_times es)"
proof (induction es rule: change_times.induct)
  case (2 t i es)
  then show ?case using change_times_ge [of es t] by auto
qed simp

lemma quiet_ends_Cons:
  assumes "\<forall>c' \<in> set cs. c + debounceDuration \<le> c'"
  shows "quiet_ends (c # cs) = (c + debounceDuration) # quiet_ends cs"
  using assms by (cases cs) simp_all

lemma heard_select:
  "heard (watch_select t i (w\<lparr>fw_timer := x\<rparr>)) es =
    (if fw_listening w \<and> i \<noteq> WatchClosed then change_times es else [])"
  "heard (watch_select t i w) es = (if fw_listening w \<and> i \<noteq> WatchClosed then change_times es else [])"
  by (auto simp: heard_def watch_select_def)

lemma heard_Cons:
  "heard w ((t, i) # es) =
    (if fw_listening w \<and> i \<noteq> WatchClosed then (if is_change i then t # change_times es else change_times es) else [])"
  by (simp add: heard_def)

lemma timer_select:
  "fw_timer (watch_select t i w) =
    (if fw_listening w \<and> is_change i then Some (t + debounceDuration) else fw_timer w)"
  by (auto simp: watch_select_def is_change_def)

lemma is_change_simps [simp]: "\<not> is_change WatchClosed" by (simp add: is_change_def)

text \<open>An armed timer is a change already heard, one debounce earlier.\<close>

lemma watch_run_quiet:
  assumes "sorted (map fst es)"
  shows "watch_run es w =
    quiet_ends ((case fw_timer w of None \<Rightarrow> [] | Some d \<Rightarrow> [d - debounceDuration]) @ heard w es)"
  using assms
proof (induction es arbitrary: w)
  case Nil
  then show ?case by (simp add: heard_def split: option.split)
next
  case (Cons e es)
  obtain t i where e: "e = (t, i)" by (cases e)
  have later: "\<forall>c \<in> set (change_times es). t \<le> c" using Cons.prems change_times_ge [of es t] by (auto simp: e)
  note IH = Cons.IH [of "watch_select t i w"] Cons.IH [of "watch_select t i (w\<lparr>fw_timer := None\<rparr>)"]
  show ?case
  proof (cases "fw_timer w")
    case None
    then show ?thesis using IH Cons.prems by (auto simp: e due_def heard_select timer_select heard_Cons)
  next
    case (Some d)
    show ?thesis
    proof (cases "d \<le> t")
      case True
      have "\<forall>c \<in> set (heard w (e # es)). d - debounceDuration + debounceDuration \<le> c"
        using later True by (auto simp: heard_Cons e)
      from quiet_ends_Cons [OF this] show ?thesis using IH(2) Cons.prems Some True
        by (auto simp: e due_def heard_select timer_select heard_Cons)
    next
      case False
      then show ?thesis using IH(1) Cons.prems Some
        by (auto simp: e due_def heard_select timer_select heard_Cons)
    qed
  qed
qed

lemma quiet_ends_iff:
  assumes "sorted cs"
  shows "x \<in> set (quiet_ends cs) \<longleftrightarrow>
    (\<exists>c \<in> set cs. x = c + debounceDuration \<and> (\<forall>c' \<in> set cs. c' \<le> c \<or> c + debounceDuration \<le> c'))"
  using assms
proof (induction cs rule: quiet_ends.induct)
  case (3 c c' cs)
  then have s: "sorted (c' # cs)" "c \<le> c'" "\<forall>b \<in> set cs. c' \<le> b" by auto
  show ?case
  proof (cases "c + debounceDuration \<le> c'")
    case True
    then have "\<forall>b \<in> set (c' # cs). c + debounceDuration \<le> b" "0 \<le> debounceDuration"
      using s(3) by (auto simp: debounceDuration_def)
    then show ?thesis using 3(1) [OF True s(1)] True s(2) by fastforce
  next
    case False
    have "c' \<le> c \<or> c + debounceDuration \<le> c' \<longleftrightarrow> c' = c" using False s(2) by auto
    then show ?thesis using 3(2) [OF False s(1)] False s(2,3) by fastforce
  qed
qed simp_all

lemma quiet_ends_spaced:
  assumes "sorted cs"
  shows "sorted_wrt (\<lambda>a b. a + debounceDuration \<le> b) (quiet_ends cs)"
  using assms
proof (induction cs rule: quiet_ends.induct)
  case (3 c c' cs)
  then have s: "sorted (c' # cs)" "\<forall>b \<in> set (c' # cs). c' \<le> b" by auto
  have "\<forall>x \<in> set (quiet_ends (c' # cs)). c' + debounceDuration \<le> x"
    using quiet_ends_iff [OF s(1)] s(2) by fastforce
  then show ?case using 3(1,2) s(1) by (fastforce simp del: quiet_ends.simps(3) simp: quiet_ends.simps(3) [of c])
qed simp_all


definition new_watcher :: watcher where "new_watcher = \<lparr>fw_timer = None, fw_listening = True\<rparr>"

lemma watch_run_new: "sorted (map fst es) \<Longrightarrow> watch_run es new_watcher = quiet_ends (change_times es)"
  by (simp add: watch_run_quiet heard_def new_watcher_def)

lemma change_times_closed: "change_times (es @ (t, WatchClosed) # es') = change_times es"
  by (induction es rule: change_times.induct) simp_all

text \<open>Closing the watcher does not disarm its timer: the last change before it is still acted on.\<close>

theorem close_leaves_the_timer:
  assumes "sorted (map fst (es @ (t, WatchClosed) # es'))" "change_times es = cs @ [c]"
  shows "c + debounceDuration \<in> set (watch_run (es @ (t, WatchClosed) # es') new_watcher) \<and> c \<le> t"
proof -
  have s: "sorted (cs @ [c])"
    using change_times_sorted [of es] assms by (simp add: sorted_append)
  have "c \<in> set (change_times es)" using assms(2) by simp
  moreover have "set (change_times es) \<subseteq> fst ` set es"
    by (induction es rule: change_times.induct) (auto split: if_splits)
  ultimately have "c \<le> t" using assms(1) by (auto simp: sorted_append)
  moreover have "c + debounceDuration \<in> set (quiet_ends (cs @ [c]))"
    unfolding quiet_ends_iff [OF s] using s by (auto simp: sorted_append)
  ultimately show ?thesis
    by (simp add: watch_run_new [OF assms(1)] change_times_closed assms(2))
qed

end
