(* ===== verification/Cli_Logs.thy ===== *)
theory Cli_Logs
  imports Cli_Client Log_Follow Daemon_Steps
begin

text \<open>
  \<open>pm2 logs\<close>: \<open>cmd/logs\_stream.go\<close>. The processes of the daemon, those a target selects, their log
  files, and the loop that prints what the follower of \<open>logfile/\<close> sends. The two channels are one
  list of what is received, in the order of the \<open>select\<close>.
\<close>

datatype stream_error =
    ListFailed cli_error
  | NotDecoded
  | NoApplications
  | NoMatch string
  | NoLogPaths string
  | WriteFailed log_stream
  | FollowFailed follow_error

definition loadLogApplications :: "cli_env \<Rightarrow> cli_world \<Rightarrow> (stream_error + process_info list) \<times> cli_world" where
  "loadLogApplications en w =
     (case SendRequest en (command_req CmdList) w of
        (None, w1) \<Rightarrow> (Inl (ListFailed NoDaemon), w1)
      | (Some resp, w1) \<Rightarrow>
          if \<not> rp_OK resp
          then (Inl (ListFailed (case rp_Error resp of Some e \<Rightarrow> DaemonSays e | None \<Rightarrow> EmptyResponse)), w1)
          else (case rp_Payload resp of
                  Some (PayloadInfos infos) \<Rightarrow> (Inr infos, w1)
                | _ \<Rightarrow> (Inl NotDecoded, w1)))"

definition info_ns :: "process_info \<Rightarrow> string" where
  "info_ns p = (if ac_Namespace (pi_App p) = '''' then DefaultNamespace else ac_Namespace (pi_App p))"

definition info_name :: "process_info \<Rightarrow> string" where "info_name p = ac_Name (pi_App p)"

text \<open>A key first, then an ID, then a name, then a namespace.\<close>

definition matchLogApplications :: "process_info list \<Rightarrow> string \<Rightarrow> process_info list" where
  "matchLogApplications applications target =
     (if target = '''' \<or> target = ''all'' then applications
      else case find (\<lambda>p. info_ns p @ '':'' @ info_name p = target) applications of
        Some p \<Rightarrow> [p]
      | None \<Rightarrow>
          (case (case atoi target of None \<Rightarrow> None | Some i \<Rightarrow> find (\<lambda>p. pi_ID p = i) applications) of
             Some p \<Rightarrow> [p]
           | None \<Rightarrow>
               (let matched = filter (\<lambda>p. info_name p = target) applications in
                if matched \<noteq> [] then matched else filter (\<lambda>p. info_ns p = target) applications)))"

definition sources_of :: "process_info \<Rightarrow> log_source list" where
  "sources_of p =
     (if pi_LogFile p \<noteq> '''' then [\<lparr>so_app = info_name p, so_path = pi_LogFile p, so_stream = StreamStdout\<rparr>] else []) @
     (if pi_ErrorFile p \<noteq> '''' then [\<lparr>so_app = info_name p, so_path = pi_ErrorFile p, so_stream = StreamStderr\<rparr>] else [])"

definition logSources :: "process_info list \<Rightarrow> string \<Rightarrow> stream_error + log_source list" where
  "logSources applications target =
     (let matched = matchLogApplications applications target; sources = concat (map sources_of matched) in
      if matched = [] then Inl (if target = '''' \<or> target = ''all'' then NoApplications else NoMatch target)
      else if sources = [] then Inl (NoLogPaths target)
      else Inr sources)"

datatype received = GotEntry log_entry | GotError follow_error | EntriesClosed | ErrorsClosed | Interrupted

text \<open>
  The lines written, each with its stream, and what the loop returns; \<open>None\<close> while it is still
  waiting. A closed channel is not received from again; \<open>ok n\<close> tells whether the write of the n-th line
  succeeds.
\<close>

fun writeLogStream ::
  "(nat \<Rightarrow> bool) \<Rightarrow> bool \<Rightarrow> bool \<Rightarrow> nat \<Rightarrow> received list \<Rightarrow> (log_stream \<times> string) list \<times> stream_error option option" where
  "writeLogStream ok entries errors n [] = ([], if entries \<or> errors then None else Some None)"
| "writeLogStream ok entries errors n (r # rs) =
     (if \<not> entries \<and> \<not> errors then ([], Some None)
      else case r of
        Interrupted \<Rightarrow> ([], Some None)
      | EntriesClosed \<Rightarrow> writeLogStream ok False errors n rs
      | ErrorsClosed \<Rightarrow> writeLogStream ok entries False n rs
      | GotError e \<Rightarrow> if errors then ([], Some (Some (FollowFailed e))) else writeLogStream ok entries errors n rs
      | GotEntry e \<Rightarrow>
          if \<not> entries then writeLogStream ok entries errors n rs
          else if \<not> ok n then ([], Some (Some (WriteFailed (le_stream e))))
          else (case writeLogStream ok entries errors (Suc n) rs of
                  (out, res) \<Rightarrow> ((le_stream e, entry_string e) # out, res)))"

text \<open>The command up to the follower, which is started on the sources.\<close>

definition streamLogs ::
  "cli_env \<Rightarrow> string \<Rightarrow> cli_world \<Rightarrow> (stream_error + log_source list) \<times> cli_world" where
  "streamLogs en target w =
     (case loadLogApplications en w of
        (Inl e, w1) \<Rightarrow> (Inl e, w1)
      | (Inr applications, w1) \<Rightarrow> (logSources applications target, w1))"

section \<open>The logs of a target are those of the tasks a request on it selects\<close>

lemma filter_map_info: "filter P (map f xs) = map f (filter (P \<circ> f) xs)"
  by (simp add: filter_map)

lemma info_of_entry:
  assumes "configs_ok r" "keys_ok r" "m \<in> set (gm_vals r)"
  shows "info_ns (mp_Info m) = mp_ns m \<and> info_name (mp_Info m) = mp_name m \<and> gm_get r (mp_key m) = Some m"
proof -
  obtain k where "gm_get r k = Some m" using assms(2,3) gm_vals_get [of r m] by (auto simp: keys_ok_def)
  then show ?thesis using assms(1,2) by (auto simp: keys_ok_def configs_ok_def info_ns_def info_name_def)
qed

lemma find_by_key:
  assumes "configs_ok r" "keys_ok r"
  shows "find (\<lambda>m. info_ns (mp_Info m) @ '':'' @ info_name (mp_Info m) = target) (gm_vals r) = gm_get r target"
proof (cases "gm_get r target")
  case None
  have "info_ns (mp_Info m) @ '':'' @ info_name (mp_Info m) \<noteq> target" if "m \<in> set (gm_vals r)" for m
    using info_of_entry [OF assms that] None by (auto simp: mp_key_def cronKey_def)
  then show ?thesis using None by (simp add: find_None_iff)
next
  case (Some m)
  then have "m \<in> set (gm_vals r)" using assms(2) gm_vals_get [of r m] by (auto simp: keys_ok_def)
  moreover have "mp_key m = target" using Some assms(2) by (simp add: keys_ok_def)
  ultimately have "find (\<lambda>m. info_ns (mp_Info m) @ '':'' @ info_name (mp_Info m) = target) (gm_vals r) \<noteq> None"
    using info_of_entry [OF assms] by (auto simp: find_None_iff mp_key_def cronKey_def)
  then obtain m' where m': "find (\<lambda>m. info_ns (mp_Info m) @ '':'' @ info_name (mp_Info m) = target) (gm_vals r) = Some m'"
    by blast
  from find_SomeD [OF m'] info_of_entry [OF assms, of m'] have "gm_get r target = Some m'"
    by (auto simp: mp_key_def cronKey_def)
  then show ?thesis using m' by simp
qed

theorem log_match_is_target_match:
  assumes "reachable home now pm" "sscan_int target = atoi target" "target \<noteq> ''''"
  shows "matchLogApplications (ListAll pm) target = map mp_Info (FindByTarget target (pm_reg pm))"
proof -
  have ok: "configs_ok (pm_reg pm)" "keys_ok (pm_reg pm)" using reachable_ok [OF assms(1)] by (simp_all add: pm_ok_def)
  have n: "filter (\<lambda>m. info_name (mp_Info m) = t) (gm_vals (pm_reg pm)) = filter (\<lambda>m. mp_name m = t) (gm_vals (pm_reg pm))"
    "filter (\<lambda>m. info_ns (mp_Info m) = t) (gm_vals (pm_reg pm)) = filter (\<lambda>m. mp_ns m = t) (gm_vals (pm_reg pm))" for t
    using info_of_entry [OF ok] by (auto intro!: filter_cong)
  show ?thesis
    using assms(2,3) find_by_key [OF ok, of target]
    by (auto simp: matchLogApplications_def FindByTarget_def ListAll_def Registry_Snapshot_def find_map filter_map_info
        comp_def n Let_def split: option.splits)
qed


text \<open>A target that starts with a letter is no number for either of the two.\<close>

lemma word_target:
  assumes "\<not> is_space c" "c \<noteq> CHR ''-''" "c \<noteq> CHR ''+''" "\<not> scan_digit 10 c"
  shows "sscan_int (c # cs) = atoi (c # cs)"
proof -
  have d: "\<not> is_digit c" using assms(4) is_digit_scan [of c] by blast
  then have "c \<noteq> CHR ''0''" by (auto simp: is_digit_def)
  then show ?thesis using assms d by (simp add: sscan_int_def atoi_def Let_def)
qed

lemma list_reply:
  assumes "cw_daemon w = Some d" "SendRequest en (command_req CmdList) w = (Some resp, w1)"
  shows "resp = resp_payload (PayloadInfos (ListAll (dm_pm d)))"
  using assms by (auto simp: SendRequest_def Handle_def dispatch_def command_req_def cmd_defs Let_def
      split: if_splits prod.splits)

text \<open>What is followed are the logs of the tasks a request on the target would select.\<close>

lemma stream_sources:
  assumes "cw_daemon w = Some d" "reachable home now (dm_pm d)" "sscan_int target = atoi target" "target \<noteq> ''''"
    "SendRequest en (command_req CmdList) w = (Some resp, w1)"
  shows "fst (streamLogs en target w) =
    (let selected = FindByTarget target (pm_reg (dm_pm d)); sources = concat (map (sources_of \<circ> mp_Info) selected) in
     if selected = [] then Inl (if target = ''all'' then NoApplications else NoMatch target)
     else if sources = [] then Inl (NoLogPaths target) else Inr sources)"
  using assms(4,5) list_reply [OF assms(1,5)]
  by (simp add: streamLogs_def loadLogApplications_def resp_payload_def logSources_def Let_def
      log_match_is_target_match [OF assms(2-4)])

section \<open>What is printed\<close>

definition entry_of :: "received \<Rightarrow> log_entry option" where
  "entry_of r = (case r of GotEntry e \<Rightarrow> Some e | _ \<Rightarrow> None)"

definition printed :: "log_entry \<Rightarrow> log_stream \<times> string" where
  "printed e = (le_stream e, entry_string e)"

lemma entry_of_simps [simp]:
  "entry_of (GotEntry e) = Some e" "entry_of (GotError f) = None" "entry_of EntriesClosed = None"
  "entry_of ErrorsClosed = None" "entry_of Interrupted = None"
  by (simp_all add: entry_of_def)

lemma no_entries: "fst (writeLogStream ok False errors n rs) = []"
  by (induction rs arbitrary: errors) (simp_all split: received.split)

text \<open>The lines go out in the order they arrive, each to its own stream, none left out before the end.\<close>

theorem log_lines_in_order:
  "\<exists>k. fst (writeLogStream ok entries errors n rs) = take k (map printed (List.map_filter entry_of rs))"
proof (induction ok entries errors n rs rule: writeLogStream.induct)
  case (2 ok entries errors n r rs)
  show ?case
  proof (cases "\<not> entries \<and> \<not> errors")
    case False
    note IH = 2 [OF False]
    show ?thesis
    proof (cases r)
      case (GotEntry e)
      show ?thesis
      proof (cases "entries \<and> ok n")
        case True
        then obtain k where "fst (writeLogStream ok entries errors (Suc n) rs) = take k (map printed (List.map_filter entry_of rs))"
          using IH(2) GotEntry by blast
        then show ?thesis using False True GotEntry
          by (cases "writeLogStream ok entries errors (Suc n) rs")
            (intro exI [of _ "Suc k"], simp add: map_filter_simps printed_def [symmetric])
      next
        case stop: False
        show ?thesis
        proof (cases entries)
          case True
          with stop GotEntry False show ?thesis by (intro exI [of _ 0]) simp
        qed (use GotEntry False no_entries in \<open>auto intro: exI [of _ 0]\<close>)
      qed
    next
      case Interrupted
      then show ?thesis by (intro exI [of _ 0]) simp
    qed (use IH False in \<open>auto simp: map_filter_simps intro: exI [of _ 0]\<close>)
  qed (auto intro: exI [of _ 0])
qed simp

end
