(* ===== verification/Daemon_Server.thy ===== *)
theory Daemon_Server
  imports Daemon_RPC Daemon_Socket Run_Journal Go_Time Engine_Results Daemon_Steps
begin

text \<open>
  The start of the daemon: \<open>daemon/server.go\<close>, the state of the web server in
  \<open>daemon/web\_listen.go\<close>, \<open>pruneHistory\<close> of \<open>history.go\<close> and \<open>startWorkflows\<close> of \<open>workflow.go\<close>. The
  socket is claimed first; the parts that follow it are functions of the daemon's state, the two
  goroutines are steps of their own. The daemon's own log is a writer of \<open>Log_Writer\<close> and is left out.
\<close>

definition DefaultHost :: string where "DefaultHost = ''0.0.0.0''"

definition DefaultPort :: int where "DefaultPort = 8502"

record server =
  sv_daemon :: daemon
  sv_history :: store
  sv_WebHost :: string
  sv_WebPort :: int

definition NewServer :: "string \<Rightarrow> gotime \<Rightarrow> engine \<Rightarrow> store \<Rightarrow> server" where
  "NewServer home now eng hist =
     \<lparr>sv_daemon = \<lparr>dm_pm = NewProcessManager home now, dm_engine = eng\<rparr>, sv_history = hist,
      sv_WebHost = DefaultHost, sv_WebPort = DefaultPort\<rparr>"

datatype web_answer = WebBound string | WebRefused string

definition webState_set :: "string \<Rightarrow> string \<Rightarrow> daemon \<Rightarrow> daemon" where
  "webState_set addr err d = d\<lparr>dm_pm := (dm_pm d)\<lparr>pm_web := Some (addr, err)\<rparr>\<rparr>"

text \<open>\<open>ask host port\<close> is the answer of the listen call.\<close>

definition startWeb :: "(string \<Rightarrow> int \<Rightarrow> web_answer) \<Rightarrow> server \<Rightarrow> server" where
  "startWeb ask s =
     (if sv_WebPort s \<le> 0 then s
      else (case ask (if sv_WebHost s = '''' then DefaultHost else sv_WebHost s) (sv_WebPort s) of
              WebRefused e \<Rightarrow> s\<lparr>sv_daemon := webState_set '''' e (sv_daemon s)\<rparr>
            | WebBound addr \<Rightarrow> s\<lparr>sv_daemon := webState_set addr '''' (sv_daemon s)\<rparr>))"

text \<open>The goroutine of the server, once \<open>Serve\<close> has failed.\<close>

definition web_stopped :: "string \<Rightarrow> daemon \<Rightarrow> daemon" where
  "web_stopped e d = webState_set '''' e d"

definition startWorkflows :: "engine_env \<Rightarrow> server \<Rightarrow> server" where
  "startWorkflows ev s =
     s\<lparr>sv_daemon := (sv_daemon s)\<lparr>dm_engine := snd (Engine_Load ev (dm_engine (sv_daemon s)))\<rparr>\<rparr>"

definition pruneHistory :: "(string \<Rightarrow> bool) \<Rightarrow> civil \<Rightarrow> server \<Rightarrow> server" where
  "pruneHistory rm now s = s\<lparr>sv_history := snd (Store_Prune rm DefaultKeepDays now (sv_history s))\<rparr>"

record listen_env =
  ls_bind :: bind_env
  ls_remove :: "string \<Rightarrow> bool"
  ls_today :: civil
  ls_engine :: engine_env
  ls_web :: "string \<Rightarrow> int \<Rightarrow> web_answer"

text \<open>\<open>Listen\<close> up to \<open>Serve\<close>: the error it returns, or the daemon that serves.\<close>

definition Listen :: "listen_env \<Rightarrow> server \<Rightarrow> bind_error option \<times> server" where
  "Listen en s =
     (case fst (Bind (ls_bind en)) of
        Some e \<Rightarrow> (Some e, s)
      | None \<Rightarrow> (None, startWeb (ls_web en) (startWorkflows (ls_engine en) (pruneHistory (ls_remove en) (ls_today en) s))))"

definition startAutoResurrect :: "pm_env \<Rightarrow> pm \<Rightarrow> pm" where
  "startAutoResurrect ev pm = snd (Resurrect ev pm)"

text \<open>The interval, which a value that does not parse leaves at ten minutes.\<close>

definition autoSaveInterval :: "string \<Rightarrow> duration" where
  "autoSaveInterval env =
     (let default_interval = 600 * 1000000000 in
      if env = '''' then default_interval
      else (case ParseDuration env of Inr d \<Rightarrow> d | Inl _ \<Rightarrow> default_interval))"

text \<open>\<open>time.NewTicker\<close> panics on an interval that is not positive; nothing recovers it.\<close>

definition startAutoSave :: "string \<Rightarrow> duration option" where
  "startAutoSave env = (if autoSaveInterval env \<le> 0 then None else Some (autoSaveInterval env))"

definition auto_save_tick :: "pm_env \<Rightarrow> pm \<Rightarrow> pm" where
  "auto_save_tick ev pm = snd (Save ev pm)"

section \<open>What a start guarantees\<close>

text \<open>
  Only the socket decides whether the daemon runs: neither the web port, nor a torn workflow
  file, nor the history does. A refused daemon has touched nothing.
\<close>

theorem only_the_socket_stops_a_start:
  "fst (Listen en s) = fst (Bind (ls_bind en)) \<and> (fst (Listen en s) \<noteq> None \<longrightarrow> snd (Listen en s) = s)"
  by (simp add: Listen_def split: option.split)

text \<open>What a start reports of the web server, and that it does no more to the manager.\<close>

theorem start_reports_the_web_server:
  assumes "fst (Listen en s) = None" "dm_pm (sv_daemon s) = NewProcessManager home now"
  shows "\<exists>w. dm_pm (sv_daemon (snd (Listen en s))) = (NewProcessManager home now)\<lparr>pm_web := w\<rparr> \<and>
    (w = None \<longleftrightarrow> sv_WebPort s \<le> 0) \<and>
    (\<forall>a e. w = Some (a, e) \<longrightarrow>
       ls_web en (if sv_WebHost s = '''' then DefaultHost else sv_WebHost s) (sv_WebPort s) =
         (if a = '''' then WebRefused e else WebBound a) \<or> a = '''' \<and> e = '''')"
proof -
  have l: "snd (Listen en s) =
      startWeb (ls_web en) (startWorkflows (ls_engine en) (pruneHistory (ls_remove en) (ls_today en) s))"
    using assms(1) by (auto simp: Listen_def split: option.splits)
  show ?thesis
    unfolding l using assms(2)
    by (auto simp: startWeb_def startWorkflows_def pruneHistory_def webState_set_def NewProcessManager_def split: web_answer.split)
qed

theorem start_keeps_the_engine_ok:
  assumes "engine_ok (dm_engine (sv_daemon s))"
  shows "engine_ok (dm_engine (sv_daemon (snd (Listen en s))))"
  using assms engine_ok_Load
  by (auto simp: Listen_def startWeb_def startWorkflows_def pruneHistory_def webState_set_def split: option.split web_answer.split)

text \<open>The goroutines are steps of the daemon.\<close>

lemma resurrect_is_a_step: "daemon_step pm (startAutoResurrect ev pm)"
  using step_request [of pm ev ReqResurrect] by (simp add: serve_def startAutoResurrect_def)

lemma auto_save_is_a_step: "daemon_step pm (auto_save_tick ev pm)"
  using step_request [of pm ev ReqSave] by (simp add: serve_def auto_save_tick_def)

text \<open>A dump the daemon could not read is written over by the first save.\<close>

theorem unreadable_dump_is_lost:
  assumes "pm_dump pm = DumpTorn" "pm_reg pm = []" "pe_dump_write ev (pm_tick pm) = DumpWritten"
  shows "fst (Resurrect ev pm) = Some DumpIncompatible \<and>
    pm_dump (auto_save_tick ev (startAutoResurrect ev pm)) = DumpEntries []"
  using assms by (simp add: Resurrect_def startAutoResurrect_def auto_save_tick_def Save_def SnapshotAppConfigs_def gm_vals_def)

text \<open>An interval of zero, or a negative one, ends the daemon.\<close>

theorem nonpositive_interval_panics:
  "startAutoSave env = None \<longleftrightarrow> env \<noteq> '''' \<and> (\<exists>d \<le> 0. ParseDuration env = Inr d)"
  by (auto simp: startAutoSave_def autoSaveInterval_def Let_def split: sum.split)

lemma zero_interval_panics: "startAutoSave ''0s'' = None" "startAutoSave ''-5m'' = None"
  by code_simp+

end
