(* ===== verification/Cli_Print.thy ===== *)
theory Cli_Print
  imports View_Dashboard Wizard_Write Cli_Client Run_Journal
begin

text \<open>
  What the commands print: \<open>cmd/workflow/\<close> (\<open>list.go\<close>, \<open>runs.go\<close>, \<open>show.go\<close>, \<open>run.go\<close>),
  \<open>cmd/daemon/status.go\<close>, \<open>cmd/list.go\<close>, \<open>cmd/gpu/status.go\<close> and \<open>cmd/taskmanager/emit\_text.go\<close>, with the
  column algorithm of \<open>text/tabwriter\<close> that the tables go through. The clock, the calendar and the
  terminal are those of the screens (\<open>view_env\<close>).
\<close>

section \<open>text/tabwriter, for the settings of the code\<close>

text \<open>
  Minimal width 0, padding 2 with blanks, no flags. A cell ends at a tab; what follows the last tab of
  a line belongs to no column. \<open>widths\<close> are those of the columns to the left; a run of lines that have a
  cell in the next column is one block, whose width is that of its widest cell and the padding.
\<close>

definition cell_width :: "string \<Rightarrow> nat" where "cell_width s = length (runes s)"

fun write_line :: "nat list \<Rightarrow> string list \<Rightarrow> string" where
  "write_line (w # ws) (c # cs) = c @ replicate (w - cell_width c) CHR '' '' @ write_line ws cs"
| "write_line [] cs = concat cs"
| "write_line ws [] = ''''"

definition has_column :: "nat \<Rightarrow> string list \<Rightarrow> bool" where
  "has_column column line \<longleftrightarrow> Suc column < length line"

definition column_width :: "nat \<Rightarrow> string list list \<Rightarrow> nat" where
  "column_width column block = Max (insert 0 ((\<lambda>line. cell_width (line ! column) + 2) ` set block))"

text \<open>The fuel bounds the columns; a line has fewer columns than cells.\<close>

function format_lines :: "nat \<Rightarrow> nat list \<Rightarrow> string list list \<Rightarrow> string list" where
  "format_lines fuel widths [] = []"
| "format_lines 0 widths (l # ls) = map (write_line widths) (l # ls)"
| "format_lines (Suc fuel) widths (l # ls) =
     (let n = length widths in
      if \<not> has_column n l then write_line widths l # format_lines (Suc fuel) widths ls
      else (let block = l # takeWhile (has_column n) ls in
            format_lines fuel (widths @ [column_width n block]) block @
            format_lines (Suc fuel) widths (dropWhile (has_column n) ls)))"
  by pat_completeness auto

termination format_lines
  by (relation "inv_image (less_than <*lex*> less_than) (\<lambda>(fuel, _, ls). (fuel, length ls))")
    (auto simp: le_imp_less_Suc length_dropWhile_le)

definition tab :: char where "tab = char_of (9 :: nat)"

definition tabwriter :: "string \<Rightarrow> string" where
  "tabwriter s =
     (let ls = map (str_split tab) (split_lines s)
      in lines_of (format_lines (foldr max (map length ls) 0) [] ls))"

text \<open>One \<open>Fprintln\<close> of cells with tabs between them.\<close>

definition tab_row :: "string list \<Rightarrow> string" where
  "tab_row cells = str_join [tab] cells @ [newline]"


section \<open>Durations\<close>

text \<open>\<open>Duration.String\<close>: the largest fitting unit below a second, else hours, minutes and seconds.\<close>

fun strip_zeros :: "string \<Rightarrow> string" where
  "strip_zeros [] = []"
| "strip_zeros (c # cs) = (let r = strip_zeros cs in if r = [] \<and> c = CHR ''0'' then [] else c # r)"

definition with_fraction :: "nat \<Rightarrow> nat \<Rightarrow> string" where
  "with_fraction digits v =
     (let frac = strip_zeros (low_digits digits (v mod 10 ^ digits))
      in itoa (int (v div 10 ^ digits)) @ (if frac = [] then [] else CHR ''.'' # frac))"

definition Duration_String :: "duration \<Rightarrow> string" where
  "Duration_String d =
     (let u = nat \<bar>d\<bar>; sec = 1000000000; s = u div sec in
      (if d < 0 then ''-'' else '''') @
      (if u = 0 then ''0s''
       else if u < 1000 then itoa (int u) @ ''ns''
       else if u < 1000000 then with_fraction 3 u @ utf8 181 @ ''s''
       else if u < sec then with_fraction 6 u @ ''ms''
       else
         (let t = with_fraction 9 (s mod 60 * sec + u mod sec) @ ''s'' in
          if s div 60 = 0 then t
          else if s div 3600 = 0 then itoa (int (s div 60)) @ ''m'' @ t
          else itoa (int (s div 3600)) @ ''h'' @ itoa (int (s div 60 mod 60)) @ ''m'' @ t)))"

definition humanMS :: "int \<Rightarrow> string" where
  "humanMS ms = (if ms \<le> 0 then Dash else Duration_String (sint (word_of_int (ms * 1000000) :: 64 word)))"

section \<open>pm2 workflow list, runs, show\<close>

definition trigger_text :: "trigger \<Rightarrow> string" where
  "trigger_text t =
     (case t of
        TriggerNone \<Rightarrow> '''' | TriggerManual \<Rightarrow> ''manual'' | TriggerCron \<Rightarrow> ''cron''
      | TriggerCronRestart \<Rightarrow> ''cron_restart'' | TriggerWatch \<Rightarrow> ''watch'' | TriggerAutoRestart \<Rightarrow> ''autorestart''
      | TriggerResurrect \<Rightarrow> ''resurrect'' | TriggerRestart \<Rightarrow> ''restart'' | TriggerWebhook \<Rightarrow> ''webhook''
      | TriggerNested \<Rightarrow> ''nested'')"

definition dash_or :: "string \<Rightarrow> string" where "dash_or s = (if s = '''' then Dash else s)"

definition run_label :: "run_status option \<Rightarrow> string" where
  "run_label s = (if s = None then Dash else status_text s)"

definition date_clock :: "view_env \<Rightarrow> gotime \<Rightarrow> string" where
  "date_clock en t = fmt_timestamp (vw_civil en t)"

definition stateOf :: "wf_status \<Rightarrow> string" where
  "stateOf st =
     (if ws_Running st then ''running''
      else if ws_LastStatus st = None then ''never run'' else status_text (ws_LastStatus st))"

definition lastRunOf :: "view_env \<Rightarrow> wf_status \<Rightarrow> string" where
  "lastRunOf en st =
     (if ws_Running st then ws_RunID st
      else if is_zero_time (ws_LastRunAt st) then Dash else date_clock en (ws_LastRunAt st))"

definition no_workflows :: string where
  "no_workflows =
     ''No workflows registered. Declare them in the workflows: block of your ecosystem file, then run: pm2 apply''"

definition workflow_list_rows :: "view_env \<Rightarrow> wf_status list \<Rightarrow> string list list" where
  "workflow_list_rows en sts =
     [''CATEGORY'', ''NAME'', ''STAGES'', ''CRON'', ''STATE'', ''LAST RUN''] #
     map (\<lambda>st. let c = ws_Config st in
            [wc_Category c, wc_Name c, itoa (int (length (wc_Stages c))), dash_or (wc_Cron c), stateOf st, lastRunOf en st]) sts"

definition renderWorkflowList :: "view_env \<Rightarrow> wf_status list \<Rightarrow> string" where
  "renderWorkflowList en sts =
     (if sts = [] then no_workflows @ [newline]
      else tabwriter (concat (map tab_row (workflow_list_rows en sts))))"

definition run_rows :: "view_env \<Rightarrow> workflow_record list \<Rightarrow> string list list" where
  "run_rows en recs =
     [''RUN ID'', ''WORKFLOW'', ''TRIGGER'', ''STATUS'', ''DURATION'', ''FINISHED''] #
     map (\<lambda>r. [wr_RunID r, wr_Workflow r, trigger_text (wr_Trigger r), run_label (wr_Status r),
               humanMS (wr_DurationMS r), date_clock en (wr_FinishedAt r)]) recs"

definition renderRuns :: "view_env \<Rightarrow> workflow_record list \<Rightarrow> string" where
  "renderRuns en recs =
     (if recs = [] then ''No workflow runs recorded yet.'' @ [newline]
      else tabwriter (concat (map tab_row (run_rows en recs))))"

definition exitLabel :: "stage_record \<Rightarrow> string" where
  "exitLabel st =
     (if sgr_Signal st \<noteq> '''' then sgr_Signal st
      else (case sgr_ExitCode st of None \<Rightarrow> Dash | Some c \<Rightarrow> itoa c))"

definition stage_rows :: "stage_record list \<Rightarrow> string list list" where
  "stage_rows sts =
     [''#'', ''STAGE'', ''KIND'', ''STATUS'', ''EXIT'', ''DURATION''] #
     map (\<lambda>(i, st). [itoa (int i + 1), sgr_Name st, dash_or (sgr_Kind st), run_label (sgr_Status st), exitLabel st,
                     humanMS (sgr_DurationMS st)]) (enumerate 0 sts)"

definition out_line :: "string \<Rightarrow> string" where "out_line s = s @ [newline]"

text \<open>\<open>other\<close> quotes the runes beyond ASCII for \<open>%q\<close>.\<close>

definition renderRecord :: "view_env \<Rightarrow> (string \<Rightarrow> string) \<Rightarrow> workflow_record \<Rightarrow> string" where
  "renderRecord en other r =
     out_line (wr_Workflow r @ ''  '' @ wr_RunID r) @
     out_line (''trigger: '' @ trigger_text (wr_Trigger r) @ ''    status: '' @ run_label (wr_Status r) @
           ''    duration: '' @ humanMS (wr_DurationMS r)) @
     out_line (''started: '' @ date_clock en (wr_StartedAt r) @ ''    finished: '' @ date_clock en (wr_FinishedAt r)) @
     (if wr_ParentRunID r \<noteq> ''''
      then out_line (''called by run '' @ wr_ParentRunID r @ '' (depth '' @ itoa (int (wr_Depth r)) @ '')'') else '''') @
     (if wr_Error r \<noteq> '''' then out_line (''error: '' @ wr_Error r) else '''') @
     [newline] @
     tabwriter (concat (map tab_row (stage_rows (wr_Stages r)))) @
     concat (map (\<lambda>st.
       (if sgr_Error st \<noteq> ''''
        then [newline] @ out_line (''stage '' @ strconv_quote other (sgr_Name st) @ '': '' @ sgr_Error st) else '''') @
       (if sgr_ChildRunID st \<noteq> ''''
        then out_line (''stage '' @ strconv_quote other (sgr_Name st) @ '' ran workflow '' @ sgr_Ref st @ '' '' @ Dash @
                   '' see: pm2 workflow show '' @ sgr_ChildRunID st) else '''')) (wr_Stages r))"

text \<open>A log that opens, or the text of the error; a read that fails half way is its second half.\<close>

datatype log_read = LogMissing string | LogRead string "string option"

definition printStageLog :: "log_read \<Rightarrow> string" where
  "printStageLog l =
     (case l of
        LogMissing e \<Rightarrow> out_line (''(log unavailable: '' @ e @ '')'')
      | LogRead content e \<Rightarrow>
          content @ (case e of None \<Rightarrow> '''' | Some x \<Rightarrow> out_line (''(log truncated: '' @ x @ '')'')))"

datatype show_error = HistoryUnreadable | NoSuchRun string

definition runShow ::
  "view_env \<Rightarrow> (string \<Rightarrow> string) \<Rightarrow> codec \<Rightarrow> (string \<Rightarrow> bool) \<Rightarrow> (string \<Rightarrow> log_read) \<Rightarrow> string \<Rightarrow> store \<Rightarrow>
   string \<Rightarrow> bool \<Rightarrow> show_error + string" where
  "runShow en other cd rd logs home s runID withLogs =
     (case WorkflowRun cd rd runID s of
        None \<Rightarrow> Inl HistoryUnreadable
      | Some None \<Rightarrow> Inl (NoSuchRun runID)
      | Some (Some r) \<Rightarrow>
          Inr (renderRecord en other r @
            (if withLogs
             then concat (map (\<lambda>st.
                    if sgr_Log st = '''' then ''''
                    else [newline] @ out_line (utf8 9472 @ utf8 9472 @ utf8 9472 @ '' '' @ sgr_Name st @ '' '' @
                                           utf8 9472 @ utf8 9472 @ utf8 9472) @
                         printStageLog (logs (StageLogPath home (wr_Workflow r) (wr_RunID r) (sgr_Name st)))) (wr_Stages r))
             else '''')))"

definition runRuns ::
  "view_env \<Rightarrow> codec \<Rightarrow> (string \<Rightarrow> bool) \<Rightarrow> store \<Rightarrow> query \<Rightarrow> string option" where
  "runRuns en cd rd s q =
     (case RecentWorkflows cd rd q s of (recs, ok) \<Rightarrow> if ok then Some (renderRuns en recs) else None)"


section \<open>pm2 workflow run, list\<close>

datatype workflow_cmd_error =
    CmdClient cli_error
  | CmdSays "rpc_error option"
  | CmdNotDecoded
  | CmdUnsuccessful string string

definition run_request :: "string \<Rightarrow> bool \<Rightarrow> rpc_request" where
  "run_request ref wait =
     (command_req CmdWorkflowRun)
       \<lparr>rr_Workflow := Some \<lparr>wq_Configs = [], wq_Ref = ref, wq_RunID = [], wq_Wait = wait\<rparr>\<rparr>"

text \<open>What is printed, and the error the command ends with.\<close>

definition runWorkflow ::
  "view_env \<Rightarrow> (string \<Rightarrow> string) \<Rightarrow> cli_env \<Rightarrow> string \<Rightarrow> bool \<Rightarrow> cli_world \<Rightarrow>
   (string \<times> workflow_cmd_error option) \<times> cli_world" where
  "runWorkflow en other ce ref wait w =
     (case CLIClient_Send ce (run_request ref wait) w of
        (Inl e, w1) \<Rightarrow> (([], Some (CmdClient e)), w1)
      | (Inr resp, w1) \<Rightarrow>
          if \<not> rp_OK resp then (([], Some (CmdSays (rp_Error resp))), w1)
          else (case rp_Payload resp of
                  Some (PayloadRun run) \<Rightarrow>
                    if \<not> wait
                    then ((out_line (Run_Key run @ '' started (run '' @ rn_ID run @ '')'') @
                           out_line (''Follow it with: pm2 workflow show '' @ rn_ID run), None), w1)
                    else ((renderRecord en other (Run_Record run),
                           if rn_Status run = Some RunSuccess then None
                           else Some (CmdUnsuccessful (Run_Key run) (run_label (rn_Status run)))), w1)
                | _ \<Rightarrow> (([], Some CmdNotDecoded), w1)))"

text \<open>Listing does not start a daemon.\<close>

definition workflow_runList ::
  "view_env \<Rightarrow> cli_env \<Rightarrow> cli_world \<Rightarrow> (workflow_cmd_error + string) \<times> cli_world" where
  "workflow_runList en ce w =
     (case SendRequest ce (command_req CmdWorkflowList) w of
        (None, w1) \<Rightarrow> (Inl (CmdClient NoDaemon), w1)
      | (Some resp, w1) \<Rightarrow>
          if \<not> rp_OK resp then (Inl (CmdSays (rp_Error resp)), w1)
          else (case rp_Payload resp of
                  Some (PayloadWorkflows sts) \<Rightarrow> (Inr (renderWorkflowList en sts), w1)
                | _ \<Rightarrow> (Inl CmdNotDecoded, w1)))"

section \<open>pm2 daemon status, pm2 list\<close>

text \<open>Whole seconds, towards zero.\<close>

definition truncate_seconds :: "duration \<Rightarrow> duration" where
  "truncate_seconds d = trunc_div d second * second"

definition runStatus :: "view_env \<Rightarrow> cli_env \<Rightarrow> string \<Rightarrow> cli_world \<Rightarrow> (rpc_error option + string option) \<times> cli_world" where
  "runStatus en ce sock w =
     (case SendRequest ce (command_req CmdStatus) w of
        (None, w1) \<Rightarrow>
          (Inr (Some (out_line ''PM2 daemon is not running.'' @ out_line (''  socket:      '' @ sock) @
                      out_line ''  Start with:  pm2 daemon start'')), w1)
      | (Some resp, w1) \<Rightarrow>
          if \<not> rp_OK resp then (Inl (rp_Error resp), w1)
          else (case rp_Payload resp of
                  Some (PayloadStatus info) \<Rightarrow>
                    (let up = Duration_String (truncate_seconds (since en (di_StartedAt info))) in
                     (Inr (Some (out_line ''PM2 daemon'' @ out_line ''  status:      running'' @
                        out_line (''  pid:         '' @ itoa (di_PID info)) @
                        out_line (''  started:     '' @ date_clock en (di_StartedAt info) @ '' ('' @ up @ '' ago)'') @
                        out_line (''  uptime:      '' @ up) @
                        out_line (''  version:     '' @ di_Version info) @
                        out_line (''  home:        '' @ di_HomeDir info) @
                        out_line (''  socket:      '' @ sock) @
                        out_line (''  processes:   '' @ itoa (di_ProcessCount info)) @
                        out_line (if di_WebError info \<noteq> '''' then ''  web:         unavailable ('' @ di_WebError info @ '')''
                              else if di_WebAddr info \<noteq> '''' then ''  web:         '' @ di_WebAddr info @ '' (LAN, no authentication)''
                              else ''  web:         disabled''))), w1))
                | _ \<Rightarrow> (Inr None, w1)))"

text \<open>The terminal's width, if it is one, then \<open>COLUMNS\<close>, then 120.\<close>

definition termWidth :: "int option \<Rightarrow> string \<Rightarrow> int" where
  "termWidth tty columns =
     (let from_env = (case atoi columns of Some w \<Rightarrow> if 0 < w then w else 120 | None \<Rightarrow> 120)
      in case tty of Some w \<Rightarrow> if 0 < w then w else from_env | None \<Rightarrow> from_env)"

definition renderList :: "view_env \<Rightarrow> int option \<Rightarrow> string \<Rightarrow> process_info list \<Rightarrow> bool \<Rightarrow> string option" where
  "renderList en tty columns infos noColor =
     map_option out_line (RenderProcessTable en infos \<lparr>to_Width = termWidth tty columns, to_NoColor = noColor\<rparr>)"

section \<open>pm2 gpu status\<close>

definition gpu_field :: "string \<Rightarrow> string \<Rightarrow> string" where
  "gpu_field label v = pad_right 12 (label @ '':'') @ '' '' @ v"

definition gpuAgentLabel :: string where "gpuAgentLabel = ''com.shuk.pm2.gpu''"

text \<open>The process with the most GPU time, the first of several.\<close>

fun busiest :: "int \<times> rat \<Rightarrow> (int \<times> rat) list \<Rightarrow> int \<times> rat" where
  "busiest b [] = b"
| "busiest b (p # ps) = busiest (if snd b < snd p then p else b) ps"

definition perProcessSummary :: "gpu_reading \<Rightarrow> string" where
  "perProcessSummary g =
     (if \<not> gp_Supported g then ''unsupported on this hardware''
      else case gp_Processes g of
        [] \<Rightarrow> ''supported; no process used the GPU this sample''
      | p # ps \<Rightarrow>
          itoa (int (length (p # ps))) @ '' processes; busiest pid '' @ itoa (fst (busiest p ps)) @ '' at '' @
          fixed 1 (snd (busiest p ps) / 10) @ ''%'')"

definition round_ms :: "duration \<Rightarrow> duration" where
  "round_ms d = sgn d * ((\<bar>d\<bar> + 500000) div 1000000 * 1000000)"

text \<open>\<open>missing\<close> tells an absent file from an unreadable one; \<open>text\<close> is the text of the error.\<close>

definition formatStatus :: "view_env \<Rightarrow> string \<Rightarrow> gpu_error + gpu_reading \<Rightarrow> bool \<Rightarrow> string \<Rightarrow> string" where
  "formatStatus en path reading missing text =
     lines_of
       ((case reading of
           Inr g \<Rightarrow>
             [gpu_field ''status'' ''publishing'', gpu_field ''source'' (gp_Source g),
              gpu_field ''utilization'' (fixed 1 (gp_Utilization g) @ ''%''),
              gpu_field ''frequency'' (fixed 0 (gp_Frequency g) @ '' MHz''),
              gpu_field ''power'' (fixed 0 (gp_Power g) @ '' mW''),
              gpu_field ''age'' (Duration_String (round_ms (since en (gp_SampledAt g)))),
              gpu_field ''interval'' (fixed 1 (gp_Interval g) @ ''s''),
              gpu_field ''per-process'' (perProcessSummary g)]
         | Inl e \<Rightarrow>
             if missing \<and> e = GpuUnreadable
             then [gpu_field ''status'' ''no agent'', gpu_field ''reason'' ''nothing has published a reading'',
                   gpu_field ''fix'' ''sudo pm2 gpu install'']
             else if e = GpuStale
             then [gpu_field ''status'' ''stale'', gpu_field ''reason'' text,
                   gpu_field ''fix'' (''sudo launchctl kickstart -k system/'' @ gpuAgentLabel)]
             else [gpu_field ''status'' ''unreadable'', gpu_field ''reason'' text]) @
        [gpu_field ''path'' path]) @ [newline]"

section \<open>pm2 taskmanager emit --format text\<close>

definition gpuFields :: "view_env \<Rightarrow> gpu_reading option \<Rightarrow> string" where
  "gpuFields en gpu =
     (case gpu of
        None \<Rightarrow> ''''
      | Some g \<Rightarrow>
          '' gpu='' @ fixed 1 (gp_Utilization g) @ ''% gpu_mhz='' @ fixed 0 (gp_Frequency g) @ '' gpu_mw='' @
          fixed 0 (gp_Power g) @ '' gpu_age='' @ fixed 0 (of_int (since en (gp_SampledAt g)) / of_int second) @ ''s'')"

text \<open>The conversion of a rate to an unsigned integer, for rates from 0 to below $2^{64}$.\<close>

definition rate_bytes :: "rat \<Rightarrow> string option" where
  "rate_bytes x = FormatBytes (word_of_int \<lfloor>x\<rfloor>)"

definition emit_hostLine :: "view_env \<Rightarrow> (host, host_system) snapshot \<Rightarrow> string option" where
  "emit_hostLine en sp =
     (let sys = fst (sp_System sp); c = sy_CPU sys; m = sy_Memory sys; nw = sy_Network sys; io = sy_DiskIO sys in
      case sy_Load sys of
        (one, five, fifteen) \<Rightarrow>
          do { used \<leftarrow> FormatBytes (me_Used m);
               avail \<leftarrow> FormatBytes (me_Available m);
               swap \<leftarrow> FormatBytes (me_SwapUsed m);
               swapTotal \<leftarrow> FormatBytes (me_SwapTotal m);
               rx \<leftarrow> rate_bytes (nw_Rx nw);
               tx \<leftarrow> rate_bytes (nw_Tx nw);
               dio \<leftarrow> rate_bytes (io_Bytes io);
               Some (''scope=host host='' @ ho_Hostname (sp_Host sp) @ '' cpu='' @ percent_text (cp_Used c) @ '' user='' @
                 percent_text (cp_User c) @ '' sys='' @ percent_text (cp_Sys c) @ '' load='' @ fixed 2 one @ ''/'' @
                 fixed 2 five @ ''/'' @ fixed 2 fifteen @ '' mem='' @ percent_text (me_UsedPercent m) @ '' mem_used='' @ used @
                 '' mem_avail='' @ avail @ '' swap='' @ swap @ ''/'' @ swapTotal @ '' net_if='' @ dash_or (nw_Interface nw) @
                 '' net_rx='' @ rx @ ''/s net_tx='' @ tx @ ''/s disk_io='' @ dio @ ''/s disk_iops='' @
                 fixed 0 (io_Transfers io) @ '' procs='' @ itoa (pn_Total (sp_Processes sp)) @ '' running='' @
                 itoa (pn_Running (sp_Processes sp)) @ '' uptime='' @ itoa (ho_Uptime (sp_Host sp)) @ ''s'' @
                 gpuFields en (snd (sp_System sp))) })"

definition diskLine :: "(string \<Rightarrow> string) \<Rightarrow> disk \<Rightarrow> string option" where
  "diskLine other d =
     do { used \<leftarrow> FormatBytes (dk_Used d);
          whole \<leftarrow> FormatBytes (dk_Total d);
          Some (''scope=disk mount='' @ strconv_quote other (dk_Mount d) @ '' used='' @ used @ '' total='' @ whole @
                '' pct='' @ fixed 1 (dk_UsedPercent d)) }"

definition taskGPUFields :: "sys_task \<Rightarrow> string" where
  "taskGPUFields t =
     (if sk_TreeGPU t \<le> 0 then '''' else '' gpu='' @ percent_text (sk_GPU t) @ '' tree_gpu='' @ percent_text (sk_TreeGPU t))"

definition portList :: "port list \<Rightarrow> string" where
  "portList ports =
     (if ports = [] then Dash else str_join '','' (map (\<lambda>p. po_Protocol p @ ''/'' @ itoa (po_Port p)) ports))"

definition taskLine :: "(string \<Rightarrow> string) \<Rightarrow> sys_task \<Rightarrow> string option" where
  "taskLine other t =
     do { mem \<leftarrow> FormatBytes (sk_Memory t);
          tree \<leftarrow> FormatBytes (sk_TreeMemory t);
          Some (''scope=task name='' @ strconv_quote other (sk_Namespace t @ '':'' @ sk_Name t) @ '' status='' @ sk_Status t @
            '' pid='' @ PIDOrDash (sk_PID t) @ '' cpu='' @ percent_text (sk_CPU t) @ '' mem='' @ mem @ '' tree_cpu='' @
            percent_text (sk_TreeCPU t) @ '' tree_mem='' @ tree @ '' children='' @ itoa (int (length (sk_Children t))) @
            '' ports='' @ portList (sk_Ports t) @ '' restarts='' @ itoa (sk_Restarts t) @ taskGPUFields t) }"

definition snapshot_lines :: "view_env \<Rightarrow> (string \<Rightarrow> string) \<Rightarrow> (host, host_system) snapshot \<Rightarrow> string list option" where
  "snapshot_lines en other sp =
     do { h \<leftarrow> emit_hostLine en sp;
          ds \<leftarrow> map_panic (diskLine other) (sy_Disks (fst (sp_System sp)));
          ts \<leftarrow> map_panic (taskLine other) (sp_Tasks sp);
          Some ([h] @ ds @ ts @ map (\<lambda>f. ''scope=error message='' @ strconv_quote other f) (sp_Errors sp)) }"

text \<open>
  The lines written, up to the first whose write fails, and whether all were; \<open>taken\<close> is the time of
  the snapshot.
\<close>

fun write_lines :: "(nat \<Rightarrow> bool) \<Rightarrow> nat \<Rightarrow> string \<Rightarrow> string list \<Rightarrow> string \<times> bool" where
  "write_lines ok n stamp [] = ('''', True)"
| "write_lines ok n stamp (l # ls) =
     (if ok n then (case write_lines ok (Suc n) stamp ls of (out, r) \<Rightarrow> (out_line (''['' @ stamp @ ''] '' @ l) @ out, r))
      else ('''', False))"

definition encodeText ::
  "view_env \<Rightarrow> (string \<Rightarrow> string) \<Rightarrow> (nat \<Rightarrow> bool) \<Rightarrow> gotime \<Rightarrow> (host, host_system) snapshot \<Rightarrow> (string \<times> bool) option" where
  "encodeText en other ok taken sp =
     map_option (write_lines ok 0 (date_clock en taken)) (snapshot_lines en other sp)"


section \<open>A table is aligned\<close>

lemma str_split_join_sep:
  "list_all (\<lambda>c. sep \<notin> set c) cs \<Longrightarrow> cs \<noteq> [] \<Longrightarrow> str_split sep (str_join [sep] cs) = cs"
proof (induction cs)
  case (Cons c cs)
  then show ?case
    by (cases "cs = []") (simp_all add: str_split_no_sep str_join_Cons str_split_append_sep)
qed simp

definition plain_row :: "nat \<Rightarrow> string list \<Rightarrow> bool" where
  "plain_row n r \<longleftrightarrow> length r = Suc n \<and> list_all (\<lambda>c. tab \<notin> set c \<and> newline \<notin> set c) r"

lemma newline_not_in_join:
  assumes "newline \<noteq> x" "list_all (\<lambda>c. newline \<notin> set c) cs"
  shows "newline \<notin> set (str_join [x] cs)"
  using assms(2)
proof (induction cs)
  case (Cons c cs)
  with assms(1) show ?case by (cases "cs = []") (auto simp: str_join_Cons)
qed (simp add: str_join_def)

lemma tab_newline: "newline \<noteq> tab" by (simp add: newline_def tab_def)

lemma tab_rows_split:
  assumes "list_all (plain_row n) rows"
  shows "map (str_split tab) (split_lines (concat (map tab_row rows))) = rows @ [[[]]]"
  using assms
proof (induction rows)
  case (Cons r rows)
  have r: "r \<noteq> []" "list_all (\<lambda>c. tab \<notin> set c) r" "list_all (\<lambda>c. newline \<notin> set c) r"
    using Cons.prems by (auto simp: plain_row_def list_all_iff)
  have "newline \<notin> set (str_join [tab] r)" by (rule newline_not_in_join [OF tab_newline r(3)])
  then have "split_lines (tab_row r @ s) = str_join [tab] r # split_lines s" for s
    by (simp add: split_lines_def tab_row_def str_split_append_sep)
  then show ?case using Cons str_split_join_sep [OF r(2,1)] by simp
qed (simp add: split_lines_def)

lemma format_no_column:
  assumes "\<forall>l \<in> set ls. \<not> has_column (length widths) l"
  shows "format_lines fuel widths ls = map (write_line widths) ls"
  using assms by (induction ls; cases fuel) auto

text \<open>Lines that all have the same columns are one block in each column.\<close>

lemma format_block:
  assumes "\<forall>l \<in> set ls. length l = Suc (length widths + k)" "k \<le> fuel" "ls \<noteq> []"
  shows "format_lines fuel widths ls =
    map (write_line (widths @ map (\<lambda>c. column_width c ls) [length widths ..< length widths + k])) ls"
  using assms
proof (induction k arbitrary: widths fuel)
  case 0
  then have "\<forall>l \<in> set ls. \<not> has_column (length widths) l" by (simp add: has_column_def)
  then show ?case by (simp add: format_no_column)
next
  case (Suc k)
  obtain f where f: "fuel = Suc f" "k \<le> f" using Suc.prems(2) by (cases fuel) auto
  obtain l rest where ls: "ls = l # rest" using Suc.prems(3) by (cases ls) auto
  have col: "\<forall>x \<in> set ls. has_column (length widths) x" using Suc.prems(1) by (simp add: has_column_def)
  then have tw: "takeWhile (has_column (length widths)) rest = rest" "dropWhile (has_column (length widths)) rest = []"
    by (simp_all add: ls)
  have "format_lines fuel widths ls = format_lines f (widths @ [column_width (length widths) ls]) ls"
    using col by (simp add: f(1) ls Let_def tw)
  also have "\<dots> = map (write_line ((widths @ [column_width (length widths) ls]) @
      map (\<lambda>c. column_width c ls) [Suc (length widths) ..< Suc (length widths) + k])) ls"
    using Suc.IH [of "widths @ [column_width (length widths) ls]" f] Suc.prems(1,3) f(2) by simp
  also have "(widths @ [column_width (length widths) ls]) @
      map (\<lambda>c. column_width c ls) [Suc (length widths) ..< Suc (length widths) + k] =
      widths @ map (\<lambda>c. column_width c ls) [length widths ..< length widths + Suc k]"
    by (simp add: upt_rec [of "length widths"])
  finally show ?case .
qed

lemma lines_of_snoc: "lines_of (xs @ ['''']) = concat (map out_line xs)"
proof (induction xs)
  case (Cons x xs)
  then show ?case by (simp add: lines_of_def str_join_Cons out_line_def)
qed (simp add: lines_of_def)

definition table_widths :: "string list list \<Rightarrow> nat \<Rightarrow> nat list" where
  "table_widths rows n = map (\<lambda>c. column_width c rows) [0 ..< n]"

theorem tables_are_aligned:
  assumes "list_all (plain_row n) rows" "rows \<noteq> []" "0 < n"
  shows "tabwriter (concat (map tab_row rows)) = concat (map (out_line \<circ> write_line (table_widths rows n)) rows)"
proof -
  have len: "\<forall>l \<in> set rows. length l = Suc n" using assms(1) by (auto simp: plain_row_def list_all_iff)
  obtain l rest where rows: "rows = l # rest" using assms(2) by (cases rows) auto
  have "foldr max (map length (rows @ [[[]]])) 0 \<ge> length l" by (simp add: rows)
  then obtain f where f: "foldr max (map length (rows @ [[[]]])) 0 = Suc f" "n \<le> f" using len rows
    by (cases "foldr max (map length (rows @ [[[]]])) 0") auto
  have col: "\<forall>x \<in> set rows. has_column 0 x" using len assms(3) by (simp add: has_column_def)
  then have "takeWhile (has_column 0) (rest @ [[[]]]) = rest" "dropWhile (has_column 0) (rest @ [[[]]]) = [[[]]]"
    by (simp_all add: rows has_column_def takeWhile_append2 dropWhile_append2)
  then have "format_lines (Suc f) [] (rows @ [[[]]]) = format_lines f [column_width 0 rows] rows @ ['''']"
    using col by (simp add: rows has_column_def Let_def)
  also have "format_lines f [column_width 0 rows] rows = map (write_line (table_widths rows n)) rows"
  proof -
    obtain k where k: "n = Suc k" using assms(3) by (cases n) auto
    then have "\<forall>l \<in> set rows. length l = Suc (length [column_width 0 rows] + k)" "k \<le> f" using len f(2) by auto
    from format_block [OF this assms(2)] show ?thesis
      by (simp add: table_widths_def k upt_rec [of 0] del: upt_Suc)
  qed
  finally show ?thesis unfolding tabwriter_def Let_def tab_rows_split [OF assms(1)] f(1) by (simp add: lines_of_snoc)
qed

text \<open>The cell of a column starts where the widths of the columns before it end.\<close>

lemma write_line_cells:
  "length cs = Suc (length ws) \<Longrightarrow>
   write_line ws cs = concat (map (\<lambda>(w, c). c @ replicate (w - cell_width c) CHR '' '') (zip ws cs)) @ last cs"
proof (induction ws arbitrary: cs)
  case (Cons w ws)
  then show ?case by (cases cs) auto
next
  case Nil
  then show ?case by (cases cs) auto
qed

lemma cell_fits: "r \<in> set rows \<Longrightarrow> cell_width (r ! c) + 2 \<le> column_width c rows"
  by (auto simp: column_width_def intro!: Max_ge)

text \<open>The process named as the busiest used the most GPU time.\<close>

lemma busiest_is_max: "busiest p ps \<in> set (p # ps) \<and> (\<forall>q \<in> set (p # ps). snd q \<le> snd (busiest p ps))"
proof (induction ps arbitrary: p)
  case (Cons a ps)
  define b where "b = (if snd p < snd a then a else p)"
  have "snd p \<le> snd b" "snd a \<le> snd b" "b \<in> {p, a}" by (auto simp: b_def)
  moreover have "busiest p (a # ps) = busiest b ps" by (simp add: b_def)
  ultimately show ?case using Cons.IH [of b] by (auto intro: order_trans)
qed simp

end
