(* ===== verification/Samples.thy ===== *)
theory Samples
  imports PM_Results Engine_Results Run_Journal Metrics Log_Follow Log_Files Remote_Ref Web_Server Sys_Collector Tui_Dashboard Wizard_Write View_Browser View_Dashboard File_Watcher Cli_Logs Daemon_Server Cli_Print
begin

text \<open>
  Concrete environments and requests: every operating system call succeeds, a child has the pid
  1000 plus the clock, and the clock advances one second a step. The witnesses of the properties
  evaluate the model on them.
\<close>

definition sample_os :: os_env where
  "sample_os = \<lparr>os_exists = (\<lambda>_. True), os_lookpath = (\<lambda>_. None), os_getwd = Some ''/w''\<rparr>"

definition sample_start :: "nat \<Rightarrow> start_env" where
  "sample_start t =
     \<lparr>se_os = sample_os, se_mkdir = None, se_open = (\<lambda>_. None), se_environ = [''HOME=/h''],
      se_spawn = (\<lambda>_. Inr (1000 + int t)), se_watch = (\<lambda>_. True)\<rparr>"

definition broken_start :: "nat \<Rightarrow> start_env" where
  "broken_start t = (sample_start t)\<lparr>se_mkdir := Some ''denied''\<rparr>"

definition sample_now :: "nat \<Rightarrow> gotime" where
  "sample_now t = GoTime (1000000000 * (int t + 1))"

definition sample_civil :: civil where
  "sample_civil =
     \<lparr>cv_year = 2026, cv_month = 3, cv_day = 14, cv_hour = 9, cv_min = 26, cv_sec = 53\<rparr>"

definition sample_stop :: stop_outcome where
  "sample_stop =
     \<lparr>so_kill = KillOk, so_in_time = True, so_wait = WaitSignaled ''signal: terminated'' 15 ''SIGTERM'',
      so_callback_first = False\<rparr>"

definition sample_env :: pm_env where
  "sample_env =
     \<lparr>pe_start = sample_start, pe_now = sample_now, pe_local = (\<lambda>_. sample_civil),
      pe_random = (\<lambda>_. [1, 2, 3]), pe_user = Some ''u'', pe_package = (\<lambda>_. None),
      pe_valid_spec = (\<lambda>_. True), pe_stop = (\<lambda>_. sample_stop),
      pe_dump_write = (\<lambda>_. DumpWritten), pe_error_text = (\<lambda>_. ''launch failed'')\<rparr>"

definition broken_env :: pm_env where
  "broken_env = sample_env\<lparr>pe_start := broken_start\<rparr>"

definition sample_req :: "string \<Rightarrow> app_start_req" where
  "sample_req name =
     \<lparr>rq_App = empty_app_config\<lparr>ac_Name := name, ac_Script := ''/bin/run'', ac_CWD := ''/w'',
        ac_MaxRestarts := 3\<rparr>,
      rq_CronTriggered = False\<rparr>"

definition cron_req :: "string \<Rightarrow> app_start_req" where
  "cron_req name = (sample_req name)\<lparr>rq_App := (rq_App (sample_req name))\<lparr>ac_Cron := ''* * * * *''\<rparr>\<rparr>"

definition pm0 :: pm where
  "pm0 = NewProcessManager ''/h'' (GoTime 1)"

definition pm_started_with :: "app_start_req \<Rightarrow> pm \<Rightarrow> pm" where
  "pm_started_with req pm = snd (StartApp sample_env req pm)"

definition demo_pm :: pm where
  "demo_pm = pm_started_with (cron_req ''job'') (pm_started_with (sample_req ''api'') pm0)"

definition yesterday_civil :: civil where
  "yesterday_civil = sample_civil\<lparr>cv_day := 13\<rparr>"

definition old_line :: string where
  "old_line = stamp yesterday_civil @ ''old'' @ [eol]"

definition new_line :: string where
  "new_line = stamp sample_civil @ ''new'' @ [eol]"

definition sample_log_fs :: log_fs where
  "sample_log_fs =
     \<lparr>lf_dir = [(''/l/api.log'', 0)], lf_data = (\<lambda>_. old_line @ new_line), lf_next = 1\<rparr>"

definition replaced_log_fs :: log_fs where
  "replaced_log_fs =
     \<lparr>lf_dir = [(''/l/api.log'', 1)], lf_data = (\<lambda>_. ''''), lf_next = 2\<rparr>"

definition rename_fault :: rotate_env where
  "rename_fault = no_rotate_fault\<lparr>re_rename := False\<rparr>"

definition sample_log_env :: log_env where
  "sample_log_env =
     \<lparr>en_clock = (\<lambda>_. sample_civil), en_mkdir = True, en_rotate = (\<lambda>_. no_rotate_fault),
      en_open = (\<lambda>_. True), en_stat = (\<lambda>_. True), en_fstat = (\<lambda>_. True), en_close = (\<lambda>_. True),
      en_bound = (\<lambda>_. True)\<rparr>"

definition sample_writer :: log_writer where
  "sample_writer =
     \<lparr>lw_path = ''/l/api.log'', lw_file = OpenFile 0, lw_start = True, lw_date = fmt_date sample_civil,
      lw_closed = False\<rparr>"

definition sample_world :: "log_fs \<Rightarrow> log_world" where
  "sample_world fs = \<lparr>wd_fs = fs, wd_room = None, wd_clock = 0\<rparr>"

definition sample_follow :: follow_state where
  "sample_follow =
     \<lparr>fo_source = \<lparr>so_app = ''api'', so_path = ''/l/api.log'', so_stream = StreamStdout\<rparr>,
      fo_info = Some 0, fo_offset = length (old_line @ new_line), fo_pending = ''''\<rparr>"

lemma pm_ok_pm0: "pm_ok pm0"
  by (simp add: pm0_def pm_ok_New)

lemma pm_ok_demo: "pm_ok demo_pm"
  by (simp add: demo_pm_def pm_started_with_def StartApp_ok pm_ok_pm0)

lemma reachable_start: "reachable ''/h'' (GoTime 1) pm \<Longrightarrow> reachable ''/h'' (GoTime 1) (pm_started_with req pm)"
  using reach_step [OF _ step_request [of pm sample_env "ReqStart req"]]
  by (simp add: serve_def pm_started_with_def)

lemma reachable_pm0: "reachable ''/h'' (GoTime 1) pm0"
  by (simp add: pm0_def reach_start)

lemma reachable_demo: "reachable ''/h'' (GoTime 1) demo_pm"
  by (simp add: demo_pm_def reachable_start reachable_pm0)

definition script_stage :: "string \<Rightarrow> string \<Rightarrow> stage" where
  "script_stage name script =
     \<lparr>sg_Name = name, sg_Script = script, sg_Args = [], sg_Task = '''', sg_Workflow = '''',
      sg_Env = [], sg_CWD = '''', sg_Timeout = ''''\<rparr>"

definition workflow_stage :: "string \<Rightarrow> string \<Rightarrow> stage" where
  "workflow_stage name ref = (script_stage name '''')\<lparr>sg_Workflow := ref\<rparr>"

definition sample_wf :: "string \<Rightarrow> string \<Rightarrow> stage list \<Rightarrow> wf_config" where
  "sample_wf cat name sts = zero_config\<lparr>wc_Category := cat, wc_Name := name, wc_Stages := sts\<rparr>"

definition sample_engine_env :: engine_env where
  "sample_engine_env =
     \<lparr>we_now = sample_now, we_local = (\<lambda>_. sample_civil), we_random = (\<lambda>_. [1, 2, 3]),
      we_os = sample_os, we_lookup = (\<lambda>_ ref. Inl ref), we_mkdir = (\<lambda>_. None), we_open = (\<lambda>_. None),
      we_spawn = (\<lambda>t _. Inr (1000 + int t)), we_wait = (\<lambda>_. WaitNil), we_end = (\<lambda>_. Waited),
      we_cancel = (\<lambda>_. None), we_others = (\<lambda>_ eng. eng), we_valid_spec = (\<lambda>_. True),
      we_persist = (\<lambda>_. PersistDone), we_error_text = (\<lambda>_. ''error'')\<rparr>"

definition sample_cfgs :: "wf_config list" where
  "sample_cfgs =
     [(sample_wf ''ci'' ''build'' [script_stage ''compile'' ''make''])\<lparr>wc_Cron := ''@daily''\<rparr>,
      sample_wf ''ci'' ''all'' [workflow_stage ''first'' ''ci:build'', script_stage ''last'' ''echo'']]"

definition sample_engine :: engine where
  "sample_engine = snd (Engine_Register sample_engine_env sample_cfgs (Engine_New ''/h''))"

definition api_pm :: pm where
  "api_pm = pm_started_with (sample_req ''api'') pm0"

definition entry :: "string \<Rightarrow> pm \<Rightarrow> managed_process" where
  "entry k pm = the (gm_get (pm_reg pm) k)"

definition paused_pm :: pm where
  "paused_pm = snd (PauseByName sample_env ''api'' api_pm)"

definition restarted_pm :: pm where
  "restarted_pm = snd (RestartByName sample_env ''api'' api_pm)"

text \<open>The callback of the process the restart has replaced runs after the restart.\<close>

definition stale_pm :: pm where
  "stale_pm =
     onProcessExit sample_env (fst (hd (pm_pending restarted_pm))) (snd (hd (pm_pending restarted_pm)))
       (restarted_pm\<lparr>pm_pending := []\<rparr>)"

lemma reachable_api: "reachable ''/h'' (GoTime 1) api_pm"
  by (simp add: api_pm_def reachable_start reachable_pm0)

lemma reachable_paused: "reachable ''/h'' (GoTime 1) paused_pm"
  using reach_step [OF reachable_api step_request [of api_pm sample_env "ReqPause ''api''"]]
  by (simp add: serve_def paused_pm_def)

lemma reachable_restarted: "reachable ''/h'' (GoTime 1) restarted_pm"
  using reach_step [OF reachable_api step_request [of api_pm sample_env "ReqRestart ''api''"]]
  by (simp add: serve_def restarted_pm_def)

text \<open>The old child of a restart has exited, its callback is due, and its successor is watched.\<close>

definition successor_sample :: "pm \<Rightarrow> bool" where
  "successor_sample pm \<longleftrightarrow>
     (let m = fst (hd (pm_pending pm)); e = entry ''default:api'' pm
      in length (pm_pending pm) = 1 \<and> mp_key m = ''default:api'' \<and> mp_addr e \<noteq> mp_addr m \<and>
         \<not> mp_stopping e \<and> mp_Cmd e \<noteq> None \<and> gm_get (pm_reg pm) ''default:api'' \<noteq> None \<and>
         e \<in> set (pm_watching pm))"

lemma successor_restarted: "successor_sample restarted_pm"
  by code_simp

lemma reachable_stale: "reachable ''/h'' (GoTime 1) stale_pm"
proof -
  have "length (pm_pending restarted_pm) = 1"
    using successor_restarted by (simp add: successor_sample_def Let_def)
  then obtain m ex where p: "pm_pending restarted_pm = [] @ (m, ex) # []"
    by (cases "pm_pending restarted_pm") auto
  from reach_step [OF reachable_restarted step_callback [OF p, of sample_env]]
  show ?thesis by (simp add: stale_pm_def p)
qed

definition start_result_of :: "pm_env \<Rightarrow> string \<Rightarrow> app_start_req \<Rightarrow> pm \<Rightarrow> start_result" where
  "start_result_of ev name req pm =
     (case fst (Executor_Start (pe_start ev (pm_tick pm)) (pm_home pm) req name) of
        Inr r \<Rightarrow> r
      | Inl _ \<Rightarrow> \<lparr>sr_Cmd = None, sr_Watcher = False, sr_LogFile = '''', sr_ErrFile = '''', sr_CWD = ''''\<rparr>)"

definition starts :: "pm_env \<Rightarrow> string \<Rightarrow> app_start_req \<Rightarrow> pm \<Rightarrow> bool" where
  "starts ev name req pm \<longleftrightarrow>
     (case fst (Executor_Start (pe_start ev (pm_tick pm)) (pm_home pm) req name) of
        Inr r \<Rightarrow> True | Inl _ \<Rightarrow> False)"

lemma launch_starts_sample: "starts ev name req pm \<Longrightarrow> launch_starts ev name req pm (start_result_of ev name req pm)"
  by (auto simp: starts_def launch_starts_def start_result_of_def split: sum.splits)

lemma launch_fails_sample:
  "fst (Executor_Start (pe_start ev (pm_tick pm)) (pm_home pm) req name) = Inl e \<Longrightarrow> launch_fails ev name req pm e"
  by (simp add: launch_fails_def)

lemma entry_get: "gm_get (pm_reg pm) k \<noteq> None \<Longrightarrow> gm_get (pm_reg pm) k = Some (entry k pm)"
  by (auto simp: entry_def)

definition run_pm :: pm where
  "run_pm = triggerCron sample_env ''default'' ''job'' (cron_req ''job'') demo_pm"

definition twin_req :: "string \<Rightarrow> app_start_req" where
  "twin_req ns = (sample_req ''web'')\<lparr>rq_App := (rq_App (sample_req ''web''))\<lparr>ac_Namespace := ns\<rparr>\<rparr>"

definition twin_pm :: pm where
  "twin_pm = pm_started_with (twin_req ''b'') (pm_started_with (twin_req ''a'') pm0)"

definition fa_pm :: pm where
  "fa_pm = pm_started_with (sample_req ''1fa'') (pm_started_with (sample_req ''two'') (pm_started_with (sample_req ''one'') pm0))"

lemma reachable_twin: "reachable ''/h'' (GoTime 1) twin_pm"
  by (simp add: twin_pm_def reachable_start reachable_pm0)

lemma reachable_fa: "reachable ''/h'' (GoTime 1) fa_pm"
  by (simp add: fa_pm_def reachable_start reachable_pm0)

definition knot_cfgs :: "wf_config list" where
  "knot_cfgs =
     [sample_wf ''ci'' ''all'' [workflow_stage ''s'' ''build''],
      sample_wf ''ci'' ''build'' [workflow_stage ''s'' ''ci:all''],
      sample_wf ''cd'' ''build'' [script_stage ''s'' ''make'']]"

definition knot_engine :: engine where
  "knot_engine = snd (Engine_Register sample_engine_env knot_cfgs (Engine_New ''/h''))"

definition sample_task_record :: task_record where
  "sample_task_record =
     \<lparr>tr_TS = GoTime 1, tr_Kind = KindTask, tr_Event = EventRun, tr_RunID = ''r'', tr_Namespace = ''default'',
      tr_Name = ''job'', tr_ID = 0, tr_Trigger = TriggerManual, tr_PID = 7, tr_StartedAt = GoTime 1,
      tr_DurationMS = 0, tr_ExitCode = Some 0, tr_Signal = '''', tr_Restarts = 0,
      tr_Status = RunSuccess, tr_Detail = ''''\<rparr>"

definition sample_decode :: "string \<Rightarrow> task_record option" where
  "sample_decode l = (if l = ''rec'' then Some sample_task_record else None)"

definition quiet_env :: journal_env where
  "quiet_env = \<lparr>je_mkdir = True, je_open = True, je_write = True, je_remove = (\<lambda>_. True)\<rparr>"

definition paused_cron_req :: app_start_req where
  "paused_cron_req = (cron_req ''job'')\<lparr>rq_App := (rq_App (cron_req ''job''))\<lparr>ac_Paused := True\<rparr>\<rparr>"

definition stopped_pm :: pm where
  "stopped_pm = snd (StopByName sample_env ''api'' api_pm)"

definition deleted_pm :: pm where
  "deleted_pm = snd (DeleteByName sample_env ''api'' api_pm)"

definition self_cfgs :: "wf_config list" where
  "self_cfgs = [sample_wf ''ci'' ''loop'' [workflow_stage ''s'' ''ci:loop'']]"

definition torn_journal :: journal where
  "torn_journal = \<lparr>jn_open = Some (dayOf sample_civil), jn_files = [(dayOf sample_civil, ''to'')]\<rparr>"

lemma sample_civil_ok: "valid_civil sample_civil" "30 < cv_year sample_civil"
  by (simp_all add: valid_civil_def valid_date_def sample_civil_def days_in_def leap_year_def)

lemma yesterday_civil_ok: "valid_civil yesterday_civil"
  by (simp add: valid_civil_def valid_date_def sample_civil_def yesterday_civil_def days_in_def leap_year_def)

lemma sample_days: "fmt_date yesterday_civil = ''2026-03-13''" "fmt_date sample_civil = ''2026-03-14''"
  by code_simp+

lemma old_new_lines:
  "log_lines (old_line @ new_line) = [old_line, new_line]"
  "timestampDate old_line = Some ''2026-03-13''" "timestampDate new_line = Some ''2026-03-14''"
proof -
  have "eol \<notin> set ''old''" "eol \<notin> set ''new''" by code_simp+
  then show "log_lines (old_line @ new_line) = [old_line, new_line]"
    using log_lines_line [of "stamp yesterday_civil @ ''old''" new_line]
      log_lines_line [of "stamp sample_civil @ ''new''" "[]"] eol_fmt_timestamp
    by (simp add: old_line_def new_line_def)
  show "timestampDate old_line = Some ''2026-03-13''" "timestampDate new_line = Some ''2026-03-14''"
    unfolding old_line_def new_line_def
    by (simp_all add: timestampDate_stamp yesterday_civil_ok sample_civil_ok sample_days)
qed

lemma sample_log_fs_ok: "fs_ok sample_log_fs"
  by (simp add: fs_ok_def sample_log_fs_def gm_get_def)

lemma sample_log_read: "fs_read ''/l/api.log'' sample_log_fs = Some (old_line @ new_line)"
  by (simp add: fs_read_def sample_log_fs_def gm_get_def)

lemma settled_sample: "settled sample_log_env sample_writer 0 (sample_world sample_log_fs)"
  by (simp add: settled_def sample_log_env_def sample_writer_def sample_world_def sample_log_fs_def gm_get_def)

text \<open>A daemon that answers every request, and its client.\<close>

definition sample_daemon :: daemon where
  "sample_daemon = \<lparr>dm_pm = pm0, dm_engine = Engine_New ''/h''\<rparr>"

definition sample_cli :: cli_env where
  "sample_cli =
     \<lparr>ce_daemon = \<lparr>de_pm = sample_env, de_engine = sample_engine_env, de_pid = 1\<rparr>,
      ce_transport = (\<lambda>_. TransportOk), ce_executable = True, ce_spawn = True, ce_boot = (\<lambda>_. None),
      ce_marker_write = True, ce_marker_remove = True, ce_logs_open = True\<rparr>"

definition sample_cli_world :: cli_world where
  "sample_cli_world =
     \<lparr>cw_daemon = Some sample_daemon, cw_marker = False, cw_tries = 0, cw_handled = []\<rparr>"

definition sample_app :: app_config where
  "sample_app = rq_App (sample_req ''api'')"

definition sample_hook :: "int \<Rightarrow> hook_request" where
  "sample_hook t =
     \<lparr>hk_workflow = ''ci:build'', hk_ctype = '''', hk_body = Some '''', hk_now1 = GoTime t, hk_now2 = GoTime (t + 1)\<rparr>"

section \<open>The terminal screens\<close>

definition sample_proc :: "int \<Rightarrow> int \<Rightarrow> string \<Rightarrow> proc" where
  "sample_proc pid ppid cmd =
     \<lparr>pr_PID = pid, pr_PPID = ppid, pr_CPU = 0, pr_Memory = 0, pr_State = ''S'', pr_Command = cmd, pr_GPU = 0\<rparr>"

text \<open>A table whose parents form a cycle: 10, 11, 13 and again 10.\<close>

definition sample_table :: "proc list" where
  "sample_table = [sample_proc 13 11 ''c'', sample_proc 11 10 ''/bin/web -x'', sample_proc 12 10 ''b'', sample_proc 10 13 ''a'']"

definition sample_observation :: "proc list \<Rightarrow> (unit, unit) observation" where
  "sample_observation procs =
     \<lparr>ob_Snapshot = \<lparr>sp_Host = (), sp_System = (), sp_Processes = countProcesses procs, sp_Tasks = [], sp_Errors = []\<rparr>,
      ob_Procs = procs, ob_Ports = []\<rparr>"

text \<open>All processes, the second row, \<open>d\<close>; the row disappears, and \<open>y\<close>.\<close>

definition kill_session :: "(gotime \<times> (unit, unit) dash_msg) list" where
  "kill_session =
     map (\<lambda>msg. (GoTime 1, msg))
       [DashObserved (sample_observation sample_table) '''', DashKey ''a'', DashKey ''down'', DashKey ''d'', DashObserved (sample_observation []) '''', DashKey ''y'']"


definition sample_row :: "int \<Rightarrow> process_info" where
  "sample_row i =
     \<lparr>pi_App = sample_app, pi_ID = i, pi_LogFile = ''/l/'' @ itoa i, pi_ErrorFile = '''', pi_PID = 0,
      pi_Status = StatusOnline, pi_Restarts = 0, pi_StartedAt = GoTime 1, pi_CPU = 0, pi_Memory = 0,
      pi_User = '''', pi_LastCronAt = zero_time, pi_LastCronStatus = ''''\<rparr>"

definition sample_monitor_env :: monitor_env where
  "sample_monitor_env = \<lparr>mv_sort = (\<lambda>_ rows. rows), mv_now = GoTime 1\<rparr>"

definition monitor_session :: "(monitor_env \<times> monitor_msg) list" where
  "monitor_session =
     map (\<lambda>msg. (sample_monitor_env, msg))
       [MonRefresh \<lparr>rm_procs = [sample_row 7, sample_row 8], rm_workflows = [], rm_err = None\<rparr>,
        MonKey ''down'', MonKey ''d'']"

text \<open>Two rows arrive in a terminal of 80 columns and so many rows.\<close>

definition resized_session :: "int \<Rightarrow> (monitor_env \<times> monitor_msg) list" where
  "resized_session h =
     [(sample_monitor_env, MonWindow 80 h),
      (sample_monitor_env, MonRefresh \<lparr>rm_procs = [sample_row 7, sample_row 8], rm_workflows = [], rm_err = None\<rparr>)]"

text \<open>A client of a daemon with two tasks, and a file that is saved while it is watched.\<close>

definition logs_world :: cli_world where
  "logs_world = sample_cli_world\<lparr>cw_daemon := Some (sample_daemon\<lparr>dm_pm := demo_pm\<rparr>)\<rparr>"

definition saves :: "(int \<times> watch_input) list" where
  "saves =
     [(0, FileEvent [FsWrite]), (100000000, FileEvent [FsChmod]), (150000000, FileEvent [FsRename]),
      (2000000000, FileEvent [FsCreate, FsWrite]), (2100000000, WatchClosed), (2200000000, FileEvent [FsWrite])]"

text \<open>An ecosystem file with one workflow, to which the wizard adds another.\<close>

definition wizard_old :: ecosystem where
  "wizard_old = \<lparr>ec_Apps = [], ec_Workflows = [one_stage_workflow '''' ''ci'']\<rparr>"

definition wizard_new :: ecosystem where
  "wizard_new = \<lparr>ec_Apps = [], ec_Workflows = [one_stage_workflow ''default'' ''ci'', one_stage_workflow '''' ''cd'']\<rparr>"

text \<open>What the first file holds once it is loaded, with the answers merged in.\<close>

definition wizard_merged :: ecosystem where
  "wizard_merged =
     (case postProcess here ''/w/eco.json'' wizard_old of
        Inl e \<Rightarrow> wizard_old | Inr c \<Rightarrow> fst (mergeDocuments here c wizard_new))"

definition wizard_load :: load_env where
  "wizard_load =
     \<lparr>le_os = here, le_read = \<lambda>_. Some ''old'',
      le_json = \<lambda>s. Some (if s = ''old'' then wizard_old else declared here wizard_merged), le_js = \<lambda>_. JsError\<rparr>"

definition wizard_sample :: wizard_env where
  "wizard_sample =
     \<lparr>wz_load = wizard_load, wz_stat = \<lambda>_. StatFound, wz_json = \<lambda>_ _. Some ''new'', wz_other = id, wz_write = True\<rparr>"

definition wizard_opts :: write_options where
  "wizard_opts = \<lparr>wo_Output = ''/w/eco.json'', wo_Format = '''', wo_Force = False, wo_NoMerge = False\<rparr>"

end
