(* ===== verification/Spec2Isabelle.thy ===== *)
theory Spec2Isabelle
  imports Samples
begin

text \<open>
  \<^bold>\<open>pm2, a process manager daemon in Go\<close>

  A daemon keeps a table of tasks. A task is a command with its configuration
  (\<open>process.AppConfig\<close>); it may run all the time, on a cron schedule, or be paused. The daemon forks
  children, watches them, restarts them after a crash within a budget, stops them on request,
  journals every run, and runs workflows: named sequences of stages, each a script, a registered
  task or another workflow.

  \<^bold>\<open>The theories, in the order of the code\<close>

  \<^item> \<open>Prelude\<close>: Go's maps as association lists (\<open>gm_get\<close>, \<open>gm_set\<close>, \<open>gm_del\<close>), string functions of
    Go's library, times in nanoseconds.
  \<^item> \<open>Process_Types\<close> (\<open>process/\<close>): configuration, normalisation, paths, table formatters.
  \<^item> \<open>Go_Time\<close>: calendar dates, the layouts the code prints and parses, \<open>time.ParseDuration\<close>.
  \<^item> \<open>Workflow_Config\<close>, \<open>Workflow_Graph\<close>, \<open>Workflow_Run\<close> (\<open>workflow/\<close>): definitions, validation,
    references and the cycle check, run state.
  \<^item> \<open>Cron_Scheduler\<close> (\<open>cron/scheduler.go\<close>): the table of armed schedules; locale \<open>job_table\<close>.
  \<^item> \<open>Executor\<close> (\<open>daemon/executor/\<close>): command building, start, watch, stop.
  \<^item> \<open>Run_History\<close>, \<open>Run_Journal\<close> (\<open>runhistory/\<close>): records, run IDs, log names; day files,
    append, retention and queries.
  \<^item> \<open>Registry\<close> (\<open>daemon/process_registry.go\<close>): every operation under the registry lock; locale
    \<open>process_table\<close>.
  \<^item> \<open>Metrics\<close> (\<open>daemon/executor/metrics.go\<close>): the refresh in three phases; locale
    \<open>metrics_backend\<close>.
  \<^item> \<open>Process_Manager\<close> (\<open>daemon/process_manager.go\<close>, \<open>launch.go\<close>, \<open>lifecycle.go\<close>, \<open>history.go\<close>,
    \<open>autosave.go\<close>, \<open>helpers.go\<close>, \<open>workflow.go\<close>): the state \<open>pm\<close> and every operation on it.
  \<^item> \<open>PM_Invariant\<close>, \<open>PM_Operations\<close>, \<open>Daemon_Steps\<close>, \<open>PM_Results\<close>: the invariant \<open>pm_ok\<close> and its
    preservation, what the requests on a target do (locale \<open>keyed_sweep\<close>), the transition system,
    the outcome of launches, fires, crashes and restarts.
  \<^item> \<open>Engine\<close>, \<open>Engine_Ops\<close>, \<open>Engine_Results\<close> (\<open>daemon/wfengine/\<close>): runs and stages, the requests,
    what they guarantee.
  \<^item> \<open>Log_Escape\<close>, \<open>Log_Rotation\<close>, \<open>Log_Writer\<close>, \<open>Log_Follow\<close>, \<open>Log_Files\<close> (\<open>logfile/\<close>): the
    rendering of a child's output, the daily rotation of a log with its rollback, the writer that
    stamps lines and reopens its file, the follower that polls for complete lines, the listing of
    the log directory. Files are inodes under paths (\<open>log_fs\<close>); each file operation can fail.
  \<^item> \<open>Daemon_RPC\<close>, \<open>Daemon_Socket\<close> (\<open>model/protocol.go\<close>, \<open>daemon/network/\<close>): requests and responses,
    the dispatcher over the manager and the engine, the claim of the socket by one start and by
    starts that overlap.
  \<^item> \<open>Cli_Client\<close>, \<open>Task_Apply\<close>, \<open>Remote_Ref\<close> (\<open>cmd/runtime/\<close>, \<open>cmd/daemon/\<close>, \<open>cmd/task/\<close>, \<open>config/\<close>):
    a request with every failure of the transport, the daemon started on demand, ecosystem files,
    the selection of apps, apply and delete, references to repositories.
  \<^item> \<open>Web_Server\<close> (\<open>daemon/web/\<close>, \<open>daemon/webbackend.go\<close>): views without secrets, the guard, the rate
    limiter, the webhook, listings and log tails.
  \<^item> \<open>Sys_Process\<close>, \<open>Sys_Inspect\<close>, \<open>Sys_Counters\<close>, \<open>Sys_Darwin\<close>, \<open>Sys_Collector\<close>, \<open>Sys_GPU\<close>
    (\<open>sysmon/\<close>, \<open>sysmon/gpuagent/\<close>): the process table and the tree below a process, listening ports and
    the join with the tasks, the counters of Linux and of macOS and their rates, the collector and the
    emitter, the agent that publishes the GPU's readings. What the tools and files of the system print
    is an argument; a \<open>float64\<close> is a rational number, a \<open>uint64\<close> a \<open>64 word\<close>.
  \<^item> \<open>Message_Loop\<close>: sessions of a program of the kind \<open>Update\<close>, locale \<open>message_loop\<close>.
  \<^item> \<open>Tui_LogBrowser\<close>, \<open>Tui_Monitor\<close>, \<open>Tui_Dashboard\<close> (\<open>tui/\<close>): the three screens as state machines over
    messages; each interprets \<open>message_loop\<close> with its invariant. A command is data, and executing it
    gives the next message.
  \<^item> \<open>Wizard_Prompt\<close>, \<open>Wizard_Write\<close> (\<open>config/wizard/\<close>): the questions as functions of the rest of the
    input that give an answer or an error, what an answer satisfies (\<open>ensures\<close>), the merge with an
    existing file, the rendering in both formats, the reader of a JavaScript literal and the round trips.
  \<^item> \<open>View_Text\<close>, \<open>View_Monitor\<close>, \<open>View_Layout\<close>, \<open>View_Browser\<close>, \<open>View_Dashboard\<close> (\<open>tui/views/\<close>): the
    frames of the three screens as functions of their states. A style is a record, rendering it the
    argument \<open>vw_render\<close>; a panic (a slice out of range, \<open>strings.Repeat\<close> with a negative count) is
    \<open>None\<close>. The clock is read once a frame.
  \<^item> \<open>File_Watcher\<close> (\<open>daemon/executor/watcher.go\<close>): the debounce as a run over timed inputs and the
    reference it equals.
  \<^item> \<open>Daemon_Server\<close> (\<open>daemon/server.go\<close>, \<open>web_listen.go\<close>): the start of the daemon, the restored
    dump and the saving on a timer.
  \<^item> \<open>Cli_Logs\<close> (\<open>cmd/logs_stream.go\<close>): the log files a target selects and the printing of what the
    follower sends.
  \<^item> \<open>Cli_Print\<close> (\<open>cmd/workflow/\<close>, \<open>cmd/daemon/status.go\<close>, \<open>cmd/list.go\<close>, \<open>cmd/gpu/status.go\<close>,
    \<open>cmd/taskmanager/emit_text.go\<close>): what the commands print, with the column algorithm of
    \<open>text/tabwriter\<close>, whose fuel is the number of cells of the longest line.
  \<^item> \<open>Samples\<close>: concrete environments and states, on which the witnesses evaluate the model.

  \<^bold>\<open>State and interleaving\<close>

  \<open>pm\<close> is one value: the registry, the schedules, the counters, and the goroutines as data: children
  under \<open>Watch\<close> (\<open>pm_watching\<close>), exits whose \<open>done\<close> is closed and whose callback has not run
  (\<open>pm_pending\<close>), sleeping automatic restarts (\<open>pm_timers\<close>). A \<open>managed_process\<close> has an address, so
  that the pointer comparisons of the code and writes through stale pointers are visible.
  \<open>daemon_step\<close> interleaves requests, exits, callbacks, timers, cron fires, file changes and the
  metrics sweep; \<open>reachable\<close> closes it. A request is one step: the manager's lock-free windows
  inside one request are covered only where a callback may run inside \<open>Stop\<close>
  (\<open>so_callback_first\<close>). The engine is likewise one value; what other runs and requests do
  between two stages is the argument \<open>we_others\<close>.

  What the operating system, the clock, the random source, the cron parser and JSON answer are
  arguments (\<open>pm_env\<close>, \<open>start_env\<close>, \<open>engine_env\<close>, \<open>journal_env\<close>, \<open>codec\<close>), read at a counter
  (\<open>pm_tick\<close>, \<open>en_tick\<close>), so that two reads may differ.

  \<^bold>\<open>Bounds\<close>

  \<open>executeDepth\<close> has fuel for nested runs; the depth guard of the code keeps the chain of a run at
  most \<open>MaxNestingDepth\<close> long, so \<open>MaxNestingDepth + 1\<close> always suffices (\<open>executeDepth_enough\<close>,
  \<open>execute_unfold\<close>). \<open>app_version_from\<close> has the five rounds of the code. \<open>visit_stages\<close> ends because
  every recursive visit greys a white node. Byte counts are \<open>64 word\<close>; IDs and counters are
  unbounded integers, with \<open>int64_ok\<close> where parsing them back matters.

  \<^bold>\<open>Properties\<close>

  C1 to C3 are invariants of every reachable state; C4 to C6 the effect and the frame of the
  requests on a target; C7 to C10 the socket, its messages and the clients; C11 and C12 cron
  fires; C13 and C14 exits and restarts, with a case where the code does not do what it means
  to; C15 metrics; C16 to C18 workflow definitions and registration; C19 to C22
  runs; C23 the webhook; C24 and C25 the run journal; C26 names and paths; C27 the files the wizard
  writes; C28 to C32 log files, from the rotation to the writer and from the writer to the follower; C33
  and C34 the process tree and the published GPU readings; C35 to C37 what the screens kill, send and
  delete; C38 when the monitor can draw a frame; C39 the logs a target selects; C40 the restarts on a
  file change. Beside them: \<open>rejected_registration_changes_nothing\<close>, \<open>writer_honours_the_count\<close>,
  \<open>restart_of_paused_leaks_a_child\<close>, \<open>late_file_change_restarts_a_stopped_task\<close>,
  \<open>RenderDashboard_Some\<close> and \<open>Browser_View_total\<close> (the other two screens always draw),
  \<open>tree_pane_draws_the_cursor\<close>, \<open>log_pane_draws_the_cursor\<close>, \<open>selected_row_is_drawn\<close>,
  \<open>log_lines_in_order\<close>, \<open>tables_are_aligned\<close>, \<open>only_the_socket_stops_a_start\<close>,
  \<open>unreadable_dump_is_lost\<close>, \<open>nonpositive_interval_panics\<close>.

  \<^bold>\<open>Not modelled\<close>

  The flags of the cobra commands, the templates of service files and of the planner's prompt, and the
  JSON encodings, which are abstract. Panics inside a stage (\<open>recover\<close> in \<open>execute\<close>) have no
  counterpart: the modelled stage code has no panicking operation. What Lip Gloss and go-runewidth do
  with a style and a text, and how wide they measure it, are arguments of the screens.
\<close>

section \<open>The process manager in every reachable state\<close>

text \<open>
  C1: In every state the daemon can reach, a schedule is armed only for a registered task that
  is not paused, with the cron expression of that task's own configuration; the job it runs names
  that very task. A task with a \<open>cron\<close> field never has its \<open>cron_restart\<close> armed.
\<close>

theorem scheduled_tasks_are_active:
  assumes "reachable home now pm" "armed (pm_sched pm) k = Some (sp, job)"
  shows "\<exists>m. gm_get (pm_reg pm) k = Some m \<and> \<not> mp_paused m \<and> sp \<noteq> '''' \<and>
    (case job of
       JobCron ns name req \<Rightarrow> sp = ac_Cron (pi_App (mp_Info m)) \<and> ns = mp_ns m \<and> name = mp_name m
     | JobCronRestart ck ns name \<Rightarrow>
         ac_Cron (pi_App (mp_Info m)) = '''' \<and> sp = ac_CronRestart (pi_App (mp_Info m)) \<and>
         ck = k \<and> ns = mp_ns m \<and> name = mp_name m)"
proof -
  have "armed_ok (pm_reg pm) (pm_sched pm)" using reachable_ok [OF assms(1)] by (simp add: pm_ok_def)
  then obtain m where "gm_get (pm_reg pm) k = Some m \<and> \<not> mp_paused m \<and> sp \<noteq> '''' \<and>
      (sp = ac_Cron (pi_App (mp_Info m)) \<and>
         (\<exists>req. job = JobCron (mp_ns m) (mp_name m) req \<and> req_ns req = mp_ns m \<and> \<not> ac_Paused (rq_App req)) \<or>
       ac_Cron (pi_App (mp_Info m)) = '''' \<and> sp = ac_CronRestart (pi_App (mp_Info m)) \<and>
       job = JobCronRestart k (mp_ns m) (mp_name m))"
    using assms(2) unfolding armed_ok_def by blast
  then show ?thesis by (intro exI [of _ m]) auto
qed

theorem scheduled_tasks_are_active_witness:
  "\<exists>m. gm_get (pm_reg demo_pm) ''default:job'' = Some m \<and> \<not> mp_paused m"
proof -
  have "armed (pm_sched demo_pm) ''default:job'' \<noteq> None" by code_simp
  then obtain sp job where "armed (pm_sched demo_pm) ''default:job'' = Some (sp, job)" by auto
  from scheduled_tasks_are_active [OF reachable_demo this] show ?thesis by blast
qed

text \<open>
  C2: In every reachable state an entry sits under the key of its own namespace and name, its ID
  is no other entry's, and both its key and its ID, written in decimal, select it and nothing else.
\<close>

theorem ids_identify_processes:
  assumes "reachable home now pm" "gm_get (pm_reg pm) k = Some m" "int64_ok (pi_ID (mp_Info m))"
  shows "k = cronKey (mp_ns m) (mp_name m) \<and>
    (\<forall>k' m'. gm_get (pm_reg pm) k' = Some m' \<and> pi_ID (mp_Info m') = pi_ID (mp_Info m) \<longrightarrow> k' = k) \<and>
    FindByTarget k (pm_reg pm) = [m] \<and> FindByTarget (itoa (pi_ID (mp_Info m))) (pm_reg pm) = [m]"
proof -
  have ok: "keys_ok (pm_reg pm)" "ids_ok (pm_nextID pm) (pm_reg pm)"
    using reachable_ok [OF assms(1)] by (simp_all add: pm_ok_def)
  have k: "k = cronKey (mp_ns m) (mp_name m)"
    using ok(1) assms(2) by (auto simp: keys_ok_def mp_key_def)
  have "\<forall>k' m'. gm_get (pm_reg pm) k' = Some m' \<and> pi_ID (mp_Info m') = pi_ID (mp_Info m) \<longrightarrow> k' = k"
    using ok(2) assms(2) unfolding ids_ok_def by blast
  moreover have "FindByTarget k (pm_reg pm) = [m]"
    unfolding k by (rule FindByTarget_key) (use assms(2) in \<open>simp add: k\<close>)
  ultimately show ?thesis using k FindByTarget_itoa [OF ok assms(2,3)] by blast
qed

theorem ids_identify_processes_witness:
  "FindByTarget (itoa 1) (pm_reg demo_pm) = [entry ''default:job'' demo_pm]"
proof -
  have g: "gm_get (pm_reg demo_pm) ''default:job'' = Some (entry ''default:job'' demo_pm)"
    by (rule entry_get) code_simp
  have "pi_ID (mp_Info (entry ''default:job'' demo_pm)) = 1" by code_simp
  moreover have "int64_ok (pi_ID (mp_Info (entry ''default:job'' demo_pm)))" by code_simp
  ultimately show ?thesis using ids_identify_processes [OF reachable_demo g] by simp
qed



section \<open>Requests on targets\<close>

text \<open>
  C4: A stop of a target that selects something succeeds; every selected entry stays registered
  with its configuration, ID and restart count, is stopped with PID 0 (a paused one stays
  paused) and has no schedule; entries and schedules of other keys are untouched.
\<close>

theorem stop_by_name:
  assumes "reachable home now pm" "FindByTarget t (pm_reg pm) \<noteq> []"
  shows "fst (StopByName ev t pm) = None \<and>
    (\<forall>m \<in> set (FindByTarget t (pm_reg pm)). post_stop m (view (snd (StopByName ev t pm)) (mp_key m))) \<and>
    (\<forall>k. k \<notin> targets t pm \<longrightarrow> view (snd (StopByName ev t pm)) k = view pm k)"
  using StopByName_view [OF reachable_ok [OF assms(1)] assms(2), where ev = ev] by blast

theorem stop_by_name_witness:
  "view (snd (StopByName sample_env ''api'' demo_pm)) ''default:job'' = view demo_pm ''default:job''"
proof -
  have "FindByTarget ''api'' (pm_reg demo_pm) \<noteq> []" "''default:job'' \<notin> targets ''api'' demo_pm" by code_simp+
  then show ?thesis using stop_by_name [OF reachable_demo, where t = "''api''" and ev = sample_env] by blast
qed

text \<open>
  C5: A pause stops every selected entry, marks it paused with status \<open>paused\<close> and removes its
  schedule, keeping its configuration and ID; other entries and schedules are untouched.
\<close>

theorem pause_by_name:
  assumes "reachable home now pm" "FindByTarget t (pm_reg pm) \<noteq> []"
  shows "fst (PauseByName ev t pm) = None \<and>
    (\<forall>m \<in> set (FindByTarget t (pm_reg pm)). post_pause m (view (snd (PauseByName ev t pm)) (mp_key m))) \<and>
    (\<forall>k. k \<notin> targets t pm \<longrightarrow> view (snd (PauseByName ev t pm)) k = view pm k)"
  using PauseByName_view [OF reachable_ok [OF assms(1)] assms(2), where ev = ev] by blast

theorem pause_by_name_witness:
  "\<exists>m. gm_get (pm_reg (snd (PauseByName sample_env ''job'' demo_pm))) ''default:job'' = Some m \<and> mp_paused m"
proof -
  have "FindByTarget ''job'' (pm_reg demo_pm) = [entry ''default:job'' demo_pm]"
    "mp_key (entry ''default:job'' demo_pm) = ''default:job''" by code_simp+
  then show ?thesis
    using pause_by_name [OF reachable_demo, where t = "''job''" and ev = sample_env] by (auto simp: post_pause_def view_def)
qed

text \<open>
  C6: A delete removes every selected entry and its schedule; other entries and schedules are
  untouched.
\<close>

theorem delete_by_name:
  assumes "reachable home now pm" "FindByTarget t (pm_reg pm) \<noteq> []"
  shows "fst (DeleteByName ev t pm) = None \<and>
    (\<forall>k. view (snd (DeleteByName ev t pm)) k = (if k \<in> targets t pm then (None, None) else view pm k))"
  using DeleteByName_view [OF reachable_ok [OF assms(1)] assms(2), where ev = ev] by auto

theorem delete_by_name_witness:
  "view (snd (DeleteByName sample_env ''all'' demo_pm)) ''default:job'' = (None, None)"
proof -
  have "FindByTarget ''all'' (pm_reg demo_pm) \<noteq> []" "''default:job'' \<in> targets ''all'' demo_pm" by code_simp+
  then show ?thesis
    using delete_by_name [OF reachable_demo, where t = "''all''" and ev = sample_env] by presburger
qed

section \<open>Requests over the socket\<close>




text \<open>
  C9: \<open>apply\<close> keeps exactly the apps of the file, in order; it changes only optional apps, which
  run if \<open>--all\<close> is given or \<open>--with\<close> names them bare or with their namespace, and are paused
  otherwise. A name that no app has aborts the whole command.
\<close>

theorem selection_follows_the_policy:
  "selectApps apps all withs =
    (let unknown = filter (\<lambda>w. w \<noteq> [] \<and> w \<notin> ac_Name ` set apps \<union> appSelectionKey ` set apps)
                     (map trim_space withs);
         policy = (\<lambda>app. if ac_Optional app
           then app\<lparr>ac_Paused := \<not> all \<and>
             {ac_Name app, appSelectionKey app} \<inter> (set (map trim_space withs) - {[]}) = {}\<rparr>
           else app)
     in if unknown \<noteq> [] then Inl unknown
        else Inr (map policy apps, filter ac_Paused (map policy (filter ac_Optional apps))))"
proof -
  have p: "install_policy all withs = (\<lambda>app. if ac_Optional app
      then app\<lparr>ac_Paused := \<not> all \<and>
        {ac_Name app, appSelectionKey app} \<inter> (set (map trim_space withs) - {[]}) = {}\<rparr>
      else app)"
    by (auto simp: install_policy_def app_named_def with_names_def fun_eq_iff)
  have "w \<notin> ac_Name ` set apps \<union> appSelectionKey ` set apps \<longleftrightarrow>
      (\<forall>app\<in>set apps. w \<noteq> ac_Name app \<and> w \<noteq> appSelectionKey app)" for w
    by auto
  then show ?thesis unfolding p [symmetric] Let_def by (simp only: selectApps_eq Let_def)
qed

text \<open>
  C10: \<open>apply\<close> sends the start of every app twice. When the first succeeds, the daemon handles the
  same request again on top of it. In the example the child that has just been started is
  signalled and a second one is forked in its place.
\<close>

theorem apply_starts_every_app_twice:
  assumes "channel_ok en" "cw_daemon w = Some d"
    "StartApp (de_pm (ce_daemon en)) \<lparr>rq_App = app\<lparr>ac_BaseEnv := environ\<rparr>, rq_CronTriggered = False\<rparr> (dm_pm d) =
      ((infos, None), pm1)"
  shows "cw_handled (snd (apply_app en environ app w)) =
      cw_handled w @ [start_request environ app, start_request environ app] \<and>
    cw_daemon (snd (apply_app en environ app w)) =
      Some (d\<lparr>dm_pm := snd (StartApp (de_pm (ce_daemon en))
        \<lparr>rq_App = app\<lparr>ac_BaseEnv := environ\<rparr>, rq_CronTriggered = False\<rparr> pm1)\<rparr>)"
  using apply_app_twice [OF assms] by blast

theorem apply_starts_every_app_twice_witness:
  "\<exists>d. cw_daemon (snd (apply_app sample_cli [] sample_app sample_cli_world)) = Some d \<and>
    length (pm_spawned (dm_pm d)) = 2 \<and> length (pm_signals (dm_pm d)) = 1"
proof -
  let ?start = "StartApp sample_env \<lparr>rq_App = sample_app\<lparr>ac_BaseEnv := []\<rparr>, rq_CronTriggered = False\<rparr>"
  obtain infos pm1 where s: "?start pm0 = ((infos, None), pm1)"
    "length (pm_spawned (snd (?start pm1))) = 2" "length (pm_signals (snd (?start pm1))) = 1"
  proof -
    have "snd (fst (?start pm0)) = None" "length (pm_spawned (snd (?start (snd (?start pm0))))) = 2"
      "length (pm_signals (snd (?start (snd (?start pm0))))) = 1"
      by code_simp+
    moreover obtain infos err pm1 where "?start pm0 = ((infos, err), pm1)" by (metis prod.exhaust)
    ultimately show ?thesis using that [of infos pm1] by simp
  qed
  have "channel_ok sample_cli" "cw_daemon sample_cli_world = Some sample_daemon"
    "de_pm (ce_daemon sample_cli) = sample_env" "dm_pm sample_daemon = pm0"
    by (simp_all add: channel_ok_def sample_cli_def sample_cli_world_def sample_daemon_def)
  then show ?thesis
    using apply_starts_every_app_twice [of sample_cli sample_cli_world sample_daemon "[]" sample_app infos pm1] s
    by simp
qed

section \<open>Launches\<close>

text \<open>
  Launching a configuration that is saved as paused (a resurrected pause) registers an entry
  with status \<open>paused\<close>, forks no child and arms no schedule, even if the configuration has one.
\<close>

theorem paused_config_stays_idle:
  assumes "reachable home now pm" "ac_Paused (rq_App req)" "\<not> rq_CronTriggered req"
    "launch_starts ev name req pm result" "armed (pm_sched pm) (launch_key name req) = None"
  shows "\<exists>e. gm_get (pm_reg (snd (launchProcessWith ev name req trg pm))) (launch_key name req) = Some e \<and>
      mp_paused e \<and> pi_Status (mp_Info e) = StatusPaused \<and> pi_PID (mp_Info e) = 0 \<and> mp_Cmd e = None \<and>
    pm_spawned (snd (launchProcessWith ev name req trg pm)) = pm_spawned pm \<and>
    armed (pm_sched (snd (launchProcessWith ev name req trg pm))) (launch_key name req) = None"
  using launch_paused [OF reachable_ok [OF assms(1)] assms(4,2) _ assms(5), of trg] assms(3) by blast

theorem paused_config_stays_idle_witness:
  "armed (pm_sched (snd (launchProcessWith sample_env ''job'' paused_cron_req TriggerManual pm0))) ''default:job'' = None"
proof -
  have "ac_Paused (rq_App paused_cron_req)" "\<not> rq_CronTriggered paused_cron_req"
    "starts sample_env ''job'' paused_cron_req pm0"
    "armed (pm_sched pm0) (launch_key ''job'' paused_cron_req) = None"
    "launch_key ''job'' paused_cron_req = ''default:job''"
    by code_simp+
  then show ?thesis
    using paused_config_stays_idle [OF reachable_pm0 _ _ launch_starts_sample] by metis
qed

text \<open>
  A cron task is registered without a child, with status \<open>stopped\<close>, and armed with its
  expression; the job it arms carries the request itself.
\<close>

theorem cron_task_waits_for_its_schedule:
  assumes "reachable home now pm" "is_cron_task req" "\<not> ac_Paused (rq_App req)"
    "pe_valid_spec ev (ac_Cron (rq_App req))" "launch_starts ev name req pm result"
  shows "\<exists>e. gm_get (pm_reg (snd (launchProcessWith ev name req trg pm))) (launch_key name req) = Some e \<and>
      pi_Status (mp_Info e) = StatusStopped \<and> pi_PID (mp_Info e) = 0 \<and> mp_Cmd e = None \<and>
    pm_spawned (snd (launchProcessWith ev name req trg pm)) = pm_spawned pm \<and>
    armed (pm_sched (snd (launchProcessWith ev name req trg pm))) (launch_key name req) =
      Some (ac_Cron (rq_App req), JobCron (req_ns req) name req)"
  using launch_cron_idle [OF reachable_ok [OF assms(1)] assms(5,2,3,4), of trg] by blast

section \<open>Cron fires\<close>

text \<open>
  C11: A fire that finds the previous run active (a child, or a restart pending) is skipped: no
  child is forked or signalled, schedules and watched children stay as they are, the entry only
  notes the skip, and one \<open>cron_skip\<close> record is journaled.
\<close>

theorem cron_overlap_skips:
  assumes "gm_get (pm_reg pm) (cronKey ns name) = Some m" "cronRunActive (mp_Info m)"
  shows "pm_spawned (triggerCron ev ns name req pm) = pm_spawned pm \<and>
    pm_signals (triggerCron ev ns name req pm) = pm_signals pm \<and>
    pm_sched (triggerCron ev ns name req pm) = pm_sched pm \<and>
    pm_watching (triggerCron ev ns name req pm) = pm_watching pm \<and>
    (\<exists>rec. pm_journal (triggerCron ev ns name req pm) = rec # pm_journal pm \<and> tr_Event rec = EventCronSkip \<and>
       tr_Status rec = RunSkipped \<and> tr_Namespace rec = ns \<and> tr_Name rec = name) \<and>
    gm_get (pm_reg (triggerCron ev ns name req pm)) (cronKey ns name) =
      Some (upd_info (\<lambda>i. i\<lparr>pi_LastCronAt := pe_now ev (pm_tick pm),
                           pi_LastCronStatus := CronStatusSkipped\<rparr>) m)"
  using assms
  by (simp add: triggerCron_skipped [OF assms] recordCronSkip_def pm_simps upd_reg_def tick_def
      UpdateCronStatus_def registry_simps)

theorem cron_overlap_skips_witness:
  "pm_spawned (triggerCron sample_env ''default'' ''api'' (sample_req ''api'') demo_pm) = pm_spawned demo_pm"
proof -
  have "gm_get (pm_reg demo_pm) (cronKey ''default'' ''api'') = Some (entry ''default:api'' demo_pm)"
    unfolding cronKey_def by (simp, rule entry_get) code_simp
  moreover have "cronRunActive (mp_Info (entry ''default:api'' demo_pm))" by code_simp
  ultimately show ?thesis using cron_overlap_skips by blast
qed

text \<open>
  C12: A fire of an idle task whose launch succeeds forks exactly one child, which the entry
  refers to and the daemon watches, keeps the task's ID, re-arms the schedule with the same
  expression and reports \<open>running\<close>.
\<close>

theorem cron_fire_runs_one_child:
  assumes "reachable home now pm" "gm_get (pm_reg pm) (cronKey ns name) = Some m"
    "\<not> cronRunActive (mp_Info m)" "\<not> mp_paused m" "req_ns req = ns" "ac_Cron (rq_App req) \<noteq> ''''"
    "\<not> ac_Paused (rq_App req)" "pe_valid_spec ev (ac_Cron (rq_App req))"
    "launch_starts ev name (req\<lparr>rq_CronTriggered := True\<rparr>) (stopProcess ev m pm) result"
  shows "armed (pm_sched (triggerCron ev ns name req pm)) (cronKey ns name) =
      Some (ac_Cron (rq_App req), JobCron ns name (req\<lparr>rq_CronTriggered := True\<rparr>)) \<and>
    (\<exists>e p. gm_get (pm_reg (triggerCron ev ns name req pm)) (cronKey ns name) = Some e \<and> mp_Cmd e = Some p \<and>
      pi_PID (mp_Info e) = p \<and> pi_Status (mp_Info e) = StatusOnline \<and> mp_trigger e = TriggerCron \<and>
      pi_LastCronStatus (mp_Info e) = CronStatusRunning \<and> pi_ID (mp_Info e) = pi_ID (mp_Info m) \<and>
      pm_spawned (triggerCron ev ns name req pm) = p # pm_spawned pm \<and>
      mp_addr e \<in> mp_addr ` set (pm_watching (triggerCron ev ns name req pm)))"
  using triggerCron_success [OF reachable_ok [OF assms(1)] assms(2-9)] by blast

theorem cron_fire_runs_one_child_witness:
  "\<exists>p. pm_spawned (triggerCron sample_env ''default'' ''job'' (cron_req ''job'') demo_pm) = p # pm_spawned demo_pm"
proof -
  have g: "gm_get (pm_reg demo_pm) (cronKey ''default'' ''job'') = Some (entry ''default:job'' demo_pm)"
    unfolding cronKey_def by (simp, rule entry_get) code_simp
  have h: "\<not> cronRunActive (mp_Info (entry ''default:job'' demo_pm))" "\<not> mp_paused (entry ''default:job'' demo_pm)"
    "req_ns (cron_req ''job'') = ''default''" "ac_Cron (rq_App (cron_req ''job'')) \<noteq> ''''"
    "\<not> ac_Paused (rq_App (cron_req ''job''))" "pe_valid_spec sample_env (ac_Cron (rq_App (cron_req ''job'')))"
    by code_simp+
  have "starts sample_env ''job'' ((cron_req ''job'')\<lparr>rq_CronTriggered := True\<rparr>)
      (stopProcess sample_env (entry ''default:job'' demo_pm) demo_pm)"
    by code_simp
  from cron_fire_runs_one_child [OF reachable_demo g h launch_starts_sample [OF this]] show ?thesis by blast
qed

text \<open>
  A fire whose launch fails leaves the task registered and unpaused, with last status
  \<open>failed\<close>, but with no schedule: no later tick of the clock runs the task again.
\<close>

theorem cron_fire_failure_disarms:
  assumes "reachable home now pm" "gm_get (pm_reg pm) (cronKey ns name) = Some m" "\<not> cronRunActive (mp_Info m)"
    "launch_fails ev name (req\<lparr>rq_CronTriggered := True\<rparr>) (stopProcess ev m pm) e"
  shows "armed (pm_sched (triggerCron ev ns name req pm)) (cronKey ns name) = None \<and>
    (\<exists>m'. gm_get (pm_reg (triggerCron ev ns name req pm)) (cronKey ns name) = Some m' \<and>
      pi_LastCronStatus (mp_Info m') = ''failed'' \<and> mp_paused m' = mp_paused m \<and>
      pi_App (mp_Info m') = pi_App (mp_Info m))"
  using triggerCron_failure [OF reachable_ok [OF assms(1)] assms(2-4)] by blast

theorem cron_fire_failure_disarms_witness:
  "armed (pm_sched (triggerCron broken_env ''default'' ''job'' (cron_req ''job'') demo_pm)) ''default:job'' = None \<and>
   armed (pm_sched demo_pm) ''default:job'' \<noteq> None"
proof -
  have g: "gm_get (pm_reg demo_pm) (cronKey ''default'' ''job'') = Some (entry ''default:job'' demo_pm)"
    unfolding cronKey_def by (simp, rule entry_get) code_simp
  have h: "\<not> cronRunActive (mp_Info (entry ''default:job'' demo_pm))" "armed (pm_sched demo_pm) ''default:job'' \<noteq> None"
    "cronKey ''default'' ''job'' = ''default:job''"
    by code_simp+
  have "fst (Executor_Start (pe_start broken_env (pm_tick (stopProcess broken_env (entry ''default:job'' demo_pm) demo_pm)))
      (pm_home (stopProcess broken_env (entry ''default:job'' demo_pm) demo_pm))
      ((cron_req ''job'')\<lparr>rq_CronTriggered := True\<rparr>) ''job'') = Inl (CreateTaskLogDir ''denied'')"
    by code_simp
  from cron_fire_failure_disarms [OF reachable_demo g h(1) launch_fails_sample [OF this]] h show ?thesis by simp
qed

section \<open>Exits and restarts\<close>

text \<open>
  C13: A crash of a process that was not asked to stop clears the PID and, while the restart
  count is below \<open>max_restarts\<close>, counts one restart, sets \<open>launching\<close> and schedules exactly one
  restart; at the limit the entry is \<open>errored\<close> and nothing is scheduled.
\<close>

theorem crash_uses_the_restart_budget:
  assumes "gm_get (pm_reg pm) (mp_key m) = Some m" "\<not> mp_stopping m" "ei_Err ex \<noteq> None"
  shows "(\<exists>e. gm_get (pm_reg (onProcessExit ev m ex pm)) (mp_key m) = Some e \<and> pi_PID (mp_Info e) = 0 \<and>
      (if pi_Restarts (mp_Info m) < ac_MaxRestarts (pi_App (mp_Info m))
       then pi_Status (mp_Info e) = StatusLaunching \<and> pi_Restarts (mp_Info e) = pi_Restarts (mp_Info m) + 1
       else pi_Status (mp_Info e) = StatusErrored \<and> pi_Restarts (mp_Info e) = pi_Restarts (mp_Info m))) \<and>
    pm_timers (onProcessExit ev m ex pm) =
      (if pi_Restarts (mp_Info m) < ac_MaxRestarts (pi_App (mp_Info m)) then m # pm_timers pm else pm_timers pm)"
  using onProcessExit_crash [OF assms, of ev] by auto

theorem crash_uses_the_restart_budget_witness:
  "pm_timers (onProcessExit sample_env (entry ''default:api'' api_pm) (ExitInfoFromWait (WaitExit ''exit status 1'' 1)) api_pm) =
    [entry ''default:api'' api_pm]"
proof -
  have k: "mp_key (entry ''default:api'' api_pm) = ''default:api''" by code_simp
  have g: "gm_get (pm_reg api_pm) (mp_key (entry ''default:api'' api_pm)) = Some (entry ''default:api'' api_pm)"
    unfolding k by (rule entry_get) code_simp
  have h: "\<not> mp_stopping (entry ''default:api'' api_pm)"
    "ei_Err (ExitInfoFromWait (WaitExit ''exit status 1'' 1)) \<noteq> None"
    "pi_Restarts (mp_Info (entry ''default:api'' api_pm)) <
       ac_MaxRestarts (pi_App (mp_Info (entry ''default:api'' api_pm)))"
    by code_simp+
  have "pm_timers api_pm = []" by code_simp
  then show ?thesis using crash_uses_the_restart_budget [OF g h(1,2)] h(3) by simp
qed

text \<open>
  The exit of a process that is being stopped keeps the status the stop has set and the
  restart count, and never schedules a restart, whatever the exit code.
\<close>

theorem requested_stop_never_restarts:
  assumes "gm_get (pm_reg pm) (mp_key m) = Some e" "mp_stopping e"
  shows "(\<exists>e'. gm_get (pm_reg (onProcessExit ev m ex pm)) (mp_key m) = Some e' \<and>
      pi_PID (mp_Info e') = 0 \<and> pi_Status (mp_Info e') = pi_Status (mp_Info e) \<and>
      pi_Restarts (mp_Info e') = pi_Restarts (mp_Info e)) \<and>
    pm_timers (onProcessExit ev m ex pm) = pm_timers pm"
  using onProcessExit_stopped [OF assms, of ev ex] by auto



text \<open>
  A restart of a paused entry forks a child that no entry refers to: the entry stays paused
  and stopped, and the child is on the list of unmanaged children, which no stop reaches.
\<close>

theorem restart_of_paused_leaks_a_child:
  assumes "reachable home now pm" "gm_get (pm_reg pm) (mp_key m) = Some m" "mp_paused m"
    "launch_starts ev (mp_name m) \<lparr>rq_App = pi_App (mp_Info m), rq_CronTriggered = True\<rparr>
       (stopProcess ev m pm) result"
  shows "\<exists>p m'. pm_spawned (restart_one ev trg m pm) = p # pm_spawned pm \<and>
    pm_unmanaged (restart_one ev trg m pm) = p # pm_unmanaged pm \<and>
    gm_get (pm_reg (restart_one ev trg m pm)) (mp_key m) = Some m' \<and> stopped_entry m m' \<and> mp_paused m'"
  using restart_one_paused [OF reachable_ok [OF assms(1)] assms(2-4), of trg] by blast

theorem restart_of_paused_leaks_a_child_witness:
  "\<exists>p. pm_unmanaged (restart_one sample_env TriggerRestart (entry ''default:api'' paused_pm) paused_pm) = p # pm_unmanaged paused_pm"
proof -
  have k: "mp_key (entry ''default:api'' paused_pm) = ''default:api''" "mp_paused (entry ''default:api'' paused_pm)"
    by code_simp+
  have g: "gm_get (pm_reg paused_pm) (mp_key (entry ''default:api'' paused_pm)) = Some (entry ''default:api'' paused_pm)"
    unfolding k by (rule entry_get) code_simp
  have "starts sample_env (mp_name (entry ''default:api'' paused_pm))
      \<lparr>rq_App = pi_App (mp_Info (entry ''default:api'' paused_pm)), rq_CronTriggered = True\<rparr>
      (stopProcess sample_env (entry ''default:api'' paused_pm) paused_pm)"
    by code_simp
  from restart_of_paused_leaks_a_child [OF reachable_paused g k(2) launch_starts_sample [OF this]] show ?thesis
    by blast
qed

text \<open>
  A restart whose relaunch fails is reported as done: \<open>RestartByName\<close> returns no error and
  a \<open>cron_restart\<close> fire notes \<open>ok\<close>, while the entry is stopped with no child and no schedule.
\<close>

theorem failed_relaunch_is_reported_ok:
  assumes "reachable home now pm" "gm_get (pm_reg pm) (cronKey ns name) = Some m"
    "launch_fails ev (mp_name m) \<lparr>rq_App = pi_App (mp_Info m), rq_CronTriggered = True\<rparr>
       (stopProcess ev m pm) e"
  shows "fst (RestartByName ev (cronKey ns name) pm) = None \<and>
    post_stop m (view (snd (RestartByName ev (cronKey ns name) pm)) (cronKey ns name)) \<and>
    (\<exists>m'. gm_get (pm_reg (cronRestart ev (cronKey ns name) ns name msg pm)) (cronKey ns name) = Some m' \<and>
       pi_LastCronStatus (mp_Info m') = ''ok'' \<and> pi_PID (mp_Info m') = 0) \<and>
    armed (pm_sched (cronRestart ev (cronKey ns name) ns name msg pm)) (cronKey ns name) = None"
proof -
  note ok = reachable_ok [OF assms(1)]
  have k: "mp_key m = cronKey ns name" by (rule pm_ok_keys [OF ok assms(2)])
  have "gm_get (pm_reg pm) (mp_key m) = Some m" using assms(2) by (simp add: k)
  from restart_one_failure [OF ok this assms(3)]
  have p: "post_stop m (view (restart_one ev trg m pm) (cronKey ns name))" for trg by (simp add: k)
  have r: "restartTargets ev (cronKey ns name) trg pm = (None, restart_one ev trg m pm)" for trg
    by (simp add: restartTargets_def FindByTarget_key [OF assms(2)])
  show ?thesis
    using p [of TriggerRestart] p [of TriggerCronRestart]
    by (auto simp: RestartByName_def r cronRestart_def Let_def pm_simps UpdateCronStatus_def registry_simps
        post_stop_def view_def [of "restart_one ev TriggerCronRestart m pm"] stopped_entry_def)
qed

theorem failed_relaunch_is_reported_ok_witness:
  "fst (RestartByName broken_env ''default:api'' api_pm) = None \<and>
   \<not> (\<exists>m. gm_get (pm_reg (snd (RestartByName broken_env ''default:api'' api_pm))) ''default:api'' = Some m \<and>
        pi_Status (mp_Info m) = StatusOnline)"
proof -
  have k: "cronKey ''default'' ''api'' = ''default:api''" "\<not> mp_paused (entry ''default:api'' api_pm)" by code_simp+
  have g: "gm_get (pm_reg api_pm) (cronKey ''default'' ''api'') = Some (entry ''default:api'' api_pm)"
    unfolding k by (rule entry_get) code_simp
  have "fst (Executor_Start (pe_start broken_env (pm_tick (stopProcess broken_env (entry ''default:api'' api_pm) api_pm)))
      (pm_home (stopProcess broken_env (entry ''default:api'' api_pm) api_pm))
      \<lparr>rq_App = pi_App (mp_Info (entry ''default:api'' api_pm)), rq_CronTriggered = True\<rparr>
      (mp_name (entry ''default:api'' api_pm))) = Inl (CreateTaskLogDir ''denied'')"
    by code_simp
  from failed_relaunch_is_reported_ok [OF reachable_api g launch_fails_sample [OF this]] k show ?thesis
    by (auto simp: post_stop_def view_def stopped_entry_def)
qed

text \<open>
  An exit whose entry has been deleted by the time its callback runs is journaled with an
  empty namespace, name and run ID; only the PID is kept.
\<close>

theorem exit_after_delete_is_journaled_blank:
  assumes "gm_get (pm_reg pm) (mp_key m) = None"
  shows "\<exists>rec. pm_journal (onProcessExit ev m ex pm) = rec # pm_journal pm \<and>
    tr_Event rec = EventRun \<and> tr_PID rec = pidOf m \<and>
    tr_Namespace rec = '''' \<and> tr_Name rec = '''' \<and> tr_RunID rec = '''' \<and> tr_Trigger rec = TriggerNone"
  using assms
  by (simp add: onProcessExit_def Let_def recordRun_def pm_simps upd_reg_def tick_def zero_info_def empty_app_config_def)

theorem exit_after_delete_is_journaled_blank_witness:
  "\<exists>rec. hd (pm_journal (onProcessExit sample_env (entry ''default:api'' api_pm) no_exit deleted_pm)) = rec \<and>
    tr_Name rec = ''''"
proof -
  have "gm_get (pm_reg deleted_pm) (mp_key (entry ''default:api'' api_pm)) = None" by code_simp
  from exit_after_delete_is_journaled_blank [OF this, of sample_env no_exit] show ?thesis by auto
qed

section \<open>Targets\<close>

text \<open>
  A target that only starts with a number, such as \<open>1fa\<close>, selects the process with that
  ID, even when another process has exactly that name.
\<close>

theorem numeric_prefix_selects_by_id:
  assumes "reachable home now pm" "gm_get (pm_reg pm) k = Some m" "0 < pi_ID (mp_Info m)"
    "int64_ok (pi_ID (mp_Info m))" "rest = '''' \<or> \<not> scan_digit 10 (hd rest)" "CHR '':'' \<notin> set rest"
  shows "FindByTarget (itoa (pi_ID (mp_Info m)) @ rest) (pm_reg pm) = [m]"
proof -
  have ok: "keys_ok (pm_reg pm)" "ids_ok (pm_nextID pm) (pm_reg pm)"
    using reachable_ok [OF assms(1)] by (simp_all add: pm_ok_def)
  have s: "sscan_int (itoa (pi_ID (mp_Info m)) @ rest) = Some (pi_ID (mp_Info m))"
    using sscan_int_digits [of "nat_digits (nat (pi_ID (mp_Info m)))" rest] hd_nat_digits [of "nat (pi_ID (mp_Info m))"]
      assms(3-5) by (simp add: itoa_def nat_digits_are_digits)
  have "sscan_int ''all'' = None" by code_simp
  then have "itoa (pi_ID (mp_Info m)) @ rest \<noteq> ''all''" using s by auto
  moreover have "gm_get (pm_reg pm) (itoa (pi_ID (mp_Info m)) @ rest) = None"
    using keys_ok_colon [OF ok(1)] itoa_no_colon [of "pi_ID (mp_Info m)"] assms(6) by simp
  ultimately show ?thesis using FindByTarget_ID [OF ok assms(2) s] by simp
qed

theorem numeric_prefix_selects_by_id_witness:
  "map mp_name (FindByTarget ''1fa'' (pm_reg fa_pm)) = [''two''] \<and>
   ''1fa'' \<in> mp_name ` set (gm_vals (pm_reg fa_pm))"
proof -
  have g: "gm_get (pm_reg fa_pm) ''default:two'' = Some (entry ''default:two'' fa_pm)"
    by (rule entry_get) code_simp
  have h: "pi_ID (mp_Info (entry ''default:two'' fa_pm)) = 1" "mp_name (entry ''default:two'' fa_pm) = ''two''"
    "int64_ok 1" "itoa 1 = ''1''" "\<not> scan_digit 10 CHR ''f''" "''1fa'' \<in> mp_name ` set (gm_vals (pm_reg fa_pm))"
    by code_simp+
  show ?thesis
    using numeric_prefix_selects_by_id [OF reachable_fa g, of "''fa''"] h by simp
qed

text \<open>
  A bare name that some task has, which is what a file-change restart uses, selects every
  task of that name in every namespace, and no other.
\<close>

theorem bare_name_selects_all_namespaces:
  assumes "reachable home now pm" "CHR '':'' \<notin> set t" "sscan_int t = None" "t \<noteq> ''all''"
    "\<exists>k m. gm_get (pm_reg pm) k = Some m \<and> mp_name m = t"
  shows "targets t pm = {k. \<exists>m. gm_get (pm_reg pm) k = Some m \<and> mp_name m = t}"
proof -
  have ok: "keys_ok (pm_reg pm)" using reachable_ok [OF assms(1)] by (simp add: pm_ok_def)
  have "FindByTarget t (pm_reg pm) = filter (\<lambda>m. mp_name m = t) (gm_vals (pm_reg pm))"
  proof (rule FindByTarget_name)
    obtain k m where "gm_get (pm_reg pm) k = Some m" "mp_name m = t" using assms(5) by blast
    moreover from this have "m \<in> set (gm_vals (pm_reg pm))" using ok by (auto simp: keys_ok_def gm_vals_get)
    ultimately show "\<exists>m \<in> set (gm_vals (pm_reg pm)). mp_name m = t" by blast
  qed (use keys_ok_colon [OF ok assms(2)] assms(3,4) in simp_all)
  then have "targets t pm = mp_key ` {m \<in> set (gm_vals (pm_reg pm)). mp_name m = t}"
    by (simp add: targets_def)
  also have "\<dots> = {k. \<exists>m. gm_get (pm_reg pm) k = Some m \<and> mp_name m = t}"
    using ok by (auto simp: keys_ok_def gm_vals_get)
  finally show ?thesis .
qed

theorem bare_name_selects_all_namespaces_witness:
  "''b:web'' \<in> targets ''web'' twin_pm \<and> ''a:web'' \<in> targets ''web'' twin_pm"
proof -
  have h: "CHR '':'' \<notin> set ''web''" "sscan_int ''web'' = None" "''web'' \<noteq> ''all''" by code_simp+
  have "gm_get (pm_reg twin_pm) ''b:web'' = Some (entry ''b:web'' twin_pm)"
    "gm_get (pm_reg twin_pm) ''a:web'' = Some (entry ''a:web'' twin_pm)" by (rule entry_get, code_simp)+
  moreover have "mp_name (entry ''b:web'' twin_pm) = ''web''" "mp_name (entry ''a:web'' twin_pm) = ''web''"
    by code_simp+
  ultimately show ?thesis
    using bare_name_selects_all_namespaces [OF reachable_twin h] by blast
qed

text \<open>
  C15: A metrics refresh writes a measurement only to the entry that still runs the measured
  process; an entry that was restarted, stopped or replaced meanwhile is never given the numbers
  of the old process, and nothing but CPU and memory changes.
\<close>

theorem metrics_reach_the_measured_process:
  assumes "gm_ok before"
  shows "SnapshotOne k (Refresh ps before now) =
    (case (SnapshotOne k before, SnapshotOne k now) of
       (Some i, Some j) \<Rightarrow>
         Some (if pi_PID j \<noteq> pi_PID i then j
               else if info_online j
               then (let m = (if info_online i then ps (pi_PID i) else (0, 0))
                     in j\<lparr>pi_CPU := fst m, pi_Memory := snd m\<rparr>)
               else j\<lparr>pi_CPU := 0, pi_Memory := 0\<rparr>)
     | (_, x) \<Rightarrow> x)"
  using backend.refresh_info [OF assms, where ps = ps and t = now and k = k] by (simp add: Refresh_def write_back_eq)

theorem metrics_reach_the_measured_process_witness:
  "SnapshotOne ''default:api'' (Refresh (\<lambda>_. (5, 7)) (pm_reg api_pm) (pm_reg stale_pm)) =
    SnapshotOne ''default:api'' (pm_reg stale_pm)"
proof -
  have ok: "gm_ok (pm_reg api_pm)" using reachable_ok [OF reachable_api] by (simp add: pm_ok_def keys_ok_def)
  have s: "SnapshotOne ''default:api'' (pm_reg api_pm) \<noteq> None" "SnapshotOne ''default:api'' (pm_reg stale_pm) \<noteq> None"
    "pi_PID (the (SnapshotOne ''default:api'' (pm_reg stale_pm))) \<noteq> pi_PID (the (SnapshotOne ''default:api'' (pm_reg api_pm)))"
    by code_simp+
  obtain i where i: "SnapshotOne ''default:api'' (pm_reg api_pm) = Some i" using s(1) unfolding not_None_eq ..
  obtain j where j: "SnapshotOne ''default:api'' (pm_reg stale_pm) = Some j" using s(2) unfolding not_None_eq ..
  have "pi_PID j \<noteq> pi_PID i" using s(3) unfolding i j option.sel .
  then show ?thesis
    unfolding metrics_reach_the_measured_process [OF ok] i j by (simp only: option.case prod.case if_True simp_thms)
qed

section \<open>Workflow definitions\<close>


text \<open>
  C17: The depth-first search that colours the definitions accepts them exactly when the
  reference graph is acyclic; it ends on every set of definitions.
\<close>

theorem cycle_check_is_exact: "CheckAcyclic defs = Inr () \<longleftrightarrow> acyclic (ref_edges defs)"
  by (rule CheckAcyclic_iff)

text \<open>
  The path a rejection reports is a real cycle: it starts and ends at the same workflow and
  each step is a reference of a stage.
\<close>

theorem reported_cycle_is_real:
  assumes "CheckAcyclic defs = Inl e"
  shows "\<exists>p. e = WfCycle p \<and> length p \<ge> 2 \<and> hd p = last p \<and> successively (\<lambda>a b. (a, b) \<in> ref_edges defs) p"
proof -
  obtain p where "e = WfCycle p" "ref_cycle defs p" by (rule CheckAcyclic_Inl [OF assms])
  then show ?thesis by (auto simp: ref_cycle_def walk_def)
qed

theorem reported_cycle_is_real_witness:
  "\<exists>p. CheckAcyclic (merge_defs self_cfgs []) = Inl (WfCycle p) \<and> hd p = last p"
proof -
  have c: "CheckAcyclic (merge_defs self_cfgs []) = Inl (WfCycle [''ci:loop'', ''ci:loop''])" by code_simp
  from reported_cycle_is_real [OF c] c show ?thesis by auto
qed

text \<open>
  A registration that finds an invalid configuration or a cycle leaves the engine exactly as
  it was: definitions, schedules, dump and runs.
\<close>

theorem rejected_registration_changes_nothing:
  assumes "fst (Engine_Register ev cfgs eng) = Inl (InvalidWorkflow e)"
  shows "snd (Engine_Register ev cfgs eng) = eng"
  by (rule Register_rejected [OF assms])

theorem rejected_registration_changes_nothing_witness:
  "snd (Engine_Register sample_engine_env self_cfgs sample_engine) = sample_engine"
proof -
  have "fst (Engine_Register sample_engine_env self_cfgs sample_engine) =
      Inl (InvalidWorkflow (WfCycle [''ci:loop'', ''ci:loop'']))" by code_simp
  then show ?thesis by (rule rejected_registration_changes_nothing)
qed

text \<open>
  C18: After a successful registration the definitions are the old ones overridden by the new,
  they are acyclic, the saved dump holds exactly them, and a workflow is armed exactly when its
  definition has a usable cron expression.
\<close>

theorem registration_merges_saves_and_arms:
  assumes "engine_ok eng" "fst (Engine_Register ev cfgs eng) = Inr (keys, ws)"
  shows "en_defs (snd (Engine_Register ev cfgs eng)) = merge_defs cfgs (en_defs eng) \<and>
    acyclic (ref_edges (en_defs (snd (Engine_Register ev cfgs eng)))) \<and>
    en_dump (snd (Engine_Register ev cfgs eng)) =
      WfDumpEntries (map (def_of (merge_defs cfgs (en_defs eng))) (sorted_keys (merge_defs cfgs (en_defs eng)))) \<and>
    (\<forall>k. armed (en_sched (snd (Engine_Register ev cfgs eng))) k =
      (case gm_get (en_defs (snd (Engine_Register ev cfgs eng))) k of
         None \<Rightarrow> None
       | Some c \<Rightarrow> if wc_Cron c \<noteq> '''' \<and> we_valid_spec ev (wc_Cron c) then Some (wc_Cron c, k) else None))"
  using Register_valid [OF assms(2)] Register_armed(1) [OF assms] CheckAcyclic_iff by simp

theorem registration_merges_saves_and_arms_witness:
  "armed (en_sched sample_engine) ''ci:build'' = Some (''@daily'', ''ci:build'')"
proof -
  obtain keys ws where r: "fst (Engine_Register sample_engine_env sample_cfgs (Engine_New ''/h'')) = Inr (keys, ws)"
  proof -
    have "case fst (Engine_Register sample_engine_env sample_cfgs (Engine_New ''/h'')) of Inl _ \<Rightarrow> False | Inr _ \<Rightarrow> True"
      by code_simp
    then show ?thesis using that by (auto split: sum.splits)
  qed
  have g: "gm_get (en_defs sample_engine) ''ci:build'' =
      Some ((sample_wf ''ci'' ''build'' [script_stage ''compile'' ''make''])\<lparr>wc_Cron := ''@daily''\<rparr>)"
    by code_simp
  have v: "wc_Cron ((sample_wf ''ci'' ''build'' [script_stage ''compile'' ''make''])\<lparr>wc_Cron := ''@daily''\<rparr>) = ''@daily''"
    "we_valid_spec sample_engine_env ''@daily''" by code_simp+
  show ?thesis
    using registration_merges_saves_and_arms [OF engine_ok_New r] g v
    unfolding sample_engine_def by simp
qed

section \<open>Workflow runs\<close>



text \<open>
  C20: The run is reported successful exactly when every stage succeeded, and when it ends, its
  single-flight slot is free again, whatever other runs did meanwhile.
\<close>

theorem finished_run_frees_its_slot:
  assumes "claim ev cfg trg parent eng0 = (Inr ar, eng)" "execute ev cfg ar eng = (run, eng')"
    "defs_keyed (en_defs eng0)" "others_keep ev (Config_Key cfg) (ar_addr ar)"
  shows "gm_get (en_inflight eng') (Config_Key cfg) = None \<and>
    (rn_Status run = Some RunSuccess \<longleftrightarrow> list_all (\<lambda>s. sn_Status s = Some RunSuccess) (rn_Stages run))"
  using execute_releases [OF assms(1,3,4)] execute_complete(1) [OF assms(1,2)] run_complete_success assms(2)
  by fastforce

theorem finished_run_frees_its_slot_witness:
  "\<exists>ar eng run eng'. claim sample_engine_env (def_of (en_defs sample_engine) ''ci:all'') TriggerManual None sample_engine = (Inr ar, eng) \<and>
     execute sample_engine_env (def_of (en_defs sample_engine) ''ci:all'') ar eng = (run, eng') \<and>
     gm_get (en_inflight eng') (Config_Key (def_of (en_defs sample_engine) ''ci:all'')) = None"
proof -
  let ?cfg = "def_of (en_defs sample_engine) ''ci:all''"
  let ?c = "claim sample_engine_env ?cfg TriggerManual None sample_engine"
  have a: "case fst ?c of Inl _ \<Rightarrow> False | Inr ar \<Rightarrow> True" by code_simp
  obtain ar eng where c: "?c = (Inr ar, eng)" using a by (cases ?c) (auto split: sum.splits)
  obtain run eng' where e: "execute sample_engine_env ?cfg ar eng = (run, eng')" by (metis prod.exhaust)
  have k: "defs_keyed (en_defs sample_engine)"
    using engine_ok_Register [OF engine_ok_New] by (simp add: sample_engine_def engine_ok_def)
  have o: "others_keep sample_engine_env (Config_Key ?cfg) (ar_addr ar)"
    by (simp add: others_keep_def sample_engine_env_def)
  show ?thesis using c e finished_run_frees_its_slot [OF c e k o] by blast
qed


text \<open>
  C22: A nested run has a chain of distinct workflow keys, at most the nesting limit, one longer
  than its depth, and is linked to its parent: no run nests into itself at run time either.
\<close>

theorem nested_runs_never_recur:
  assumes "chain_ok ar" "defs_keyed (en_defs eng)" "runNested ev st ar r eng = StageNested ccfg child r' e'"
  shows "distinct (ar_chain child) \<and> length (ar_chain child) \<le> MaxNestingDepth \<and>
    rn_Depth (ar_Run child) + 1 = length (ar_chain child) \<and> rn_ParentRunID (ar_Run child) = rn_ID (ar_Run ar)"
  using chain_ok_nested [OF assms] by (simp add: chain_ok_def)

theorem nested_runs_never_recur_witness:
  "\<exists>child r e. runNested sample_engine_env (workflow_stage ''first'' ''ci:build'')
      (newActiveRun sample_engine_env 0 0 (sample_wf ''ci'' ''all'' []) TriggerManual None)
      (fresh_stage 0 (workflow_stage ''first'' ''ci:build'')) sample_engine =
        StageNested (def_of (en_defs sample_engine) ''ci:build'') child r e \<and> distinct (ar_chain child)"
proof -
  let ?ar = "newActiveRun sample_engine_env 0 0 (sample_wf ''ci'' ''all'' []) TriggerManual None"
  let ?n = "runNested sample_engine_env (workflow_stage ''first'' ''ci:build'') ?ar
      (fresh_stage 0 (workflow_stage ''first'' ''ci:build'')) sample_engine"
  have k: "defs_keyed (en_defs sample_engine)"
    using engine_ok_Register [OF engine_ok_New] by (simp add: sample_engine_def engine_ok_def)
  have "case ?n of StageDone _ _ \<Rightarrow> False | StageNested c _ _ _ \<Rightarrow> c = def_of (en_defs sample_engine) ''ci:build''"
    by code_simp
  then obtain child r e where n: "?n = StageNested (def_of (en_defs sample_engine) ''ci:build'') child r e"
    by (cases ?n) auto
  from nested_runs_never_recur [OF chain_ok_root k n] n show ?thesis by blast
qed

text \<open>
  Deleting a workflow can close a cycle that registration would reject: a bare reference that
  was ambiguous resolves once one candidate is gone. The engine then holds cyclic definitions.
\<close>

theorem delete_can_close_a_cycle:
  "engine_ok knot_engine \<and> CheckAcyclic (en_defs knot_engine) = Inr () \<and>
   fst (Engine_Delete sample_engine_env ''cd:build'' knot_engine) = None \<and>
   \<not> acyclic (ref_edges (en_defs (snd (Engine_Delete sample_engine_env ''cd:build'' knot_engine))))"
proof -
  have "engine_ok knot_engine"
    using engine_ok_Register [OF engine_ok_New] by (simp add: knot_engine_def)
  moreover have "CheckAcyclic (en_defs knot_engine) = Inr ()"
    "fst (Engine_Delete sample_engine_env ''cd:build'' knot_engine) = None"
    "CheckAcyclic (en_defs (snd (Engine_Delete sample_engine_env ''cd:build'' knot_engine))) \<noteq> Inr ()"
    by code_simp+
  ultimately show ?thesis by (simp add: CheckAcyclic_iff)
qed

text \<open>
  C23: Whatever webhook requests arrive, for whatever workflows and with whatever happens to the
  engine between them, no minute sees more than ten runs started under one name.
\<close>

theorem webhooks_start_ten_a_minute:
  assumes "hooks_forward now reqs"
  shows "in_window s (hook_run ev decode name reqs ([], eng)) \<le> rateBurst"
  by (rule hook_run_bound [OF assms])

theorem webhooks_start_ten_a_minute_witness:
  "in_window (GoTime 0) (hook_run sample_engine_env (\<lambda>_. None) ''ci:build''
    [(sample_hook 1, \<lambda>e. e), (sample_hook 3, \<lambda>e. e)] ([], sample_engine)) \<le> 10"
proof -
  have "hooks_forward (GoTime 0) [(sample_hook 1, \<lambda>e. e), (sample_hook 3, \<lambda>e. e)]"
    by (simp add: sample_hook_def less_eq_gotime_def)
  from webhooks_start_ten_a_minute [OF this, of "GoTime 0"] show ?thesis by (simp add: rateBurst_def)
qed

section \<open>Journals, logs and formats\<close>





text \<open>
  If an earlier write of the day was torn, the next record is glued to the torn bytes: when
  the joint line does not decode, the record is lost although its append reported success.
\<close>

theorem torn_line_loses_the_next_record:
  assumes "journal_ok j" "quiet ev" "valid_civil tm" "30 < cv_year tm"
    "day_content tm j = content @ torn" "complete_lines content" "newline \<notin> set torn" "newline \<notin> set line"
    "line_record dec (torn @ line) = None"
  shows "fst (journal_append ev tm (Some line) j) = None \<and>
    (\<exists>c. gm_get (jn_files (snd (journal_append ev tm (Some line) j))) (dayOf tm) = Some c \<and>
       records_of dec c = records_of dec content)"
  using journal_append_files [OF assms(1-4), of line] records_of_torn [OF assms(6-9)] assms(5) by simp

theorem torn_line_loses_the_next_record_witness:
  "fst (journal_append quiet_env sample_civil (Some ''rec'') torn_journal) = None \<and>
   (\<exists>c. gm_get (jn_files (snd (journal_append quiet_env sample_civil (Some ''rec'') torn_journal))) (dayOf sample_civil) = Some c \<and>
      records_of sample_decode c = [])"
proof -
  have h: "journal_ok torn_journal" "quiet quiet_env"
    "day_content sample_civil torn_journal = '''' @ ''to''" "complete_lines ''''"
    by (simp_all add: journal_ok_def torn_journal_def quiet_def quiet_env_def day_content_def gm_get_def gm_ok_def
        complete_lines_def)
  have d: "newline \<notin> set ''to''" "newline \<notin> set ''rec''" "line_record sample_decode (''to'' @ ''rec'') = None"
    by code_simp+
  show ?thesis using torn_line_loses_the_next_record [OF h(1,2) sample_civil_ok h(3,4) d] by simp
qed

text \<open>
  C26: No workflow or stage name steers a stage log out of \<open>workflows/logs\<close>, whatever characters
  it has: the path is that directory and one proper file name.
\<close>

theorem stage_logs_stay_inside:
  assumes "canonical_dir home"
  shows "StageLogPath home w (NewRunID c rnd) st = home @ ''/workflows/logs/'' @ stageLogName w (NewRunID c rnd) st \<and>
    CHR ''/'' \<notin> set (stageLogName w (NewRunID c rnd) st)"
proof -
  have "CHR ''/'' \<notin> set (safeComponent s)" for s
    using safeComponent_safe [of s] safe_char_path by (auto simp: list_all_iff)
  then have "CHR ''/'' \<notin> set (stageLogName w (NewRunID c rnd) st)"
    using NewRunID_no_slash by (simp add: stageLogName_def)
  then show ?thesis using StageLogPath_contained [OF assms NewRunID_no_slash] by blast
qed

theorem stage_logs_stay_inside_witness:
  "StageLogPath ''/state'' ''../../x'' (NewRunID sample_civil [1, 2, 3]) ''s/t'' =
    ''/state/workflows/logs/'' @ stageLogName ''../../x'' (NewRunID sample_civil [1, 2, 3]) ''s/t''"
proof -
  have "canonical_dir ''/state''" by code_simp
  from stage_logs_stay_inside [OF this, of "''../../x''" sample_civil "[1, 2, 3]" "''s/t''"] show ?thesis by simp
qed

text \<open>
  A task's log files stay in \<open>tasks/logs\<close> if its name has no slash; a name with slashes is
  used as it is and can put the log anywhere, for example in \<open>/etc\<close>.
\<close>

theorem task_logs_need_plain_names:
  "(\<forall>home name. canonical_dir home \<and> CHR ''/'' \<notin> set name \<longrightarrow>
      TaskLogPath home name = home @ ''/tasks/logs/'' @ NormalizeName name @ ''.log'' \<and>
      TaskErrPath home name = home @ ''/tasks/logs/'' @ NormalizeName name @ ''.err'') \<and>
   TaskLogPath ''/state'' ''../../../etc/x'' = ''/etc/x.log''"
proof -
  have "TaskLogPath ''/state'' ''../../../etc/x'' = ''/etc/x.log''" by code_simp
  then show ?thesis using TaskLogPath_eq TaskLogsDir_canonical(2) by auto
qed

theorem task_logs_need_plain_names_witness:
  "TaskLogPath ''/state'' ''my api'' = ''/state/tasks/logs/'' @ NormalizeName ''my api'' @ ''.log''"
proof -
  have "canonical_dir ''/state''" "CHR ''/'' \<notin> set ''my api''" by code_simp+
  then show ?thesis
    using conjunct1 [OF task_logs_need_plain_names, THEN spec, THEN spec, of "''/state''" "''my api''"] by simp
qed

text \<open>
  The day a run ID names is the day of the local time it was made at, so a query by run ID
  opens the right day file.
\<close>

theorem run_id_names_its_day:
  assumes "valid_civil c"
  shows "dayOfRunID (NewRunID c rnd) = Some (fmt_date c)"
  by (rule dayOfRunID_NewRunID [OF assms])

theorem run_id_names_its_day_witness: "dayOfRunID (NewRunID sample_civil [1, 2, 3]) = Some ''2026-03-14''"
proof -
  have "fmt_date sample_civil = ''2026-03-14''" by code_simp
  then show ?thesis using run_id_names_its_day [OF sample_civil_ok(1)] by simp
qed

text \<open>
  The byte formatter indexes past its table of units exactly from one pebibyte on: there the
  code panics, below it always returns a string.
\<close>

theorem format_bytes_bound: "FormatBytes w = None \<longleftrightarrow> 2 ^ 50 \<le> uint w"
  by (rule FormatBytes_None)

section \<open>Files the wizard writes\<close>



section \<open>Log files\<close>



text \<open>
  C29: A rotation that succeeds, as one without a fault does, splits the log where its first line
  of today begins: the current file keeps the rest, every earlier line is appended, in order, to
  the archive of its day (the date of the last dated line up to it), and no byte is lost.
\<close>

theorem rotation_moves_the_leading_days:
  assumes "fs_ok fs" "fs_read path fs = Some content" "Rotate ev path today fs = (None, fs')"
  shows "concat (map snd (leaving today content)) @ staying today content = content \<and>
    fs_read path fs' = Some (staying today content) \<and>
    (\<forall>d. fs_read (ArchivePath path d) fs' =
      (if Some d \<in> fst ` set (leaving today content)
       then Some (or_empty (fs_read (ArchivePath path d) fs) @ leaving_on today content d)
       else fs_read (ArchivePath path d) fs)) \<and>
    (\<forall>q. fs_read q fs' \<noteq> fs_read q fs \<longrightarrow> q = path \<or> (\<exists>d. q = ArchivePath path d)) \<and>
    fst (Rotate no_rotate_fault path today fs) = None"
  using Rotate_moves [OF assms] leaving_staying [of today content] Rotate_no_fault [of path today fs]
  unfolding rotated_def by blast

theorem rotation_moves_the_leading_days_witness:
  "fs_read ''/l/api.log'' (snd (Rotate no_rotate_fault ''/l/api.log'' ''2026-03-14'' sample_log_fs)) = Some new_line"
proof -
  obtain fs' where r: "Rotate no_rotate_fault ''/l/api.log'' ''2026-03-14'' sample_log_fs = (None, fs')"
    using Rotate_no_fault by (metis prod.collapse)
  have "''2026-03-13'' < (''2026-03-14'' :: string)" "\<not> ''2026-03-14'' < (''2026-03-14'' :: string)"
    by code_simp+
  then have "staying ''2026-03-14'' (old_line @ new_line) = new_line"
    by (simp add: staying_def old_new_lines Let_def before_day_def)
  then show ?thesis
    using rotation_moves_the_leading_days [OF sample_log_fs_ok sample_log_read r] r by simp
qed

text \<open>
  \<open>Write\<close> honours the contract of \<open>io.Writer\<close> under every fault of the file system: the
  count is at most the length of the input, and it is short exactly when there is an error, except
  that a closed writer reports an error even for no input.
\<close>

theorem writer_honours_the_count:
  "case Write en p w wd of
     ((n, e), _, _) \<Rightarrow> n \<le> length p \<and> (e = None) = (n = length p \<and> \<not> (lw_closed w \<and> p = []))"
  using write_loop_count [of en p 0 w wd]
  by (auto simp: Write_def split: prod.splits)

text \<open>
  C30: While the day lasts and the file stays in place, \<open>Write\<close> appends exactly the rendering of
  its input, a stamp at each line start and every byte escaped, and the way a stream is cut into
  calls changes neither the file nor the writer.
\<close>

theorem writer_renders_the_stream:
  assumes "settled en w i wd"
  shows "Write en p w wd =
      (case render (en_clock en) (wd_clock wd) (lw_start w) p of
         (out, k, start) \<Rightarrow>
           ((length p, None), w\<lparr>lw_start := start\<rparr>,
            wd\<lparr>wd_fs := fs_append i out (wd_fs wd), wd_clock := k\<rparr>)) \<and>
    (case Write en p w wd of (_, w1, wd1) \<Rightarrow> snd (Write en q w1 wd1) = snd (Write en (p @ q) w wd))"
proof
  show "Write en p w wd =
      (case render (en_clock en) (wd_clock wd) (lw_start w) p of
         (out, k, start) \<Rightarrow>
           ((length p, None), w\<lparr>lw_start := start\<rparr>,
            wd\<lparr>wd_fs := fs_append i out (wd_fs wd), wd_clock := k\<rparr>))"
    using Write_settled [OF assms, of p] by (simp add: grow_def)
  show "case Write en p w wd of (_, w1, wd1) \<Rightarrow> snd (Write en q w1 wd1) = snd (Write en (p @ q) w wd)"
    using Write_chunks(2) [OF assms] by (auto split: prod.splits)
qed

theorem writer_renders_the_stream_witness:
  "fst (Write sample_log_env ''hi'' sample_writer (sample_world sample_log_fs)) = (2, None)"
  using conjunct1 [OF writer_renders_the_stream [OF settled_sample, of "''hi''"]] by (simp split: prod.splits)

text \<open>
  C31: From the writer to the reader: a follower that is up to date polls, after complete lines and
  a rest have been written, one entry for each line, in order, with the time the line was stamped
  at and its escaped text, and keeps the stamped rest for the next poll.
\<close>

theorem follower_sees_every_line:
  assumes "settled en w i wd" "lw_start w" "\<forall>j\<ge>wd_clock wd. valid_civil (en_clock en j)"
    "so_path (fo_source st) = lw_path w" "fo_info st = Some i"
    "fo_offset st = length (lf_data (wd_fs wd) i)" "fo_pending st = []"
    "\<forall>l\<in>set ls. eol \<notin> set l" "eol \<notin> set r"
    "Write en (concat (map (\<lambda>l. l @ [eol]) ls) @ r) w wd = (res, w1, wd1)"
  shows "pollFollowState True True (wd_fs wd1) (wd_fs wd1) st now =
    (Inr (written_entries (fo_source st) (en_clock en) (wd_clock wd) ls),
     st\<lparr>fo_offset := length (lf_data (wd_fs wd1) i),
       fo_pending := (if r = [] then [] else stamp (en_clock en (wd_clock wd + length ls)) @ escape r)\<rparr>)"
  by (rule follow_sees_writes [OF assms])

theorem follower_sees_every_line_witness:
  "\<exists>wd1 st1. pollFollowState True True (wd_fs wd1) (wd_fs wd1) sample_follow sample_civil =
    (Inr [\<lparr>le_time = sample_civil, le_app = ''api'', le_stream = StreamStdout,
           le_message = escape ''up'' @ [backslash, CHR ''n'']\<rparr>], st1) \<and>
    wd1 = snd (snd (Write sample_log_env (''up'' @ [eol] @ ''x'') sample_writer (sample_world sample_log_fs)))"
proof -
  obtain res w1 wd1 where r:
    "Write sample_log_env (concat (map (\<lambda>l. l @ [eol]) [''up'']) @ ''x'') sample_writer (sample_world sample_log_fs) =
      (res, w1, wd1)"
    by (metis prod.exhaust)
  have "eol \<notin> set ''up''" "eol \<notin> set ''x''" by code_simp+
  then show ?thesis
    using follower_sees_every_line [OF settled_sample _ _ _ _ _ _ _ _ r, of sample_follow sample_civil] r
    by (simp add: sample_writer_def sample_log_env_def sample_follow_def sample_civil_ok sample_world_def
        sample_log_fs_def)
qed

text \<open>
  C32: If the log file has been replaced and opening the new one fails once, the writer is left
  without a file, and from then on every write of that day fails without trying to open it again,
  although the path can be opened.
\<close>

theorem failed_reopen_wedges_the_writer:
  assumes "lw_file w = OpenFile i" "\<not> lw_closed w" "lw_start w" "p \<noteq> []" "q \<noteq> []"
    "gm_get (lf_dir (wd_fs wd)) (lw_path w) = Some j" "j \<noteq> i"
    "\<forall>k. fmt_date (en_clock en k) = lw_date w \<and> en_stat en k \<and> en_fstat en k \<and> en_close en k"
    "\<not> en_open en (wd_clock wd)" "gm_get (lf_dir (wd_fs wd2)) (lw_path w) \<noteq> None"
  shows "Write en p w wd =
      ((0, Some OpenFailed), w\<lparr>lw_file := NoFile\<rparr>, wd\<lparr>wd_clock := Suc (wd_clock wd)\<rparr>) \<and>
    Write en q (w\<lparr>lw_file := NoFile\<rparr>) wd2 =
      ((0, Some StatFileFailed), w\<lparr>lw_file := NoFile\<rparr>, wd2\<lparr>wd_clock := Suc (wd_clock wd2)\<rparr>)"
  using Write_reopen_fails [OF assms(1-4,6,7)] Write_without_file [of "w\<lparr>lw_file := NoFile\<rparr>" q wd2 en]
    assms by simp

theorem failed_reopen_wedges_the_writer_witness:
  "fst (Write (sample_log_env\<lparr>en_open := (\<lambda>k. k \<noteq> 0)\<rparr>) ''again'' (sample_writer\<lparr>lw_file := NoFile\<rparr>)
      (sample_world replaced_log_fs)) = (0, Some StatFileFailed)"
proof -
  have "gm_get (lf_dir (wd_fs (sample_world replaced_log_fs))) (lw_path sample_writer) = Some 1"
    by (simp add: sample_world_def replaced_log_fs_def sample_writer_def gm_get_def)
  moreover have "lw_file sample_writer = OpenFile 0" "\<not> lw_closed sample_writer" "lw_start sample_writer"
    by (simp_all add: sample_writer_def)
  moreover have "\<forall>k. fmt_date (en_clock (sample_log_env\<lparr>en_open := (\<lambda>k. k \<noteq> 0)\<rparr>) k) = lw_date sample_writer \<and>
      en_stat (sample_log_env\<lparr>en_open := (\<lambda>k. k \<noteq> 0)\<rparr>) k \<and> en_fstat (sample_log_env\<lparr>en_open := (\<lambda>k. k \<noteq> 0)\<rparr>) k \<and>
      en_close (sample_log_env\<lparr>en_open := (\<lambda>k. k \<noteq> 0)\<rparr>) k"
    by (simp add: sample_log_env_def sample_writer_def)
  moreover have "\<not> en_open (sample_log_env\<lparr>en_open := (\<lambda>k. k \<noteq> 0)\<rparr>) (wd_clock (sample_world replaced_log_fs))"
    by (simp add: sample_world_def)
  ultimately show ?thesis
    using failed_reopen_wedges_the_writer [of sample_writer 0 "''x''" "''again''" "sample_world replaced_log_fs" 1
        "sample_log_env\<lparr>en_open := (\<lambda>k. k \<noteq> 0)\<rparr>" "sample_world replaced_log_fs"] by simp
qed

section \<open>The system monitor\<close>

text \<open>
  C33: The processes shown below a task are exactly the processes reached from its PID by
  parent links, each PID once and the task itself never, even in a table with a cycle of parents;
  the direct children come first.
\<close>

theorem process_tree_is_exact:
  assumes "0 < r"
  shows "pr_PID ` set (Descendants procs r) = (child_of procs)\<^sup>+ `` {r} - {r} \<and>
    set (Descendants procs r) \<subseteq> set procs \<and> distinct (map pr_PID (Descendants procs r)) \<and>
    (\<exists>kids more. Descendants procs r = kids @ more \<and>
       pr_PID ` set kids = {pr_PID p |p. p \<in> set procs \<and> pr_PPID p = r} - {r})"
proof -
  obtain kids more where k: "Descendants procs r = kids @ more"
    "pr_PID ` set kids = pr_PID ` set (bp_get (indexByParent procs) r) - {r}"
    using descendants_children_first [OF assms, of "indexByParent procs"] by (auto simp: Descendants_def)
  have "set (bp_get (indexByParent procs) r) = {p \<in> set procs. pr_PPID p = r}"
    by (simp add: indexByParent_get)
  then have "pr_PID ` set (bp_get (indexByParent procs) r) = {pr_PID p |p. p \<in> set procs \<and> pr_PPID p = r}" by blast
  with k(2) have "pr_PID ` set kids = {pr_PID p |p. p \<in> set procs \<and> pr_PPID p = r} - {r}" by (simp only:)
  then have "\<exists>kids more. Descendants procs r = kids @ more \<and>
      pr_PID ` set kids = {pr_PID p |p. p \<in> set procs \<and> pr_PPID p = r} - {r}"
    using k(1) by (intro exI conjI)
  then show ?thesis using descendants_exact [OF assms, of procs] by simp
qed

theorem process_tree_is_exact_witness:
  "map pr_PID (Descendants sample_table 10) = [11, 12, 13] \<and> 10 \<notin> pr_PID ` set (Descendants sample_table 10)"
proof -
  have "10 \<notin> pr_PID ` set (Descendants sample_table 10)"
    using process_tree_is_exact [of 10 sample_table] by simp
  moreover have "map pr_PID (Descendants sample_table 10) = [11, 12, 13]" by code_simp
  ultimately show ?thesis by blast
qed


section \<open>The terminal screens\<close>



text \<open>
  C36: In every session of the monitor a restart, pause, resume or delete goes to the process of
  the highlighted row, by its ID, on the key of that action; the row exists, and on the workflow tab
  no action is ever sent.
\<close>

theorem monitor_acts_on_the_highlighted_row:
  assumes "list_all (\<lambda>e. permutes_rows (mv_sort (fst e))) es" "j < length es"
    "m = state_at monitor_step es (Monitor_New detail) j"
    "snd (run_msgs monitor_step es (Monitor_New detail)) ! j = MonDo req"
  shows "\<not> inWorkflowScope m \<and> 0 \<le> mo_selected m \<and> nat (mo_selected m) < length (mo_procs m) \<and>
    rr_Name req = itoa (pi_ID (mo_procs m ! nat (mo_selected m))) \<and>
    (snd (es ! j), rr_Command req) \<in>
      {(MonKey ''r'', CmdRestart), (MonKey ''d'', CmdDelete),
       (MonKey ''p'', pauseOrResume (pi_Status (mo_procs m ! nat (mo_selected m))))}"
proof -
  have ok: "monitor_ok m" unfolding assms(3) by (rule ml.inv_at [OF monitor_ok_New assms(1)])
  have "snd (Monitor_Update (fst (es ! j)) (snd (es ! j)) m) = MonDo req"
    using assms(4) by (simp add: command_at [OF assms(2)] monitor_step_def assms(3))
  from action_targets_selected [OF ok this] ok show ?thesis by (auto simp: monitor_ok_def selected_ok_def)
qed

theorem monitor_acts_on_the_highlighted_row_witness:
  "map pi_ID (mo_procs (state_at monitor_step monitor_session (Monitor_New False) 2)) = [7, 8] \<and>
   mo_selected (state_at monitor_step monitor_session (Monitor_New False) 2) = 1"
proof -
  let ?m = "state_at monitor_step monitor_session (Monitor_New False) 2"
  have "map pi_ID (mo_procs ?m) = [7, 8] \<and> mo_selected ?m = 1"
    by code_simp
  have "list_all (\<lambda>e. permutes_rows (mv_sort (fst e))) monitor_session" "2 < length monitor_session"
    by (simp_all add: monitor_session_def sample_monitor_env_def permutes_rows_def)
  moreover have "snd (run_msgs monitor_step monitor_session (Monitor_New False)) ! 2 =
      MonDo ((command_req CmdDelete)\<lparr>rr_Name := ''8''\<rparr>)" by code_simp
  ultimately have "0 \<le> mo_selected ?m"
    using monitor_acts_on_the_highlighted_row [of monitor_session 2 ?m False] by blast
  then show ?thesis using \<open>map pi_ID (mo_procs ?m) = [7, 8] \<and> mo_selected ?m = 1\<close> by simp
qed

text \<open>
  C37: In every session of the log browser a delete is sent only by \<open>y\<close> in the confirmation, for
  the file the prompt names at that moment, which is a file of the current listing. It need not be the
  file \<open>d\<close> was pressed on: a listing that arrives while the prompt is open moves the prompt to the file
  now under the cursor.
\<close>

theorem log_browser_deletes_the_prompted_file:
  assumes "list_all msg_ok es" "j < length es" "m = state_at Browser_Update es (Browser_New dir target) j"
    "snd (run_msgs Browser_Update es (Browser_New dir target)) ! j = DeleteFileCmd path"
  shows "es ! j \<in> {KeyMsg ''y'', KeyMsg ''Y''} \<and> br_screen m = ScreenConfirmDelete \<and> path = confirmPath m \<and>
    (\<exists>t f. t \<in> set (br_tasks m) \<and> f \<in> set (tl_files t) \<and> path = fi_path f)"
proof -
  have ok: "browser_ok m" unfolding assms(3) by (rule bl.inv_at [OF browser_ok_New assms(1)])
  have "snd (Browser_Update (es ! j) m) = DeleteFileCmd path"
    using assms(4) by (simp add: command_at [OF assms(2)] assms(3))
  from delete_only_confirmed [OF this] have d: "es ! j \<in> {KeyMsg ''y'', KeyMsg ''Y''}" "br_screen m = ScreenConfirmDelete"
    "path = confirmPath m" "path \<noteq> ''''" by blast+
  then have "path = selectedFilePath m" by (simp add: confirmPath_def)
  then show ?thesis using selectedFilePath_file [of m] ok d by blast
qed

theorem log_browser_deletes_the_prompted_file_witness:
  "confirmPath (state_at Browser_Update race_msgs (Browser_New ''/l'' '''') 7) = ''/l/a.err'' \<and>
   confirmPath (state_at Browser_Update race_msgs (Browser_New ''/l'' '''') 8) = ''/l/a.log''"
proof -
  have "list_all msg_ok race_msgs" "8 < length race_msgs" by (simp_all add: race_msgs_def)
  moreover have "snd (run_msgs Browser_Update race_msgs (Browser_New ''/l'' '''')) ! 8 = DeleteFileCmd ''/l/a.log''"
    by code_simp
  ultimately have "''/l/a.log'' = confirmPath (state_at Browser_Update race_msgs (Browser_New ''/l'' '''') 8)"
    using log_browser_deletes_the_prompted_file [of race_msgs 8 _ "''/l''" "''''"] by blast
  then show ?thesis using confirm_race(1) by (simp add: state_at_def)
qed

text \<open>
  C38: In every session of the monitor a frame can be drawn, or the renderer panics: it does so
  exactly in a terminal of at least 50 columns with fewer than four rows, or fewer than three for the
  table of processes. The processes use less than a pebibyte of memory each.
\<close>

theorem monitor_frames_need_four_rows:
  assumes "list_all (\<lambda>e. permutes_rows (mv_sort (fst e))) es"
    "m = state_at monitor_step es (Monitor_New detail) j" "list_all memory_ok (mo_procs m)"
  shows "Monitor_View en m = None \<longleftrightarrow>
    50 \<le> mo_width m \<and> (if mo_detail m then mo_height m < 4 else mo_procs m \<noteq> [] \<and> mo_height m < 3)"
proof -
  have "monitor_ok m" unfolding assms(2) by (rule ml.inv_at [OF monitor_ok_New assms(1)])
  then show ?thesis using assms(3) by (rule Monitor_View_Some)
qed

theorem monitor_frames_need_four_rows_witness:
  "\<forall>en. Monitor_View en (state_at monitor_step (resized_session 3) (Monitor_New True) 2) = None \<and>
   Monitor_View en (state_at monitor_step (resized_session 4) (Monitor_New True) 2) \<noteq> None"
proof -
  have m: "list_all memory_ok (mo_procs (state_at monitor_step (resized_session h) (Monitor_New True) 2)) \<and>
      mo_width (state_at monitor_step (resized_session h) (Monitor_New True) 2) = 80 \<and>
      mo_height (state_at monitor_step (resized_session h) (Monitor_New True) 2) = h \<and>
      mo_detail (state_at monitor_step (resized_session h) (Monitor_New True) 2)" for h
    by code_simp
  have "list_all (\<lambda>e. permutes_rows (mv_sort (fst e))) (resized_session h)" for h
    by (simp add: resized_session_def sample_monitor_env_def permutes_rows_def)
  from monitor_frames_need_four_rows [OF this refl] m show ?thesis by simp
qed

text \<open>
  A file change just before a stop restarts the stopped task: its debounce timer outlives the
  watcher the stop closes (\<open>close_leaves_the_timer\<close>), and the closure restarts whatever bears the name.
\<close>

theorem late_file_change_restarts_a_stopped_task:
  "pi_Status (mp_Info (entry ''default:api'' stopped_pm)) = StatusStopped \<and> pm_watching stopped_pm = [] \<and>
   pi_Status (mp_Info (entry ''default:api'' (onFileChanged sample_env ''api'' stopped_pm))) = StatusOnline \<and>
   length (pm_spawned (onFileChanged sample_env ''api'' stopped_pm)) = Suc (length (pm_spawned stopped_pm))"
  by code_simp

text \<open>
  C39: \<open>pm2 logs\<close> of a target follows exactly the log files of the tasks that a stop, restart or delete of
  the same target would select, in the same order, and fails exactly when that selects nothing or
  nothing with a log file; provided \<open>fmt.Sscan\<close>, which the daemon uses, and \<open>strconv.Atoi\<close>, which the
  client uses, read the target alike.
\<close>

theorem logs_follow_what_requests_select:
  assumes "cw_daemon w = Some d" "reachable home now (dm_pm d)" "sscan_int target = atoi target" "target \<noteq> ''''"
    "SendRequest en (command_req CmdList) w = (Some resp, w1)"
  shows "fst (streamLogs en target w) =
    (let selected = FindByTarget target (pm_reg (dm_pm d)); sources = concat (map (sources_of \<circ> mp_Info) selected) in
     if selected = [] then Inl (if target = ''all'' then NoApplications else NoMatch target)
     else if sources = [] then Inl (NoLogPaths target) else Inr sources)"
  by (rule stream_sources [OF assms])

theorem logs_follow_what_requests_select_witness:
  "\<exists>sources. fst (streamLogs sample_cli ''api'' logs_world) = Inr sources \<and>
     map so_path sources = [''/h/tasks/logs/api.log'', ''/h/tasks/logs/api.err'']"
proof -
  have d: "cw_daemon logs_world = Some (sample_daemon\<lparr>dm_pm := demo_pm\<rparr>)"
    "dm_pm (sample_daemon\<lparr>dm_pm := demo_pm\<rparr>) = demo_pm" by (simp_all add: logs_world_def)
  have t: "sscan_int ''api'' = atoi ''api''" by code_simp
  have "fst (SendRequest sample_cli (command_req CmdList) logs_world) \<noteq> None" by code_simp
  then obtain resp w1 where s: "SendRequest sample_cli (command_req CmdList) logs_world = (Some resp, w1)"
    by (cases "SendRequest sample_cli (command_req CmdList) logs_world") auto
  define found where "found = FindByTarget ''api'' (pm_reg demo_pm)"
  define sources where "sources = concat (map (sources_of \<circ> mp_Info) found)"
  have n: "map so_path sources = [''/h/tasks/logs/api.log'', ''/h/tasks/logs/api.err'']"
    unfolding sources_def found_def by code_simp
  then have "sources \<noteq> []" by auto
  then have "found \<noteq> []" by (auto simp: sources_def)
  have "reachable ''/h'' (GoTime 1) (dm_pm (sample_daemon\<lparr>dm_pm := demo_pm\<rparr>))" by (simp add: reachable_demo)
  then have "fst (streamLogs sample_cli ''api'' logs_world) =
      (let selected = found; sources = concat (map (sources_of \<circ> mp_Info) selected) in
       if selected = [] then Inl (if ''api'' = ''all'' then NoApplications else NoMatch ''api'')
       else if sources = [] then Inl (NoLogPaths ''api'') else Inr sources)"
    unfolding found_def by (intro logs_follow_what_requests_select [OF d(1) _ t _ s, unfolded d(2)]) (simp_all only: d(2), simp)
  also have "\<dots> = Inr sources"
    by (simp only: Let_def sources_def [symmetric] if_not_P [OF \<open>found \<noteq> []\<close>] if_not_P [OF \<open>sources \<noteq> []\<close>])
  finally have "fst (streamLogs sample_cli ''api'' logs_world) = Inr sources" .
  then show ?thesis using n by (intro exI [of _ sources] conjI)
qed

text \<open>
  C40: The restart hook of a file watcher runs one debounce after exactly those changes that no other
  change follows within the debounce, until the watcher is closed, and two of its runs are a debounce
  apart.
\<close>

theorem file_changes_are_debounced:
  assumes "sorted (map fst es)"
  shows "(t \<in> set (watch_run es new_watcher) \<longleftrightarrow>
      (\<exists>c \<in> set (change_times es). t = c + debounceDuration \<and>
         (\<forall>c' \<in> set (change_times es). c' \<le> c \<or> c + debounceDuration \<le> c'))) \<and>
    sorted_wrt (\<lambda>a b. a + debounceDuration \<le> b) (watch_run es new_watcher)"
  using quiet_ends_iff [OF change_times_sorted [OF assms]] quiet_ends_spaced [OF change_times_sorted [OF assms]]
  by (simp add: watch_run_new [OF assms])

theorem file_changes_are_debounced_witness:
  "set (watch_run saves new_watcher) = {650000000, 2500000000}"
proof -
  have r: "watch_run saves new_watcher = [650000000, 2500000000]" by code_simp
  have "sorted (map fst saves)" by (simp add: saves_def)
  from file_changes_are_debounced [OF this, of 650000000] show ?thesis by (simp add: r)
qed

end
